(* ===== verification/Prelude.thy ===== *)
theory Prelude
  imports Complex_Main "HOL-Library.AList" "HOL-Library.Char_ord"
    "HOL-Library.List_Lexorder" "HOL-Library.Product_Lexorder" "HOL-Library.Sublist"
begin

text \<open>
  The Python values the components share: floats with their infinities and NaN, dynamic
  values as they come out of a config entry or a JSON file, exceptions as values, and the
  few functions of the standard library the source calls on them (\<open>float\<close>, \<open>str.strip\<close>,
  \<open>str.lower\<close>, \<open>math.isfinite\<close>, dict access).

  A finite float is the rational number it denotes. Rounding of arithmetic results is not
  modelled; overflow to infinity and underflow to zero when text is converted are, because
  the source branches on both. A \<open>str\<close> is a list of code points below 256.
\<close>

section \<open>Collections of facts\<close>

named_theorems py_simps \<open>evaluation of the Python helper functions\<close>
named_theorems inv_intros \<open>preservation of component invariants\<close>
named_theorems engine_simps \<open>field frames of the policy engine\<close>

section \<open>Exceptions and results\<close>

datatype exn =
    ValueErr string
  | TypeErr
  | OverflowErr
  | KeyErr
  | IndexErr
  | AttributeErr
  | AssertErr
  | RuntimeErr string
  | ServiceErr string
  | StoreErr
  | Cancelled
  | OutOfFuel

type_synonym 'a res = "exn + 'a"

definition rbind :: "'a res \<Rightarrow> ('a \<Rightarrow> 'b res) \<Rightarrow> 'b res" where
  "rbind m f = (case m of Inl e \<Rightarrow> Inl e | Inr x \<Rightarrow> f x)"

lemma rbind_simps [simp]:
  "rbind (Inl e) f = Inl e"
  "rbind (Inr x) f = f x"
  by (simp_all add: rbind_def)

lemma rbind_Inr_iff:
  "rbind m f = Inr y \<longleftrightarrow> (\<exists>x. m = Inr x \<and> f x = Inr y)"
  by (cases m) simp_all

text \<open>
  Functions that return an optional value and may raise: \<open>obind\<close> goes on with a value and
  passes None and exceptions through; \<open>or_else\<close> goes on after None.
\<close>

definition obind :: "'a option res \<Rightarrow> ('a \<Rightarrow> 'b option res) \<Rightarrow> 'b option res" where
  "obind m f = rbind m (\<lambda>x. case x of None \<Rightarrow> Inr None | Some y \<Rightarrow> f y)"

definition or_else :: "'a option res \<Rightarrow> 'a option res \<Rightarrow> 'a option res" where
  "or_else m k = rbind m (\<lambda>x. case x of None \<Rightarrow> k | Some y \<Rightarrow> Inr (Some y))"

lemma obind_simps [simp]:
  "obind (Inl e) f = Inl e" "obind (Inr None) f = Inr None" "obind (Inr (Some x)) f = f x"
  by (simp_all add: obind_def)

lemma or_else_simps [simp]:
  "or_else (Inl e) k = Inl e" "or_else (Inr None) k = k" "or_else (Inr (Some x)) k = Inr (Some x)"
  by (simp_all add: or_else_def)

lemma obind_Some_iff:
  "obind m f = Inr (Some z) \<longleftrightarrow> (\<exists>y. m = Inr (Some y) \<and> f y = Inr (Some z))"
  by (auto simp: obind_def rbind_def split: sum.splits option.splits)

lemma or_else_Some_iff:
  "or_else m k = Inr (Some z) \<longleftrightarrow> m = Inr (Some z) \<or> (m = Inr None \<and> k = Inr (Some z))"
  by (auto simp: or_else_def rbind_def split: sum.splits option.splits)

text \<open>\<open>except TypeError, ValueError: return None\<close> and \<open>except ValueError: return None\<close>.\<close>

definition catch_type_value :: "'a option res \<Rightarrow> 'a option res" where
  "catch_type_value m =
     (case m of Inl TypeErr \<Rightarrow> Inr None | Inl (ValueErr _) \<Rightarrow> Inr None | _ \<Rightarrow> m)"

definition catch_value :: "'a res \<Rightarrow> 'a option res" where
  "catch_value m =
     (case m of Inl (ValueErr _) \<Rightarrow> Inr None | Inl e \<Rightarrow> Inl e | Inr x \<Rightarrow> Inr (Some x))"

lemma catch_type_value_Some [simp]: "catch_type_value m = Inr (Some x) \<longleftrightarrow> m = Inr (Some x)"
  by (auto simp: catch_type_value_def split: sum.splits exn.splits)

lemma catch_Inr [simp]:
  "catch_type_value (Inr z) = Inr z" "catch_value (Inr x) = Inr (Some x)"
  by (simp_all add: catch_type_value_def catch_value_def)

lemma catch_value_Some [simp]: "catch_value m = Inr (Some x) \<longleftrightarrow> m = Inr x"
  by (auto simp: catch_value_def split: sum.splits exn.splits)

text \<open>A loop that stops at the first exception and collects the results.\<close>

fun map_res :: "('a \<Rightarrow> 'b res) \<Rightarrow> 'a list \<Rightarrow> 'b list res" where
  "map_res f [] = Inr []"
| "map_res f (x # xs) = rbind (f x) (\<lambda>y. rbind (map_res f xs) (\<lambda>ys. Inr (y # ys)))"

lemma map_res_all_Inr:
  "(\<And>x. x \<in> set xs \<Longrightarrow> f (g x) = Inr x) \<Longrightarrow> map_res f (map g xs) = Inr xs"
  by (induction xs) auto

lemma map_res_length: "map_res f xs = Inr ys \<Longrightarrow> length ys = length xs"
  by (induction xs arbitrary: ys) (auto simp: rbind_Inr_iff)

lemma map_res_holds: "map_res f xs = Inr ys \<Longrightarrow> y \<in> set ys \<Longrightarrow> \<exists>x \<in> set xs. f x = Inr y"
  by (induction xs arbitrary: ys) (auto simp: rbind_Inr_iff)

section \<open>Floats\<close>

datatype pyfloat = Fin rat | PosInf | NegInf | NaN

primrec isfinite :: "pyfloat \<Rightarrow> bool" where
  "isfinite (Fin x) = True"
| "isfinite PosInf = False"
| "isfinite NegInf = False"
| "isfinite NaN = False"

primrec fin_val :: "pyfloat \<Rightarrow> rat" where
  "fin_val (Fin x) = x"
| "fin_val PosInf = 0"
| "fin_val NegInf = 0"
| "fin_val NaN = 0"

lemma isfinite_iff: "isfinite f \<longleftrightarrow> (\<exists>x. f = Fin x)"
  by (cases f) auto

lemma not_isfinite_Fin: "\<not> isfinite f \<Longrightarrow> f \<noteq> Fin x"
  by auto

text \<open>The order is IEEE's: every comparison with NaN is false.\<close>

instantiation pyfloat :: ord
begin

fun less_pyfloat :: "pyfloat \<Rightarrow> pyfloat \<Rightarrow> bool" where
  "less_pyfloat (Fin x) (Fin y) = (x < y)"
| "less_pyfloat NaN _ = False"
| "less_pyfloat _ NaN = False"
| "less_pyfloat NegInf y = (y \<noteq> NegInf)"
| "less_pyfloat _ NegInf = False"
| "less_pyfloat PosInf _ = False"
| "less_pyfloat _ PosInf = True"

definition less_eq_pyfloat :: "pyfloat \<Rightarrow> pyfloat \<Rightarrow> bool" where
  "less_eq_pyfloat x y \<longleftrightarrow> x < y \<or> (x = y \<and> x \<noteq> NaN)"

instance ..

end

lemma le_Fin_Fin [simp]: "Fin x \<le> Fin y \<longleftrightarrow> x \<le> y"
  by (auto simp: less_eq_pyfloat_def)

lemma NaN_le [simp]: "\<not> NaN \<le> y" "\<not> y \<le> NaN"
  by (cases y; simp add: less_eq_pyfloat_def)+

text \<open>
  The range of a double: a magnitude at or above \<open>float_overflow\<close> rounds to infinity, one at
  or below \<open>float_underflow\<close> rounds to zero.
\<close>

definition float_overflow :: rat where
  "float_overflow = 2 ^ 1024 - 2 ^ 970"

definition float_underflow :: rat where
  "float_underflow = 1 / 2 ^ 1075"

definition to_float :: "rat \<Rightarrow> pyfloat" where
  "to_float x =
     (if float_overflow \<le> x then PosInf
      else if x \<le> - float_overflow then NegInf
      else if \<bar>x\<bar> \<le> float_underflow then Fin 0
      else Fin x)"

section \<open>Text\<close>

definition is_digit :: "char \<Rightarrow> bool" where
  "is_digit c \<longleftrightarrow> 48 \<le> (of_char c :: nat) \<and> (of_char c :: nat) \<le> 57"

definition digit_val :: "char \<Rightarrow> nat" where
  "digit_val c = of_char c - 48"

definition is_space :: "char \<Rightarrow> bool" where
  "is_space c \<longleftrightarrow>
     (let n = (of_char c :: nat)
      in (9 \<le> n \<and> n \<le> 13) \<or> (28 \<le> n \<and> n \<le> 32) \<or> n = 133 \<or> n = 160)"

definition lower_char :: "char \<Rightarrow> char" where
  "lower_char c =
     (let n = (of_char c :: nat)
      in if (65 \<le> n \<and> n \<le> 90) \<or> (192 \<le> n \<and> n \<le> 222 \<and> n \<noteq> 215) then char_of (n + 32)
         else c)"

definition py_strip :: "string \<Rightarrow> string" where
  "py_strip s = rev (dropWhile is_space (rev (dropWhile is_space s)))"

definition py_lower :: "string \<Rightarrow> string" where
  "py_lower s = map lower_char s"

text \<open>\<open>s.strip()\<close> is truthy.\<close>

definition nonblank :: "string \<Rightarrow> bool" where
  "nonblank s \<longleftrightarrow> py_strip s \<noteq> []"

lemma py_strip_blank: "py_strip s = [] \<longleftrightarrow> (\<forall>c \<in> set s. is_space c)"
proof
  assume "py_strip s = []"
  then have "\<forall>c \<in> set (rev (dropWhile is_space s)). is_space c"
    by (simp add: py_strip_def dropWhile_eq_Nil_conv)
  then have "dropWhile is_space s = []"
    by (metis dropWhile_eq_Nil_conv dropWhile_idem set_rev)
  then show "\<forall>c \<in> set s. is_space c" by (simp add: dropWhile_eq_Nil_conv)
next
  assume "\<forall>c \<in> set s. is_space c"
  then have "dropWhile is_space s = []" by (simp only: dropWhile_eq_Nil_conv)
  then show "py_strip s = []" unfolding py_strip_def by (simp only: rev.simps dropWhile.simps)
qed

lemma dropWhile_ident: "xs = [] \<or> \<not> P (hd xs) \<Longrightarrow> dropWhile P xs = xs"
  by (cases xs) auto

lemma hd_rev_dropWhile_rev:
  "ys = rev (dropWhile P (rev xs)) \<Longrightarrow> ys \<noteq> [] \<Longrightarrow> \<not> P (hd (rev ys)) \<and> hd ys = hd xs"
proof -
  assume ys: "ys = rev (dropWhile P (rev xs))" and ne: "ys \<noteq> []"
  from ne ys have "dropWhile P (rev xs) \<noteq> []" by simp
  moreover have "rev xs = takeWhile P (rev xs) @ dropWhile P (rev xs)" by simp
  then have "xs = ys @ rev (takeWhile P (rev xs))"
    by (metis rev_append rev_rev_ident ys)
  ultimately show ?thesis
    using ne ys by (metis hd_append2 hd_dropWhile rev_rev_ident)
qed

lemma py_strip_idem [simp]: "py_strip (py_strip s) = py_strip s"
proof -
  let ?l = "dropWhile is_space s"
  let ?t = "rev (dropWhile is_space (rev ?l))"
  show ?thesis
  proof (cases "?t = []")
    case True
    then have "py_strip s = []" by (simp only: py_strip_def)
    then show ?thesis by (simp only:) (simp add: py_strip_def)
  next
    case False
    then have *: "\<not> is_space (hd (rev ?t))" "hd ?t = hd ?l"
      using hd_rev_dropWhile_rev [of ?t is_space ?l] by blast+
    from False have "?l \<noteq> []" by (metis dropWhile.simps(1) rev.simps(1))
    then have "\<not> is_space (hd ?t)" using * hd_dropWhile by metis
    then have "dropWhile is_space ?t = ?t" by (simp add: dropWhile_ident)
    moreover have "dropWhile is_space (rev ?t) = rev ?t" using * by (simp add: dropWhile_ident)
    ultimately show ?thesis by (simp add: py_strip_def)
  qed
qed

lemma nonblank_strip [simp]: "nonblank (py_strip s) = nonblank s"
  by (simp add: nonblank_def)

lemma nonblank_not_Nil: "nonblank s \<Longrightarrow> s \<noteq> []"
  by (auto simp: nonblank_def py_strip_def)

subsection \<open>Text to number\<close>

text \<open>An underscore is accepted between two digits only.\<close>

fun drop_underscores :: "bool \<Rightarrow> string \<Rightarrow> string option" where
  "drop_underscores prev [] = Some []"
| "drop_underscores prev (c # cs) =
     (if c = CHR ''_'' then
        (if prev \<and> cs \<noteq> [] \<and> is_digit (hd cs) then drop_underscores False cs else None)
      else map_option (Cons c) (drop_underscores (is_digit c) cs))"

definition digits_val :: "string \<Rightarrow> nat" where
  "digits_val s = foldl (\<lambda>n c. 10 * n + digit_val c) 0 s"

fun split_sign :: "string \<Rightarrow> bool \<times> string" where
  "split_sign [] = (False, [])"
| "split_sign (c # cs) =
     (if c = CHR ''-'' then (True, cs) else if c = CHR ''+'' then (False, cs)
      else (False, c # cs))"

definition scale10 :: "rat \<Rightarrow> int \<Rightarrow> rat" where
  "scale10 m k = (if 0 \<le> k then m * 10 ^ nat k else m / 10 ^ nat (- k))"

definition parse_exponent :: "string \<Rightarrow> int option" where
  "parse_exponent s =
     (case s of [] \<Rightarrow> Some 0
      | e # r \<Rightarrow>
          if e = CHR ''e'' then
            (case split_sign r of (neg, ds) \<Rightarrow>
               if ds \<noteq> [] \<and> list_all is_digit ds
               then Some (if neg then - int (digits_val ds) else int (digits_val ds))
               else None)
          else None)"

text \<open>The unsigned decimal number, after \<open>lower\<close>.\<close>

definition parse_decimal :: "string \<Rightarrow> rat option" where
  "parse_decimal s =
     (let ip = takeWhile is_digit s; r1 = dropWhile is_digit s;
          dotted = (r1 \<noteq> [] \<and> hd r1 = CHR ''.'');
          fp = (if dotted then takeWhile is_digit (tl r1) else []);
          r2 = (if dotted then dropWhile is_digit (tl r1) else r1)
      in if ip = [] \<and> fp = [] then None
         else map_option (\<lambda>e. scale10 (of_nat (digits_val (ip @ fp))) (e - int (length fp)))
                (parse_exponent r2))"

definition parse_float :: "string \<Rightarrow> pyfloat option" where
  "parse_float s =
     (case split_sign (py_lower (py_strip s)) of (neg, body) \<Rightarrow>
        if body = ''inf'' \<or> body = ''infinity'' then Some (if neg then NegInf else PosInf)
        else if body = ''nan'' then Some NaN
        else (case drop_underscores False body of None \<Rightarrow> None
              | Some t \<Rightarrow> map_option (\<lambda>x. to_float (if neg then - x else x)) (parse_decimal t)))"

section \<open>Dynamic values\<close>

datatype pyval =
    PNone
  | PBool bool
  | PInt int
  | PFloat pyfloat
  | PStr string
  | PList "pyval list"
  | PTuple "pyval list"
  | PDict "(string \<times> pyval) list"

text \<open>
  A dict is the association list of its items in insertion order; its keys are text, as JSON
  gives them. \<open>AList.update\<close> is Python's item assignment (in place, or at the end),
  \<open>AList.delete\<close> is \<open>pop\<close>, \<open>map_of\<close> is \<open>get\<close>.
\<close>

type_synonym pydict = "(string \<times> pyval) list"

definition dget :: "pydict \<Rightarrow> string \<Rightarrow> pyval" where
  "dget d k = (case map_of d k of None \<Rightarrow> PNone | Some v \<Rightarrow> v)"

definition dget_or :: "pydict \<Rightarrow> string \<Rightarrow> pyval \<Rightarrow> pyval" where
  "dget_or d k v0 = (case map_of d k of None \<Rightarrow> v0 | Some v \<Rightarrow> v)"

definition dhas :: "pydict \<Rightarrow> string \<Rightarrow> bool" where
  "dhas d k \<longleftrightarrow> k \<in> set (map fst d)"

lemma dget_update [simp]: "dget (AList.update k v d) k' = (if k' = k then v else dget d k')"
  by (simp add: dget_def update_conv')

lemma dget_Nil [simp]: "dget [] k = PNone"
  by (simp add: dget_def)

lemma dget_Cons [simp]: "dget ((k, v) # d) k' = (if k' = k then v else dget d k')"
  by (simp add: dget_def)

lemma dget_delete [simp]: "dget (AList.delete k d) k' = (if k' = k then PNone else dget d k')"
  by (simp add: dget_def delete_conv')

lemma dhas_iff: "dhas d k \<longleftrightarrow> map_of d k \<noteq> None"
  by (simp add: dhas_def map_of_eq_None_iff)

text \<open>\<open>{**a, **b}\<close>: the entries of \<open>b\<close> assigned over those of \<open>a\<close>.\<close>

definition dict_merge :: "pydict \<Rightarrow> pydict \<Rightarrow> pydict" where
  "dict_merge a b = fold (\<lambda>(k, v) d. AList.update k v d) b a"

lemma fst_update [simp]: "fst ` set (AList.update k v d) = insert k (fst ` set d)"
  by (induction d) auto

lemma dget_merge:
  "distinct (map fst b) \<Longrightarrow> dget (dict_merge a b) k = (if dhas b k then dget b k else dget a k)"
  unfolding dict_merge_def
  by (induction b arbitrary: a) (force simp: dhas_def)+

lemma dhas_present: "dget d k \<noteq> PNone \<Longrightarrow> dhas d k"
  by (auto simp: dhas_iff dget_def split: option.splits)

lemma dhas_merge: "dhas (dict_merge a b) k \<longleftrightarrow> dhas a k \<or> dhas b k"
proof -
  have "fst ` set (fold (\<lambda>(k, v) d. AList.update k v d) b a) = fst ` set a \<union> fst ` set b"
    by (induction b arbitrary: a) (simp_all split: prod.split)
  then show ?thesis by (auto simp: dict_merge_def dhas_def)
qed

fun is_str :: "pyval \<Rightarrow> bool" where
  "is_str (PStr _) = True"
| "is_str _ = False"

fun the_str :: "pyval \<Rightarrow> string" where
  "the_str (PStr s) = s"
| "the_str _ = []"

fun is_bool :: "pyval \<Rightarrow> bool" where
  "is_bool (PBool _) = True"
| "is_bool _ = False"

text \<open>\<open>isinstance(v, (int, float))\<close>: a bool is an int.\<close>

fun is_number :: "pyval \<Rightarrow> bool" where
  "is_number (PBool _) = True"
| "is_number (PInt _) = True"
| "is_number (PFloat _) = True"
| "is_number _ = False"

text \<open>\<open>isinstance(v, int)\<close>.\<close>

fun is_int :: "pyval \<Rightarrow> bool" where
  "is_int (PBool _) = True"
| "is_int (PInt _) = True"
| "is_int _ = False"

fun is_dict :: "pyval \<Rightarrow> bool" where
  "is_dict (PDict _) = True"
| "is_dict _ = False"

fun the_dict :: "pyval \<Rightarrow> pydict" where
  "the_dict (PDict d) = d"
| "the_dict _ = []"

fun is_list :: "pyval \<Rightarrow> bool" where
  "is_list (PList _) = True"
| "is_list _ = False"

text \<open>\<open>bool(v)\<close>.\<close>

fun truthy :: "pyval \<Rightarrow> bool" where
  "truthy PNone = False"
| "truthy (PBool b) = b"
| "truthy (PInt i) = (i \<noteq> 0)"
| "truthy (PFloat f) = (f \<noteq> Fin 0)"
| "truthy (PStr s) = (s \<noteq> [])"
| "truthy (PList xs) = (xs \<noteq> [])"
| "truthy (PTuple xs) = (xs \<noteq> [])"
| "truthy (PDict d) = (d \<noteq> [])"

definition int_to_float :: "int \<Rightarrow> pyfloat res" where
  "int_to_float i =
     (if float_overflow \<le> \<bar>of_int i\<bar> then Inl OverflowErr else Inr (Fin (of_int i)))"

text \<open>\<open>float(v)\<close>.\<close>

fun py_float :: "pyval \<Rightarrow> pyfloat res" where
  "py_float (PBool b) = Inr (Fin (if b then 1 else 0))"
| "py_float (PInt i) = int_to_float i"
| "py_float (PFloat f) = Inr f"
| "py_float (PStr s) =
     (case parse_float s of None \<Rightarrow> Inl (ValueErr ''could not convert string to float'')
      | Some f \<Rightarrow> Inr f)"
| "py_float _ = Inl TypeErr"

text \<open>\<open>math.isfinite(v)\<close> converts its argument, so a huge integer raises OverflowError.\<close>

definition py_isfinite :: "pyval \<Rightarrow> bool res" where
  "py_isfinite v =
     (case v of PStr _ \<Rightarrow> Inl TypeErr
      | _ \<Rightarrow> rbind (py_float v) (\<lambda>f. Inr (isfinite f)))"

text \<open>The value of a number (an int is compared exactly, without conversion).\<close>

fun num_val :: "pyval \<Rightarrow> pyfloat" where
  "num_val (PBool b) = Fin (if b then 1 else 0)"
| "num_val (PInt i) = Fin (of_int i)"
| "num_val (PFloat f) = f"
| "num_val _ = NaN"

text \<open>\<open>==\<close> on scalars: numbers compare across types, NaN differs from itself.\<close>

fun scalar_eq :: "pyval \<Rightarrow> pyval \<Rightarrow> bool" where
  "scalar_eq PNone PNone = True"
| "scalar_eq (PStr s) (PStr t) = (s = t)"
| "scalar_eq v w =
     (is_number v \<and> is_number w \<and> num_val v = num_val w \<and> num_val v \<noteq> NaN)"

lemma py_float_finite_int: "\<bar>of_int i\<bar> < float_overflow \<Longrightarrow> py_float (PInt i) = Inr (Fin (of_int i))"
  by (simp add: int_to_float_def)

lemma float_overflow_big: "10 ^ 300 < float_overflow"
  by (simp add: float_overflow_def)

lemma py_float_small_int: "\<bar>i\<bar> \<le> 10 ^ 300 \<Longrightarrow> py_float (PInt i) = Inr (Fin (of_int i))"
proof (rule py_float_finite_int)
  assume "\<bar>i\<bar> \<le> 10 ^ 300"
  then have "(of_int \<bar>i\<bar> :: rat) \<le> of_int (10 ^ 300)" by (rule of_int_le_iff [THEN iffD2])
  also have "(of_int (10 ^ 300) :: rat) = 10 ^ 300" by simp
  also note float_overflow_big
  finally show "\<bar>of_int i :: rat\<bar> < float_overflow" by simp
qed

section \<open>Decimal text of a natural number\<close>

fun nat_text :: "nat \<Rightarrow> string" where
  "nat_text n = (if n < 10 then [char_of (48 + n)] else nat_text (n div 10) @ [char_of (48 + n mod 10)])"

declare nat_text.simps [simp del]

lemma digit_val_char [simp]: "n < 10 \<Longrightarrow> digit_val (char_of (48 + n)) = n"
  by (simp add: digit_val_def)

lemma digits_val_snoc: "digits_val (xs @ [c]) = 10 * digits_val xs + digit_val c"
  by (simp add: digits_val_def)

lemma digits_val_nat_text [simp]: "digits_val (nat_text n) = n"
proof (induction n rule: nat_text.induct)
  case (1 n)
  show ?case
  proof (cases "n < 10")
    case True
    then show ?thesis by (simp add: nat_text.simps [of n] digits_val_def)
  next
    case False
    with 1 have "digits_val (nat_text (n div 10)) = n div 10" by simp
    with False show ?thesis by (simp add: nat_text.simps [of n] digits_val_snoc)
  qed
qed

lemma nat_text_inj [simp]: "nat_text m = nat_text n \<longleftrightarrow> m = n"
  by (metis digits_val_nat_text)

section \<open>Entity identities\<close>

text \<open>The domain of an entity id: \<open>entity_id.split(".", 1)[0]\<close>.\<close>

definition domain_of :: "string \<Rightarrow> string" where
  "domain_of e = takeWhile (\<lambda>c. c \<noteq> CHR ''.'') e"

definition startswith :: "string \<Rightarrow> string \<Rightarrow> bool" where
  "startswith s p \<longleftrightarrow> take (length p) s = p"

text \<open>\<open>dict.fromkeys\<close>: the first occurrence of each element, in order.\<close>

fun fromkeys :: "'a list \<Rightarrow> 'a list" where
  "fromkeys [] = []"
| "fromkeys (x # xs) = x # filter (\<lambda>y. y \<noteq> x) (fromkeys xs)"

lemma set_fromkeys [simp]: "set (fromkeys xs) = set xs"
  by (induction xs) auto

lemma distinct_fromkeys [simp]: "distinct (fromkeys xs)"
  by (induction xs) auto

lemma fromkeys_distinct: "distinct xs \<Longrightarrow> fromkeys xs = xs"
  by (induction xs) (auto intro!: filter_True)

lemma fromkeys_eq_Nil [simp]: "fromkeys xs = [] \<longleftrightarrow> xs = []"
  by (cases xs) auto

section \<open>Lists and association lists\<close>

lemma map_fst_delete: "map fst (AList.delete k al) = filter (\<lambda>x. x \<noteq> k) (map fst al)"
  by (induction al) auto

lemma map_fst_update:
  "map fst (AList.update k v al) =
     (if k \<in> set (map fst al) then map fst al else map fst al @ [k])"
  by (induction al) auto

lemma filter_neq_remove1: "distinct xs \<Longrightarrow> filter (\<lambda>x. x \<noteq> k) xs = remove1 k xs"
  by (induction xs) (auto simp: filter_True remove1_idem)

lemma last_filter_Nil [simp]: "filter P xs = [] \<longleftrightarrow> (\<forall>x \<in> set xs. \<not> P x)"
  by (simp add: filter_empty_conv)

lemma map_of_delete_self [simp]: "map_of (AList.delete k al) k = None"
  by (simp add: delete_conv')

lemma update_new_key: "k \<notin> set (map fst al) \<Longrightarrow> AList.update k v al = al @ [(k, v)]"
  by (induction al) auto

lemma in_subseq: "subseq xs ys \<Longrightarrow> x \<in> set xs \<Longrightarrow> x \<in> set ys"
  by (induction rule: list_emb.induct) auto

section \<open>Membership in a set literal\<close>

text \<open>\<open>v in {...}\<close> hashes \<open>v\<close>, which raises TypeError for lists and dicts.\<close>

primrec hashable :: "pyval \<Rightarrow> bool" where
  "hashable PNone = True"
| "hashable (PBool b) = True"
| "hashable (PInt i) = True"
| "hashable (PFloat f) = True"
| "hashable (PStr s) = True"
| "hashable (PList xs) = False"
| "hashable (PTuple xs) = list_all id (map hashable xs)"
| "hashable (PDict d) = False"

definition py_in :: "pyval \<Rightarrow> pyval list \<Rightarrow> bool res" where
  "py_in v options =
     (if hashable v then Inr (list_ex (scalar_eq v) options) else Inl TypeErr)"

end
