(* ===== verification/Device_Config.thy ===== *)
theory Device_Config
  imports Prelude
begin

text \<open>
  \<open>device_configuration.py\<close>: the strict, persisted and wizard adapters that turn raw device
  records into logical device configurations, and the permissive adapter the model uses.
\<close>

section \<open>Field adapters\<close>

definition CONTROL_DOMAINS :: "string list" where
  "CONTROL_DOMAINS = [''switch'', ''light'', ''input_boolean'', ''climate'', ''humidifier'']"

definition entity_id :: "pyval \<Rightarrow> string list \<Rightarrow> string option" where
  "entity_id value domains =
     (case value of PStr s \<Rightarrow>
        (let v = py_strip s
         in if count_list v CHR ''.'' \<noteq> 1 then None
            else if domain_of v \<in> set domains \<and> tl (dropWhile (\<lambda>c. c \<noteq> CHR ''.'') v) \<noteq> []
            then Some v else None)
      | _ \<Rightarrow> None)"

definition safe_number :: "pyval \<Rightarrow> rat \<Rightarrow> rat \<Rightarrow> rat \<Rightarrow> rat" where
  "safe_number value dflt minimum maximum =
     (if is_bool value then dflt
      else case py_float value of
             Inl _ \<Rightarrow> dflt
           | Inr f \<Rightarrow> if isfinite f \<and> Fin minimum \<le> f \<and> f \<le> Fin maximum then fin_val f else dflt)"

definition parse_battery_min_soc :: "pyval \<Rightarrow> rat option" where
  "parse_battery_min_soc value =
     (if value = PNone \<or> is_bool value \<or> \<not> (is_number value \<or> is_str value) then None
      else case py_float value of
             Inl _ \<Rightarrow> None
           | Inr f \<Rightarrow> if isfinite f \<and> Fin 0 < f \<and> f \<le> Fin 100 then Some (fin_val f) else None)"

fun entities_loop :: "bool \<Rightarrow> string list \<Rightarrow> string list \<Rightarrow> pyval list \<Rightarrow> string list res" where
  "entities_loop strict exclude result [] = Inr result"
| "entities_loop strict exclude result (raw # rest) =
     (case entity_id raw CONTROL_DOMAINS of
        Some m \<Rightarrow>
          if m \<in> set result \<or> m \<in> set exclude
          then if strict then Inl (ValueErr ''logical actuator entities must be valid and unique'')
               else entities_loop strict exclude result rest
          else entities_loop strict exclude (result @ [m]) rest
      | None \<Rightarrow>
          if strict then Inl (ValueErr ''logical actuator entities must be valid and unique'')
          else entities_loop strict exclude result rest)"

definition entities :: "pyval \<Rightarrow> bool \<Rightarrow> string list \<Rightarrow> string list res" where
  "entities value strict exclude =
     (if value = PNone \<or> value = PStr [] then Inr []
      else case value of
        PStr s \<Rightarrow> entities_loop strict exclude [] [PStr s]
      | PList xs \<Rightarrow> entities_loop strict exclude [] xs
      | PTuple xs \<Rightarrow> entities_loop strict exclude [] xs
      | _ \<Rightarrow> if strict then Inl (ValueErr ''entity collection must be a list'') else Inr [])"

text \<open>\<open>if value is None: dflt\<close>, otherwise an integral number that is at least 1.\<close>

definition positive_integer :: "pyval \<Rightarrow> int \<Rightarrow> string \<Rightarrow> int res" where
  "positive_integer value dflt label =
     (if value = PNone then Inr dflt
      else if is_bool value then Inl (ValueErr (label @ '' must be an integer''))
      else case py_float value of
             Inl _ \<Rightarrow> Inl (ValueErr (label @ '' must be an integer''))
           | Inr f \<Rightarrow>
               if \<not> isfinite f \<or> f < Fin 1 \<or> fin_val f \<noteq> of_int \<lfloor>fin_val f\<rfloor>
               then Inl (ValueErr (label @ '' must be a positive integer''))
               else Inr \<lfloor>fin_val f\<rfloor>)"

definition expected_power_of :: "pyval \<Rightarrow> bool \<Rightarrow> int res" where
  "expected_power_of value strict =
     (if \<not> strict then Inr \<lceil>safe_number value 1 1 50000\<rceil>
      else if value = PNone \<or> is_bool value then Inl (ValueErr ''expected power must be finite'')
      else case py_float value of
             Inl _ \<Rightarrow> Inl (ValueErr ''expected power must be finite'')
           | Inr f \<Rightarrow>
               if \<not> isfinite f \<or> \<not> (Fin 1 \<le> f \<and> f \<le> Fin 50000)
               then Inl (ValueErr ''expected power is outside the allowed range'')
               else Inr \<lceil>fin_val f\<rceil>)"

section \<open>Records\<close>

text \<open>The dict of a wizard device, and the dict of a normalised device with its policy fields.\<close>

record logical_config =
  c_device_id :: string
  c_name :: string
  c_entity :: string
  c_expected_power :: int
  c_power_sensor :: "string option"
  c_actuators :: "string list"
  c_command_entity :: string
  c_readback_entities :: "string list"
  c_emergency_off_entities :: "string list"

record device_config = logical_config +
  c_priority :: int
  c_shed_priority :: int
  c_battery_min_soc :: "rat option"

text \<open>\<open>_roles\<close>: actuators, command entity, readback and emergency members.\<close>

definition roles ::
  "pydict \<Rightarrow> string \<Rightarrow> string list \<Rightarrow> bool
     \<Rightarrow> (string list \<times> string \<times> string list \<times> string list) res" where
  "roles raw entity actuators strict =
     (let command = (case entity_id (dget raw ''command_entity'') CONTROL_DOMAINS of
                       Some c \<Rightarrow> c
                     | None \<Rightarrow> (case find (\<lambda>m. startswith m ''climate.'') actuators of
                                 Some m \<Rightarrow> m | None \<Rightarrow> entity))
      in rbind (entities (dget raw ''readback_entities'') strict []) (\<lambda>readbacks.
         rbind (entities (dget raw ''emergency_off_entities'') strict []) (\<lambda>emergency.
         Inr (actuators, command,
              if readbacks \<noteq> [] then readbacks
              else [if startswith command ''climate.'' then entity else command],
              if emergency \<noteq> [] then emergency
              else if command \<noteq> entity then [entity] else []))))"

definition text_or :: "pyval \<Rightarrow> string \<Rightarrow> string" where
  "text_or v fallback = (case v of PStr s \<Rightarrow> if nonblank s then py_strip s else fallback | _ \<Rightarrow> fallback)"

text \<open>The two policies for the priorities.\<close>

definition priorities_of :: "pydict \<Rightarrow> nat \<Rightarrow> bool \<Rightarrow> (int \<times> int) res" where
  "priorities_of raw index strict =
     (if strict then
        rbind (positive_integer (dget raw ''priority'') (int index + 1) ''priority'') (\<lambda>priority.
        rbind (positive_integer (dget raw ''shed_priority'') priority ''shed priority'') (\<lambda>shed.
        Inr (priority, shed)))
      else
        (let dflt = of_nat index + 1;
             priority = \<lfloor>safe_number (dget_or raw ''priority'' (PInt (int index + 1))) dflt 1 100000\<rfloor>;
             shed = \<lfloor>safe_number (dget_or raw ''shed_priority'' (PInt priority)) (of_int priority) 1 100000\<rfloor>
         in Inr (priority, shed)))"

definition sensor_domain :: "string list" where
  "sensor_domain = [''sensor'']"

definition given :: "pyval \<Rightarrow> bool" where
  "given v \<longleftrightarrow> v \<noteq> PNone \<and> v \<noteq> PStr []"

definition device_record ::
  "pydict \<Rightarrow> nat \<Rightarrow> string list \<Rightarrow> bool \<Rightarrow> device_config option res" where
  "device_record raw index seen_entities strict =
     (case (dget raw ''device_id'', entity_id (dget raw ''entity'') CONTROL_DOMAINS) of
        (PStr identity, Some entity) \<Rightarrow>
          if \<not> nonblank identity
          then if strict then Inl (ValueErr ''device IDs and control entities must be unique'')
               else Inr None
          else
            rbind (entities (dget raw ''actuators'') strict (entity # seen_entities)) (\<lambda>actuators.
            rbind (priorities_of raw index strict) (\<lambda>(priority, shed_priority).
            let sensor = entity_id (dget raw ''power_sensor'') sensor_domain;
                battery = parse_battery_min_soc (dget raw ''battery_min_soc'')
            in if strict \<and> given (dget raw ''power_sensor'') \<and> sensor = None
               then Inl (ValueErr ''power sensor must be a sensor entity'')
               else if strict \<and> given (dget raw ''battery_min_soc'') \<and> battery = None
               then Inl (ValueErr ''battery minimum charge must be above 0 and at most 100'')
               else
                 rbind (expected_power_of (dget raw ''expected_power'') strict) (\<lambda>power.
                 rbind (roles raw entity actuators strict) (\<lambda>(acts, command, readbacks, emergency).
                 Inr (Some \<lparr>c_device_id = py_strip identity, c_name = text_or (dget raw ''name'') entity,
                   c_entity = entity, c_expected_power = power, c_power_sensor = sensor,
                   c_actuators = acts, c_command_entity = command,
                   c_readback_entities = readbacks, c_emergency_off_entities = emergency,
                   c_priority = priority, c_shed_priority = shed_priority,
                   c_battery_min_soc = battery\<rparr>)))))
      | _ \<Rightarrow> if strict then Inl (ValueErr ''device IDs and control entities must be unique'')
             else Inr None)"

fun normalize_loop ::
  "bool \<Rightarrow> nat \<Rightarrow> string list \<Rightarrow> string list \<Rightarrow> int list \<Rightarrow> pyval list \<Rightarrow> device_config list res"
where
  "normalize_loop strict index ids ents prios [] = Inr []"
| "normalize_loop strict index ids ents prios (raw # rest) =
     (case raw of PDict d \<Rightarrow>
        rbind (device_record d index ents strict) (\<lambda>r.
        case r of
          None \<Rightarrow> normalize_loop strict (Suc index) ids ents prios rest
        | Some c \<Rightarrow>
            if c_device_id c \<in> set ids \<or> c_entity c \<in> set ents
            then if strict then Inl (ValueErr ''device IDs and control entities must be unique'')
                 else normalize_loop strict (Suc index) ids ents prios rest
            else if strict \<and> c_priority c \<in> set prios
            then Inl (ValueErr ''priorities must be unique'')
            else rbind (normalize_loop strict (Suc index) (c_device_id c # ids)
                          (c_entity c # c_actuators c @ ents) (c_priority c # prios) rest)
                   (\<lambda>cs. Inr (c # cs)))
      | _ \<Rightarrow> if strict then Inl (ValueErr ''device mapping must be an object'')
             else normalize_loop strict (Suc index) ids ents prios rest)"

definition normalize_devices :: "pyval \<Rightarrow> bool \<Rightarrow> device_config list res" where
  "normalize_devices value strict =
     (case value of
        PList xs \<Rightarrow> normalize_loop strict 0 [] [] [] xs
      | _ \<Rightarrow> if strict then Inl (ValueErr ''devices must be a list'') else Inr [])"

definition wizard_device :: "pydict \<Rightarrow> string \<Rightarrow> string \<Rightarrow> pyval \<Rightarrow> logical_config res" where
  "wizard_device raw device_id name power_sensor =
     (case entity_id (dget raw ''entity'') CONTROL_DOMAINS of
        None \<Rightarrow> Inl (ValueErr ''control entity must be valid'')
      | Some entity \<Rightarrow>
          rbind (case dget raw ''actuators'' of
                   PList xs \<Rightarrow> entities (PList xs) False [entity]
                 | PTuple xs \<Rightarrow> entities (PTuple xs) False [entity]
                 | _ \<Rightarrow> Inr []) (\<lambda>actuators.
          rbind (expected_power_of (dget_or raw ''expected_power'' (PInt 2000)) True) (\<lambda>power.
          rbind (roles raw entity actuators True) (\<lambda>(acts, command, readbacks, emergency).
          Inr \<lparr>c_device_id = py_strip device_id, c_name = (if name \<noteq> [] then name else entity),
               c_entity = entity, c_expected_power = power,
               c_power_sensor = entity_id power_sensor sensor_domain, c_actuators = acts,
               c_command_entity = command, c_readback_entities = readbacks,
               c_emergency_off_entities = emergency\<rparr>))))"

text \<open>The dict that stands for a normalised record in configuration data.\<close>

definition str_list :: "string list \<Rightarrow> pyval" where
  "str_list xs = PList (map PStr xs)"

definition opt_str :: "string option \<Rightarrow> pyval" where
  "opt_str s = (case s of None \<Rightarrow> PNone | Some t \<Rightarrow> PStr t)"

definition opt_num :: "rat option \<Rightarrow> pyval" where
  "opt_num x = (case x of None \<Rightarrow> PNone | Some r \<Rightarrow> PFloat (Fin r))"

definition config_dict :: "device_config \<Rightarrow> pydict" where
  "config_dict c =
     [(''device_id'', PStr (c_device_id c)), (''name'', PStr (c_name c)),
      (''entity'', PStr (c_entity c)), (''expected_power'', PInt (c_expected_power c)),
      (''power_sensor'', opt_str (c_power_sensor c)), (''priority'', PInt (c_priority c)),
      (''shed_priority'', PInt (c_shed_priority c)), (''actuators'', str_list (c_actuators c)),
      (''command_entity'', PStr (c_command_entity c)),
      (''readback_entities'', str_list (c_readback_entities c)),
      (''emergency_off_entities'', str_list (c_emergency_off_entities c))]
     @ (case c_battery_min_soc c of None \<Rightarrow> [] | Some b \<Rightarrow> [(''battery_min_soc'', PFloat (Fin b))])"

section \<open>Legacy records\<close>

text \<open>\<open>int(f)\<close> truncates toward zero.\<close>

definition py_trunc :: "pyfloat \<Rightarrow> int res" where
  "py_trunc f =
     (case f of Fin x \<Rightarrow> Inr (if 0 \<le> x then \<lfloor>x\<rfloor> else \<lceil>x\<rceil>)
      | NaN \<Rightarrow> Inl (ValueErr ''cannot convert float NaN to integer'')
      | _ \<Rightarrow> Inl OverflowErr)"

definition legacy_integer :: "pyval \<Rightarrow> int \<Rightarrow> int option \<Rightarrow> int option" where
  "legacy_integer value minimum dflt =
     (if value = PNone \<and> dflt = None then None
      else case rbind (py_float value) py_trunc of
             Inl _ \<Rightarrow> dflt
           | Inr i \<Rightarrow> Some (max minimum i))"

definition legacy_members :: "pyval \<Rightarrow> string list" where
  "legacy_members value =
     (case value of
        PStr s \<Rightarrow> if s \<noteq> [] then [s] else []
      | PList xs \<Rightarrow> map the_str (filter (\<lambda>v. is_str v \<and> the_str v \<noteq> []) xs)
      | PTuple xs \<Rightarrow> map the_str (filter (\<lambda>v. is_str v \<and> the_str v \<noteq> []) xs)
      | _ \<Rightarrow> [])"

text \<open>\<open>x or d\<close> on an optional integer: None and zero give the dflt.\<close>

definition int_or :: "int option \<Rightarrow> int \<Rightarrow> int" where
  "int_or x d = (case x of None \<Rightarrow> d | Some i \<Rightarrow> if i = 0 then d else i)"

definition str_opt :: "pyval \<Rightarrow> string option" where
  "str_opt v = (case v of PStr s \<Rightarrow> Some s | _ \<Rightarrow> None)"

record model_config =
  m_device_id :: string
  m_name :: string
  m_entity_id :: string
  m_expected_power :: int
  m_power_sensor_id :: "string option"
  m_priority :: int
  m_shed_priority :: "int option"
  m_actuator_entity_ids :: "string list"
  m_command_entity_id :: "string option"
  m_readback_entity_ids :: "string list"
  m_emergency_off_entity_ids :: "string list"
  m_battery_min_soc :: "rat option"

definition nonempty_str :: "pyval \<Rightarrow> bool" where
  "nonempty_str v \<longleftrightarrow> is_str v \<and> the_str v \<noteq> []"

definition model_configuration :: "pydict \<Rightarrow> model_config res" where
  "model_configuration raw =
     (if \<not> nonempty_str (dget raw ''entity'') then Inl (ValueErr ''device record is missing device_id'')
      else if \<not> nonempty_str (dget raw ''device_id'') then Inl (ValueErr ''device record is missing device_id'')
      else if \<not> nonempty_str (dget raw ''name'') then Inl (ValueErr ''device record is missing name'')
      else Inr \<lparr>
        m_device_id = the_str (dget raw ''device_id''), m_name = the_str (dget raw ''name''),
        m_entity_id = the_str (dget raw ''entity''),
        m_expected_power =
          min (int_or (legacy_integer (dget_or raw ''expected_power'' (PInt 0)) 0 (Some 0)) 0) 50000,
        m_power_sensor_id = str_opt (dget raw ''power_sensor''),
        m_priority = int_or (legacy_integer (dget_or raw ''priority'' (PInt 1)) 1 (Some 1)) 1,
        m_shed_priority = legacy_integer (dget raw ''shed_priority'') 1 None,
        m_actuator_entity_ids = legacy_members (dget_or raw ''actuators'' (PTuple [])),
        m_command_entity_id = str_opt (dget raw ''command_entity''),
        m_readback_entity_ids = legacy_members (dget_or raw ''readback_entities'' (PTuple [])),
        m_emergency_off_entity_ids = legacy_members (dget_or raw ''emergency_off_entities'' (PTuple [])),
        m_battery_min_soc = parse_battery_min_soc (dget raw ''battery_min_soc'')\<rparr>)"

section \<open>Normal forms\<close>

definition valid_entity :: "string list \<Rightarrow> string \<Rightarrow> bool" where
  "valid_entity domains e \<longleftrightarrow> entity_id (PStr e) domains = Some e"

lemma entity_id_valid: "entity_id v domains = Some e \<Longrightarrow> valid_entity domains e"
  by (auto simp: entity_id_def valid_entity_def Let_def split: pyval.splits if_splits)

lemma valid_entity_id [simp]: "valid_entity domains e \<Longrightarrow> entity_id (PStr e) domains = Some e"
  by (simp add: valid_entity_def)

lemma valid_entity_text: "valid_entity domains e \<Longrightarrow> py_strip e = e \<and> nonblank e"
  by (auto simp: valid_entity_def entity_id_def nonblank_def Let_def split: if_splits)

lemma entities_loop_ok:
  "entities_loop strict exclude result vs = Inr es \<Longrightarrow>
   distinct result \<Longrightarrow> set result \<inter> set exclude = {} \<Longrightarrow> list_all (valid_entity CONTROL_DOMAINS) result \<Longrightarrow>
   distinct es \<and> set es \<inter> set exclude = {} \<and> list_all (valid_entity CONTROL_DOMAINS) es"
proof (induction vs arbitrary: result)
  case Nil
  then show ?case by simp
next
  case (Cons v vs)
  show ?case
  proof (cases "entity_id v CONTROL_DOMAINS")
    case None
    with Cons show ?thesis by (auto split: if_splits)
  next
    case (Some m)
    with Cons.prems Cons.IH [of result] Cons.IH [of "result @ [m]"] entity_id_valid [OF Some]
    show ?thesis by (auto split: if_splits)
  qed
qed

lemma entities_ok:
  "entities v strict exclude = Inr es \<Longrightarrow>
   distinct es \<and> set es \<inter> set exclude = {} \<and> list_all (valid_entity CONTROL_DOMAINS) es"
  by (auto simp: entities_def simp del: entities_loop.simps
      split: if_splits pyval.splits dest: entities_loop_ok)

lemma entities_loop_fix:
  "distinct (result @ es) \<Longrightarrow> set es \<inter> set exclude = {} \<Longrightarrow> list_all (valid_entity CONTROL_DOMAINS) es \<Longrightarrow>
   entities_loop strict exclude result (map PStr es) = Inr (result @ es)"
  by (induction es arbitrary: result) auto

lemma entities_fix [simp]:
  "distinct es \<Longrightarrow> set es \<inter> set exclude = {} \<Longrightarrow> list_all (valid_entity CONTROL_DOMAINS) es \<Longrightarrow>
   entities (str_list es) strict exclude = Inr es"
  using entities_loop_fix [of "[]" es exclude strict] by (simp add: entities_def str_list_def)

definition roles_wf :: "string \<Rightarrow> string list \<Rightarrow> string \<Rightarrow> string list \<Rightarrow> string list \<Rightarrow> bool" where
  "roles_wf entity acts command readbacks emergency \<longleftrightarrow>
     valid_entity CONTROL_DOMAINS command
     \<and> readbacks \<noteq> [] \<and> distinct readbacks \<and> list_all (valid_entity CONTROL_DOMAINS) readbacks
     \<and> distinct emergency \<and> list_all (valid_entity CONTROL_DOMAINS) emergency
     \<and> (emergency = [] \<longrightarrow> command = entity)"

lemma roles_ok:
  assumes "roles raw entity acts strict = Inr (as, command, readbacks, emergency)"
    and "valid_entity CONTROL_DOMAINS entity" and "list_all (valid_entity CONTROL_DOMAINS) acts"
  shows "as = acts \<and> roles_wf entity acts command readbacks emergency"
proof -
  have find: "find (\<lambda>m. startswith m ''climate.'') acts = Some m \<Longrightarrow> valid_entity CONTROL_DOMAINS m" for m
    using assms(3) by (auto simp: list_all_iff find_Some_iff)
  have command: "valid_entity CONTROL_DOMAINS command"
    using assms(1,2) find entity_id_valid
    by (auto simp: roles_def Let_def rbind_Inr_iff split: option.splits)
  from assms(1) obtain r e where re: "entities (dget raw ''readback_entities'') strict [] = Inr r"
    "entities (dget raw ''emergency_off_entities'') strict [] = Inr e" "as = acts"
    "readbacks = (if r \<noteq> [] then r else [if startswith command ''climate.'' then entity else command])"
    "emergency = (if e \<noteq> [] then e else if command \<noteq> entity then [entity] else [])"
    by (auto simp: roles_def Let_def rbind_Inr_iff)
  with entities_ok [OF re(1)] entities_ok [OF re(2)] command assms(2) show ?thesis
    by (auto simp: roles_wf_def)
qed

definition config_wf :: "device_config \<Rightarrow> bool" where
  "config_wf c \<longleftrightarrow>
     py_strip (c_device_id c) = c_device_id c \<and> nonblank (c_device_id c)
     \<and> py_strip (c_name c) = c_name c \<and> nonblank (c_name c)
     \<and> valid_entity CONTROL_DOMAINS (c_entity c)
     \<and> 1 \<le> c_expected_power c \<and> c_expected_power c \<le> 50000
     \<and> (\<forall>s. c_power_sensor c = Some s \<longrightarrow> valid_entity sensor_domain s)
     \<and> list_all (valid_entity CONTROL_DOMAINS) (c_actuators c)
     \<and> roles_wf (c_entity c) (c_actuators c) (c_command_entity c) (c_readback_entities c)
         (c_emergency_off_entities c)
     \<and> 1 \<le> c_priority c \<and> 1 \<le> c_shed_priority c
     \<and> (\<forall>b. c_battery_min_soc c = Some b \<longrightarrow> 0 < b \<and> b \<le> 100)"

definition config_members :: "device_config \<Rightarrow> string list" where
  "config_members c = c_entity c # c_actuators c"

lemma text_or_ok: "nonblank d \<Longrightarrow> py_strip d = d \<Longrightarrow> py_strip (text_or v d) = text_or v d \<and> nonblank (text_or v d)"
  by (auto simp: text_or_def split: pyval.splits)

lemma safe_number_range:
  "minimum \<le> d \<Longrightarrow> minimum \<le> safe_number v d minimum maximum"
  "d \<le> maximum \<Longrightarrow> safe_number v d minimum maximum \<le> maximum"
  by (auto simp: safe_number_def isfinite_iff split: sum.splits)

lemma expected_power_range: "expected_power_of v strict = Inr p \<Longrightarrow> 1 \<le> p \<and> p \<le> 50000"
proof (cases strict)
  case False
  assume "expected_power_of v strict = Inr p"
  with False have p: "p = \<lceil>safe_number v 1 1 50000\<rceil>" by (simp add: expected_power_of_def)
  have "1 \<le> safe_number v 1 1 50000" "safe_number v 1 1 50000 \<le> 50000"
    using safe_number_range(1) [of 1 1 v 50000] safe_number_range(2) [of 1 50000 v 1] by simp_all
  then show ?thesis unfolding p by (simp add: ceiling_le_iff le_ceiling_iff)
next
  case True
  assume "expected_power_of v strict = Inr p"
  with True obtain x :: rat where "p = \<lceil>x\<rceil>" "1 \<le> x" "x \<le> 50000"
    by (auto simp: expected_power_of_def isfinite_iff split: if_splits sum.splits)
  then show ?thesis by (simp add: ceiling_le_iff le_ceiling_iff)
qed

lemma positive_integer_ge: "positive_integer v d l = Inr p \<Longrightarrow> 1 \<le> d \<Longrightarrow> 1 \<le> p"
  by (auto simp: positive_integer_def isfinite_iff not_less le_floor_iff split: if_splits sum.splits)

lemma priorities_ge: "priorities_of raw index strict = Inr (p, q) \<Longrightarrow> 1 \<le> p \<and> 1 \<le> q"
proof (cases strict)
  case True
  moreover assume "priorities_of raw index strict = Inr (p, q)"
  ultimately show ?thesis
    by (auto simp: priorities_of_def rbind_Inr_iff dest!: positive_integer_ge)
next
  case False
  assume "priorities_of raw index strict = Inr (p, q)"
  with False have p: "p = \<lfloor>safe_number (dget_or raw ''priority'' (PInt (int index + 1))) (of_nat index + 1) 1 100000\<rfloor>"
    and q: "q = \<lfloor>safe_number (dget_or raw ''shed_priority'' (PInt p)) (of_int p) 1 100000\<rfloor>"
    by (auto simp: priorities_of_def Let_def)
  have "1 \<le> p" unfolding p le_floor_iff by (simp add: safe_number_range)
  moreover from this have "1 \<le> q" unfolding q le_floor_iff by (simp add: safe_number_range)
  ultimately show ?thesis by simp
qed

lemma battery_range: "parse_battery_min_soc v = Some b \<Longrightarrow> 0 < b \<and> b \<le> 100"
  by (auto simp: parse_battery_min_soc_def isfinite_iff split: if_splits sum.splits)

lemma device_record_ok:
  assumes "device_record raw index ents strict = Inr (Some c)"
  shows "config_wf c \<and> distinct (config_members c) \<and> set (c_actuators c) \<inter> set ents = {}"
proof -
  from assms obtain identity entity acts p q power command readbacks emergency as where d:
    "entity_id (dget raw ''entity'') CONTROL_DOMAINS = Some entity" "nonblank identity"
    "entities (dget raw ''actuators'') strict (entity # ents) = Inr acts"
    "priorities_of raw index strict = Inr (p, q)"
    "expected_power_of (dget raw ''expected_power'') strict = Inr power"
    "roles raw entity acts strict = Inr (as, command, readbacks, emergency)"
    and c: "c = \<lparr>c_device_id = py_strip identity, c_name = text_or (dget raw ''name'') entity,
       c_entity = entity, c_expected_power = power,
       c_power_sensor = entity_id (dget raw ''power_sensor'') sensor_domain, c_actuators = as,
       c_command_entity = command, c_readback_entities = readbacks,
       c_emergency_off_entities = emergency, c_priority = p, c_shed_priority = q,
       c_battery_min_soc = parse_battery_min_soc (dget raw ''battery_min_soc'')\<rparr>"
    by (auto simp: device_record_def rbind_Inr_iff Let_def split: pyval.splits option.splits if_splits)
  have e: "valid_entity CONTROL_DOMAINS entity" using d(1) by (rule entity_id_valid)
  note a = entities_ok [OF d(3)]
  have r: "as = acts \<and> roles_wf entity acts command readbacks emergency"
    using roles_ok [OF d(6) e] a by simp
  show ?thesis
    using e a r d(2) priorities_ge [OF d(4)] expected_power_range [OF d(5)]
      text_or_ok [of entity "dget raw ''name''"] valid_entity_text [OF e]
    by (auto simp: c config_wf_def config_members_def dest: entity_id_valid battery_range)
qed

lemma normalize_loop_ok:
  "normalize_loop strict index ids ents prios vs = Inr cs \<Longrightarrow>
   list_all config_wf cs \<and> distinct (map c_device_id cs) \<and> set (map c_device_id cs) \<inter> set ids = {}
   \<and> distinct (concat (map config_members cs)) \<and> set (concat (map config_members cs)) \<inter> set ents = {}
   \<and> (strict \<longrightarrow> distinct (map c_priority cs) \<and> set (map c_priority cs) \<inter> set prios = {})"
proof (induction vs arbitrary: index ids ents prios cs)
  case Nil
  then show ?case by simp
next
  case (Cons raw rest)
  show ?case
  proof (cases "\<exists>d c. raw = PDict d \<and> device_record d index ents strict = Inr (Some c)
      \<and> c_device_id c \<notin> set ids \<and> c_entity c \<notin> set ents \<and> \<not> (strict \<and> c_priority c \<in> set prios)")
    case True
    then obtain d c where d: "raw = PDict d" "device_record d index ents strict = Inr (Some c)"
      "c_device_id c \<notin> set ids" "c_entity c \<notin> set ents" "\<not> (strict \<and> c_priority c \<in> set prios)"
      by blast
    with Cons.prems obtain cs' where cs': "cs = c # cs'"
      "normalize_loop strict (Suc index) (c_device_id c # ids) (c_entity c # c_actuators c @ ents)
         (c_priority c # prios) rest = Inr cs'"
      by (auto simp: rbind_Inr_iff)
    show ?thesis
      using Cons.IH [OF cs'(2)] device_record_ok [OF d(2)] d cs'(1)
      by (auto simp: config_members_def)
  next
    case False
    with Cons.prems have "normalize_loop strict (Suc index) ids ents prios rest = Inr cs"
      by (auto simp: rbind_Inr_iff split: pyval.split_asm option.split_asm if_split_asm)
    then show ?thesis by (rule Cons.IH)
  qed
qed

section \<open>Reading back a normal form\<close>

lemma config_dget:
  "dget (config_dict c) ''device_id'' = PStr (c_device_id c)"
  "dget (config_dict c) ''name'' = PStr (c_name c)"
  "dget (config_dict c) ''entity'' = PStr (c_entity c)"
  "dget (config_dict c) ''expected_power'' = PInt (c_expected_power c)"
  "dget (config_dict c) ''power_sensor'' = opt_str (c_power_sensor c)"
  "dget (config_dict c) ''priority'' = PInt (c_priority c)"
  "dget (config_dict c) ''shed_priority'' = PInt (c_shed_priority c)"
  "dget (config_dict c) ''actuators'' = str_list (c_actuators c)"
  "dget (config_dict c) ''command_entity'' = PStr (c_command_entity c)"
  "dget (config_dict c) ''readback_entities'' = str_list (c_readback_entities c)"
  "dget (config_dict c) ''emergency_off_entities'' = str_list (c_emergency_off_entities c)"
  "dget (config_dict c) ''battery_min_soc'' = opt_num (c_battery_min_soc c)"
  "dget_or (config_dict c) ''priority'' v = PInt (c_priority c)"
  "dget_or (config_dict c) ''shed_priority'' v = PInt (c_shed_priority c)"
  by (simp_all add: config_dict_def dget_def dget_or_def opt_num_def map_add_def split: option.split)

lemma small_int_float: "0 \<le> i \<Longrightarrow> i \<le> 100000 \<Longrightarrow> py_float (PInt i) = Inr (Fin (of_int i))"
  by (rule py_float_small_int) simp

lemma positive_integer_fix:
  "1 \<le> p \<Longrightarrow> p \<le> 100000 \<Longrightarrow> positive_integer (PInt p) d l = Inr p"
  using small_int_float [of p] by (simp add: positive_integer_def)

lemma safe_number_fix:
  "1 \<le> p \<Longrightarrow> p \<le> 100000 \<Longrightarrow> \<lfloor>safe_number (PInt p) d 1 100000\<rfloor> = p"
  using small_int_float [of p] by (simp add: safe_number_def)

lemma expected_power_fix:
  "1 \<le> p \<Longrightarrow> p \<le> 50000 \<Longrightarrow> expected_power_of (PInt p) strict = Inr p"
  using small_int_float [of p] by (simp add: expected_power_of_def safe_number_def)

lemma battery_fix: "0 < b \<Longrightarrow> b \<le> 100 \<Longrightarrow> parse_battery_min_soc (PFloat (Fin b)) = Some b"
  by (simp add: parse_battery_min_soc_def)

lemma entity_id_None [simp]: "entity_id PNone domains = None"
  by (simp add: entity_id_def)

lemma entities_str_list_Nil [simp]: "entities (str_list []) strict ex = Inr []"
  by (simp add: entities_def str_list_def)

lemma roles_fix:
  assumes "dget raw ''command_entity'' = PStr command" "dget raw ''readback_entities'' = str_list readbacks"
    "dget raw ''emergency_off_entities'' = str_list emergency"
    "roles_wf entity acts command readbacks emergency"
  shows "roles raw entity acts strict = Inr (acts, command, readbacks, emergency)"
  using assms by (simp add: roles_def roles_wf_def)

lemma device_record_fix:
  assumes wf: "config_wf c" and "distinct (config_members c)" and "set (c_actuators c) \<inter> set ents = {}"
    and small: "c_priority c \<le> 100000" "c_shed_priority c \<le> 100000"
  shows "device_record (config_dict c) index ents strict = Inr (Some c)"
proof -
  have acts: "entities (str_list (c_actuators c)) strict (c_entity c # ents) = Inr (c_actuators c)"
    using assms by (intro entities_fix) (auto simp: config_members_def config_wf_def)
  have prio: "priorities_of (config_dict c) index strict = Inr (c_priority c, c_shed_priority c)"
    using wf small
    by (simp add: priorities_of_def config_dget positive_integer_fix safe_number_fix config_wf_def Let_def)
  have roles: "roles (config_dict c) (c_entity c) (c_actuators c) strict =
      Inr (c_actuators c, c_command_entity c, c_readback_entities c, c_emergency_off_entities c)"
    using wf by (intro roles_fix) (simp_all add: config_dget config_wf_def)
  have sensor: "entity_id (opt_str (c_power_sensor c)) sensor_domain = c_power_sensor c"
    using wf by (auto simp: opt_str_def config_wf_def split: option.split)
  have battery: "parse_battery_min_soc (opt_num (c_battery_min_soc c)) = c_battery_min_soc c"
    using wf by (auto simp: opt_num_def config_wf_def battery_fix parse_battery_min_soc_def [of PNone]
        split: option.split)
  have given: "given (opt_str (c_power_sensor c)) \<Longrightarrow> c_power_sensor c \<noteq> None"
    "given (opt_num (c_battery_min_soc c)) \<Longrightarrow> c_battery_min_soc c \<noteq> None"
    by (auto simp: given_def opt_str_def opt_num_def split: option.splits)
  show ?thesis
    using wf given
    by (auto simp: device_record_def config_dget acts prio roles sensor battery Let_def config_wf_def
        expected_power_fix text_or_def)
qed

lemma normalize_loop_fix:
  assumes "list_all config_wf cs" "distinct (map c_device_id cs)"
    "set (map c_device_id cs) \<inter> set ids = {}"
    "distinct (concat (map config_members cs))"
    "set (concat (map config_members cs)) \<inter> set ents = {}"
    "strict \<longrightarrow> distinct (map c_priority cs) \<and> set (map c_priority cs) \<inter> set prios = {}"
    "\<forall>c \<in> set cs. c_priority c \<le> 100000 \<and> c_shed_priority c \<le> 100000"
  shows "normalize_loop strict index ids ents prios (map (\<lambda>c. PDict (config_dict c)) cs) = Inr cs"
  using assms
proof (induction cs arbitrary: index ids ents prios)
  case Nil
  then show ?case by simp
next
  case (Cons c cs)
  have rec: "device_record (config_dict c) index ents strict = Inr (Some c)"
    using Cons.prems by (intro device_record_fix) (auto simp: config_members_def)
  have new: "c_device_id c \<notin> set ids" "c_entity c \<notin> set ents" "\<not> (strict \<and> c_priority c \<in> set prios)"
    using Cons.prems by (auto simp: config_members_def)
  have "normalize_loop strict (Suc index) (c_device_id c # ids) (c_entity c # c_actuators c @ ents)
      (c_priority c # prios) (map (\<lambda>c. PDict (config_dict c)) cs) = Inr cs"
    using Cons.prems by (intro Cons.IH) (auto simp: config_members_def)
  with rec new show ?case by simp
qed

section \<open>Properties\<close>

lemma normalize_ok:
  assumes "normalize_devices value strict = Inr cs"
  shows "distinct (map c_device_id cs) \<and> distinct (concat (map config_members cs))
    \<and> list_all config_wf cs \<and> (strict \<longrightarrow> distinct (map c_priority cs))"
proof (cases "\<exists>xs. value = PList xs")
  case True
  with assms obtain xs where "normalize_loop strict 0 [] [] [] xs = Inr cs"
    by (auto simp: normalize_devices_def)
  from normalize_loop_ok [OF this] show ?thesis by blast
next
  case False
  with assms have "cs = []" by (auto simp: normalize_devices_def split: pyval.splits if_splits)
  then show ?thesis by simp
qed

text \<open>C39. Whatever raw value the strict or the persisted adapter accepts, no two devices share an
  id or a control or actuator entity, and every device has an expected power in [1, 50000],
  positive priorities, at least one readback member, valid entity ids in every role and a
  battery minimum in (0, 100] if any; under the strict policy the priorities are distinct. An
  explicit command, readback or fallback entity is not checked against the other devices.\<close>

theorem normalized_devices_well_formed:
  assumes "normalize_devices value strict = Inr cs"
  shows "distinct (map c_device_id cs) \<and> distinct (concat (map config_members cs))
    \<and> list_all config_wf cs \<and> (strict \<longrightarrow> distinct (map c_priority cs))"
  using assms by (rule normalize_ok)

definition demo_raw_device :: pyval where
  "demo_raw_device = PDict [(''device_id'', PStr ''boiler''), (''entity'', PStr '' switch.boiler ''),
     (''expected_power'', PInt 2000)]"

definition demo_config :: device_config where
  "demo_config = \<lparr>c_device_id = ''boiler'', c_name = ''switch.boiler'', c_entity = ''switch.boiler'',
     c_expected_power = 2000, c_power_sensor = None, c_actuators = [],
     c_command_entity = ''switch.boiler'', c_readback_entities = [''switch.boiler''],
     c_emergency_off_entities = [], c_priority = 1, c_shed_priority = 1, c_battery_min_soc = None\<rparr>"

lemma demo_normalize: "normalize_devices (PList [demo_raw_device]) True = Inr [demo_config]"
  by (simp add: normalize_devices_def demo_raw_device_def demo_config_def device_record_def entity_id_def
      py_strip_def nonblank_def is_space_def domain_of_def CONTROL_DOMAINS_def entities_def roles_def
      priorities_of_def positive_integer_def given_def parse_battery_min_soc_def expected_power_of_def
      int_to_float_def float_overflow_def text_or_def startswith_def Let_def)

theorem normalized_devices_well_formed_witness:
  "distinct (concat (map config_members [demo_config])) \<and> config_wf demo_config
    \<and> distinct (map c_priority [demo_config])"
  using normalized_devices_well_formed [OF demo_normalize] by simp

text \<open>What an options edit stores is what the next setup loads: re-reading the records either
  adapter produced, as the dicts they are stored as, gives exactly the same records, under the
  persisted adapter and, where the priorities are distinct, under the strict one, as long as
  no priority exceeds 100000.\<close>

theorem normalized_devices_roundtrip:
  assumes "normalize_devices value strict = Inr cs"
    and "\<forall>c \<in> set cs. c_priority c \<le> 100000 \<and> c_shed_priority c \<le> 100000"
    and "strict' \<longrightarrow> distinct (map c_priority cs)"
  shows "normalize_devices (PList (map (\<lambda>c. PDict (config_dict c)) cs)) strict' = Inr cs"
  unfolding normalize_devices_def using normalize_ok [OF assms(1)] assms(2,3)
  by (simp add: normalize_loop_fix)

theorem normalized_devices_roundtrip_witness:
  "normalize_devices (PList (map (\<lambda>c. PDict (config_dict c)) [demo_config])) False = Inr [demo_config]"
  by (rule normalized_devices_roundtrip [OF demo_normalize]) (simp_all add: demo_config_def)

text \<open>Above 100000 the two adapters disagree: the strict one accepts the priority an edit asks
  for, the persisted one replaces it by the position in the list.\<close>

lemma large_priority_lost:
  "map_sum id (map c_priority) (normalize_devices (PList [PDict (AList.update ''priority'' (PInt 200000)
      (config_dict demo_config))]) True) = Inr [200000]"
  "map_sum id (map c_priority) (normalize_devices (PList [PDict (AList.update ''priority'' (PInt 200000)
      (config_dict demo_config))]) False) = Inr [1]"
  by (simp_all add: normalize_devices_def demo_config_def config_dict_def device_record_def entity_id_def
      py_strip_def nonblank_def is_space_def domain_of_def CONTROL_DOMAINS_def entities_def roles_def
      priorities_of_def positive_integer_def given_def parse_battery_min_soc_def expected_power_of_def
      int_to_float_def float_overflow_def text_or_def startswith_def str_list_def opt_str_def
      safe_number_def dget_or_def Let_def)

end
