(* ===== verification/Power_Model.thy ===== *)
theory Power_Model
  imports Device_Config "HOL-Library.Multiset"
begin

text \<open>
  \<open>power_model.py\<close>: one logical load with its roles and its runtime projection, and the
  table of loads. The table is the dict by device id in insertion order; the sort of the
  shedding order compares device ids as text.
\<close>

section \<open>Managed devices\<close>

record managed_device =
  d_device_id :: string
  d_name :: string
  d_entity_id :: string
  d_expected_power :: int
  d_power_sensor_id :: "string option"
  d_priority :: int
  d_shed_priority :: "int option"
  d_actuator_entity_ids :: "string list"
  d_command_entity_id :: "string option"
  d_readback_entity_ids :: "string list"
  d_emergency_off_entity_ids :: "string list"
  d_battery_min_soc :: "rat option"
  d_is_on :: "bool option"
  d_measured_power :: rat
  d_measured_power_valid :: bool
  d_measured_power_reason :: string
  d_pause_until :: "rat option"
  d_last_turn_off_time :: "rat option"

definition finite_timestamp :: "pyval \<Rightarrow> rat option res" where
  "finite_timestamp value =
     (if is_bool value \<or> \<not> is_number value then Inr None
      else rbind (py_float value) (\<lambda>c. Inr (if isfinite c then Some (fin_val c) else None)))"

definition control_entity_ids :: "managed_device \<Rightarrow> string list" where
  "control_entity_ids d = fromkeys (d_entity_id d # d_actuator_entity_ids d)"

text \<open>\<open>climate or self.entity_id\<close>: an id that starts with \<open>climate.\<close> is never empty.\<close>

definition command_entity :: "managed_device \<Rightarrow> string" where
  "command_entity d =
     (case d_command_entity_id d of
        Some (c # cs) \<Rightarrow> c # cs
      | _ \<Rightarrow> (case find (\<lambda>e. startswith e ''climate.'') (d_actuator_entity_ids d) of
               Some e \<Rightarrow> e | None \<Rightarrow> d_entity_id d))"

definition readback_entities :: "managed_device \<Rightarrow> string list" where
  "readback_entities d =
     (if d_readback_entity_ids d \<noteq> [] then fromkeys (d_readback_entity_ids d)
      else if startswith (command_entity d) ''climate.'' \<and> d_entity_id d \<noteq> command_entity d
      then [d_entity_id d]
      else control_entity_ids d)"

definition emergency_off_entities :: "managed_device \<Rightarrow> string list" where
  "emergency_off_entities d =
     (if d_emergency_off_entity_ids d \<noteq> [] then fromkeys (d_emergency_off_entity_ids d)
      else if d_entity_id d \<noteq> command_entity d then [d_entity_id d]
      else [])"

definition pause_active :: "managed_device \<Rightarrow> rat \<Rightarrow> bool" where
  "pause_active d now \<longleftrightarrow> (case d_pause_until d of None \<Rightarrow> False | Some p \<Rightarrow> now < p)"

definition device_to_dict :: "managed_device \<Rightarrow> pydict" where
  "device_to_dict d =
     [(''device_id'', PStr (d_device_id d)), (''name'', PStr (d_name d)),
      (''entity'', PStr (d_entity_id d)), (''expected_power'', PInt (d_expected_power d)),
      (''power_sensor'', opt_str (d_power_sensor_id d)), (''priority'', PInt (d_priority d)),
      (''shed_priority'', (case d_shed_priority d of None \<Rightarrow> PNone | Some i \<Rightarrow> PInt i)),
      (''actuators'', str_list (d_actuator_entity_ids d)),
      (''command_entity'', PStr (command_entity d)),
      (''readback_entities'', str_list (readback_entities d)),
      (''emergency_off_entities'', str_list (emergency_off_entities d)),
      (''battery_min_soc'', opt_num (d_battery_min_soc d)),
      (''is_on'', (case d_is_on d of None \<Rightarrow> PNone | Some b \<Rightarrow> PBool b)),
      (''measured_power'', if d_measured_power_valid d then PFloat (Fin (d_measured_power d)) else PNone),
      (''measured_power_valid'', PBool (d_measured_power_valid d)),
      (''measured_power_reason'', PStr (d_measured_power_reason d)),
      (''pause_until'', opt_num (d_pause_until d))]"

definition device_from_dict :: "pydict \<Rightarrow> managed_device res" where
  "device_from_dict data =
     rbind (model_configuration data) (\<lambda>m.
     rbind (finite_timestamp (dget data ''pause_until'')) (\<lambda>pause.
     Inr \<lparr>d_device_id = m_device_id m, d_name = m_name m, d_entity_id = m_entity_id m,
          d_expected_power = m_expected_power m, d_power_sensor_id = m_power_sensor_id m,
          d_priority = m_priority m, d_shed_priority = m_shed_priority m,
          d_actuator_entity_ids = m_actuator_entity_ids m,
          d_command_entity_id = m_command_entity_id m,
          d_readback_entity_ids = m_readback_entity_ids m,
          d_emergency_off_entity_ids = m_emergency_off_entity_ids m,
          d_battery_min_soc = m_battery_min_soc m, d_is_on = None, d_measured_power = 0,
          d_measured_power_valid = False, d_measured_power_reason = ''not_sampled'',
          d_pause_until = pause, d_last_turn_off_time = None\<rparr>))"

section \<open>The table of loads\<close>

type_synonym power_model = "(string \<times> managed_device) list"

definition add_device :: "power_model \<Rightarrow> managed_device \<Rightarrow> power_model" where
  "add_device m d = AList.update (d_device_id d) d m"

definition get_device :: "power_model \<Rightarrow> string \<Rightarrow> managed_device option" where
  "get_device m i = map_of m i"

definition all_devices :: "power_model \<Rightarrow> managed_device list" where
  "all_devices m = map snd m"

definition shed_key :: "managed_device \<Rightarrow> int \<times> string" where
  "shed_key d = (case d_shed_priority d of Some p \<Rightarrow> p | None \<Rightarrow> d_priority d, d_device_id d)"

definition get_shed_devices :: "power_model \<Rightarrow> managed_device list" where
  "get_shed_devices m = sort_key shed_key (all_devices m)"

definition get_sorted_devices :: "power_model \<Rightarrow> managed_device list" where
  "get_sorted_devices m = get_shed_devices m"

definition get_sorted_devices_reversed :: "power_model \<Rightarrow> managed_device list" where
  "get_sorted_devices_reversed m = rev (get_shed_devices m)"

definition get_on_devices :: "power_model \<Rightarrow> managed_device list" where
  "get_on_devices m = filter (\<lambda>d. d_is_on d = Some True) (all_devices m)"

definition get_off_devices :: "power_model \<Rightarrow> managed_device list" where
  "get_off_devices m = filter (\<lambda>d. d_is_on d = Some False) (all_devices m)"

definition total_measured_power :: "power_model \<Rightarrow> rat" where
  "total_measured_power m =
     sum_list (map d_measured_power
       (filter (\<lambda>d. d_is_on d = Some True \<and> d_measured_power_valid d) (all_devices m)))"

definition total_expected_power :: "power_model \<Rightarrow> rat \<Rightarrow> int" where
  "total_expected_power m now =
     sum_list (map d_expected_power
       (filter (\<lambda>d. d_is_on d = Some True \<and> \<not> pause_active d now) (all_devices m)))"

text \<open>A write through a device object the table holds.\<close>

definition set_device :: "string \<Rightarrow> (managed_device \<Rightarrow> managed_device) \<Rightarrow> power_model \<Rightarrow> power_model" where
  "set_device i f m = map (\<lambda>(k, d). (k, if k = i then f d else d)) m"

text \<open>The table's own invariant: keys are distinct and each is its device's id.\<close>

definition model_ok :: "power_model \<Rightarrow> bool" where
  "model_ok m \<longleftrightarrow> distinct (map fst m) \<and> (\<forall>(k, d) \<in> set m. d_device_id d = k)"

lemma model_ok_empty [simp]: "model_ok []"
  by (simp add: model_ok_def)

lemma model_ok_add [inv_intros]: "model_ok m \<Longrightarrow> model_ok (add_device m d)"
proof -
  assume ok: "model_ok m"
  have "(k, d') \<in> set (AList.update (d_device_id d) d m) \<Longrightarrow> d_device_id d' = k" for k d'
  proof -
    assume a: "(k, d') \<in> set (AList.update (d_device_id d) d m)"
    have dist: "distinct (map fst (AList.update (d_device_id d) d m))"
      using ok by (simp add: model_ok_def distinct_update)
    from a dist have "map_of (AList.update (d_device_id d) d m) k = Some d'" by simp
    then have "((map_of m)(d_device_id d \<mapsto> d)) k = Some d'" by (simp add: update_conv')
    then show "d_device_id d' = k"
      using ok by (auto simp: model_ok_def split: if_splits dest: map_of_SomeD)
  qed
  then show ?thesis using ok by (auto simp: model_ok_def add_device_def distinct_update)
qed

lemma model_ok_set_device [inv_intros]:
  "model_ok m \<Longrightarrow> (\<And>d. d_device_id (f d) = d_device_id d) \<Longrightarrow> model_ok (set_device i f m)"
  by (auto simp: model_ok_def set_device_def comp_def case_prod_beta)

lemma map_fst_set_device [simp]: "map fst (set_device i f m) = map fst m"
  by (simp add: set_device_def comp_def case_prod_beta)

lemma get_set_device [simp]:
  "get_device (set_device i f m) j = (if j = i then map_option f (get_device m j) else get_device m j)"
  by (induction m) (auto simp: set_device_def get_device_def)

lemma get_device_id: "model_ok m \<Longrightarrow> get_device m i = Some d \<Longrightarrow> d_device_id d = i"
  by (auto simp: model_ok_def get_device_def dest: map_of_SomeD)

lemma get_device_iff: "model_ok m \<Longrightarrow> d \<in> set (all_devices m) \<longleftrightarrow> get_device m (d_device_id d) = Some d"
  by (force simp: model_ok_def get_device_def all_devices_def dest: map_of_SomeD)

lemma set_shed_devices [simp]: "set (get_shed_devices m) = set (all_devices m)"
  by (simp add: get_shed_devices_def)

lemma sorted_shed_devices: "sorted (map shed_key (get_shed_devices m))"
  by (simp add: get_shed_devices_def)

lemma all_devices_ids: "model_ok m \<Longrightarrow> map d_device_id (all_devices m) = map fst m"
  by (auto simp: model_ok_def all_devices_def)

lemma distinct_shed_device_ids: "model_ok m \<Longrightarrow> distinct (map d_device_id (get_shed_devices m))"
proof -
  assume ok: "model_ok m"
  have "mset (map d_device_id (get_shed_devices m)) = mset (map d_device_id (all_devices m))"
    by (simp add: get_shed_devices_def)
  then show ?thesis
    using ok all_devices_ids [OF ok] by (metis mset_eq_imp_distinct_iff model_ok_def)
qed

end
