(* ===== verification/States.thy ===== *)
theory States
  imports Power_Model
begin

text \<open>
  \<open>states.py\<close>: the interpretation of Home Assistant entity states. A state is what
  \<open>hass.states.get\<close> documents: its text, its attributes and the time it was last reported.
  \<open>hass.states.get\<close> itself is a parameter, a function from entity ids to optional states.
\<close>

section \<open>Entity states\<close>

text \<open>
  \<open>last_reported\<close> is a datetime, with wall-clock seconds and an optional UTC offset (a naive
  datetime is read as UTC), or any other value.
\<close>

datatype stamp = Datetime rat "rat option" | StampValue pyval

record ha_state =
  st_state :: string
  st_attributes :: pydict
  st_last_reported :: stamp

type_synonym state_lookup = "string \<Rightarrow> ha_state option"

definition QUARANTINE_CLEAR_MAX_POWER_W :: rat where "QUARANTINE_CLEAR_MAX_POWER_W = 1"

definition state_is_available :: "ha_state option \<Rightarrow> bool" where
  "state_is_available s =
     (case s of None \<Rightarrow> False
      | Some st \<Rightarrow> st_state st \<noteq> ''unknown'' \<and> st_state st \<noteq> ''unavailable'')"

definition state_reported_timestamp :: "ha_state option \<Rightarrow> rat option" where
  "state_reported_timestamp s =
     (case s of None \<Rightarrow> None
      | Some st \<Rightarrow>
          (case st_last_reported st of
             Datetime wall offset \<Rightarrow> Some (wall - (case offset of None \<Rightarrow> 0 | Some z \<Rightarrow> z))
           | StampValue v \<Rightarrow>
               if is_number v \<and> \<not> is_bool v
               then (case py_float v of Inr f \<Rightarrow> if isfinite f then Some (fin_val f) else None
                     | Inl _ \<Rightarrow> None)
               else None))"

definition actuator_state_on :: "string \<Rightarrow> ha_state option \<Rightarrow> bool option" where
  "actuator_state_on entity s =
     (case s of None \<Rightarrow> None
      | Some st \<Rightarrow>
          if st_state st = ''unavailable'' \<or> st_state st = ''unknown'' then None
          else if domain_of entity \<in> set [''switch'', ''light'', ''input_boolean'', ''humidifier'']
          then (if st_state st = ''on'' then Some True
                else if st_state st = ''off'' then Some False else None)
          else if domain_of entity = ''climate'' then Some (st_state st \<noteq> ''off'')
          else None)"

definition ordinary_shedding_power_eligible :: "managed_device \<Rightarrow> bool" where
  "ordinary_shedding_power_eligible d =
     (if d_power_sensor_id d = None then True
      else d_measured_power_valid d \<and> QUARANTINE_CLEAR_MAX_POWER_W < d_measured_power d)"

definition logical_device_state :: "state_lookup \<Rightarrow> managed_device \<Rightarrow> bool option" where
  "logical_device_state states d =
     (let vs = map (\<lambda>e. actuator_state_on e (states e)) (readback_entities d)
      in if vs = [] \<or> None \<in> set vs then None
         else if list_all (\<lambda>v. v = Some True) vs then Some True
         else if \<not> list_ex (\<lambda>v. v = Some True) vs then Some False
         else None)"

definition logical_device_confirmed_off :: "state_lookup \<Rightarrow> managed_device \<Rightarrow> bool" where
  "logical_device_confirmed_off states d \<longleftrightarrow>
     logical_device_state states d = Some False
     \<and> actuator_state_on (command_entity d) (states (command_entity d)) = Some False"

section \<open>What a logical state says about its members\<close>

lemma readback_entities_nonempty: "readback_entities d \<noteq> []"
  by (simp add: readback_entities_def control_entity_ids_def)

lemma logical_state_iff:
  "logical_device_state states d = Some b \<longleftrightarrow>
     (\<forall>e \<in> set (readback_entities d). actuator_state_on e (states e) = Some b)"
proof -
  let ?vs = "map (\<lambda>e. actuator_state_on e (states e)) (readback_entities d)"
  have ne: "?vs \<noteq> []" using readback_entities_nonempty by simp
  have "(case ?vs of _ \<Rightarrow> (if ?vs = [] \<or> None \<in> set ?vs then None
         else if list_all (\<lambda>v. v = Some True) ?vs then Some True
         else if \<not> list_ex (\<lambda>v. v = Some True) ?vs then Some False else None)) = Some b
      \<longleftrightarrow> (\<forall>v \<in> set ?vs. v = Some b)"
  proof (cases b)
    case True
    then show ?thesis using ne by (auto simp: list_all_iff list_ex_iff)
  next
    case False
    have "(\<forall>v \<in> set ?vs. v = Some False) \<longleftrightarrow> None \<notin> set ?vs \<and> Some True \<notin> set ?vs"
      by (metis (full_types) not_None_eq option.sel)
    moreover have "\<exists>v. v \<in> set ?vs" using ne by (meson last_in_set)
    ultimately show ?thesis using False ne by (auto simp: list_all_iff list_ex_iff)
  qed
  then show ?thesis by (simp add: logical_device_state_def Let_def)
qed

text \<open>A load counts as on, or as off, exactly when every one of its required readback members
  reports on, or off; a single unknown, unavailable, missing or contradicting member makes the
  state unknown. Confirmed off requires in addition that the command entity itself is off.\<close>

theorem logical_state_unanimous:
  "(logical_device_state states d = Some b \<longleftrightarrow>
      list_all (\<lambda>e. actuator_state_on e (states e) = Some b) (readback_entities d))
   \<and> (logical_device_confirmed_off states d \<longleftrightarrow>
      list_all (\<lambda>e. actuator_state_on e (states e) = Some False) (command_entity d # readback_entities d))
   \<and> \<not> (logical_device_state states d = Some True \<and> logical_device_confirmed_off states d)"
  unfolding list_all_iff logical_device_confirmed_off_def logical_state_iff
  using readback_entities_nonempty [of d] by (cases "readback_entities d") auto

end
