(* ===== verification/Telemetry.thy ===== *)
theory Telemetry
  imports States
begin

text \<open>
  \<open>telemetry.py\<close>: the aggregate load reading and the grid or battery safety source.
\<close>

section \<open>Aggregate load\<close>

definition LOAD_TELEMETRY_MAX_AGE_SECONDS :: rat where "LOAD_TELEMETRY_MAX_AGE_SECONDS = 180"

record load_reading =
  lr_value :: rat
  lr_valid :: bool
  lr_reason :: string
  lr_reported_at :: "rat option"

definition bad_reading :: "string \<Rightarrow> rat option \<Rightarrow> load_reading" where
  "bad_reading reason r = \<lparr>lr_value = 0, lr_valid = False, lr_reason = reason, lr_reported_at = r\<rparr>"

text \<open>
  \<open>str(unit).strip()\<close> of the unit attribute; the text of a value that is not a string is never
  one of the unit names the code compares with.
\<close>

definition unit_of :: "ha_state \<Rightarrow> string" where
  "unit_of s = (case dget (st_attributes s) ''unit_of_measurement'' of PStr u \<Rightarrow> py_strip u | _ \<Rightarrow> ''?'')"

text \<open>\<open>float(state.state)\<close>, NaN where that raises; scaling by 1000 for kilowatts.\<close>

definition state_number :: "ha_state \<Rightarrow> pyfloat" where
  "state_number s = (case parse_float (st_state s) of Some f \<Rightarrow> f | None \<Rightarrow> NaN)"

fun times1000 :: "pyfloat \<Rightarrow> pyfloat" where
  "times1000 (Fin x) = to_float (x * 1000)"
| "times1000 f = f"

text \<open>The number in watts, None where the unit is not a power unit.\<close>

definition load_in_watts :: "ha_state \<Rightarrow> pyfloat option" where
  "load_in_watts s =
     (let unit = py_lower (unit_of s)
      in if unit = ''kw'' \<or> unit = ''kilowatt'' \<or> unit = ''kilowatts'' then Some (times1000 (state_number s))
         else if unit = ''w'' \<or> unit = ''watt'' \<or> unit = ''watts'' then Some (state_number s)
         else None)"

definition read_load_state :: "ha_state option \<Rightarrow> rat \<Rightarrow> load_reading" where
  "read_load_state state now =
     (case state of
        None \<Rightarrow> bad_reading ''unavailable'' None
      | Some s \<Rightarrow>
          if \<not> state_is_available (Some s) then bad_reading ''unavailable'' None
          else
            (case load_in_watts s of
               None \<Rightarrow> bad_reading ''unsupported_unit'' None
             | Some value \<Rightarrow>
                 if \<not> isfinite value \<or> value < Fin 0 then bad_reading ''invalid_value'' None
                 else case state_reported_timestamp (Some s) of
                        None \<Rightarrow> bad_reading ''stale'' None
                      | Some reported \<Rightarrow>
                          if \<not> (0 \<le> now - reported \<and> now - reported \<le> LOAD_TELEMETRY_MAX_AGE_SECONDS)
                          then bad_reading ''stale'' (Some reported)
                          else \<lparr>lr_value = fin_val value, lr_valid = True, lr_reason = ''ok'',
                                lr_reported_at = Some reported\<rparr>))"

definition read_load_sensor :: "state_lookup \<Rightarrow> string \<Rightarrow> rat \<Rightarrow> load_reading" where
  "read_load_sensor states load_sensor now = read_load_state (states load_sensor) now"

section \<open>Safety source\<close>

record safety_source =
  ss_mode :: string
  ss_grid_sensor :: "string option"
  ss_battery_soc_sensor :: "string option"
  ss_battery_threshold :: "rat option"

definition truthy_str :: "string option \<Rightarrow> bool" where
  "truthy_str s \<longleftrightarrow> s \<noteq> None \<and> s \<noteq> Some []"

definition source_configured :: "safety_source \<Rightarrow> bool" where
  "source_configured ss =
     (if ss_mode ss = ''grid_loss_sensor'' then truthy_str (ss_grid_sensor ss)
      else if ss_mode ss = ''battery_threshold''
      then truthy_str (ss_battery_soc_sensor ss) \<and> ss_battery_threshold ss \<noteq> None
      else False)"

definition source_sensor_id :: "safety_source \<Rightarrow> string option" where
  "source_sensor_id ss =
     (if ss_mode ss = ''grid_loss_sensor'' then ss_grid_sensor ss else ss_battery_soc_sensor ss)"

definition source_entity_id :: "safety_source \<Rightarrow> string option" where
  "source_entity_id ss = (if source_configured ss then source_sensor_id ss else None)"

definition percent_unit :: "ha_state \<Rightarrow> bool" where
  "percent_unit s \<longleftrightarrow> unit_of s = ''%'' \<or> unit_of s = ''percent''"

text \<open>A state of charge in [0, 100], None where the text is not such a number.\<close>

definition soc_value :: "ha_state \<Rightarrow> rat option" where
  "soc_value s =
     (case state_number s of Fin x \<Rightarrow> if 0 \<le> x \<and> x \<le> 100 then Some x else None | _ \<Rightarrow> None)"

definition available_state :: "safety_source \<Rightarrow> ha_state option \<Rightarrow> bool" where
  "available_state ss state =
     (if \<not> source_configured ss \<or> \<not> state_is_available state then False
      else case state of None \<Rightarrow> False
        | Some s \<Rightarrow>
            if ss_mode ss = ''grid_loss_sensor'' then st_state s = ''on'' \<or> st_state s = ''off''
            else if \<not> percent_unit s then False
            else soc_value s \<noteq> None)"

definition source_available :: "safety_source \<Rightarrow> state_lookup \<Rightarrow> bool" where
  "source_available ss states =
     (if \<not> source_configured ss then False
      else case source_sensor_id ss of None \<Rightarrow> False
           | Some sensor \<Rightarrow> available_state ss (states sensor))"

definition ok_state :: "safety_source \<Rightarrow> ha_state option \<Rightarrow> bool" where
  "ok_state ss state =
     (if \<not> available_state ss state then False
      else case state of None \<Rightarrow> False
        | Some s \<Rightarrow>
            if ss_mode ss = ''grid_loss_sensor'' then st_state s = ''on''
            else if \<not> percent_unit s then False
            else case (ss_battery_threshold ss, soc_value s) of
                   (Some threshold, Some soc) \<Rightarrow> threshold < soc
                 | _ \<Rightarrow> False)"

definition source_ok :: "safety_source \<Rightarrow> state_lookup \<Rightarrow> bool" where
  "source_ok ss states =
     (if \<not> source_configured ss \<or> \<not> source_available ss states then False
      else case source_sensor_id ss of None \<Rightarrow> False
           | Some sensor \<Rightarrow> ok_state ss (states sensor))"

section \<open>Facts\<close>

definition good_load :: "ha_state option \<Rightarrow> rat \<Rightarrow> rat \<Rightarrow> rat \<Rightarrow> bool" where
  "good_load state now x r \<longleftrightarrow>
     (\<exists>s. state = Some s \<and> state_is_available state \<and> state_reported_timestamp state = Some r
        \<and> r \<le> now \<and> now - r \<le> 180 \<and> 0 \<le> x \<and> load_in_watts s = Some (Fin x))"

lemma good_load_reading:
  "good_load state now x r \<Longrightarrow>
   read_load_state state now =
     \<lparr>lr_value = x, lr_valid = True, lr_reason = ''ok'', lr_reported_at = Some r\<rparr>"
  by (auto simp: good_load_def read_load_state_def LOAD_TELEMETRY_MAX_AGE_SECONDS_def)

lemma valid_load_good: "lr_valid (read_load_state state now) \<Longrightarrow> \<exists>x r. good_load state now x r"
proof (cases state)
  case None
  then show "lr_valid (read_load_state state now) \<Longrightarrow> ?thesis"
    by (simp add: read_load_state_def bad_reading_def)
next
  case (Some s)
  show "lr_valid (read_load_state state now) \<Longrightarrow> ?thesis"
  proof (cases "load_in_watts s")
    case None
    with Some show "lr_valid (read_load_state state now) \<Longrightarrow> ?thesis"
      by (auto simp: read_load_state_def bad_reading_def split: if_splits)
  next
    case v: (Some v)
    then show "lr_valid (read_load_state state now) \<Longrightarrow> ?thesis"
      unfolding read_load_state_def bad_reading_def good_load_def LOAD_TELEMETRY_MAX_AGE_SECONDS_def
        \<open>state = Some s\<close>
      by (cases v; cases "state_is_available (Some s)"; cases "state_reported_timestamp (Some s)")
        (auto simp: not_less split: if_splits)
  qed
qed

lemma read_load_valid:
  "lr_valid (read_load_state state now) \<Longrightarrow>
   0 \<le> lr_value (read_load_state state now) \<and> lr_reason (read_load_state state now) = ''ok''
   \<and> state_is_available state
   \<and> (\<exists>r. lr_reported_at (read_load_state state now) = Some r
        \<and> state_reported_timestamp state = Some r \<and> r \<le> now \<and> now - r \<le> 180)"
proof -
  assume "lr_valid (read_load_state state now)"
  then obtain x r where g: "good_load state now x r" using valid_load_good by blast
  then have "state_is_available state \<and> state_reported_timestamp state = Some r \<and> r \<le> now
      \<and> now - r \<le> 180 \<and> 0 \<le> x"
    unfolding good_load_def by blast
  then show ?thesis by (simp add: good_load_reading [OF g])
qed

lemma read_load_rest:
  "lr_valid (read_load_state state now) \<or>
   lr_value (read_load_state state now) = 0 \<and> lr_reason (read_load_state state now) \<noteq> ''ok''"
  unfolding read_load_state_def bad_reading_def
  by (auto split: option.split)

lemma source_ok_available: "source_ok ss states \<Longrightarrow> source_available ss states"
  by (auto simp: source_ok_def split: if_splits)

lemma source_ok_configured: "source_ok ss states \<Longrightarrow> source_configured ss"
  by (auto simp: source_ok_def split: if_splits)

text \<open>A reading is valid only when the sensor's state is usable, its unit is a power unit, its
  value is a finite non-negative number and its report is between 0 and 180 seconds old; the
  value is then the number in watts. Every other reading carries value 0 and a reason.\<close>

theorem read_load_sound:
  "(lr_valid (read_load_state state now) \<longleftrightarrow>
     (\<exists>s x r. state = Some s \<and> state_is_available state \<and> state_reported_timestamp state = Some r
        \<and> r \<le> now \<and> now - r \<le> 180 \<and> 0 \<le> x
        \<and> ((py_lower (unit_of s) \<in> set [''w'', ''watt'', ''watts''] \<and> state_number s = Fin x)
           \<or> (py_lower (unit_of s) \<in> set [''kw'', ''kilowatt'', ''kilowatts'']
              \<and> times1000 (state_number s) = Fin x))
        \<and> lr_value (read_load_state state now) = x))
   \<and> (lr_valid (read_load_state state now) \<or>
      lr_value (read_load_state state now) = 0 \<and> lr_reason (read_load_state state now) \<noteq> ''ok'')"
proof -
  have watts: "load_in_watts s = Some f \<longleftrightarrow>
      (py_lower (unit_of s) \<in> set [''w'', ''watt'', ''watts''] \<and> state_number s = f)
      \<or> (py_lower (unit_of s) \<in> set [''kw'', ''kilowatt'', ''kilowatts''] \<and> times1000 (state_number s) = f)" for s f
    unfolding load_in_watts_def Let_def by auto
  have "lr_valid (read_load_state state now) \<longleftrightarrow>
      (\<exists>x r. good_load state now x r \<and> lr_value (read_load_state state now) = x)"
  proof
    assume "lr_valid (read_load_state state now)"
    then obtain x r where g: "good_load state now x r" using valid_load_good by blast
    then have "lr_value (read_load_state state now) = x" by (simp add: good_load_reading [OF g])
    with g show "\<exists>x r. good_load state now x r \<and> lr_value (read_load_state state now) = x" by blast
  next
    assume "\<exists>x r. good_load state now x r \<and> lr_value (read_load_state state now) = x"
    then obtain x r where g: "good_load state now x r" by blast
    show "lr_valid (read_load_state state now)" by (simp add: good_load_reading [OF g])
  qed
  then show ?thesis
    unfolding good_load_def watts [symmetric] using read_load_rest [of state now] by blast
qed

text \<open>The safety source permits commands only when it is configured, its own sensor reports a
  usable state and that state proves supply: \<open>on\<close> for a grid sensor, a percentage in [0, 100]
  strictly above the configured threshold for a battery. In every other case it is not ok.\<close>

theorem source_ok_iff:
  "source_ok ss states \<longleftrightarrow>
     (\<exists>sensor s. sensor \<noteq> [] \<and> states sensor = Some s \<and>
        ((ss_mode ss = ''grid_loss_sensor'' \<and> ss_grid_sensor ss = Some sensor \<and> st_state s = ''on'')
         \<or> (ss_mode ss = ''battery_threshold'' \<and> ss_battery_soc_sensor ss = Some sensor
            \<and> state_is_available (Some s) \<and> percent_unit s
            \<and> (\<exists>threshold soc. ss_battery_threshold ss = Some threshold
                 \<and> state_number s = Fin soc \<and> 0 \<le> soc \<and> soc \<le> 100 \<and> threshold < soc))))"
proof -
  have soc: "soc_value s = Some x \<longleftrightarrow> state_number s = Fin x \<and> 0 \<le> x \<and> x \<le> 100" for s x
    by (auto simp: soc_value_def split: pyfloat.splits)
  have soc_none: "soc_value s = None \<longleftrightarrow> \<not> (\<exists>x. state_number s = Fin x \<and> 0 \<le> x \<and> x \<le> 100)" for s
    using soc [of s] by (cases "soc_value s") auto
  consider "ss_mode ss = ''grid_loss_sensor''" | "ss_mode ss = ''battery_threshold''"
    | "ss_mode ss \<noteq> ''grid_loss_sensor''" "ss_mode ss \<noteq> ''battery_threshold''" by blast
  then show ?thesis
  proof cases
    case 1
    then show ?thesis
      by (cases "ss_grid_sensor ss")
        (auto simp: source_ok_def source_available_def source_configured_def source_sensor_id_def
          available_state_def ok_state_def truthy_str_def state_is_available_def split: option.splits)
  next
    case 2
    then show ?thesis
      by (cases "ss_battery_soc_sensor ss"; cases "ss_battery_threshold ss")
        (auto simp: source_ok_def source_available_def source_configured_def source_sensor_id_def
          available_state_def ok_state_def truthy_str_def soc soc_none split: option.splits)
  next
    case 3
    then show ?thesis by (simp add: source_ok_def source_configured_def)
  qed
qed

end
