(* ===== verification/Selection.thy ===== *)
theory Selection
  imports States
begin

text \<open>
  \<open>selection.py\<close>: which load is shed next, why the others are not, and which pending loads may
  be restored.
\<close>

section \<open>Shedding\<close>

definition MAX_SHED_REJECTION_DETAILS :: nat where "MAX_SHED_REJECTION_DETAILS = 12"

definition shed_rejection_reason :: "managed_device \<Rightarrow> string set \<Rightarrow> string option" where
  "shed_rejection_reason d quarantined =
     (if d_is_on d = Some False then Some ''off''
      else if d_is_on d \<noteq> Some True then Some ''state_unavailable''
      else if d_device_id d \<in> quarantined then Some ''quarantined''
      else if d_power_sensor_id d \<noteq> None \<and> \<not> d_measured_power_valid d
      then Some (''power_'' @ d_measured_power_reason d)
      else if d_power_sensor_id d \<noteq> None \<and> d_measured_power d \<le> QUARANTINE_CLEAR_MAX_POWER_W
      then Some ''inactive_power''
      else None)"

record rejection_detail =
  rd_device_id :: string
  rd_name :: string
  rd_reason :: string
  rd_measured_power_w :: "rat option"

definition mk_rejection_detail :: "managed_device \<Rightarrow> string \<Rightarrow> rejection_detail" where
  "mk_rejection_detail d reason =
     \<lparr>rd_device_id = d_device_id d, rd_name = take 80 (d_name d), rd_reason = reason,
      rd_measured_power_w = (if d_measured_power_valid d then Some (d_measured_power d) else None)\<rparr>"

record shed_rejections =
  sr_counts :: "(string \<times> nat) list"
  sr_devices :: "rejection_detail list"
  sr_total :: nat
  sr_truncated :: nat
  sr_evaluated_at :: "rat option"

definition bump :: "string \<Rightarrow> (string \<times> nat) list \<Rightarrow> (string \<times> nat) list" where
  "bump reason counts =
     AList.update reason ((case map_of counts reason of None \<Rightarrow> 0 | Some n \<Rightarrow> n) + 1) counts"

text \<open>The loop over the loads in shedding order.\<close>

fun shed_scan ::
  "string set \<Rightarrow> managed_device list \<Rightarrow> managed_device list \<times> (string \<times> nat) list \<times> rejection_detail list
     \<Rightarrow> managed_device list \<times> (string \<times> nat) list \<times> rejection_detail list" where
  "shed_scan quarantined [] acc = acc"
| "shed_scan quarantined (d # ds) (candidates, counts, details) =
     (case shed_rejection_reason d quarantined of
        None \<Rightarrow> shed_scan quarantined ds (candidates @ [d], counts, details)
      | Some reason \<Rightarrow>
          shed_scan quarantined ds
            (candidates, bump reason counts,
             if length details < MAX_SHED_REJECTION_DETAILS
             then details @ [mk_rejection_detail d reason] else details))"

definition shed_candidates ::
  "power_model \<Rightarrow> string set \<Rightarrow> rat \<Rightarrow> managed_device list \<times> shed_rejections" where
  "shed_candidates model quarantined now =
     (case shed_scan quarantined (get_shed_devices model) ([], [], []) of
        (candidates, counts, details) \<Rightarrow>
          (let total = sum_list (map snd counts)
           in (candidates,
               if candidates \<noteq> []
               then \<lparr>sr_counts = [], sr_devices = [], sr_total = 0, sr_truncated = 0,
                     sr_evaluated_at = Some now\<rparr>
               else \<lparr>sr_counts = sort_key fst counts, sr_devices = details, sr_total = total,
                     sr_truncated = total - length details, sr_evaluated_at = Some now\<rparr>)))"

definition shed_rejection_summary :: "(string \<times> nat) list \<Rightarrow> string" where
  "shed_rejection_summary counts =
     (if counts = [] then ''no configured devices''
      else take 180 (tl (tl (concat (map (\<lambda>(r, n). '', '' @ r @ ''='' @ nat_text n) counts)))))"

section \<open>Restoring\<close>

definition restore_eligible ::
  "state_lookup \<Rightarrow> rat \<Rightarrow> managed_device \<Rightarrow> string set \<Rightarrow> string set \<Rightarrow> rat \<Rightarrow> rat \<Rightarrow> bool" where
  "restore_eligible states now d faulted quarantined lowest current =
     (if d_device_id d \<in> faulted \<or> d_device_id d \<in> quarantined then False
      else if logical_device_state states d \<noteq> Some False \<or> pause_active d now then False
      else current + max 0 (of_int (d_expected_power d)) < lowest)"

definition restore_candidates ::
  "state_lookup \<Rightarrow> rat \<Rightarrow> power_model \<Rightarrow> string list \<Rightarrow> string set \<Rightarrow> string set \<Rightarrow> rat \<Rightarrow> rat
     \<Rightarrow> managed_device list" where
  "restore_candidates states now model planner_shed faulted quarantined lowest current =
     filter (\<lambda>d. restore_eligible states now d faulted quarantined lowest current)
       (List.map_filter (get_device model) (rev planner_shed))"

section \<open>Facts\<close>

lemma shed_scan_candidates:
  "fst (shed_scan q ds (cs, ns, rs)) = cs @ filter (\<lambda>d. shed_rejection_reason d q = None) ds"
  by (induction ds arbitrary: cs ns rs) (auto split: option.split)

lemma candidates_filter:
  "fst (shed_candidates model q now) =
     filter (\<lambda>d. shed_rejection_reason d q = None) (get_shed_devices model)"
  by (simp add: shed_candidates_def shed_scan_candidates Let_def case_prod_beta)

lemma sum_bump: "sum_list (map snd (bump r ns)) = Suc (sum_list (map snd ns))"
proof (induction ns)
  case Nil
  then show ?case by (simp add: bump_def)
next
  case (Cons p ns)
  then show ?case by (cases p) (auto simp: bump_def)
qed

lemma shed_scan_total:
  "sum_list (map snd (fst (snd (shed_scan q ds (cs, ns, rs))))) =
     sum_list (map snd ns) + length (filter (\<lambda>d. shed_rejection_reason d q \<noteq> None) ds)"
  by (induction ds arbitrary: cs ns rs) (auto simp: sum_bump split: option.split)

lemma take_snoc_full: "length rs < n \<Longrightarrow> take n (rs @ x # xs) = take n ((rs @ [x]) @ xs)"
  by simp

lemma shed_scan_details:
  "length rs \<le> MAX_SHED_REJECTION_DETAILS \<Longrightarrow>
   snd (snd (shed_scan q ds (cs, ns, rs))) =
     take MAX_SHED_REJECTION_DETAILS (rs @ map (\<lambda>d. mk_rejection_detail d (the (shed_rejection_reason d q)))
        (filter (\<lambda>d. shed_rejection_reason d q \<noteq> None) ds))"
proof (induction ds arbitrary: cs ns rs)
  case Nil
  then show ?case by simp
next
  case (Cons d ds)
  show ?case
  proof (cases "shed_rejection_reason d q")
    case None
    with Cons show ?thesis by simp
  next
    case (Some r)
    show ?thesis
    proof (cases "length rs < MAX_SHED_REJECTION_DETAILS")
      case True
      then have "length (rs @ [mk_rejection_detail d r]) \<le> MAX_SHED_REJECTION_DETAILS" by simp
      from Cons.IH [OF this] True Some show ?thesis by simp
    next
      case False
      with Cons.prems Some Cons.IH [OF Cons.prems] show ?thesis by simp
    qed
  qed
qed

lemma rejection_None_iff:
  "shed_rejection_reason d q = None \<longleftrightarrow>
     d_is_on d = Some True \<and> d_device_id d \<notin> q \<and> ordinary_shedding_power_eligible d"
  by (auto simp: shed_rejection_reason_def ordinary_shedding_power_eligible_def not_le)

lemma filter_rejected_all:
  "filter (\<lambda>d. shed_rejection_reason d q = None) ds = [] \<Longrightarrow>
   filter (\<lambda>d. shed_rejection_reason d q \<noteq> None) ds = ds"
  by (induction ds) (auto split: if_splits)

lemma length_shed_devices: "length (get_shed_devices m) = length m"
  by (simp add: get_shed_devices_def all_devices_def)

text \<open>C20. The shedding candidates are exactly the loads that are on, not quarantined and, if
  metered, validly measured above 1 W, in the configured shedding order. A rejection summary is
  produced only when no load qualifies: it counts every configured load once, details the first
  twelve, and reports how many were left out.\<close>

theorem shed_candidates_exact:
  "(case shed_candidates model q now of (candidates, rejected) \<Rightarrow>
      candidates = filter (\<lambda>d. d_is_on d = Some True \<and> d_device_id d \<notin> q
                     \<and> (d_power_sensor_id d = None \<or> d_measured_power_valid d \<and> 1 < d_measured_power d))
                   (get_shed_devices model)
      \<and> sorted (map shed_key candidates)
      \<and> sum_list (map snd (sr_counts rejected)) = sr_total rejected
      \<and> sr_total rejected = (if candidates = [] then length model else 0)
      \<and> map rd_device_id (sr_devices rejected)
          = (if candidates = [] then take 12 (map d_device_id (get_shed_devices model)) else [])
      \<and> sr_truncated rejected = sr_total rejected - 12)"
proof -
  let ?ds = "get_shed_devices model"
  obtain cs ns rs where scan: "shed_scan q ?ds ([], [], []) = (cs, ns, rs)"
    by (metis prod_cases3)
  have cs: "cs = filter (\<lambda>d. shed_rejection_reason d q = None) ?ds"
    using shed_scan_candidates [of q ?ds "[]" "[]" "[]"] scan by simp
  have ns: "sum_list (map snd ns) = length (filter (\<lambda>d. shed_rejection_reason d q \<noteq> None) ?ds)"
    using shed_scan_total [of q ?ds "[]" "[]" "[]"] scan by simp
  have rs: "map rd_device_id rs =
      take 12 (map d_device_id (filter (\<lambda>d. shed_rejection_reason d q \<noteq> None) ?ds))"
    using shed_scan_details [of "[]" q ?ds "[]" "[]"] scan
    by (simp add: MAX_SHED_REJECTION_DETAILS_def take_map comp_def mk_rejection_detail_def)
  have cs': "cs = filter (\<lambda>d. d_is_on d = Some True \<and> d_device_id d \<notin> q
                     \<and> (d_power_sensor_id d = None \<or> d_measured_power_valid d \<and> 1 < d_measured_power d)) ?ds"
    unfolding cs by (intro filter_cong refl)
      (auto simp: rejection_None_iff ordinary_shedding_power_eligible_def QUARANTINE_CLEAR_MAX_POWER_W_def)
  have sorted: "sorted (map shed_key cs)"
    unfolding cs by (rule sorted_filter) (rule sorted_shed_devices)
  have counts: "sum_list (map snd (sort_key fst ns)) = sum_list (map snd ns)"
    by (metis mset_map mset_sort sum_mset_sum_list)
  have all: "filter (\<lambda>d. shed_rejection_reason d q \<noteq> None) ?ds = ?ds" if "cs = []"
    using filter_rejected_all that unfolding cs .
  have n: "cs = [] \<longrightarrow> sum_list (map snd ns) = length model"
    using ns all by (simp add: length_shed_devices)
  have r: "cs = [] \<longrightarrow> map rd_device_id rs = take 12 (map d_device_id ?ds)" using rs all by simp
  then have "cs = [] \<longrightarrow> length rs = min (length model) 12"
    by (metis length_map length_take length_shed_devices)
  then show ?thesis
    unfolding cs' [symmetric] shed_candidates_def scan prod.case Let_def
    using sorted n r counts by (cases "cs = []") simp_all
qed

lemma restore_eligible_iff:
  "restore_eligible states now d faulted quarantined lowest current \<longleftrightarrow>
     d_device_id d \<notin> faulted \<union> quarantined \<and> logical_device_state states d = Some False
     \<and> \<not> pause_active d now \<and> current + max 0 (of_int (d_expected_power d)) < lowest"
  by (auto simp: restore_eligible_def)

lemma get_devices_ids_subseq:
  "model_ok model \<Longrightarrow> subseq (map d_device_id (List.map_filter (get_device model) ids)) ids"
  by (induction ids) (auto simp: List.map_filter_simps get_device_id split: option.split)

text \<open>C21. A load is an automatic restore candidate exactly when it is in the durable pending queue,
  configured, neither faulted nor quarantined, proved off by every readback member, not paused,
  and its expected power added to the current load stays strictly below the lowest limit; the
  candidates are tried in the reverse of the order they were shed in.\<close>

theorem restore_candidates_exact:
  assumes "model_ok model"
  shows "(d \<in> set (restore_candidates states now model pending faulted quarantined lowest current) \<longleftrightarrow>
     d_device_id d \<in> set pending \<and> get_device model (d_device_id d) = Some d
     \<and> d_device_id d \<notin> faulted \<union> quarantined
     \<and> (\<forall>e \<in> set (readback_entities d). actuator_state_on e (states e) = Some False)
     \<and> \<not> pause_active d now \<and> current < lowest \<and> current + of_int (d_expected_power d) < lowest)
   \<and> subseq (map d_device_id
        (restore_candidates states now model pending faulted quarantined lowest current)) (rev pending)"
proof -
  have "d \<in> set (List.map_filter (get_device model) (rev pending)) \<longleftrightarrow>
      d_device_id d \<in> set pending \<and> get_device model (d_device_id d) = Some d"
  proof
    assume "d \<in> set (List.map_filter (get_device model) (rev pending))"
    then obtain i where "i \<in> set pending" "get_device model i = Some d"
      by (auto simp: List.map_filter_def)
    with get_device_id [OF assms] show
      "d_device_id d \<in> set pending \<and> get_device model (d_device_id d) = Some d" by auto
  next
    assume a: "d_device_id d \<in> set pending \<and> get_device model (d_device_id d) = Some d"
    then have "the (get_device model (d_device_id d)) \<in>
        (the \<circ> get_device model) ` {i \<in> set pending. get_device model i \<noteq> None}" by force
    with a show "d \<in> set (List.map_filter (get_device model) (rev pending))"
      by (simp add: List.map_filter_def)
  qed
  moreover have "subseq (map d_device_id
      (restore_candidates states now model pending faulted quarantined lowest current)) (rev pending)"
    unfolding restore_candidates_def
    using subseq_order.trans [OF subseq_map [OF subseq_filter_left] get_devices_ids_subseq [OF assms]] .
  moreover have "d \<in> set (restore_candidates states now model pending faulted quarantined lowest current)
      \<longleftrightarrow> d \<in> set (List.map_filter (get_device model) (rev pending))
        \<and> restore_eligible states now d faulted quarantined lowest current"
    by (simp add: restore_candidates_def)
  moreover have "current + max 0 (x :: rat) < lowest \<longleftrightarrow> current < lowest \<and> current + x < lowest"
    for x by (cases "0 \<le> x") (auto simp: max_def)
  ultimately show ?thesis
    unfolding restore_eligible_iff logical_state_iff by (simp only: conj_assoc simp_thms)
qed

definition demo_load :: "string \<Rightarrow> int \<Rightarrow> managed_device" where
  "demo_load i watts =
     \<lparr>d_device_id = i, d_name = i, d_entity_id = ''switch.'' @ i, d_expected_power = watts,
      d_power_sensor_id = None, d_priority = 1, d_shed_priority = None,
      d_actuator_entity_ids = [], d_command_entity_id = None, d_readback_entity_ids = [],
      d_emergency_off_entity_ids = [], d_battery_min_soc = None, d_is_on = Some False,
      d_measured_power = 0, d_measured_power_valid = False,
      d_measured_power_reason = ''not_sampled'', d_pause_until = None, d_last_turn_off_time = None\<rparr>"

definition demo_states :: state_lookup where
  "demo_states e = Some \<lparr>st_state = ''off'', st_attributes = [], st_last_reported = Datetime 0 None\<rparr>"

lemma restore_candidates_exact_witness:
  "demo_load ''a'' 500 \<in> set (restore_candidates demo_states 0 [(''a'', demo_load ''a'' 500)] [''a''] {} {} 2000 1000)
   \<and> demo_load ''b'' 1000 \<notin> set (restore_candidates demo_states 0 [(''b'', demo_load ''b'' 1000)] [''b''] {} {} 2000 1000)"
proof -
  have ok: "model_ok [(i, demo_load i n)]" for i n
    by (simp add: model_ok_def demo_load_def)
  have off: "actuator_state_on e (demo_states e) = Some False" if "e \<in> set (readback_entities (demo_load i n))" for e i n
    using that
    by (simp add: readback_entities_def command_entity_def control_entity_ids_def demo_load_def
        demo_states_def actuator_state_on_def domain_of_def startswith_def)
  show ?thesis
    using restore_candidates_exact [OF ok [of "''a''" 500], of "demo_load ''a'' 500" demo_states 0 "[''a'']" "{}" "{}" 2000 1000]
      restore_candidates_exact [OF ok [of "''b''" 1000], of "demo_load ''b'' 1000" demo_states 0 "[''b'']" "{}" "{}" 2000 1000]
      off [of _ "''a''" 500] 
    by (simp add: demo_load_def get_device_def pause_active_def)
qed

end
