(* ===== verification/Json_Text.thy ===== *)
theory Json_Text
  imports Prelude
begin

text \<open>
  \<open>json.loads\<close> as documented: RFC 8259 values with Python's extensions NaN, Infinity and
  -Infinity, integers without fraction or exponent read as \<open>int\<close> and other numbers as \<open>float\<close>,
  duplicate keys resolved to the last value, a \<open>ValueError\<close> (here None) for any other text.
  An escape of a code point above 255 is outside the model of text and is read as an error.
\<close>

definition json_space :: "char \<Rightarrow> bool" where
  "json_space c \<longleftrightarrow> c = CHR '' '' \<or> (of_char c :: nat) = 9 \<or> (of_char c :: nat) = 10 \<or> (of_char c :: nat) = 13"

definition skip_ws :: "string \<Rightarrow> string" where
  "skip_ws s = dropWhile json_space s"

definition hex_val :: "char \<Rightarrow> nat option" where
  "hex_val c =
     (let n = (of_char c :: nat)
      in if 48 \<le> n \<and> n \<le> 57 then Some (n - 48)
         else if 97 \<le> n \<and> n \<le> 102 then Some (n - 87)
         else if 65 \<le> n \<and> n \<le> 70 then Some (n - 55) else None)"

definition hex4 :: "char \<Rightarrow> char \<Rightarrow> char \<Rightarrow> char \<Rightarrow> nat option" where
  "hex4 a b c d =
     (case (hex_val a, hex_val b, hex_val c, hex_val d) of
        (Some w, Some x, Some y, Some z) \<Rightarrow> Some (4096 * w + 256 * x + 16 * y + z) | _ \<Rightarrow> None)"

definition escape_char :: "char \<Rightarrow> char option" where
  "escape_char c =
     (let n = (of_char c :: nat)
      in if n = 34 \<or> n = 92 \<or> n = 47 then Some c
         else if n = 98 then Some (char_of (8::nat)) else if n = 102 then Some (char_of (12::nat))
         else if n = 110 then Some (char_of (10::nat)) else if n = 114 then Some (char_of (13::nat))
         else if n = 116 then Some (char_of (9::nat)) else None)"

text \<open>The rest of a string literal, after its opening quote.\<close>

fun json_string :: "string \<Rightarrow> (string \<times> string) option" where
  "json_string [] = None"
| "json_string (c # r) =
     (if (of_char c :: nat) = 34 then Some ([], r)
      else if (of_char c :: nat) = 92 then
        (case r of
           [] \<Rightarrow> None
         | e # r1 \<Rightarrow>
             if (of_char e :: nat) = 117 then
               (case r1 of
                  h1 # h2 # h3 # h4 # r2 \<Rightarrow>
                    (case hex4 h1 h2 h3 h4 of
                       Some n \<Rightarrow> if n < 256 then map_option (\<lambda>(s, q). (char_of n # s, q)) (json_string r2) else None
                     | None \<Rightarrow> None)
                | _ \<Rightarrow> None)
             else (case escape_char e of
                     Some x \<Rightarrow> map_option (\<lambda>(s, q). (x # s, q)) (json_string r1)
                   | None \<Rightarrow> None))
      else if (of_char c :: nat) < 32 then None
      else map_option (\<lambda>(s, q). (c # s, q)) (json_string r))"

text \<open>An unsigned number: integer part without leading zeros, optional fraction and exponent.\<close>

definition json_unsigned :: "string \<Rightarrow> ((bool \<times> rat) \<times> string) option" where
  "json_unsigned s =
     (let ip = (if s \<noteq> [] \<and> hd s = CHR ''0'' then [CHR ''0''] else takeWhile is_digit s);
          r1 = drop (length ip) s;
          fp = (if r1 \<noteq> [] \<and> hd r1 = CHR ''.'' then takeWhile is_digit (tl r1) else []);
          r2 = (if fp = [] then r1 else drop (Suc (length fp)) r1);
          e = (if r2 \<noteq> [] \<and> (hd r2 = CHR ''e'' \<or> hd r2 = CHR ''E'')
               then (case split_sign (tl r2) of (neg, ds) \<Rightarrow>
                       (let n = takeWhile is_digit ds
                        in if n = [] then None
                           else Some (if neg then - int (digits_val n) else int (digits_val n), drop (length n) ds)))
               else None)
      in if ip = [] then None
         else case e of
                None \<Rightarrow> Some ((fp = [], scale10 (of_nat (digits_val (ip @ fp))) (- int (length fp))), r2)
              | Some (k, r3) \<Rightarrow> Some ((False, scale10 (of_nat (digits_val (ip @ fp))) (k - int (length fp))), r3))"

definition json_number :: "string \<Rightarrow> (pyval \<times> string) option" where
  "json_number s =
     (let neg = (s \<noteq> [] \<and> hd s = CHR ''-'')
      in map_option (\<lambda>((whole, x), r).
           (let v = (if neg then - x else x) in (if whole then PInt \<lfloor>v\<rfloor> else PFloat (to_float v), r)))
           (json_unsigned (if neg then tl s else s)))"

definition json_literal :: "string \<Rightarrow> (pyval \<times> string) option" where
  "json_literal s =
     (if startswith s ''null'' then Some (PNone, drop 4 s)
      else if startswith s ''true'' then Some (PBool True, drop 4 s)
      else if startswith s ''false'' then Some (PBool False, drop 5 s)
      else if startswith s ''NaN'' then Some (PFloat NaN, drop 3 s)
      else if startswith s ''Infinity'' then Some (PFloat PosInf, drop 8 s)
      else if startswith s ''-Infinity'' then Some (PFloat NegInf, drop 9 s)
      else json_number s)"

text \<open>
  The recursive descent. Every call consumes a character, so the length of the text is enough
  fuel; the two loops carry the items read so far.
\<close>

fun json_value :: "nat \<Rightarrow> string \<Rightarrow> (pyval \<times> string) option"
  and json_items :: "nat \<Rightarrow> pyval list \<Rightarrow> string \<Rightarrow> (pyval \<times> string) option"
  and json_members :: "nat \<Rightarrow> pydict \<Rightarrow> string \<Rightarrow> (pyval \<times> string) option" where
  "json_value 0 s = None"
| "json_value (Suc n) s =
     (case s of
        [] \<Rightarrow> None
      | c # r \<Rightarrow>
          if (of_char c :: nat) = 34 then map_option (\<lambda>(t, q). (PStr t, q)) (json_string r)
          else if c = CHR ''['' then
            (case skip_ws r of
               [] \<Rightarrow> None
             | c1 # r1 \<Rightarrow> if c1 = CHR '']'' then Some (PList [], r1) else json_items n [] (c1 # r1))
          else if c = CHR ''{'' then
            (case skip_ws r of
               [] \<Rightarrow> None
             | c1 # r1 \<Rightarrow> if c1 = CHR ''}'' then Some (PDict [], r1) else json_members n [] (c1 # r1))
          else json_literal s)"
| "json_items 0 acc s = None"
| "json_items (Suc n) acc s =
     (case json_value n s of
        None \<Rightarrow> None
      | Some (v, r) \<Rightarrow>
          (case skip_ws r of
             [] \<Rightarrow> None
           | c # r1 \<Rightarrow>
               if c = CHR '']'' then Some (PList (acc @ [v]), r1)
               else if c = CHR '','' then json_items n (acc @ [v]) (skip_ws r1)
               else None))"
| "json_members 0 acc s = None"
| "json_members (Suc n) acc s =
     (case s of
        [] \<Rightarrow> None
      | q # r0 \<Rightarrow>
          if (of_char q :: nat) \<noteq> 34 then None
          else case json_string r0 of
            None \<Rightarrow> None
          | Some (k, r) \<Rightarrow>
              (case skip_ws r of
                 [] \<Rightarrow> None
               | c # r1 \<Rightarrow>
                   if c \<noteq> CHR '':'' then None
                   else case json_value n (skip_ws r1) of
                     None \<Rightarrow> None
                   | Some (v, r2) \<Rightarrow>
                       (case skip_ws r2 of
                          [] \<Rightarrow> None
                        | c2 # r3 \<Rightarrow>
                            if c2 = CHR ''}'' then Some (PDict (AList.update k v acc), r3)
                            else if c2 = CHR '','' then json_members n (AList.update k v acc) (skip_ws r3)
                            else None)))"

definition json_loads :: "string \<Rightarrow> pyval option" where
  "json_loads s =
     (case json_value (Suc (2 * length s)) (skip_ws s) of
        Some (v, r) \<Rightarrow> if skip_ws r = [] then Some v else None
      | None \<Rightarrow> None)"

section \<open>The fuel is enough\<close>

lemma skip_ws_length: "length (skip_ws s) \<le> length s"
  by (simp add: skip_ws_def length_dropWhile_le)

lemma skip_ws_Cons_length: "skip_ws s = c # r \<Longrightarrow> length r < length s"
  by (metis Suc_le_eq length_Cons skip_ws_length)

lemma json_string_shorter: "json_string s = Some (t, r) \<Longrightarrow> length r < length s"
proof (induction s arbitrary: t r rule: length_induct)
  case (1 s)
  have IH: "json_string s' = Some (t', r') \<Longrightarrow> length s' < length s \<Longrightarrow> length r' < length s" for s' t' r'
    using 1(1) less_trans by blast
  show ?case
    using 1(2) IH
    by (cases s) (auto split: if_splits list.splits option.splits)
qed

lemma split_sign_length: "split_sign s = (b, t) \<Longrightarrow> length t \<le> length s"
  by (cases s) (auto split: if_splits)

lemma json_unsigned_shorter: "json_unsigned s = Some (t, r) \<Longrightarrow> length r < length s"
proof -
  assume a: "json_unsigned s = Some (t, r)"
  define ip where "ip = (if s \<noteq> [] \<and> hd s = CHR ''0'' then [CHR ''0''] else takeWhile is_digit s)"
  from a have ip: "ip \<noteq> []" by (auto simp: json_unsigned_def ip_def Let_def split: if_splits)
  then have s: "s \<noteq> []" by (auto simp: ip_def)
  from a have "length r \<le> length s - length ip"
    by (auto simp: json_unsigned_def ip_def [symmetric] Let_def split: if_splits option.splits prod.splits
      dest!: split_sign_length)
  with ip s show ?thesis by (metis diff_less le_less_trans length_greater_0_conv)
qed

lemma json_literal_shorter: "json_literal s = Some (t, r) \<Longrightarrow> length r < length s"
  by (cases s) (auto simp: json_literal_def json_number_def startswith_def Let_def dest!: json_unsigned_shorter
      split: if_splits)

lemma json_shorter_all:
  "(\<forall>s v r. json_value n s = Some (v, r) \<longrightarrow> length r < length s)
   \<and> (\<forall>vs s v r. json_items n vs s = Some (v, r) \<longrightarrow> length r < length s)
   \<and> (\<forall>m s v r. json_members n m s = Some (v, r) \<longrightarrow> length r < length s)"
proof (induction n)
  case 0
  then show ?case by simp
next
  case (Suc n)
  then have V: "json_value n s = Some (v, r) \<Longrightarrow> length r < length s"
    and I: "json_items n vs s = Some (v, r) \<Longrightarrow> length r < length s"
    and M: "json_members n m s = Some (v, r) \<Longrightarrow> length r < length s" for s v r vs m
    by blast+
  have W: "skip_ws s = c # r \<Longrightarrow> length r < length s \<and> length (skip_ws r) \<le> length r" for s c r
    using skip_ws_Cons_length skip_ws_length by blast
  have "json_value (Suc n) s = Some (v, r) \<Longrightarrow> length r < length s" for s v r
    by (auto split: list.splits if_splits dest!: json_string_shorter json_literal_shorter W I M)
  moreover have "json_items (Suc n) vs s = Some (v, r) \<Longrightarrow> length r < length s" for vs s v r
    by (auto split: list.splits if_splits option.splits dest!: W V I)
  moreover have "json_members (Suc n) m s = Some (v, r) \<Longrightarrow> length r < length s" for m s v r
    using skip_ws_length
    by (fastforce split: list.splits if_splits option.splits dest!: json_string_shorter W V M)
  ultimately show ?case by blast
qed

lemma json_fuel_step:
  "(\<forall>s. 2 * length s < n \<longrightarrow> json_value (Suc n) s = json_value n s)
   \<and> (\<forall>vs s. Suc (2 * length s) < n \<longrightarrow> json_items (Suc n) vs s = json_items n vs s)
   \<and> (\<forall>m s. Suc (2 * length s) < n \<longrightarrow> json_members (Suc n) m s = json_members n m s)"
proof (induction n)
  case 0
  then show ?case by simp
next
  case (Suc n)
  then have V: "2 * length s < n \<Longrightarrow> json_value (Suc n) s = json_value n s"
    and I: "Suc (2 * length s) < n \<Longrightarrow> json_items (Suc n) vs s = json_items n vs s"
    and M: "Suc (2 * length s) < n \<Longrightarrow> json_members (Suc n) m s = json_members n m s" for s vs m
    by blast+
  have S: "json_value k s = Some (v, r) \<Longrightarrow> length r < length s" for k s v r
    using json_shorter_all by blast
  have vals: "json_value (Suc (Suc n)) s = json_value (Suc n) s" if "2 * length s < Suc n" for s
  proof -
    have "Suc (2 * length (c1 # r1)) < n" if "skip_ws r = c1 # r1" "s = c # r" for c r c1 r1
      using skip_ws_length [of r] that \<open>2 * length s < Suc n\<close> by simp
    note step = I [OF this] M [OF this]
    show ?thesis
      unfolding json_value.simps(2) [of "Suc n"] json_value.simps(2) [of n]
      by (auto simp del: json_value.simps json_items.simps json_members.simps simp: step
          split: list.split)
  qed
  have items: "json_items (Suc (Suc n)) vs s = json_items (Suc n) vs s" if "Suc (2 * length s) < Suc n" for vs s
  proof -
    have "Suc (2 * length (skip_ws r2)) < n" if "json_value n s = Some (v, r1)" "skip_ws r1 = c # r2" for v r1 c r2
      using S [OF that(1)] skip_ws_Cons_length [OF that(2)] skip_ws_length [of r2]
        \<open>Suc (2 * length s) < Suc n\<close> by simp
    note step = I [OF this]
    show ?thesis
      using that V [of s]
      by (intro trans [OF json_items.simps(2) trans [OF _ json_items.simps(2) [symmetric]]])
        (auto simp del: json_value.simps json_items.simps json_members.simps simp: step
          split: list.split option.split)
  qed
  have members: "json_members (Suc (Suc n)) m s = json_members (Suc n) m s"
    if "Suc (2 * length s) < Suc n" for m s
  proof -
    have v: "2 * length (skip_ws r1) < n"
      if "s = q # r0" "json_string r0 = Some (k, r)" "skip_ws r = c # r1" for q r0 k r c r1
      using json_string_shorter [OF that(2)] skip_ws_Cons_length [OF that(3)] skip_ws_length [of r1] that(1)
        \<open>Suc (2 * length s) < Suc n\<close> by simp
    have m: "Suc (2 * length (skip_ws r3)) < n"
      if "s = q # r0" "json_string r0 = Some (k, r)" "skip_ws r = c # r1"
        "json_value n (skip_ws r1) = Some (x, r2)" "skip_ws r2 = c2 # r3" for q r0 k r c r1 x r2 c2 r3
      using json_string_shorter [OF that(2)] skip_ws_Cons_length [OF that(3)] skip_ws_length [of r1] that(1)
        S [OF that(4)] skip_ws_Cons_length [OF that(5)] skip_ws_length [of r3]
        \<open>Suc (2 * length s) < Suc n\<close> by simp
    note step = V [OF v] M [OF m]
    show ?thesis
      by (intro trans [OF json_members.simps(2) trans [OF _ json_members.simps(2) [symmetric]]])
        (auto simp del: json_value.simps json_items.simps json_members.simps simp: step
          split: list.split option.split)
  qed
  from vals items members show ?case by blast
qed

lemma json_fuel_enough: "2 * length s < n \<Longrightarrow> json_value (n + k) s = json_value n s"
  by (induction k) (use json_fuel_step in \<open>simp_all del: json_value.simps\<close>)

text \<open>The fuel that bounds the recursion of \<open>json_loads\<close> is always enough: any larger amount
  gives the same result.\<close>

theorem json_loads_total:
  "json_loads s =
     (case json_value (Suc (2 * length s) + k) (skip_ws s) of
        Some (v, r) \<Rightarrow> if skip_ws r = [] then Some v else None
      | None \<Rightarrow> None)"
  using skip_ws_length [of s] json_fuel_enough [of "skip_ws s" "Suc (2 * length s)" k]
  by (simp add: json_loads_def del: json_value.simps)

end
