(* ===== verification/Intent_Binding.thy ===== *)
theory Intent_Binding
  imports States Json_Text
begin

text \<open>
  \<open>intent_binding.py\<close>: the optional binding of a restore intent to desired-state fields of an
  external producer, read from the JSON text of an \<open>input_text\<close> entity at every permission check.
\<close>

definition valid_scalar :: "pyval \<Rightarrow> bool" where
  "valid_scalar v =
     (case v of
        PNone \<Rightarrow> True
      | PBool _ \<Rightarrow> True
      | PStr s \<Rightarrow> length s \<le> 80
      | PInt i \<Rightarrow> (case py_isfinite (PInt i) of Inr b \<Rightarrow> b | Inl _ \<Rightarrow> False)
      | PFloat f \<Rightarrow> isfinite f
      | _ \<Rightarrow> False)"

definition validate_binding :: "pyval \<Rightarrow> pyval \<Rightarrow> pydict option res" where
  "validate_binding entity data =
     (if entity = PNone \<and> data = PNone then Inr None
      else if \<not> is_str entity \<or> \<not> startswith (the_str entity) ''input_text.''
      then Inl (ValueErr ''request_entity must be an input_text entity'')
      else
        (case data of
           PDict d \<Rightarrow>
             if \<not> (1 \<le> length d \<and> length d \<le> 16)
             then Inl (ValueErr ''request_data must contain 1..16 desired-state fields'')
             else if list_ex (\<lambda>(k, v). \<not> (1 \<le> length k \<and> length k \<le> 64) \<or> \<not> valid_scalar v) d
             then Inl (ValueErr ''invalid desired-state field'')
             else Inr (Some d)
         | _ \<Rightarrow> Inl (ValueErr ''request_data must contain 1..16 desired-state fields'')))"

definition same_scalar :: "pyval \<Rightarrow> pyval \<Rightarrow> bool" where
  "same_scalar expected actual =
     (if is_bool expected \<or> is_bool actual then expected = actual
      else scalar_eq expected actual)"

definition binding_permits :: "string option \<Rightarrow> pydict option \<Rightarrow> state_lookup \<Rightarrow> bool" where
  "binding_permits entity expected states =
     (case (entity, expected) of
        (None, None) \<Rightarrow> True
      | (Some e, Some wanted) \<Rightarrow>
          if wanted = [] then False
          else (case states e of
                  None \<Rightarrow> False
                | Some st \<Rightarrow>
                    (case json_loads (st_state st) of
                       Some (PDict actual) \<Rightarrow>
                         list_all (\<lambda>(k, v). dhas actual k \<and> same_scalar v (dget actual k)) wanted
                     | _ \<Rightarrow> False))
      | _ \<Rightarrow> False)"

lemma validate_binding_ok:
  "validate_binding entity data = Inr b \<Longrightarrow>
     (b = None \<and> entity = PNone \<and> data = PNone)
     \<or> (\<exists>e d. entity = PStr e \<and> startswith e ''input_text.'' \<and> data = PDict d \<and> b = Some d
          \<and> d \<noteq> [] \<and> length d \<le> 16)"
  by (cases entity; cases data) (auto simp: validate_binding_def split: if_splits)

end
