(* ===== verification/Requests.thy ===== *)
theory Requests
  imports Intent_Binding
begin

text \<open>
  \<open>requests.py\<close>: time-bounded restore intents of external owners, durable restore tickets, and
  the registry of intents by device and source. Deadlines keep the number they were given (an
  integer or a float); \<open>deadline\<close> is its value.
\<close>

definition MAX_INTENT_TTL_S :: rat where "MAX_INTENT_TTL_S = 86400"

definition bounded_text :: "nat \<Rightarrow> pyval \<Rightarrow> string res" where
  "bounded_text maximum v =
     (case v of
        PStr s \<Rightarrow> if nonblank s then Inr (take maximum (py_strip s))
                  else Inl (ValueErr ''value must be non-empty text'')
      | _ \<Rightarrow> Inl (ValueErr ''value must be non-empty text''))"

definition is_hex :: "char \<Rightarrow> bool" where
  "is_hex c \<longleftrightarrow> is_digit c \<or> (97 \<le> (of_char c :: nat) \<and> (of_char c :: nat) \<le> 102)"

definition validate_revision :: "pyval \<Rightarrow> unit res" where
  "validate_revision v =
     (case v of
        PNone \<Rightarrow> Inr ()
      | PStr s \<Rightarrow> if length s = 32 \<and> list_all is_hex s then Inr ()
                  else Inl (ValueErr ''invalid intent revision'')
      | _ \<Rightarrow> Inl (ValueErr ''invalid intent revision''))"

text \<open>A number that is no bool and is finite; a huge integer raises OverflowError.\<close>

definition require_timestamp :: "string \<Rightarrow> pyval \<Rightarrow> unit res" where
  "require_timestamp msg v =
     (if is_bool v \<or> \<not> is_number v then Inl (ValueErr msg)
      else rbind (py_isfinite v) (\<lambda>b. if b then Inr () else Inl (ValueErr msg)))"

definition deadline :: "pyval \<Rightarrow> rat" where
  "deadline v = fin_val (num_val v)"

fun str_option :: "pyval \<Rightarrow> string option" where
  "str_option (PStr s) = Some s"
| "str_option _ = None"

section \<open>Intents\<close>

record restore_intent =
  ri_source :: string
  ri_active :: bool
  ri_expires_at :: pyval
  ri_permit_entity :: "string option"
  ri_request_entity :: "string option"
  ri_request_data :: "pydict option"
  ri_revision :: "string option"

text \<open>The constructor with its checks; \<open>startswith\<close> on a permit that is not text raises.\<close>

definition mk_intent ::
  "pyval \<Rightarrow> pyval \<Rightarrow> pyval \<Rightarrow> pyval \<Rightarrow> pyval \<Rightarrow> pyval \<Rightarrow> pyval \<Rightarrow> restore_intent res" where
  "mk_intent source active expires_at permit_entity request_entity request_data revision =
     rbind (bounded_text 80 source) (\<lambda>_.
     if \<not> is_bool active then Inl (ValueErr ''active must be boolean'')
     else rbind (require_timestamp ''invalid intent deadline'' expires_at) (\<lambda>_.
     if permit_entity \<noteq> PNone \<and> \<not> is_str permit_entity then Inl AttributeErr
     else if permit_entity \<noteq> PNone \<and> \<not> startswith (the_str permit_entity) ''binary_sensor.''
     then Inl (ValueErr ''permit_entity must be a binary sensor'')
     else rbind (validate_binding request_entity request_data) (\<lambda>binding.
     rbind (validate_revision revision) (\<lambda>_.
     Inr \<lparr>ri_source = the_str source, ri_active = (active = PBool True), ri_expires_at = expires_at,
          ri_permit_entity = str_option permit_entity, ri_request_entity = str_option request_entity,
          ri_request_data = binding, ri_revision = str_option revision\<rparr>))))"

definition intent_validate_recovery :: "restore_intent \<Rightarrow> rat \<Rightarrow> unit res" where
  "intent_validate_recovery i now =
     (if now + MAX_INTENT_TTL_S < deadline (ri_expires_at i)
      then Inl (ValueErr ''persisted intent deadline exceeds maximum lifetime'') else Inr ())"

definition intent_due :: "restore_intent \<Rightarrow> rat \<Rightarrow> bool" where
  "intent_due i now \<longleftrightarrow> \<not> ri_active i \<or> deadline (ri_expires_at i) \<le> now"

definition intent_permitted :: "restore_intent \<Rightarrow> rat \<Rightarrow> state_lookup \<Rightarrow> bool" where
  "intent_permitted i now states =
     (if intent_due i now then False
      else if \<not> binding_permits (ri_request_entity i) (ri_request_data i) states then False
      else case ri_permit_entity i of
             None \<Rightarrow> True
           | Some e \<Rightarrow> (case states e of None \<Rightarrow> False | Some st \<Rightarrow> st_state st = ''on''))"

definition opt_text :: "string option \<Rightarrow> pyval" where
  "opt_text s = (case s of None \<Rightarrow> PNone | Some t \<Rightarrow> PStr t)"

definition intent_to_dict :: "restore_intent \<Rightarrow> pydict" where
  "intent_to_dict i =
     [(''source'', PStr (ri_source i)), (''active'', PBool (ri_active i)),
      (''expires_at'', ri_expires_at i), (''permit_entity'', opt_text (ri_permit_entity i))]
     @ (case ri_request_entity i of None \<Rightarrow> []
        | Some e \<Rightarrow> [(''request_entity'', PStr e),
                     (''request_data'', case ri_request_data i of None \<Rightarrow> PNone | Some d \<Rightarrow> PDict d)])
     @ (case ri_revision i of None \<Rightarrow> [] | Some r \<Rightarrow> [(''revision'', PStr r)])"

definition intent_keys :: "string list" where
  "intent_keys = [''source'', ''active'', ''expires_at'', ''permit_entity'', ''request_entity'',
                  ''request_data'', ''revision'']"

definition intent_from_dict :: "pyval \<Rightarrow> restore_intent res" where
  "intent_from_dict raw =
     (case raw of
        PDict d \<Rightarrow>
          if \<not> list_all (\<lambda>k. k \<in> set intent_keys) (map fst d)
             \<or> \<not> list_all (dhas d) [''source'', ''active'', ''expires_at'']
          then Inl (ValueErr ''invalid persisted intent'')
          else mk_intent (dget d ''source'') (dget d ''active'') (dget d ''expires_at'')
                 (dget d ''permit_entity'') (dget d ''request_entity'') (dget d ''request_data'')
                 (dget d ''revision'')
      | _ \<Rightarrow> Inl (ValueErr ''invalid persisted intent''))"

section \<open>Tickets\<close>

record restore_ticket =
  rt_device_id :: string
  rt_cause :: string
  rt_operation_id :: string
  rt_created_at :: pyval
  rt_expires_at :: pyval
  rt_restore_state :: pydict
  rt_intent_sources :: "string list"

definition mk_ticket ::
  "pyval \<Rightarrow> pyval \<Rightarrow> pyval \<Rightarrow> pyval \<Rightarrow> pyval \<Rightarrow> pyval \<Rightarrow> pyval list \<Rightarrow> restore_ticket res" where
  "mk_ticket device_id cause operation_id created_at expires_at restore_state intent_sources =
     rbind (bounded_text 80 device_id) (\<lambda>_.
     rbind (bounded_text 160 cause) (\<lambda>_.
     rbind (bounded_text 80 operation_id) (\<lambda>_.
     rbind (require_timestamp ''invalid ticket timestamp'' created_at) (\<lambda>_.
     rbind (require_timestamp ''invalid ticket timestamp'' expires_at) (\<lambda>_.
     if deadline expires_at \<le> deadline created_at
     then Inl (ValueErr ''ticket must expire after creation'')
     else if deadline created_at < 0 \<or> deadline created_at + MAX_INTENT_TTL_S < deadline expires_at
     then Inl (ValueErr ''ticket lifetime is outside the supported range'')
     else (case restore_state of
             PDict state \<Rightarrow>
               rbind (map_res (bounded_text 80) intent_sources) (\<lambda>_.
               Inr \<lparr>rt_device_id = the_str device_id, rt_cause = the_str cause,
                    rt_operation_id = the_str operation_id, rt_created_at = created_at,
                    rt_expires_at = expires_at, rt_restore_state = state,
                    rt_intent_sources = map the_str intent_sources\<rparr>)
           | _ \<Rightarrow> Inl (ValueErr ''invalid restore state'')))))))"

definition ticket_validate_recovery :: "restore_ticket \<Rightarrow> rat \<Rightarrow> unit res" where
  "ticket_validate_recovery t now =
     (if now < deadline (rt_created_at t)
      then Inl (ValueErr ''persisted ticket creation is in the future'') else Inr ())"

definition ticket_expired :: "restore_ticket \<Rightarrow> rat \<Rightarrow> bool" where
  "ticket_expired t now \<longleftrightarrow> deadline (rt_expires_at t) \<le> now"

definition ticket_to_dict :: "restore_ticket \<Rightarrow> pydict" where
  "ticket_to_dict t =
     [(''device_id'', PStr (rt_device_id t)), (''cause'', PStr (rt_cause t)),
      (''operation_id'', PStr (rt_operation_id t)), (''created_at'', rt_created_at t),
      (''expires_at'', rt_expires_at t), (''restore_state'', PDict (rt_restore_state t)),
      (''intent_sources'', PList (map PStr (rt_intent_sources t)))]"

definition ticket_from_dict :: "pyval \<Rightarrow> restore_ticket res" where
  "ticket_from_dict raw =
     (case raw of
        PDict d \<Rightarrow>
          if \<not> list_all (dhas d) [''device_id'', ''cause'', ''operation_id'', ''created_at'', ''expires_at'']
          then Inl (ValueErr ''invalid persisted restore ticket'')
          else
            (let build = mk_ticket (dget d ''device_id'') (dget d ''cause'') (dget d ''operation_id'')
                   (dget d ''created_at'') (dget d ''expires_at'')
                   (case dget_or d ''restore_state'' (PDict []) of PDict s \<Rightarrow> PDict s | _ \<Rightarrow> PDict [])
             in case dget_or d ''intent_sources'' (PTuple []) of
                  PList xs \<Rightarrow> build xs
                | PTuple xs \<Rightarrow> build xs
                | _ \<Rightarrow> Inl (ValueErr ''invalid ticket intent sources''))
      | _ \<Rightarrow> Inl (ValueErr ''invalid persisted restore ticket''))"

section \<open>Encoding and decoding\<close>

text \<open>
  A codec: well-formed objects survive a round trip, and whatever decodes is well formed. Lists
  of objects then do too, which is what the runtime store relies on.
\<close>

locale codec =
  fixes enc :: "'a \<Rightarrow> pyval" and dec :: "pyval \<Rightarrow> 'a res" and wf :: "'a \<Rightarrow> bool"
  assumes dec_enc: "wf x \<Longrightarrow> dec (enc x) = Inr x"
    and dec_wf: "dec v = Inr x \<Longrightarrow> wf x"
begin

lemma dec_enc_list: "list_all wf xs \<Longrightarrow> map_res dec (map enc xs) = Inr xs"
  by (rule map_res_all_Inr) (auto simp: list_all_iff dec_enc)

lemma dec_list_wf: "map_res dec vs = Inr xs \<Longrightarrow> list_all wf xs"
  by (induction vs arbitrary: xs) (auto simp: rbind_Inr_iff dest: dec_wf)

lemma decoded_stable: "dec v = Inr x \<Longrightarrow> dec (enc x) = Inr x"
  by (rule dec_enc) (rule dec_wf)

lemma enc_inj: "wf x \<Longrightarrow> wf y \<Longrightarrow> enc x = enc y \<Longrightarrow> x = y"
  by (metis dec_enc sum.inject(2))

end

definition intent_wf :: "restore_intent \<Rightarrow> bool" where
  "intent_wf i \<longleftrightarrow>
     mk_intent (PStr (ri_source i)) (PBool (ri_active i)) (ri_expires_at i)
       (opt_text (ri_permit_entity i)) (opt_text (ri_request_entity i))
       (case ri_request_data i of None \<Rightarrow> PNone | Some d \<Rightarrow> PDict d)
       (opt_text (ri_revision i)) = Inr i"

lemma opt_text_simps [simp]: "opt_text None = PNone" "opt_text (Some s) = PStr s"
  by (simp_all add: opt_text_def)

lemma str_option_text [simp]: "str_option (opt_text s) = s"
  by (cases s) (simp_all add: opt_text_def)

lemma opt_text_str_option: "v = PNone \<or> is_str v \<Longrightarrow> opt_text (str_option v) = v"
  by (cases v) (simp_all add: opt_text_def)

lemma bounded_text_str: "bounded_text n v = Inr s \<Longrightarrow> v = PStr (the_str v)"
  by (cases v) (auto simp: bounded_text_def)

lemma validate_revision_str: "validate_revision v = Inr u \<Longrightarrow> v = PNone \<or> is_str v"
  by (cases v) (auto simp: validate_revision_def)

lemma mk_intent_shape:
  assumes "mk_intent source active expires permit entity data revision = Inr i"
  shows "source = PStr (ri_source i) \<and> active = PBool (ri_active i) \<and> expires = ri_expires_at i
    \<and> permit = opt_text (ri_permit_entity i) \<and> entity = opt_text (ri_request_entity i)
    \<and> data = (case ri_request_data i of None \<Rightarrow> PNone | Some d \<Rightarrow> PDict d)
    \<and> revision = opt_text (ri_revision i)
    \<and> (ri_request_entity i = None \<longleftrightarrow> ri_request_data i = None)"
proof -
  from assms obtain s b where s: "bounded_text 80 source = Inr s" and act: "is_bool active"
    and p: "permit = PNone \<or> is_str permit" and b: "validate_binding entity data = Inr b"
    and r: "validate_revision revision = Inr ()"
    and i: "i = \<lparr>ri_source = the_str source, ri_active = (active = PBool True), ri_expires_at = expires,
          ri_permit_entity = str_option permit, ri_request_entity = str_option entity,
          ri_request_data = b, ri_revision = str_option revision\<rparr>"
    by (auto simp: mk_intent_def rbind_Inr_iff split: if_splits)
  from act have "active = PBool (active = PBool True)" by (cases active) auto
  moreover have "source = PStr (the_str source)" by (rule bounded_text_str [OF s])
  ultimately show ?thesis
    using validate_binding_ok [OF b] p validate_revision_str [OF r] i
    by (auto simp: opt_text_str_option)
qed

lemma intent_wf_mk: "mk_intent s a x p e d r = Inr i \<Longrightarrow> intent_wf i"
  using mk_intent_shape [of s a x p e d r i] by (simp add: intent_wf_def)

lemma intent_wf_binding:
  "intent_wf i \<Longrightarrow> (ri_request_entity i = None \<longleftrightarrow> ri_request_data i = None)"
  unfolding intent_wf_def by (drule mk_intent_shape) simp

interpretation intent_codec: codec "\<lambda>i. PDict (intent_to_dict i)" intent_from_dict intent_wf
proof
  fix i assume wf: "intent_wf i"
  then show "intent_from_dict (PDict (intent_to_dict i)) = Inr i"
    using intent_wf_binding [OF wf]
    by (cases "ri_request_entity i"; cases "ri_revision i")
      (auto simp: intent_from_dict_def intent_to_dict_def intent_keys_def dhas_def intent_wf_def opt_text_def)
next
  fix v i assume "intent_from_dict v = Inr i"
  then show "intent_wf i"
    by (cases v) (auto simp: intent_from_dict_def intent_wf_mk split: if_splits)
qed

definition ticket_wf :: "restore_ticket \<Rightarrow> bool" where
  "ticket_wf t \<longleftrightarrow>
     mk_ticket (PStr (rt_device_id t)) (PStr (rt_cause t)) (PStr (rt_operation_id t)) (rt_created_at t)
       (rt_expires_at t) (PDict (rt_restore_state t)) (map PStr (rt_intent_sources t)) = Inr t"

lemma bounded_text_list: "map_res (bounded_text n) vs = Inr ss \<Longrightarrow> map PStr (map the_str vs) = vs"
  by (induction vs arbitrary: ss) (auto simp: rbind_Inr_iff dest!: bounded_text_str)

lemma mk_ticket_shape:
  assumes "mk_ticket i c oid cr ex (PDict st) srcs = Inr t"
  shows "i = PStr (rt_device_id t) \<and> c = PStr (rt_cause t) \<and> oid = PStr (rt_operation_id t)
    \<and> cr = rt_created_at t \<and> ex = rt_expires_at t \<and> st = rt_restore_state t
    \<and> srcs = map PStr (rt_intent_sources t)"
  using assms unfolding mk_ticket_def rbind_Inr_iff
  by (auto simp: rbind_Inr_iff comp_def dest!: bounded_text_str bounded_text_list [simplified comp_def] split: if_splits)

lemma ticket_wf_mk: "mk_ticket i c oid cr ex (PDict st) srcs = Inr t \<Longrightarrow> ticket_wf t"
  using mk_ticket_shape [of i c oid cr ex st srcs t] by (simp add: ticket_wf_def)

interpretation ticket_codec: codec "\<lambda>t. PDict (ticket_to_dict t)" ticket_from_dict ticket_wf
proof
  fix t assume "ticket_wf t"
  then show "ticket_from_dict (PDict (ticket_to_dict t)) = Inr t"
    by (simp add: ticket_from_dict_def ticket_to_dict_def dhas_def dget_or_def ticket_wf_def)
next
  fix v t assume "ticket_from_dict v = Inr t"
  then show "ticket_wf t"
    by (auto simp: ticket_from_dict_def Let_def split: pyval.splits if_splits dest: ticket_wf_mk)
qed

lemma ticket_wf_times:
  "ticket_wf t \<Longrightarrow> 0 \<le> deadline (rt_created_at t) \<and> deadline (rt_created_at t) < deadline (rt_expires_at t)
     \<and> deadline (rt_expires_at t) \<le> deadline (rt_created_at t) + 86400"
  unfolding ticket_wf_def mk_ticket_def rbind_Inr_iff
  by (auto simp: MAX_INTENT_TTL_S_def not_le not_less split: if_splits)


text \<open>A well-formed ticket survives the round trip through its persisted form, and every ticket
  the decoder accepts is well formed: it names a device, a cause and an operation, was not created
  before the epoch, and expires after its creation and within 24 hours of it.\<close>

theorem ticket_roundtrip:
  "(ticket_from_dict (PDict (ticket_to_dict t)) = Inr t \<longleftrightarrow> ticket_wf t)
   \<and> (ticket_wf t \<longrightarrow> nonblank (rt_device_id t) \<and> nonblank (rt_cause t) \<and> nonblank (rt_operation_id t)
        \<and> 0 \<le> deadline (rt_created_at t) \<and> deadline (rt_created_at t) < deadline (rt_expires_at t)
        \<and> deadline (rt_expires_at t) \<le> deadline (rt_created_at t) + 86400)"
proof -
  have "nonblank (rt_device_id t) \<and> nonblank (rt_cause t) \<and> nonblank (rt_operation_id t)" if "ticket_wf t"
    using that unfolding ticket_wf_def mk_ticket_def rbind_Inr_iff
    by (auto simp: bounded_text_def split: if_splits)
  then show ?thesis
    using ticket_codec.dec_enc [of t] ticket_codec.dec_wf ticket_wf_times [of t] by blast
qed

definition demo_ticket :: restore_ticket where
  "demo_ticket = \<lparr>rt_device_id = ''pump'', rt_cause = ''overload'', rt_operation_id = ''op1'',
     rt_created_at = PFloat (Fin 1000), rt_expires_at = PFloat (Fin 87400), rt_restore_state = [],
     rt_intent_sources = [''owner'']\<rparr>"

lemma demo_ticket_wf: "ticket_wf demo_ticket"
  by (simp add: ticket_wf_def mk_ticket_def demo_ticket_def bounded_text_def nonblank_def py_strip_def
      is_space_def Let_def require_timestamp_def py_isfinite_def deadline_def MAX_INTENT_TTL_S_def)

lemma ticket_roundtrip_witness:
  "ticket_from_dict (PDict (ticket_to_dict demo_ticket)) = Inr demo_ticket \<and> nonblank (rt_cause demo_ticket)"
  using ticket_roundtrip [of demo_ticket] demo_ticket_wf by blast

section \<open>The registry of intents\<close>

type_synonym intent_registry = "((string \<times> string) \<times> restore_intent) list"

definition registry_set :: "intent_registry \<Rightarrow> pyval \<Rightarrow> restore_intent \<Rightarrow> intent_registry res" where
  "registry_set r device_id i =
     rbind (bounded_text 80 device_id) (\<lambda>d. Inr (AList.update (d, ri_source i) i r))"

definition registry_remove :: "intent_registry \<Rightarrow> string \<Rightarrow> string \<Rightarrow> intent_registry" where
  "registry_remove r device_id source = AList.delete (device_id, source) r"

text \<open>
  \<open>json.dumps(..., sort_keys=True)\<close> of two finite JSON values is the same text exactly when the
  values agree up to the order of dict entries, with tuples written as lists.
\<close>

primrec json_canonical :: "pyval \<Rightarrow> pyval" where
  "json_canonical PNone = PNone"
| "json_canonical (PBool b) = PBool b"
| "json_canonical (PInt i) = PInt i"
| "json_canonical (PFloat f) = PFloat f"
| "json_canonical (PStr s) = PStr s"
| "json_canonical (PList xs) = PList (map json_canonical xs)"
| "json_canonical (PTuple xs) = PList (map json_canonical xs)"
| "json_canonical (PDict d) = PDict (sort_key fst (map (map_prod id json_canonical) d))"

definition same_publication :: "restore_intent \<Rightarrow> restore_intent \<Rightarrow> bool" where
  "same_publication a b \<longleftrightarrow>
     json_canonical (PDict (intent_to_dict a)) = json_canonical (PDict (intent_to_dict b))"

definition registry_matches ::
  "intent_registry \<Rightarrow> string \<Rightarrow> string \<Rightarrow> restore_intent option \<Rightarrow> bool" where
  "registry_matches r device_id source expected =
     (case (map_of r (device_id, source), expected) of
        (Some c, Some e) \<Rightarrow> same_publication c e
      | (None, None) \<Rightarrow> True
      | _ \<Rightarrow> False)"

definition registry_matches_snapshot ::
  "intent_registry \<Rightarrow> string \<Rightarrow> string \<Rightarrow> pydict option \<Rightarrow> bool res" where
  "registry_matches_snapshot r device_id source snapshot =
     (case snapshot of
        None \<Rightarrow> Inr True
      | Some s \<Rightarrow>
          if s = [] then Inr (registry_matches r device_id source None)
          else rbind (intent_from_dict (PDict s)) (\<lambda>e.
            Inr (registry_matches r device_id source (Some e))))"

definition registry_prune :: "intent_registry \<Rightarrow> rat \<Rightarrow> intent_registry \<times> bool" where
  "registry_prune r now =
     (let kept = filter (\<lambda>(_, i). \<not> intent_due i now) r in (kept, length kept \<noteq> length r))"

definition registry_permits :: "intent_registry \<Rightarrow> string \<Rightarrow> rat \<Rightarrow> state_lookup \<Rightarrow> bool" where
  "registry_permits r device_id now states =
     list_ex (\<lambda>((d, _), i). d = device_id \<and> intent_permitted i now states) r"

definition active_sources :: "intent_registry \<Rightarrow> string \<Rightarrow> rat \<Rightarrow> string list" where
  "active_sources r device_id now =
     sort (map (\<lambda>((_, s), _). s) (filter (\<lambda>((d, _), i). d = device_id \<and> \<not> intent_due i now) r))"

section \<open>Facts on the registry\<close>

lemma intent_due_mono: "intent_due i now \<Longrightarrow> now \<le> later \<Longrightarrow> intent_due i later"
  by (auto simp: intent_due_def)

lemma permitted_not_due: "intent_permitted i now states \<Longrightarrow> \<not> intent_due i now"
  by (auto simp: intent_permitted_def split: if_splits)

lemma registry_permits_iff:
  "registry_permits r d now states \<longleftrightarrow> (\<exists>s i. ((d, s), i) \<in> set r \<and> intent_permitted i now states)"
  by (force simp: registry_permits_def list_ex_iff)

lemma prune_subset: "set (fst (registry_prune r now)) \<subseteq> set r"
  by (auto simp: registry_prune_def Let_def)

text \<open>An owner permits restoring a load exactly when some intent it published for that load is
  active, before its deadline, its producer binding (if any) is confirmed field by field by the
  producer's current JSON text, and its permit sensor (if any) is on.\<close>

theorem registry_permits_exact:
  "registry_permits r device now states \<longleftrightarrow>
     (\<exists>source i. ((device, source), i) \<in> set r \<and> ri_active i \<and> now < deadline (ri_expires_at i)
        \<and> (case ri_permit_entity i of None \<Rightarrow> True
             | Some e \<Rightarrow> map_option st_state (states e) = Some ''on'')
        \<and> (case (ri_request_entity i, ri_request_data i) of
               (None, None) \<Rightarrow> True
             | (Some e, Some wanted) \<Rightarrow> wanted \<noteq> []
                 \<and> (\<exists>st actual. states e = Some st \<and> json_loads (st_state st) = Some (PDict actual)
                     \<and> list_all (\<lambda>(k, v). dhas actual k \<and> same_scalar v (dget actual k)) wanted)
             | _ \<Rightarrow> False))"
proof -
  have binding: "binding_permits e d states \<longleftrightarrow>
      (case (e, d) of
               (None, None) \<Rightarrow> True
             | (Some e, Some wanted) \<Rightarrow> wanted \<noteq> []
                 \<and> (\<exists>st actual. states e = Some st \<and> json_loads (st_state st) = Some (PDict actual)
                     \<and> list_all (\<lambda>(k, v). dhas actual k \<and> same_scalar v (dget actual k)) wanted)
             | _ \<Rightarrow> False)" for e d
    by (auto simp: binding_permits_def list_all_iff split: option.splits pyval.splits)
  have permitted: "intent_permitted i now states \<longleftrightarrow> ri_active i \<and> now < deadline (ri_expires_at i)
      \<and> (case ri_permit_entity i of None \<Rightarrow> True | Some e \<Rightarrow> map_option st_state (states e) = Some ''on'')
      \<and> binding_permits (ri_request_entity i) (ri_request_data i) states" for i
    by (auto simp: intent_permitted_def intent_due_def not_le split: option.splits)
  show ?thesis
    unfolding registry_permits_iff permitted binding ..
qed

text \<open>Pruning never changes what is permitted from then on: after pruning at one time, every
  permission question at that or any later time has the answer it had before, and the registry
  holds no intent that is due.\<close>

theorem prune_keeps_permission:
  assumes "now \<le> later"
  shows "registry_permits (fst (registry_prune r now)) device later states = registry_permits r device later states
    \<and> active_sources (fst (registry_prune r now)) device later = active_sources r device later
    \<and> (\<forall>(_, i) \<in> set (fst (registry_prune r now)). \<not> intent_due i now)"
proof -
  have alive: "\<not> intent_due i later \<Longrightarrow> \<not> intent_due i now" for i
    using assms intent_due_mono by blast
  have "registry_permits (fst (registry_prune r now)) device later states = registry_permits r device later states"
    unfolding registry_permits_iff registry_prune_def Let_def
    using alive permitted_not_due by (fastforce)
  moreover have "filter (\<lambda>((d, _), i). d = device \<and> \<not> intent_due i later) (fst (registry_prune r now))
      = filter (\<lambda>((d, _), i). d = device \<and> \<not> intent_due i later) r"
    unfolding registry_prune_def Let_def fst_conv filter_filter
    by (rule filter_cong) (auto dest: alive)
  ultimately show ?thesis
    by (auto simp: active_sources_def) (auto simp: registry_prune_def Let_def)
qed

definition demo_intent :: restore_intent where
  "demo_intent = \<lparr>ri_source = ''owner'', ri_active = True, ri_expires_at = PInt 100,
     ri_permit_entity = None, ri_request_entity = None, ri_request_data = None, ri_revision = None\<rparr>"

lemma prune_keeps_permission_witness:
  "registry_permits (fst (registry_prune [((''pump'', ''owner''), demo_intent)] 50)) ''pump'' 99 Map.empty
   \<and> \<not> registry_permits (fst (registry_prune [((''pump'', ''owner''), demo_intent)] 50)) ''pump'' 100 Map.empty"
  using prune_keeps_permission [of 50 99 "[((''pump'', ''owner''), demo_intent)]" "''pump''" Map.empty]
    prune_keeps_permission [of 50 100 "[((''pump'', ''owner''), demo_intent)]" "''pump''" Map.empty]
  by (simp add: registry_permits_def demo_intent_def intent_permitted_def intent_due_def deadline_def
      binding_permits_def)

end
