(* ===== verification/Policy.thy ===== *)
theory Policy
  imports Prelude
begin

text \<open>
  \<open>policy.py\<close>: the threshold policy, its construction from configuration data, and the
  timer/phase engine that decides when a load is shed and when a restore window is mature.
  Clock readings (\<open>now\<close>) are finite by the contract of \<open>time.monotonic\<close>; reported loads
  are floats and may be NaN or infinite.
\<close>

section \<open>Constants and enumerations\<close>

definition MAX_POLICY_POWER_W :: rat where "MAX_POLICY_POWER_W = 100000"
definition MAX_POLICY_DURATION_S :: rat where "MAX_POLICY_DURATION_S = 24 * 60 * 60"
definition RESTORE_SAFE_CAPACITY_DWELL_S :: rat where "RESTORE_SAFE_CAPACITY_DWELL_S = 60"
definition MAX_CUSTOM_THRESHOLDS :: nat where "MAX_CUSTOM_THRESHOLDS = 64"
definition DEFAULT_POLICY_VERSION :: string where "DEFAULT_POLICY_VERSION = ''load_shedding_v3''"

datatype policy_phase =
    STARTUP | MONITORING | SHEDDING | RESTORING | WAITING_LOAD_RECONCILIATION
  | WAITING_RESTORE_RECONCILIATION | PHASE_GRID_LOSS | PHASE_FAULT

datatype reason_code =
    NORMAL_MONITORING | SHED_SUSTAINED_OVERLOAD | SHED_FAST_OVERLOAD | SHED_CRITICAL_OVERLOAD
  | SHED_CUSTOM_THRESHOLD | RESTORE_HEADROOM_AVAILABLE | RESTORE_BLOCKED_OVERLOAD
  | RESTORE_BLOCKED_FENCE | RESTORE_BLOCKED_NO_CANDIDATES | RESTORE_OBSERVE_MODE
  | TELEMETRY_INVALID | TELEMETRY_STALE | RELAY_READBACK_TIMEOUT | PERSISTED_RUNTIME_INVALID
  | AGGREGATE_RECONCILIATION_TIMEOUT | GRID_LOSS | SAFETY_BLOCKED | OBSERVE_MODE
  | CONFIGURATION_INVALID | FAULT | MANUAL_ON_ACCEPTED | MANUAL_ON_RESHED

datatype telemetry_validity = VALID | UNKNOWN | STALE | WRONG_UNIT | INVALID | MISSING

text \<open>The \<open>value\<close> of each member, and the enum's lookup by value.\<close>

primrec phase_value :: "policy_phase \<Rightarrow> string" where
  "phase_value STARTUP = ''startup''"
| "phase_value MONITORING = ''monitoring''"
| "phase_value SHEDDING = ''shedding''"
| "phase_value RESTORING = ''restoring''"
| "phase_value WAITING_LOAD_RECONCILIATION = ''waiting_load_reconciliation''"
| "phase_value WAITING_RESTORE_RECONCILIATION = ''waiting_restore_reconciliation''"
| "phase_value PHASE_GRID_LOSS = ''grid_loss''"
| "phase_value PHASE_FAULT = ''fault''"

primrec reason_value :: "reason_code \<Rightarrow> string" where
  "reason_value NORMAL_MONITORING = ''normal_monitoring''"
| "reason_value SHED_SUSTAINED_OVERLOAD = ''shed_sustained_overload''"
| "reason_value SHED_FAST_OVERLOAD = ''shed_fast_overload''"
| "reason_value SHED_CRITICAL_OVERLOAD = ''shed_critical_overload''"
| "reason_value SHED_CUSTOM_THRESHOLD = ''shed_custom_threshold''"
| "reason_value RESTORE_HEADROOM_AVAILABLE = ''restore_headroom_available''"
| "reason_value RESTORE_BLOCKED_OVERLOAD = ''restore_blocked_overload''"
| "reason_value RESTORE_BLOCKED_FENCE = ''restore_blocked_fence''"
| "reason_value RESTORE_BLOCKED_NO_CANDIDATES = ''restore_blocked_no_candidates''"
| "reason_value RESTORE_OBSERVE_MODE = ''restore_observe_mode''"
| "reason_value TELEMETRY_INVALID = ''telemetry_invalid''"
| "reason_value TELEMETRY_STALE = ''telemetry_stale''"
| "reason_value RELAY_READBACK_TIMEOUT = ''relay_readback_timeout''"
| "reason_value PERSISTED_RUNTIME_INVALID = ''persisted_runtime_invalid''"
| "reason_value AGGREGATE_RECONCILIATION_TIMEOUT = ''aggregate_reconciliation_timeout''"
| "reason_value GRID_LOSS = ''grid_loss''"
| "reason_value SAFETY_BLOCKED = ''safety_blocked''"
| "reason_value OBSERVE_MODE = ''observe_mode''"
| "reason_value CONFIGURATION_INVALID = ''configuration_invalid''"
| "reason_value FAULT = ''fault''"
| "reason_value MANUAL_ON_ACCEPTED = ''manual_on_accepted''"
| "reason_value MANUAL_ON_RESHED = ''manual_on_reshed''"

primrec validity_value :: "telemetry_validity \<Rightarrow> string" where
  "validity_value VALID = ''valid''"
| "validity_value UNKNOWN = ''unknown''"
| "validity_value STALE = ''stale''"
| "validity_value WRONG_UNIT = ''wrong_unit''"
| "validity_value INVALID = ''invalid''"
| "validity_value MISSING = ''missing''"

definition all_phases :: "policy_phase list" where
  "all_phases = [STARTUP, MONITORING, SHEDDING, RESTORING, WAITING_LOAD_RECONCILIATION,
     WAITING_RESTORE_RECONCILIATION, PHASE_GRID_LOSS, PHASE_FAULT]"

definition all_reasons :: "reason_code list" where
  "all_reasons = [NORMAL_MONITORING, SHED_SUSTAINED_OVERLOAD, SHED_FAST_OVERLOAD,
     SHED_CRITICAL_OVERLOAD, SHED_CUSTOM_THRESHOLD, RESTORE_HEADROOM_AVAILABLE,
     RESTORE_BLOCKED_OVERLOAD, RESTORE_BLOCKED_FENCE, RESTORE_BLOCKED_NO_CANDIDATES,
     RESTORE_OBSERVE_MODE, TELEMETRY_INVALID, TELEMETRY_STALE, RELAY_READBACK_TIMEOUT,
     PERSISTED_RUNTIME_INVALID, AGGREGATE_RECONCILIATION_TIMEOUT, GRID_LOSS, SAFETY_BLOCKED,
     OBSERVE_MODE, CONFIGURATION_INVALID, FAULT, MANUAL_ON_ACCEPTED, MANUAL_ON_RESHED]"

definition all_validities :: "telemetry_validity list" where
  "all_validities = [VALID, UNKNOWN, STALE, WRONG_UNIT, INVALID, MISSING]"

definition enum_lookup :: "('a \<Rightarrow> string) \<Rightarrow> 'a list \<Rightarrow> pyval \<Rightarrow> 'a res" where
  "enum_lookup val members v =
     (case v of PStr s \<Rightarrow>
        (case find (\<lambda>m. val m = s) members of Some m \<Rightarrow> Inr m | None \<Rightarrow> Inl (ValueErr ''not a member''))
      | _ \<Rightarrow> Inl (ValueErr ''not a member''))"

lemma phase_lookup [simp]: "enum_lookup phase_value all_phases (PStr (phase_value p)) = Inr p"
  by (cases p) (simp_all add: enum_lookup_def all_phases_def)

lemma reason_lookup [simp]: "enum_lookup reason_value all_reasons (PStr (reason_value r)) = Inr r"
  by (cases r) (simp_all add: enum_lookup_def all_reasons_def)

lemma validity_lookup [simp]:
  "enum_lookup validity_value all_validities (PStr (validity_value v)) = Inr v"
  by (cases v) (simp_all add: enum_lookup_def all_validities_def)

section \<open>Tiers and policies\<close>

record threshold_tier =
  tier_id :: string
  limit_w :: rat
  duration_s :: rat
  tier_reason :: reason_code

text \<open>\<open>ThresholdTier(...)\<close> with \<open>__post_init__\<close>: the fields of a tier that exists are finite.\<close>

definition mk_tier :: "string \<Rightarrow> pyfloat \<Rightarrow> pyfloat \<Rightarrow> reason_code \<Rightarrow> threshold_tier res" where
  "mk_tier tid lmt dur rc =
     (if tid = [] then Inl (ValueErr ''tier_id must not be empty'')
      else if \<not> isfinite lmt \<or> \<not> isfinite dur \<or> lmt \<le> Fin 0 \<or> dur < Fin 0
      then Inl (ValueErr ''threshold values must be finite, positive limit, non-negative duration'')
      else Inr \<lparr>tier_id = tid, limit_w = fin_val lmt, duration_s = fin_val dur, tier_reason = rc\<rparr>)"

record policy_config =
  thresholds :: "threshold_tier list"
  policy_version :: string

fun strictly_increasing_from :: "rat \<Rightarrow> threshold_tier list \<Rightarrow> bool" where
  "strictly_increasing_from previous [] = True"
| "strictly_increasing_from previous (t # ts) =
     (if limit_w t \<le> previous then False else strictly_increasing_from (limit_w t) ts)"

definition mk_policy :: "threshold_tier list \<Rightarrow> string \<Rightarrow> policy_config res" where
  "mk_policy ts v =
     (if ts = [] then Inl (ValueErr ''thresholds must be non-empty'')
      else if \<not> strictly_increasing_from 0 ts
      then Inl (ValueErr ''threshold limits must be strictly increasing'')
      else Inr \<lparr>thresholds = ts, policy_version = v\<rparr>)"

text \<open>\<open>thresholds[0]\<close>: a policy that exists has one.\<close>

definition lowest_limit_w :: "policy_config \<Rightarrow> rat" where
  "lowest_limit_w p = limit_w (hd (thresholds p))"

definition validate_threshold_pair :: "pyfloat \<Rightarrow> pyfloat \<Rightarrow> rat \<Rightarrow> (rat \<times> rat) res" where
  "validate_threshold_pair lmt dur previous =
     (if \<not> isfinite lmt \<or> \<not> isfinite dur \<or> lmt \<le> Fin previous
         \<or> Fin MAX_POLICY_POWER_W < lmt \<or> dur < Fin 0 \<or> Fin MAX_POLICY_DURATION_S < dur
      then Inl (ValueErr ''invalid threshold pair'')
      else Inr (fin_val lmt, fin_val dur))"

section \<open>Thresholds from configuration data\<close>

text \<open>\<open>float(raw.get("power_limit", raw.get("limit_w")))\<close> and its counterpart.\<close>

definition raw_limit :: "pydict \<Rightarrow> pyfloat res" where
  "raw_limit raw = py_float (dget_or raw ''power_limit'' (dget raw ''limit_w''))"

definition raw_duration :: "pydict \<Rightarrow> pyfloat res" where
  "raw_duration raw = py_float (dget_or raw ''duration_s'' (dget raw ''time_s''))"

text \<open>The loop of \<open>_parse_threshold_list\<close>; \<open>Inr None\<close> is its \<open>return None\<close>.\<close>

fun parse_tiers_from :: "nat \<Rightarrow> rat \<Rightarrow> pyval list \<Rightarrow> threshold_tier list option res" where
  "parse_tiers_from idx previous [] = Inr (Some [])"
| "parse_tiers_from idx previous (raw # rest) =
     (case raw of PDict d \<Rightarrow>
        rbind (raw_limit d) (\<lambda>lmt.
        rbind (raw_duration d) (\<lambda>dur.
        rbind (validate_threshold_pair lmt dur previous) (\<lambda>(l, u).
        rbind (mk_tier (''custom_'' @ nat_text idx) (Fin l) (Fin u) SHED_CUSTOM_THRESHOLD) (\<lambda>t.
        rbind (parse_tiers_from (Suc idx) l rest) (\<lambda>ts.
        Inr (map_option (Cons t) ts))))))
      | _ \<Rightarrow> Inr None)"

definition parse_threshold_list :: "pyval list \<Rightarrow> threshold_tier list option res" where
  "parse_threshold_list raw = catch_type_value (parse_tiers_from 1 0 raw)"

definition finite_number :: "pyval \<Rightarrow> rat \<Rightarrow> rat \<Rightarrow> rat option res" where
  "finite_number v lo hi =
     (if is_bool v then Inr None
      else catch_type_value (rbind (py_float v) (\<lambda>c.
        if \<not> isfinite c \<or> c < Fin lo \<or> Fin hi < c then Inr None else Inr (Some (fin_val c)))))"

definition legacy_keys :: "(string \<times> string \<times> string \<times> reason_code) list" where
  "legacy_keys =
     [(''shed_sustained_limit'', ''shed_sustained_duration'', ''sustained'', SHED_SUSTAINED_OVERLOAD),
      (''shed_fast_limit'', ''shed_fast_duration'', ''fast'', SHED_FAST_OVERLOAD),
      (''shed_critical_limit'', ''shed_critical_duration'', ''critical'', SHED_CRITICAL_OVERLOAD)]"

fun legacy_tiers_from ::
  "pydict \<Rightarrow> rat \<Rightarrow> (string \<times> string \<times> string \<times> reason_code) list
     \<Rightarrow> threshold_tier list option res" where
  "legacy_tiers_from data previous [] = Inr (Some [])"
| "legacy_tiers_from data previous ((lk, dk, tid, rc) # rest) =
     (if \<not> dhas data lk then legacy_tiers_from data previous rest
      else
        rbind (finite_number (dget data lk) (previous + 1 / 10 ^ 9) MAX_POLICY_POWER_W) (\<lambda>lmt'.
        rbind (finite_number (dget_or data dk (PFloat (Fin 0))) 0 MAX_POLICY_DURATION_S) (\<lambda>dur'.
        obind (Inr lmt') (\<lambda>lmt. obind (Inr dur') (\<lambda>dur.
        obind (catch_value (validate_threshold_pair (Fin lmt) (Fin dur) previous)) (\<lambda>(l, u).
        rbind (mk_tier tid (Fin l) (Fin u) rc) (\<lambda>t.
        rbind (legacy_tiers_from data l rest) (\<lambda>ts. Inr (map_option (Cons t) ts)))))))))"

definition legacy_named_thresholds :: "pydict \<Rightarrow> threshold_tier list option res" where
  "legacy_named_thresholds data =
     (if \<not> list_ex (\<lambda>(lk, _). dhas data lk) legacy_keys then Inr None
      else obind (legacy_tiers_from data 0 legacy_keys)
             (\<lambda>ts. Inr (if ts = [] then None else Some ts)))"

definition submitted_thresholds :: "pyval list \<Rightarrow> threshold_tier list option res" where
  "submitted_thresholds xs =
     (if 1 \<le> length xs \<and> length xs \<le> MAX_CUSTOM_THRESHOLDS then parse_threshold_list xs
      else Inr None)"

definition derive_thresholds_from_mapping :: "pydict \<Rightarrow> threshold_tier list option res" where
  "derive_thresholds_from_mapping data =
     or_else (case dget data ''thresholds'' of
                PList xs \<Rightarrow> submitted_thresholds xs
              | PTuple xs \<Rightarrow> submitted_thresholds xs
              | _ \<Rightarrow> Inr None)
    (or_else (legacy_named_thresholds data)
       (obind (finite_number (dget data ''max_load'') 1 MAX_POLICY_POWER_W) (\<lambda>l.
          rbind (mk_tier ''user_max_load'' (Fin l) (Fin 0) SHED_CUSTOM_THRESHOLD)
            (\<lambda>t. Inr (Some [t])))))"

definition config_version :: "pydict \<Rightarrow> string" where
  "config_version data =
     (case dget data ''policy_version'' of
        PStr s \<Rightarrow> if nonblank s then s else DEFAULT_POLICY_VERSION
      | _ \<Rightarrow> DEFAULT_POLICY_VERSION)"

definition policy_from_mapping :: "pydict \<Rightarrow> policy_config option res" where
  "policy_from_mapping data =
     obind (derive_thresholds_from_mapping data)
       (\<lambda>ts. catch_value (mk_policy ts (py_strip (config_version data))))"

definition legacy_policy_fields :: "string list" where
  "legacy_policy_fields =
     [''max_load'', ''safety_reserve'', ''hysteresis'', ''hard_interlock'',
      ''shed_sustained_limit'', ''shed_sustained_duration'', ''shed_fast_limit'',
      ''shed_fast_duration'', ''shed_critical_limit'', ''shed_critical_duration'',
      ''restore_enabled'', ''restore_threshold'', ''restore_hysteresis'', ''restore_dwell'',
      ''restore_cooldown'', ''restore_armed'']"

definition strip_legacy_policy_fields :: "pydict \<Rightarrow> pydict" where
  "strip_legacy_policy_fields data = filter (\<lambda>(k, v). k \<notin> set legacy_policy_fields) data"

section \<open>What a derived policy guarantees\<close>

definition tier_ok :: "threshold_tier \<Rightarrow> bool" where
  "tier_ok t \<longleftrightarrow> tier_id t \<noteq> [] \<and> 0 < limit_w t \<and> limit_w t \<le> MAX_POLICY_POWER_W
     \<and> 0 \<le> duration_s t \<and> duration_s t \<le> MAX_POLICY_DURATION_S"

definition tiers_ok :: "threshold_tier list \<Rightarrow> bool" where
  "tiers_ok ts \<longleftrightarrow> ts \<noteq> [] \<and> strictly_increasing_from 0 ts \<and> list_all tier_ok ts
     \<and> distinct (map tier_id ts)"

lemma tier_ok_record [simp]:
  "tier_ok \<lparr>tier_id = tid, limit_w = l, duration_s = d, tier_reason = rc\<rparr> \<longleftrightarrow>
     tid \<noteq> [] \<and> 0 < l \<and> l \<le> MAX_POLICY_POWER_W \<and> 0 \<le> d \<and> d \<le> MAX_POLICY_DURATION_S"
  by (simp add: tier_ok_def)

lemma validate_pair_Inr:
  "validate_threshold_pair l d previous = Inr (x, y) \<longleftrightarrow>
     l = Fin x \<and> d = Fin y \<and> previous < x \<and> x \<le> MAX_POLICY_POWER_W \<and> 0 \<le> y
     \<and> y \<le> MAX_POLICY_DURATION_S"
  by (cases l; cases d) (auto simp: validate_threshold_pair_def)

lemma mk_tier_Inr:
  "mk_tier tid (Fin l) (Fin d) rc = Inr t \<longleftrightarrow>
     tid \<noteq> [] \<and> 0 < l \<and> 0 \<le> d
     \<and> t = \<lparr>tier_id = tid, limit_w = l, duration_s = d, tier_reason = rc\<rparr>"
  by (auto simp: mk_tier_def)

lemma mk_policy_Inr:
  "mk_policy ts v = Inr p \<longleftrightarrow>
     ts \<noteq> [] \<and> strictly_increasing_from 0 ts \<and> p = \<lparr>thresholds = ts, policy_version = v\<rparr>"
  by (auto simp: mk_policy_def)

lemma increasing_from_weaken:
  "strictly_increasing_from b ts \<Longrightarrow> a \<le> b \<Longrightarrow> strictly_increasing_from a ts"
  by (cases ts) (auto split: if_splits)

lemma increasing_from_lower: "strictly_increasing_from a ts \<Longrightarrow> t \<in> set ts \<Longrightarrow> a < limit_w t"
  by (induction ts arbitrary: a) (force split: if_splits)+

lemma increasing_sorted_wrt:
  "strictly_increasing_from a ts \<Longrightarrow> sorted_wrt (\<lambda>s t. limit_w s < limit_w t) ts"
  by (induction ts arbitrary: a) (auto split: if_splits dest: increasing_from_lower)

lemma parse_tiers_from_ok:
  "parse_tiers_from idx previous xs = Inr (Some ts) \<Longrightarrow> 0 \<le> previous \<Longrightarrow>
     strictly_increasing_from previous ts \<and> list_all tier_ok ts
     \<and> map tier_id ts = map (\<lambda>i. ''custom_'' @ nat_text i) [idx ..< idx + length xs]"
proof (induction xs arbitrary: idx previous ts)
  case Nil
  then show ?case by simp
next
  case (Cons x xs)
  from Cons.prems(1) obtain d l u t r where step:
      "validate_threshold_pair (Fin l) (Fin u) previous = Inr (l, u)"
      "mk_tier (''custom_'' @ nat_text idx) (Fin l) (Fin u) SHED_CUSTOM_THRESHOLD = Inr t"
      "parse_tiers_from (Suc idx) l xs = Inr (Some r)" "ts = t # r"
    by (auto simp: rbind_Inr_iff validate_pair_Inr split: pyval.splits option.splits)
  from step(1) Cons.prems(2) have "0 \<le> l" by (auto simp: validate_pair_Inr)
  with Cons.IH [OF step(3)] have "strictly_increasing_from l r \<and> list_all tier_ok r
     \<and> map tier_id r = map (\<lambda>i. ''custom_'' @ nat_text i) [Suc idx ..< Suc idx + length xs]"
    by blast
  moreover have "[idx ..< idx + length (x # xs)] = idx # [Suc idx ..< Suc idx + length xs]"
    by (simp add: upt_conv_Cons del: upt_Suc)
  ultimately show ?case using step
    by (auto simp: validate_pair_Inr mk_tier_Inr simp del: upt_Suc)
qed

lemma legacy_tiers_from_ok:
  "legacy_tiers_from data previous keys = Inr (Some ts) \<Longrightarrow> 0 \<le> previous \<Longrightarrow>
     strictly_increasing_from previous ts \<and> list_all tier_ok ts
     \<and> subseq (map tier_id ts) (map (\<lambda>(_, _, tid, _). tid) keys)"
proof (induction keys arbitrary: previous ts)
  case Nil
  then show ?case by simp
next
  case (Cons k keys)
  obtain lk dk tid rc where k: "k = (lk, dk, tid, rc)" by (cases k)
  show ?case
  proof (cases "dhas data lk")
    case False
    with Cons k show ?thesis by (auto intro: subseq_Cons')
  next
    case True
    with Cons.prems(1) k obtain l u t r where step:
        "validate_threshold_pair (Fin l) (Fin u) previous = Inr (l, u)"
        "mk_tier tid (Fin l) (Fin u) rc = Inr t"
        "legacy_tiers_from data l keys = Inr (Some r)" "ts = t # r"
      by (auto simp: rbind_Inr_iff obind_Some_iff validate_pair_Inr)
    from step(1) Cons.prems(2) have "0 \<le> l" by (auto simp: validate_pair_Inr)
    with Cons.IH [OF step(3)] have "strictly_increasing_from l r \<and> list_all tier_ok r
       \<and> subseq (map tier_id r) (map (\<lambda>(_, _, tid, _). tid) keys)"
      by blast
    with step k show ?thesis
      by (auto simp: validate_pair_Inr mk_tier_Inr)
  qed
qed

lemma finite_number_Some:
  "finite_number v a b = Inr (Some x) \<Longrightarrow> a \<le> x \<and> x \<le> b"
  by (auto simp: finite_number_def rbind_Inr_iff isfinite_iff split: if_splits)

lemma parse_threshold_list_ok:
  "parse_threshold_list xs = Inr (Some ts) \<Longrightarrow> xs \<noteq> [] \<Longrightarrow> tiers_ok ts \<and> length ts = length xs"
proof -
  assume a: "parse_threshold_list xs = Inr (Some ts)" and ne: "xs \<noteq> []"
  from a have "parse_tiers_from 1 0 xs = Inr (Some ts)" by (simp add: parse_threshold_list_def)
  from parse_tiers_from_ok [OF this]
  have *: "strictly_increasing_from 0 ts" "list_all tier_ok ts"
    "map tier_id ts = map (\<lambda>i. ''custom_'' @ nat_text i) [1 ..< 1 + length xs]" by auto
  have "distinct (map (\<lambda>i. ''custom_'' @ nat_text i) [1 ..< 1 + length xs])"
    by (simp add: distinct_map inj_on_def)
  moreover have "length (map tier_id ts) = length [1 ..< 1 + length xs]"
    unfolding *(3) by (simp only: length_map)
  then have "length ts = length xs" by (simp del: upt_Suc)
  ultimately show ?thesis using * ne by (auto simp: tiers_ok_def)
qed

lemma legacy_named_ok: "legacy_named_thresholds data = Inr (Some ts) \<Longrightarrow> tiers_ok ts"
proof -
  assume "legacy_named_thresholds data = Inr (Some ts)"
  then have ts: "legacy_tiers_from data 0 legacy_keys = Inr (Some ts)" "ts \<noteq> []"
    by (auto simp: legacy_named_thresholds_def obind_Some_iff split: if_splits)
  from legacy_tiers_from_ok [OF ts(1)]
  have *: "strictly_increasing_from 0 ts" "list_all tier_ok ts"
    "subseq (map tier_id ts) (map (\<lambda>(_, _, tid, _). tid) legacy_keys)" by auto
  have "distinct (map (\<lambda>(_, _, tid, _). tid) legacy_keys)" by (simp add: legacy_keys_def)
  then have "distinct (map tier_id ts)" using *(3) by (metis distinct_nthsI subseq_conv_nths)
  with * ts(2) show ?thesis by (simp add: tiers_ok_def)
qed

lemma submitted_thresholds_ok:
  "submitted_thresholds xs = Inr (Some ts) \<Longrightarrow> tiers_ok ts \<and> length ts = length xs"
  by (auto simp: submitted_thresholds_def split: if_splits dest!: parse_threshold_list_ok)

lemma derive_thresholds_ok:
  assumes "derive_thresholds_from_mapping data = Inr (Some ts)"
  shows "tiers_ok ts"
proof -
  from assms consider xs where "submitted_thresholds xs = Inr (Some ts)"
    | "legacy_named_thresholds data = Inr (Some ts)"
    | l t where "finite_number (dget data ''max_load'') 1 MAX_POLICY_POWER_W = Inr (Some l)"
        "mk_tier ''user_max_load'' (Fin l) (Fin 0) SHED_CUSTOM_THRESHOLD = Inr t" "ts = [t]"
    by (auto simp: derive_thresholds_from_mapping_def or_else_Some_iff obind_Some_iff rbind_Inr_iff
        split: pyval.split_asm)
  then show ?thesis
  proof cases
    case 1
    then show ?thesis by (simp add: submitted_thresholds_ok)
  next
    case 2
    then show ?thesis by (rule legacy_named_ok)
  next
    case 3
    from finite_number_Some [OF 3(1)] 3(2,3) show ?thesis
      by (auto simp: mk_tier_Inr tiers_ok_def MAX_POLICY_DURATION_S_def)
  qed
qed

lemma tiers_ok_mk_policy: "tiers_ok ts \<Longrightarrow> mk_policy ts v = Inr \<lparr>thresholds = ts, policy_version = v\<rparr>"
  by (simp add: tiers_ok_def mk_policy_def)

lemma policy_from_mapping_ok:
  "policy_from_mapping data = Inr (Some p) \<Longrightarrow>
     derive_thresholds_from_mapping data = Inr (Some (thresholds p)) \<and> tiers_ok (thresholds p)"
  by (auto simp: policy_from_mapping_def obind_Some_iff mk_policy_Inr dest: derive_thresholds_ok)

lemma lowest_limit_least:
  "tiers_ok (thresholds p) \<Longrightarrow> t \<in> set (thresholds p) \<Longrightarrow> lowest_limit_w p \<le> limit_w t"
  by (cases "thresholds p")
    (auto simp: tiers_ok_def lowest_limit_w_def split: if_splits dest!: increasing_from_lower)

section \<open>Properties\<close>

text \<open>Every policy built from configuration data, whatever the data holds, is non-empty with
  strictly increasing limits in (0, 100000] W, dwell times in [0, 86400] s and distinct tier
  ids, so that \<open>lowest_limit_w\<close> is the least limit; and the constructor's own checks never
  reject what the parser derived: a policy exists exactly when thresholds can be derived.\<close>

theorem derived_policy_well_formed:
  assumes "derive_thresholds_from_mapping data = Inr (Some ts)"
  shows "\<exists>p. policy_from_mapping data = Inr (Some p) \<and> thresholds p = ts
    \<and> ts \<noteq> [] \<and> sorted_wrt (\<lambda>s t. limit_w s < limit_w t) ts \<and> distinct (map tier_id ts)
    \<and> (\<forall>t \<in> set ts. 0 < limit_w t \<and> limit_w t \<le> 100000 \<and> 0 \<le> duration_s t \<and> duration_s t \<le> 86400
         \<and> lowest_limit_w p \<le> limit_w t)"
proof -
  let ?p = "\<lparr>thresholds = ts, policy_version = py_strip (config_version data)\<rparr>"
  have ok: "tiers_ok ts" using assms by (rule derive_thresholds_ok)
  then have "policy_from_mapping data = Inr (Some ?p)"
    using assms by (simp add: policy_from_mapping_def tiers_ok_mk_policy catch_value_def)
  moreover have "sorted_wrt (\<lambda>s t. limit_w s < limit_w t) ts"
    using ok by (auto simp: tiers_ok_def intro: increasing_sorted_wrt)
  moreover have "\<forall>t \<in> set ts. lowest_limit_w ?p \<le> limit_w t"
    using ok lowest_limit_least [of ?p] by simp
  ultimately show ?thesis
    using ok
    by (intro exI [of _ ?p])
      (simp add: tiers_ok_def list_all_iff tier_ok_def MAX_POLICY_POWER_W_def MAX_POLICY_DURATION_S_def)
qed

lemma demo_max_load_derive:
  "derive_thresholds_from_mapping [(''max_load'', PInt 5000)] =
     Inr (Some [\<lparr>tier_id = ''user_max_load'', limit_w = 5000, duration_s = 0,
                 tier_reason = SHED_CUSTOM_THRESHOLD\<rparr>])"
  by (simp add: derive_thresholds_from_mapping_def legacy_named_thresholds_def legacy_keys_def dhas_def
      finite_number_def int_to_float_def float_overflow_def MAX_POLICY_POWER_W_def mk_tier_def)

theorem derived_policy_well_formed_witness:
  "\<exists>p. policy_from_mapping [(''max_load'', PInt 5000)] = Inr (Some p)
     \<and> thresholds p = [\<lparr>tier_id = ''user_max_load'', limit_w = 5000, duration_s = 0,
                         tier_reason = SHED_CUSTOM_THRESHOLD\<rparr>]"
  using derived_policy_well_formed [OF demo_max_load_derive] by blast

definition pair_value :: "rat \<times> rat \<Rightarrow> pyval" where
  "pair_value lt = PDict [(''power_limit'', PFloat (Fin (fst lt))), (''duration_s'', PFloat (Fin (snd lt)))]"

definition custom_tier :: "nat \<Rightarrow> rat \<times> rat \<Rightarrow> threshold_tier" where
  "custom_tier i lt = \<lparr>tier_id = ''custom_'' @ nat_text i, limit_w = fst lt, duration_s = snd lt,
     tier_reason = SHED_CUSTOM_THRESHOLD\<rparr>"

lemma raw_pair [simp]:
  "raw_limit [(''power_limit'', PFloat f), (''duration_s'', PFloat g)] = Inr f"
  "raw_duration [(''power_limit'', PFloat f), (''duration_s'', PFloat g)] = Inr g"
  by (simp_all add: raw_limit_def raw_duration_def dget_or_def)

lemma pair_value_simp [simp]:
  "pair_value (l, d) = PDict [(''power_limit'', PFloat (Fin l)), (''duration_s'', PFloat (Fin d))]"
  by (simp add: pair_value_def)

lemma mk_custom_tier [simp]:
  "0 < l \<Longrightarrow> 0 \<le> d \<Longrightarrow>
   mk_tier (''custom_'' @ nat_text i) (Fin l) (Fin d) SHED_CUSTOM_THRESHOLD = Inr (custom_tier i (l, d))"
  by (simp add: mk_tier_def custom_tier_def)

fun valid_pairs :: "rat \<Rightarrow> (rat \<times> rat) list \<Rightarrow> bool" where
  "valid_pairs previous [] = True"
| "valid_pairs previous ((l, d) # r) =
     (previous < l \<and> l \<le> MAX_POLICY_POWER_W \<and> 0 \<le> d \<and> d \<le> MAX_POLICY_DURATION_S \<and> valid_pairs l r)"

lemma parse_tiers_from_pairs:
  "valid_pairs previous ps \<Longrightarrow> 0 \<le> previous \<Longrightarrow>
   parse_tiers_from i previous (map pair_value ps) =
     Inr (Some (map (\<lambda>(i, p). custom_tier i p) (zip [i ..< i + length ps] ps)))"
proof (induction ps arbitrary: i previous)
  case Nil
  then show ?case by simp
next
  case (Cons p ps)
  obtain l d where p: "p = (l, d)" by (cases p)
  with Cons.prems have v: "validate_threshold_pair (Fin l) (Fin d) previous = Inr (l, d)" "0 \<le> l" "0 < l" "0 \<le> d"
    by (auto simp: validate_pair_Inr)
  have "[i ..< i + length (p # ps)] = i # [Suc i ..< Suc i + length ps]"
    by (simp add: upt_conv_Cons del: upt_Suc)
  moreover have "parse_tiers_from (Suc i) l (map pair_value ps) =
      Inr (Some (map (\<lambda>(i, p). custom_tier i p) (zip [Suc i ..< Suc i + length ps] ps)))"
    using Cons p v by simp
  ultimately show ?case
    using v p mk_custom_tier [OF v(3,4), of i] by (simp del: upt_Suc mk_custom_tier)
qed

lemma valid_pairs_derive:
  assumes "dget data ''thresholds'' = PList (map pair_value ps)"
    and "valid_pairs 0 ps" and "1 \<le> length ps" and "length ps \<le> MAX_CUSTOM_THRESHOLDS"
  shows "derive_thresholds_from_mapping data =
    Inr (Some (map (\<lambda>(i, p). custom_tier i p) (zip [1 ..< 1 + length ps] ps)))"
  using assms parse_tiers_from_pairs [of 0 ps 1]
  by (simp add: derive_thresholds_from_mapping_def submitted_thresholds_def
      parse_threshold_list_def catch_type_value_def del: upt_Suc)

text \<open>Recognised values are kept: a list of 1 to 64 entries, each a mapping with numeric
  limit and duration that pass \<open>validate_threshold_pair\<close> in order, becomes exactly the tiers
  \<open>custom_1\<close>, \<open>custom_2\<close>, ... with these limits and durations, whatever legacy fields the
  data also holds.\<close>

theorem valid_thresholds_parse:
  assumes "dget data ''thresholds'' = PList (map pair_value ps)"
    and "valid_pairs 0 ps" and "1 \<le> length ps" and "length ps \<le> 64"
  shows "derive_thresholds_from_mapping data =
    Inr (Some (map (\<lambda>(i, p). custom_tier i p) (zip [1 ..< 1 + length ps] ps)))"
  using assms by (intro valid_pairs_derive) (simp_all add: MAX_CUSTOM_THRESHOLDS_def)

theorem valid_thresholds_parse_witness:
  "derive_thresholds_from_mapping [(''thresholds'', PList (map pair_value [(5000, 30), (8000, 0)]))] =
    Inr (Some (map (\<lambda>(i, p). custom_tier i p) (zip [1 ..< 1 + length [(5000 :: rat, 30 :: rat), (8000, 0)]]
      [(5000, 30), (8000, 0)])))"
  by (rule valid_thresholds_parse)
    (simp_all add: MAX_POLICY_POWER_W_def MAX_POLICY_DURATION_S_def)

text \<open>An integer too large for a float is not an invalid threshold but an escaping exception:
  the parser catches TypeError and ValueError only.\<close>

lemma huge_threshold_escapes:
  "derive_thresholds_from_mapping [(''thresholds'', PList [PDict
     [(''power_limit'', PInt (10 ^ 400)), (''duration_s'', PInt 0)]])] = Inl OverflowErr"
  by (simp add: derive_thresholds_from_mapping_def submitted_thresholds_def MAX_CUSTOM_THRESHOLDS_def
      parse_threshold_list_def raw_limit_def dget_or_def int_to_float_def float_overflow_def
      catch_type_value_def)

end
