(* ===== verification/Policy_Engine.thy ===== *)
theory Policy_Engine
  imports Policy
begin

text \<open>
  \<open>PolicyRuntime\<close>, \<open>PolicyDecision\<close> and \<open>PolicyEngine\<close> of \<open>policy.py\<close>: dwell timers per
  tier, the post-shed and post-restore barriers, and the safe-capacity restore window. The
  runtime's fields and the engine's own are one record; every method is a function from the
  engine to its result and the engine it leaves.
\<close>

section \<open>State\<close>

record policy_runtime =
  phase :: policy_phase
  active_tier :: "string option"
  tier_started_at :: "rat option"
  tier_since :: "string \<rightharpoonup> rat"
  pending_post_shed_generation :: "int option"
  pending_post_shed_after_reported_at :: "rat option"
  pending_operation_id :: "string option"
  last_shed_load_generation :: "int option"
  last_telemetry_validity :: telemetry_validity
  last_reason_code :: reason_code
  decision_sequence :: int
  restore_since :: "rat option"
  pending_post_restore_generation :: "int option"
  pending_post_restore_after_reported_at :: "rat option"
  pending_restore_operation_id :: "string option"
  last_restore_load_generation :: "int option"

record policy_decision =
  triggered :: bool
  decision_tier :: "string option"
  decision_reason :: reason_code
  elapsed_s :: rat

record policy_engine = policy_runtime +
  policy :: policy_config
  last_decision :: policy_decision
  restore_capacity :: "(rat \<times> rat) option"

definition mk_decision :: "bool \<Rightarrow> string option \<Rightarrow> reason_code \<Rightarrow> policy_decision" where
  "mk_decision b t r = \<lparr>triggered = b, decision_tier = t, decision_reason = r, elapsed_s = 0\<rparr>"

definition new_engine :: "policy_config \<Rightarrow> policy_engine" where
  "new_engine p = \<lparr>phase = STARTUP, active_tier = None, tier_started_at = None,
     tier_since = Map.empty, pending_post_shed_generation = None,
     pending_post_shed_after_reported_at = None, pending_operation_id = None,
     last_shed_load_generation = None, last_telemetry_validity = UNKNOWN,
     last_reason_code = SAFETY_BLOCKED, decision_sequence = 0, restore_since = None,
     pending_post_restore_generation = None, pending_post_restore_after_reported_at = None,
     pending_restore_operation_id = None, last_restore_load_generation = None,
     policy = p, last_decision = mk_decision False None SAFETY_BLOCKED,
     restore_capacity = None\<rparr>"

section \<open>Dwell timers and decisions\<close>

definition reset_restore_window :: "policy_engine \<Rightarrow> policy_engine" where
  "reset_restore_window e = e\<lparr>restore_since := None, restore_capacity := None\<rparr>"

text \<open>A report that is not a finite, non-negative number.\<close>

definition invalid_load :: "pyfloat \<Rightarrow> bool" where
  "invalid_load l \<longleftrightarrow> \<not> isfinite l \<or> l < Fin 0"

text \<open>The loop of \<open>_update_exceeded_tiers\<close> over the tiers, with the timers it leaves.\<close>

fun update_timers :: "rat \<Rightarrow> rat \<Rightarrow> threshold_tier list \<Rightarrow> (string \<rightharpoonup> rat) \<Rightarrow> (string \<rightharpoonup> rat)" where
  "update_timers load now [] m = m"
| "update_timers load now (t # ts) m =
     (if limit_w t < load
      then update_timers load now ts
             (case m (tier_id t) of None \<Rightarrow> m(tier_id t \<mapsto> now) | Some _ \<Rightarrow> m)
      else update_timers load now ts (m(tier_id t := None)))"

definition exceeded_tiers :: "policy_engine \<Rightarrow> rat \<Rightarrow> threshold_tier list" where
  "exceeded_tiers e load = filter (\<lambda>t. limit_w t < load) (thresholds (policy e))"

definition update_exceeded_tiers ::
  "policy_engine \<Rightarrow> rat \<Rightarrow> rat \<Rightarrow> threshold_tier list \<times> policy_engine" where
  "update_exceeded_tiers e load now =
     (exceeded_tiers e load,
      e\<lparr>tier_since := update_timers load now (thresholds (policy e)) (tier_since e)\<rparr>)"

definition observe_report :: "policy_engine \<Rightarrow> pyfloat \<Rightarrow> rat \<Rightarrow> policy_engine" where
  "observe_report e load now =
     (if invalid_load load then reset_restore_window (e\<lparr>tier_since := Map.empty\<rparr>)
      else
        (let e' = snd (update_exceeded_tiers e (fin_val load) now)
         in case restore_capacity e' of
              None \<Rightarrow> e'
            | Some (expected_w, limit) \<Rightarrow>
                if limit \<le> fin_val load + expected_w then reset_restore_window e' else e'))"

definition restore_window_elapsed ::
  "policy_engine \<Rightarrow> rat \<times> rat \<Rightarrow> rat \<Rightarrow> rat \<times> policy_engine" where
  "restore_window_elapsed e capacity now =
     (let e1 = (if restore_capacity e \<noteq> Some capacity then reset_restore_window e else e);
          since = (case restore_since e1 of None \<Rightarrow> now | Some s \<Rightarrow> s)
      in (now - since, e1\<lparr>restore_since := Some since, restore_capacity := Some capacity\<rparr>))"

definition restore_window_matured :: "policy_engine \<Rightarrow> rat \<Rightarrow> rat \<Rightarrow> rat \<Rightarrow> bool" where
  "restore_window_matured e expected_w limit now \<longleftrightarrow>
     restore_capacity e = Some (expected_w, limit)
     \<and> (case restore_since e of None \<Rightarrow> False
        | Some since \<Rightarrow> RESTORE_SAFE_CAPACITY_DWELL_S \<le> now - since)"

definition observe_invalid_load ::
  "policy_engine \<Rightarrow> reason_code \<Rightarrow> policy_decision \<times> policy_engine" where
  "observe_invalid_load e rc =
     (let d = mk_decision False None rc;
          e1 = reset_restore_window (e\<lparr>
            last_telemetry_validity := (if rc = TELEMETRY_STALE then STALE else INVALID),
            active_tier := None, tier_started_at := None, tier_since := Map.empty\<rparr>)
      in (d, e1\<lparr>phase := PHASE_FAULT, last_reason_code := rc,
                decision_sequence := decision_sequence e1 + 1, last_decision := d\<rparr>))"

definition load_decision ::
  "policy_engine \<Rightarrow> threshold_tier option \<Rightarrow> threshold_tier option \<Rightarrow> rat
     \<Rightarrow> policy_decision \<times> policy_engine" where
  "load_decision e active trigger now =
     (case trigger of
        Some t \<Rightarrow>
          (let e1 = (reset_restore_window e)\<lparr>phase := SHEDDING, last_reason_code := tier_reason t\<rparr>;
               elapsed = now - (case tier_since e1 (tier_id t) of None \<Rightarrow> now | Some s \<Rightarrow> s)
           in (\<lparr>triggered = True,
                 decision_tier = Some (case active of Some a \<Rightarrow> tier_id a | None \<Rightarrow> tier_id t),
                 decision_reason = tier_reason t, elapsed_s = max 0 elapsed\<rparr>, e1))
      | None \<Rightarrow>
          (mk_decision False (map_option tier_id active) NORMAL_MONITORING,
           e\<lparr>phase := (if pending_post_shed_generation e \<noteq> None
                       then WAITING_LOAD_RECONCILIATION else MONITORING),
             last_reason_code := NORMAL_MONITORING\<rparr>))"

definition last_opt :: "'a list \<Rightarrow> 'a option" where
  "last_opt xs = (if xs = [] then None else Some (last xs))"

text \<open>
  \<open>tier_since[tier.tier_id]\<close> has an entry for every exceeded tier when the tier ids are
  distinct (\<open>exceeded_have_timers\<close> below); every policy the program builds has distinct ids
  (\<open>derive_thresholds_ok\<close>).
\<close>

definition tier_matured :: "(string \<rightharpoonup> rat) \<Rightarrow> rat \<Rightarrow> threshold_tier \<Rightarrow> bool" where
  "tier_matured m now t \<longleftrightarrow>
     (case m (tier_id t) of None \<Rightarrow> False | Some s \<Rightarrow> duration_s t \<le> now - s)"

definition observe_load ::
  "policy_engine \<Rightarrow> pyfloat \<Rightarrow> rat \<Rightarrow> policy_decision \<times> policy_engine" where
  "observe_load e load now =
     (if invalid_load load then observe_invalid_load e TELEMETRY_INVALID
      else
        (let (exceeded, e1) =
               update_exceeded_tiers (e\<lparr>last_telemetry_validity := VALID\<rparr>) (fin_val load) now;
             active = last_opt exceeded;
             trigger = last_opt (filter (tier_matured (tier_since e1) now) exceeded);
             e2 = e1\<lparr>active_tier := map_option tier_id active,
                     tier_started_at := (case active of None \<Rightarrow> None
                                         | Some a \<Rightarrow> tier_since e1 (tier_id a)),
                     tier_since := (if active = None then Map.empty else tier_since e1)\<rparr>;
             (d, e3) = load_decision e2 active trigger now
         in (d, e3\<lparr>decision_sequence := decision_sequence e3 + 1, last_decision := d\<rparr>)))"

section \<open>Barriers\<close>

definition append_shed :: "policy_engine \<Rightarrow> string \<Rightarrow> int \<Rightarrow> reason_code \<Rightarrow> policy_engine" where
  "append_shed e operation_id load_generation rc =
     (reset_restore_window e)\<lparr>
       last_shed_load_generation := Some load_generation,
       pending_post_shed_generation := Some load_generation,
       pending_post_shed_after_reported_at := None,
       pending_operation_id := Some operation_id,
       phase := WAITING_LOAD_RECONCILIATION, last_reason_code := rc\<rparr>"

definition finite_report :: "pyfloat option \<Rightarrow> rat option" where
  "finite_report r = (case r of Some (Fin x) \<Rightarrow> Some x | _ \<Rightarrow> None)"

definition set_post_shed_fence :: "policy_engine \<Rightarrow> pyfloat option \<Rightarrow> policy_engine" where
  "set_post_shed_fence e r = e\<lparr>pending_post_shed_after_reported_at := finite_report r\<rparr>"

definition can_shed_again :: "policy_engine \<Rightarrow> bool" where
  "can_shed_again e \<longleftrightarrow> pending_post_shed_generation e = None"

definition reconcile_shed ::
  "policy_engine \<Rightarrow> int \<Rightarrow> pyfloat option \<Rightarrow> bool \<times> policy_engine" where
  "reconcile_shed e gen reported =
     (case pending_post_shed_generation e of
        None \<Rightarrow> (True, e)
      | Some pending \<Rightarrow>
          (case (pending_post_shed_after_reported_at e, reported) of
             (Some fence, Some r) \<Rightarrow>
               if gen \<le> pending then (False, e)
               else if \<not> isfinite r \<or> r \<le> Fin fence then (False, e)
               else (True, e\<lparr>pending_post_shed_generation := None,
                             pending_post_shed_after_reported_at := None,
                             pending_operation_id := None, phase := MONITORING\<rparr>)
           | _ \<Rightarrow> (False, e)))"

definition observe_restore_safe_capacity ::
  "policy_engine \<Rightarrow> pyfloat \<Rightarrow> pyfloat \<Rightarrow> pyfloat \<Rightarrow> rat \<Rightarrow> policy_decision \<times> policy_engine"
where
  "observe_restore_safe_capacity e load expected_w limit now =
     (if invalid_load load
      then (mk_decision False None TELEMETRY_INVALID, reset_restore_window e)
      else if \<not> isfinite expected_w \<or> expected_w < Fin 0 \<or> \<not> isfinite limit \<or> limit \<le> Fin 0
      then (mk_decision False None RESTORE_BLOCKED_OVERLOAD, reset_restore_window e)
      else if fin_val limit \<le> fin_val load + fin_val expected_w
      then (mk_decision False None RESTORE_BLOCKED_OVERLOAD, reset_restore_window e)
      else
        (let (elapsed, e') = restore_window_elapsed e (fin_val expected_w, fin_val limit) now;
             trig = (RESTORE_SAFE_CAPACITY_DWELL_S \<le> elapsed)
         in (\<lparr>triggered = trig, decision_tier = (if trig then Some ''restore'' else None),
               decision_reason = RESTORE_HEADROOM_AVAILABLE, elapsed_s = max 0 elapsed\<rparr>, e')))"

definition append_restore :: "policy_engine \<Rightarrow> string \<Rightarrow> int \<Rightarrow> policy_engine" where
  "append_restore e operation_id load_generation =
     (reset_restore_window (e\<lparr>
       last_restore_load_generation := Some load_generation,
       pending_post_restore_generation := Some load_generation,
       pending_post_restore_after_reported_at := None,
       pending_restore_operation_id := Some operation_id\<rparr>))\<lparr>
         phase := WAITING_RESTORE_RECONCILIATION\<rparr>"

definition set_post_restore_fence :: "policy_engine \<Rightarrow> pyfloat option \<Rightarrow> policy_engine" where
  "set_post_restore_fence e r = e\<lparr>pending_post_restore_after_reported_at := finite_report r\<rparr>"

definition can_restore_again :: "policy_engine \<Rightarrow> int \<Rightarrow> bool" where
  "can_restore_again e load_generation \<longleftrightarrow>
     (case pending_post_restore_generation e of None \<Rightarrow> True | Some p \<Rightarrow> p < load_generation)"

definition reconcile_restore ::
  "policy_engine \<Rightarrow> int \<Rightarrow> pyfloat option \<Rightarrow> bool \<times> policy_engine" where
  "reconcile_restore e gen reported =
     (case pending_post_restore_generation e of
        None \<Rightarrow> (True, e)
      | Some pending \<Rightarrow>
          (case (pending_post_restore_after_reported_at e, reported) of
             (Some fence, Some r) \<Rightarrow>
               if gen \<le> pending then (False, e)
               else if \<not> isfinite r \<or> r \<le> Fin fence then (False, e)
               else (True, e\<lparr>pending_post_restore_generation := None,
                             pending_post_restore_after_reported_at := None,
                             pending_restore_operation_id := None, phase := MONITORING\<rparr>)
           | _ \<Rightarrow> (False, e)))"

section \<open>Events and runs\<close>

text \<open>One call of a method that the coordinator makes on the engine, with its arguments.\<close>

datatype engine_event =
    Report pyfloat rat
  | Load pyfloat rat
  | InvalidLoad reason_code
  | Capacity pyfloat pyfloat pyfloat rat
  | ShedDone string int reason_code
  | ShedFence "pyfloat option"
  | ReconcileShed int "pyfloat option"
  | RestoreDone string int
  | RestoreFence "pyfloat option"
  | ReconcileRestore int "pyfloat option"
  | ResetWindow

primrec engine_step :: "policy_engine \<Rightarrow> engine_event \<Rightarrow> policy_engine" where
  "engine_step e (Report l t) = observe_report e l t"
| "engine_step e (Load l t) = snd (observe_load e l t)"
| "engine_step e (InvalidLoad rc) = snd (observe_invalid_load e rc)"
| "engine_step e (Capacity l c m t) = snd (observe_restore_safe_capacity e l c m t)"
| "engine_step e (ShedDone op g rc) = append_shed e op g rc"
| "engine_step e (ShedFence r) = set_post_shed_fence e r"
| "engine_step e (ReconcileShed g r) = snd (reconcile_shed e g r)"
| "engine_step e (RestoreDone op g) = append_restore e op g"
| "engine_step e (RestoreFence r) = set_post_restore_fence e r"
| "engine_step e (ReconcileRestore g r) = snd (reconcile_restore e g r)"
| "engine_step e ResetWindow = reset_restore_window e"

definition engine_run :: "policy_engine \<Rightarrow> engine_event list \<Rightarrow> policy_engine" where
  "engine_run e evs = foldl engine_step e evs"

lemma engine_run_Nil [simp]: "engine_run e [] = e"
  by (simp add: engine_run_def)

lemma engine_run_snoc [simp]: "engine_run e (evs @ [ev]) = engine_step (engine_run e evs) ev"
  by (simp add: engine_run_def)

lemma engine_run_append: "engine_run e (xs @ ys) = engine_run (engine_run e xs) ys"
  by (simp add: engine_run_def)

section \<open>Frames\<close>

lemma reset_frame [engine_simps, simp]:
  "tier_since (reset_restore_window e) = tier_since e"
  "policy (reset_restore_window e) = policy e"
  "restore_since (reset_restore_window e) = None"
  "restore_capacity (reset_restore_window e) = None"
  "pending_post_shed_generation (reset_restore_window e) = pending_post_shed_generation e"
  "pending_post_shed_after_reported_at (reset_restore_window e) = pending_post_shed_after_reported_at e"
  "pending_post_restore_generation (reset_restore_window e) = pending_post_restore_generation e"
  "pending_post_restore_after_reported_at (reset_restore_window e)
     = pending_post_restore_after_reported_at e"
  "phase (reset_restore_window e) = phase e"
  "decision_sequence (reset_restore_window e) = decision_sequence e"
  by (simp_all add: reset_restore_window_def)

lemma load_decision_frame [engine_simps]:
  "tier_since (snd (load_decision e a t now)) = tier_since e"
  "policy (snd (load_decision e a t now)) = policy e"
  "pending_post_shed_generation (snd (load_decision e a t now)) = pending_post_shed_generation e"
  "pending_post_restore_generation (snd (load_decision e a t now)) = pending_post_restore_generation e"
  "triggered (fst (load_decision e a t now)) \<longleftrightarrow> t \<noteq> None"
  "restore_since (snd (load_decision e a t now)) = (if t = None then restore_since e else None)"
  "restore_capacity (snd (load_decision e a t now)) = (if t = None then restore_capacity e else None)"
  by (auto simp: load_decision_def Let_def mk_decision_def split: option.splits)

lemma exceeded_tiers_cong [simp]:
  "exceeded_tiers (e\<lparr>last_telemetry_validity := v\<rparr>) load = exceeded_tiers e load"
  by (simp add: exceeded_tiers_def)

text \<open>The timers, the trigger tier and the fields \<open>observe_load\<close> leaves, on a valid load.\<close>

definition timers_after :: "policy_engine \<Rightarrow> rat \<Rightarrow> rat \<Rightarrow> (string \<rightharpoonup> rat)" where
  "timers_after e load now = update_timers load now (thresholds (policy e)) (tier_since e)"

definition trigger_tier :: "policy_engine \<Rightarrow> rat \<Rightarrow> rat \<Rightarrow> threshold_tier option" where
  "trigger_tier e load now =
     last_opt (filter (tier_matured (timers_after e load now) now) (exceeded_tiers e load))"

lemma observe_load_fields [engine_simps]:
  assumes "\<not> invalid_load load"
  shows "triggered (fst (observe_load e load now)) \<longleftrightarrow> trigger_tier e (fin_val load) now \<noteq> None"
    and "restore_since (snd (observe_load e load now)) =
      (if trigger_tier e (fin_val load) now = None then restore_since e else None)"
    and "restore_capacity (snd (observe_load e load now)) =
      (if trigger_tier e (fin_val load) now = None then restore_capacity e else None)"
  using assms
  by (simp_all add: observe_load_def update_exceeded_tiers_def Let_def case_prod_beta engine_simps
      timers_after_def trigger_tier_def last_opt_def)

lemma observe_load_reason:
  "\<not> invalid_load load \<Longrightarrow>
   decision_reason (fst (observe_load e load now)) =
     (case trigger_tier e (fin_val load) now of Some t \<Rightarrow> tier_reason t | None \<Rightarrow> NORMAL_MONITORING)"
  by (simp add: observe_load_def update_exceeded_tiers_def Let_def case_prod_beta
      timers_after_def trigger_tier_def load_decision_def mk_decision_def split: option.split)

lemma observe_load_frame [engine_simps, simp]:
  "policy (snd (observe_load e load now)) = policy e"
  "pending_post_shed_generation (snd (observe_load e load now)) = pending_post_shed_generation e"
  "pending_post_restore_generation (snd (observe_load e load now)) = pending_post_restore_generation e"
  by (simp_all add: observe_load_def observe_invalid_load_def update_exceeded_tiers_def Let_def
      case_prod_beta engine_simps)

lemma observe_report_frame [engine_simps, simp]:
  "policy (observe_report e load now) = policy e"
  "pending_post_shed_generation (observe_report e load now) = pending_post_shed_generation e"
  "pending_post_restore_generation (observe_report e load now) = pending_post_restore_generation e"
  by (simp_all add: observe_report_def update_exceeded_tiers_def Let_def engine_simps
      split: option.split)

lemma observe_report_timers [engine_simps]:
  "tier_since (observe_report e load now) =
     (if invalid_load load then Map.empty else timers_after e (fin_val load) now)"
  by (simp add: observe_report_def update_exceeded_tiers_def Let_def engine_simps timers_after_def
      split: option.split)

lemma observe_invalid_load_frame [engine_simps, simp]:
  "policy (snd (observe_invalid_load e rc)) = policy e"
  "tier_since (snd (observe_invalid_load e rc)) = Map.empty"
  "restore_since (snd (observe_invalid_load e rc)) = None"
  "restore_capacity (snd (observe_invalid_load e rc)) = None"
  "triggered (fst (observe_invalid_load e rc)) = False"
  "pending_post_shed_generation (snd (observe_invalid_load e rc)) = pending_post_shed_generation e"
  "pending_post_restore_generation (snd (observe_invalid_load e rc))
     = pending_post_restore_generation e"
  by (simp_all add: observe_invalid_load_def Let_def mk_decision_def)

lemma observe_load_invalid [engine_simps]:
  "invalid_load load \<Longrightarrow> observe_load e load now = observe_invalid_load e TELEMETRY_INVALID"
  by (simp add: observe_load_def)

lemma observe_load_timers [engine_simps]:
  "tier_since (snd (observe_load e load now)) =
     (if invalid_load load \<or> exceeded_tiers e (fin_val load) = [] then Map.empty
      else timers_after e (fin_val load) now)"
  by (simp add: observe_load_def observe_invalid_load_def update_exceeded_tiers_def Let_def
      case_prod_beta engine_simps timers_after_def last_opt_def)

lemma capacity_frame [engine_simps, simp]:
  "policy (snd (observe_restore_safe_capacity e l c m now)) = policy e"
  "tier_since (snd (observe_restore_safe_capacity e l c m now)) = tier_since e"
  "pending_post_shed_generation (snd (observe_restore_safe_capacity e l c m now))
     = pending_post_shed_generation e"
  "pending_post_restore_generation (snd (observe_restore_safe_capacity e l c m now))
     = pending_post_restore_generation e"
  by (simp_all add: observe_restore_safe_capacity_def restore_window_elapsed_def Let_def)

lemma shed_barrier_frame [engine_simps, simp]:
  "policy (append_shed e op g rc) = policy e"
  "tier_since (append_shed e op g rc) = tier_since e"
  "policy (set_post_shed_fence e r) = policy e"
  "tier_since (set_post_shed_fence e r) = tier_since e"
  "policy (snd (reconcile_shed e g r)) = policy e"
  "tier_since (snd (reconcile_shed e g r)) = tier_since e"
  "restore_since (snd (reconcile_shed e g r)) = restore_since e"
  "restore_capacity (snd (reconcile_shed e g r)) = restore_capacity e"
  by (simp_all add: append_shed_def set_post_shed_fence_def reconcile_shed_def
      split: option.split)

lemma restore_barrier_frame [engine_simps, simp]:
  "policy (append_restore e op g) = policy e"
  "tier_since (append_restore e op g) = tier_since e"
  "policy (set_post_restore_fence e r) = policy e"
  "tier_since (set_post_restore_fence e r) = tier_since e"
  "policy (snd (reconcile_restore e g r)) = policy e"
  "tier_since (snd (reconcile_restore e g r)) = tier_since e"
  "restore_since (snd (reconcile_restore e g r)) = restore_since e"
  "restore_capacity (snd (reconcile_restore e g r)) = restore_capacity e"
  by (simp_all add: append_restore_def set_post_restore_fence_def reconcile_restore_def
      split: option.split)

lemma engine_step_policy [engine_simps, simp]: "policy (engine_step e ev) = policy e"
  by (cases ev) simp_all

lemma engine_run_policy [simp]: "policy (engine_run e evs) = policy e"
  by (induction evs rule: rev_induct) simp_all

section \<open>Dwell timers against the reported history\<close>

text \<open>
  The start of the unbroken excess over a limit that the latest reports (newest first) show:
  the oldest report of that run, None when the latest report does not exceed the limit.
\<close>

fun excess_start :: "rat \<Rightarrow> engine_event list \<Rightarrow> rat option" where
  "excess_start limit [] = None"
| "excess_start limit (Report l t # h) =
     (if \<not> invalid_load l \<and> limit < fin_val l
      then Some (case excess_start limit h of Some s \<Rightarrow> s | None \<Rightarrow> t) else None)"
| "excess_start limit (Load l t # h) =
     (if \<not> invalid_load l \<and> limit < fin_val l
      then Some (case excess_start limit h of Some s \<Rightarrow> s | None \<Rightarrow> t) else None)"
| "excess_start limit (InvalidLoad rc # h) = None"
| "excess_start limit (_ # h) = excess_start limit h"

lemma update_timers_other:
  "k \<notin> tier_id ` set ts \<Longrightarrow> update_timers load now ts m k = m k"
  by (induction ts arbitrary: m) (auto split: option.splits)

lemma update_timers_lookup:
  "distinct (map tier_id ts) \<Longrightarrow> t \<in> set ts \<Longrightarrow>
   update_timers load now ts m (tier_id t) =
     (if limit_w t < load
      then Some (case m (tier_id t) of Some s \<Rightarrow> s | None \<Rightarrow> now) else None)"
proof (induction ts arbitrary: m)
  case Nil
  then show ?case by simp
next
  case (Cons u ts)
  show ?case
  proof (cases "t = u")
    case True
    with Cons.prems(1) have "tier_id t \<notin> tier_id ` set ts" by simp
    with True show ?thesis by (auto simp: update_timers_other split: option.splits)
  next
    case False
    with Cons.prems have t: "t \<in> set ts" "distinct (map tier_id ts)" by auto
    with Cons.prems(1) have "tier_id t \<noteq> tier_id u" by (metis distinct.simps(2) image_eqI list.set_map list.simps(9))
    note t = t this
    with t Cons.IH [OF t(2,1)] show ?thesis by (auto split: option.splits)
  qed
qed


definition timers_agree :: "policy_engine \<Rightarrow> engine_event list \<Rightarrow> bool" where
  "timers_agree e h \<longleftrightarrow>
     (\<forall>t \<in> set (thresholds (policy e)). tier_since e (tier_id t) = excess_start (limit_w t) h)"

lemma timers_after_agree:
  assumes "timers_agree e h" "distinct (map tier_id (thresholds (policy e)))"
    "t \<in> set (thresholds (policy e))"
  shows "timers_after e load now (tier_id t) =
     (if limit_w t < load
      then Some (case excess_start (limit_w t) h of Some s \<Rightarrow> s | None \<Rightarrow> now) else None)"
  using assms by (simp add: timers_after_def update_timers_lookup timers_agree_def)

lemma timers_agree_step:
  assumes "timers_agree e h" "distinct (map tier_id (thresholds (policy e)))"
  shows "timers_agree (engine_step e ev) (ev # h)"
proof -
  have none: "exceeded_tiers e l = [] \<Longrightarrow> t \<in> set (thresholds (policy e)) \<Longrightarrow> \<not> limit_w t < l" for l t
    by (auto simp: exceeded_tiers_def filter_empty_conv)
  show ?thesis
    using assms timers_after_agree [OF assms] none
    by (cases ev) (auto simp: timers_agree_def engine_simps)
qed

lemma timers_agree_run:
  assumes "distinct (map tier_id (thresholds (policy e)))" "tier_since e = Map.empty"
  shows "timers_agree (engine_run e evs) (rev evs)"
proof (induction evs rule: rev_induct)
  case Nil
  then show ?case using assms by (simp add: timers_agree_def)
next
  case (snoc ev evs)
  with assms show ?case by (simp add: timers_agree_step)
qed

lemma trigger_tier_iff:
  assumes "timers_agree e h" "distinct (map tier_id (thresholds (policy e)))"
  shows "trigger_tier e load now =
     last_opt (filter (\<lambda>t. limit_w t < load \<and>
        duration_s t \<le> now - (case excess_start (limit_w t) h of Some s \<Rightarrow> s | None \<Rightarrow> now))
       (thresholds (policy e)))"
  unfolding trigger_tier_def exceeded_tiers_def filter_filter
  by (rule arg_cong [of _ _ last_opt], rule filter_cong)
    (auto simp: tier_matured_def timers_after_agree [OF assms])

section \<open>Reading the dwell timers as statements about the history\<close>

text \<open>A load report and its time; whether an event interrupts an excess over a limit.\<close>

fun load_report :: "engine_event \<Rightarrow> (pyfloat \<times> rat) option" where
  "load_report (Report l t) = Some (l, t)"
| "load_report (Load l t) = Some (l, t)"
| "load_report _ = None"

fun interrupts :: "rat \<Rightarrow> engine_event \<Rightarrow> bool" where
  "interrupts limit (Report l t) = (invalid_load l \<or> fin_val l \<le> limit)"
| "interrupts limit (Load l t) = (invalid_load l \<or> fin_val l \<le> limit)"
| "interrupts limit (InvalidLoad rc) = True"
| "interrupts limit _ = False"

text \<open>
  The history (oldest first) ends with a stretch without interruption that begins with a
  load report at least \<open>dur\<close> seconds before \<open>now\<close>.
\<close>

definition sustained :: "rat \<Rightarrow> rat \<Rightarrow> engine_event list \<Rightarrow> rat \<Rightarrow> bool" where
  "sustained limit dur evs now \<longleftrightarrow>
     (\<exists>older first newer l s. evs = older @ first # newer \<and> load_report first = Some (l, s)
        \<and> dur \<le> now - s \<and> (\<forall>ev \<in> set (first # newer). \<not> interrupts limit ev))"

lemma sustainedI:
  "evs = older @ first # newer \<Longrightarrow> load_report first = Some (l, s) \<Longrightarrow> dur \<le> now - s \<Longrightarrow>
   \<forall>ev \<in> set (first # newer). \<not> interrupts limit ev \<Longrightarrow> sustained limit dur evs now"
  unfolding sustained_def by blast

definition report_times_before :: "rat \<Rightarrow> engine_event list \<Rightarrow> bool" where
  "report_times_before b evs \<longleftrightarrow> (\<forall>ev \<in> set evs. \<forall>l s. load_report ev = Some (l, s) \<longrightarrow> s \<le> b)"

fun times_increase :: "engine_event list \<Rightarrow> bool" where
  "times_increase [] = True"
| "times_increase (ev # h) =
     ((case load_report ev of None \<Rightarrow> True
       | Some (l, t) \<Rightarrow> list_all (\<lambda>e. case load_report e of None \<Rightarrow> True | Some (_, s) \<Rightarrow> t \<le> s) h)
      \<and> times_increase h)"

lemma excess_start_sound:
  "excess_start limit h = Some s \<Longrightarrow>
   \<exists>newer first older l. h = newer @ first # older \<and> load_report first = Some (l, s)
     \<and> (\<forall>ev \<in> set (newer @ [first]). \<not> interrupts limit ev)"
proof (induction h)
  case Nil
  then show ?case by simp
next
  case (Cons ev h)
  show ?case
  proof (cases "excess_start limit h = Some s \<and> \<not> interrupts limit ev")
    case True
    with Cons.IH obtain newer first older l where
      "h = newer @ first # older" "load_report first = Some (l, s)"
      "\<forall>ev \<in> set (newer @ [first]). \<not> interrupts limit ev" by blast
    with True show ?thesis
      by (intro exI [of _ "ev # newer"] exI [of _ first] exI [of _ older] exI [of _ l]) simp
  next
    case False
    with Cons.prems obtain l where "load_report ev = Some (l, s)" "\<not> interrupts limit ev"
      by (cases ev) (auto split: if_splits option.splits)
    then show ?thesis
      by (intro exI [of _ "[]"] exI [of _ ev] exI [of _ h] exI [of _ l]) simp
  qed
qed

lemma excess_start_sustained:
  assumes "excess_start limit (rev evs) = Some s" "dur \<le> now - s"
  shows "sustained limit dur evs now"
proof -
  from excess_start_sound [OF assms(1)] obtain newer first older l where
    d: "rev evs = newer @ first # older" "load_report first = Some (l, s)"
      "\<forall>ev \<in> set (newer @ [first]). \<not> interrupts limit ev" by blast
  from d(1) have "rev (rev evs) = rev older @ first # rev newer" by simp
  then have evs: "evs = rev older @ first # rev newer" by simp
  show ?thesis by (rule sustainedI [OF evs d(2) assms(2)]) (use d(3) in simp)
qed

lemma excess_start_complete:
  "h = newer @ first # older \<Longrightarrow> load_report first = Some (l, u) \<Longrightarrow>
   (\<forall>ev \<in> set (newer @ [first]). \<not> interrupts limit ev) \<Longrightarrow> report_times_before u older \<Longrightarrow>
   \<exists>s \<le> u. excess_start limit h = Some s"
proof (induction newer arbitrary: h)
  case Nil
  then obtain v: "\<not> invalid_load l" "limit < fin_val l"
    by (cases first) (auto simp: not_le)
  have "s \<le> u" if "excess_start limit older = Some s" for s
    using excess_start_sound [OF that] Nil.prems(4) by (auto simp: report_times_before_def)
  with v Nil.prems show ?case
    by (cases first) (auto split: option.split)
next
  case (Cons ev newer)
  then obtain s where "s \<le> u" "excess_start limit (newer @ first # older) = Some s"
    by auto
  with Cons.prems show ?case by (cases ev) (auto simp: not_le)
qed

lemma times_increase_before:
  "times_increase (older @ first # newer) \<Longrightarrow> load_report first = Some (l, u) \<Longrightarrow>
   report_times_before u older"
  by (induction older)
    (auto simp: report_times_before_def list_all_iff split: option.splits)

lemma sustained_excess_start:
  assumes "sustained limit dur evs now" "times_increase evs"
  shows "\<exists>s. excess_start limit (rev evs) = Some s \<and> dur \<le> now - s"
proof -
  from assms(1) obtain older first newer l u where d:
      "evs = older @ first # newer" "load_report first = Some (l, u)" "dur \<le> now - u"
      "\<forall>ev \<in> set (first # newer). \<not> interrupts limit ev"
    unfolding sustained_def by blast
  from d assms(2) have "report_times_before u older" by (blast intro: times_increase_before)
  then have "report_times_before u (rev older)" by (simp add: report_times_before_def)
  with d obtain s where "s \<le> u" "excess_start limit (rev evs) = Some s"
    using excess_start_complete [of "rev evs" "rev newer" first "rev older" l u limit] by auto
  with d(3) show ?thesis by (intro exI [of _ s]) simp
qed

text \<open>The trigger of the next load, read off the history that includes it.\<close>

lemma trigger_tier_history:
  assumes "timers_agree e (rev evs)" "distinct (map tier_id (thresholds (policy e)))"
    "\<not> invalid_load load"
  shows "trigger_tier e (fin_val load) now =
     last_opt (filter (\<lambda>t. case excess_start (limit_w t) (rev (evs @ [Load load now])) of
                             None \<Rightarrow> False | Some s \<Rightarrow> duration_s t \<le> now - s)
       (thresholds (policy e)))"
  using assms(3) unfolding trigger_tier_iff [OF assms(1,2)]
  by (intro arg_cong [of _ _ last_opt] filter_cong) auto

lemma last_opt_Some: "last_opt xs = Some x \<Longrightarrow> x \<in> set xs"
  by (auto simp: last_opt_def split: if_splits)

lemma last_opt_None [simp]: "last_opt xs = None \<longleftrightarrow> xs = []"
  by (simp add: last_opt_def)

lemma new_engine_run_agree:
  "distinct (map tier_id (thresholds p)) \<Longrightarrow>
   timers_agree (engine_run (new_engine p) evs) (rev evs)"
  by (rule timers_agree_run) (simp_all add: new_engine_def)

lemma policy_new_engine [simp]: "policy (new_engine p) = p"
  by (simp add: new_engine_def)

lemma run_trigger:
  assumes "distinct (map tier_id (thresholds p))" "\<not> invalid_load load"
  shows "trigger_tier (engine_run (new_engine p) evs) (fin_val load) now =
     last_opt (filter (\<lambda>t. case excess_start (limit_w t) (rev (evs @ [Load load now])) of
                             None \<Rightarrow> False | Some s \<Rightarrow> duration_s t \<le> now - s) (thresholds p))"
  using trigger_tier_history [OF new_engine_run_agree [OF assms(1)] _ assms(2)] assms(1) by simp


section \<open>The restore window against the history\<close>

text \<open>
  An event that keeps a window for a candidate of \<open>c\<close> watts under the limit \<open>m\<close> open: a
  report leaves room for the candidate, a capacity check is for the same candidate, and
  nothing was stopped, restored or invalidated.
\<close>

fun keeps_window :: "rat \<Rightarrow> rat \<Rightarrow> engine_event \<Rightarrow> bool" where
  "keeps_window c m (Report l t) = (\<not> invalid_load l \<and> fin_val l + c < m)"
| "keeps_window c m (Load l t) = (\<not> invalid_load l)"
| "keeps_window c m (Capacity l c' m' t) =
     (\<not> invalid_load l \<and> fin_val l + c < m \<and> c' = Fin c \<and> m' = Fin m)"
| "keeps_window c m (InvalidLoad rc) = False"
| "keeps_window c m (ShedDone op g rc) = False"
| "keeps_window c m (RestoreDone op g) = False"
| "keeps_window c m ResetWindow = False"
| "keeps_window c m _ = True"

definition window_history :: "engine_event list \<Rightarrow> rat \<Rightarrow> rat \<Rightarrow> rat \<Rightarrow> bool" where
  "window_history evs c m s \<longleftrightarrow>
     (\<exists>older l newer. evs = older @ Capacity (Fin l) (Fin c) (Fin m) s # newer
        \<and> 0 \<le> l \<and> l + c < m \<and> (\<forall>ev \<in> set newer. keeps_window c m ev))"

lemma window_history_snoc:
  "window_history evs c m s \<Longrightarrow> keeps_window c m ev \<Longrightarrow> window_history (evs @ [ev]) c m s"
proof -
  assume "window_history evs c m s" and k: "keeps_window c m ev"
  then obtain older l newer where d:
    "evs = older @ Capacity (Fin l) (Fin c) (Fin m) s # newer" "0 \<le> l" "l + c < m"
    "\<forall>ev \<in> set newer. keeps_window c m ev" unfolding window_history_def by blast
  then have "evs @ [ev] = older @ Capacity (Fin l) (Fin c) (Fin m) s # (newer @ [ev])" by simp
  moreover have "\<forall>ev' \<in> set (newer @ [ev]). keeps_window c m ev'" using d(4) k by simp
  ultimately show ?thesis unfolding window_history_def using d(2,3) by blast
qed

lemma window_history_start:
  "0 \<le> l \<Longrightarrow> l + c < m \<Longrightarrow> window_history (evs @ [Capacity (Fin l) (Fin c) (Fin m) s]) c m s"
  unfolding window_history_def by fastforce

definition window_agrees :: "policy_engine \<Rightarrow> engine_event list \<Rightarrow> bool" where
  "window_agrees e evs \<longleftrightarrow>
     (restore_since e = None \<longleftrightarrow> restore_capacity e = None)
     \<and> (\<forall>c m s. restore_capacity e = Some (c, m) \<longrightarrow> restore_since e = Some s \<longrightarrow>
          window_history evs c m s)"

lemma window_agrees_reset [intro]: "window_agrees (reset_restore_window e) evs"
  by (simp add: window_agrees_def)

lemma window_agrees_closed [intro]:
  "restore_since e = None \<Longrightarrow> restore_capacity e = None \<Longrightarrow> window_agrees e evs"
  by (simp add: window_agrees_def)

lemma window_agrees_keep:
  "window_agrees e evs \<Longrightarrow> restore_since e' = restore_since e \<Longrightarrow>
   restore_capacity e' = restore_capacity e \<Longrightarrow>
   (\<And>c m. restore_capacity e = Some (c, m) \<Longrightarrow> keeps_window c m ev) \<Longrightarrow>
   window_agrees e' (evs @ [ev])"
  by (auto simp: window_agrees_def intro: window_history_snoc)

lemma window_agrees_report:
  assumes "window_agrees e evs"
  shows "window_agrees (observe_report e l t) (evs @ [Report l t])"
proof (cases "invalid_load l")
  case True
  then show ?thesis by (auto simp: observe_report_def)
next
  case False
  show ?thesis
  proof (cases "\<exists>c m. restore_capacity e = Some (c, m) \<and> m \<le> fin_val l + c")
    case True
    with False show ?thesis by (auto simp: observe_report_def update_exceeded_tiers_def Let_def)
  next
    case room: False
    show ?thesis
    proof (rule window_agrees_keep [OF assms])
      show "restore_since (observe_report e l t) = restore_since e"
        "restore_capacity (observe_report e l t) = restore_capacity e"
        using False room
        by (auto simp: observe_report_def update_exceeded_tiers_def Let_def split: option.split)
    qed (use False room in auto)
  qed
qed

lemma window_agrees_load:
  assumes "window_agrees e evs"
  shows "window_agrees (snd (observe_load e l t)) (evs @ [Load l t])"
proof (cases "invalid_load l \<or> trigger_tier e (fin_val l) t \<noteq> None")
  case True
  then show ?thesis by (cases "invalid_load l") (auto simp: engine_simps)
next
  case False
  then show ?thesis by (intro window_agrees_keep [OF assms]) (auto simp: engine_simps)
qed

lemma window_agrees_capacity:
  assumes "window_agrees e evs"
  shows "window_agrees (snd (observe_restore_safe_capacity e l c m t)) (evs @ [Capacity l c m t])"
proof (cases "\<exists>l' c' m'. l = Fin l' \<and> c = Fin c' \<and> m = Fin m' \<and> 0 \<le> l' \<and> 0 \<le> c' \<and> 0 < m' \<and> l' + c' < m'")
  case False
  then have "snd (observe_restore_safe_capacity e l c m t) = reset_restore_window e"
    by (cases l; cases c; cases m) (auto simp: observe_restore_safe_capacity_def invalid_load_def)
  then show ?thesis by auto
next
  case True
  then obtain l' c' m' where v: "l = Fin l'" "c = Fin c'" "m = Fin m'" "0 \<le> l'" "0 \<le> c'" "0 < m'"
    "l' + c' < m'" by blast
  then have r: "snd (observe_restore_safe_capacity e l c m t) = snd (restore_window_elapsed e (c', m') t)"
    by (simp add: observe_restore_safe_capacity_def invalid_load_def case_prod_beta Let_def)
  show ?thesis
  proof (cases "restore_capacity e = Some (c', m')")
    case True
    with assms obtain s where s: "restore_since e = Some s" by (cases "restore_since e") (auto simp: window_agrees_def)
    with True assms have "window_history evs c' m' s" by (auto simp: window_agrees_def)
    then have "window_history (evs @ [Capacity l c m t]) c' m' s"
      using v by (auto intro: window_history_snoc simp: invalid_load_def)
    then show ?thesis
      using True s unfolding r by (simp add: restore_window_elapsed_def window_agrees_def Let_def)
  next
    case False
    have "window_history (evs @ [Capacity l c m t]) c' m' t"
      using v window_history_start by simp
    then show ?thesis
      using False unfolding r by (simp add: restore_window_elapsed_def window_agrees_def Let_def)
  qed
qed

lemma window_agrees_step:
  "window_agrees e evs \<Longrightarrow> window_agrees (engine_step e ev) (evs @ [ev])"
proof (cases ev)
  case (ShedFence r)
  moreover assume "window_agrees e evs"
  ultimately show ?thesis by (auto intro!: window_agrees_keep simp: set_post_shed_fence_def)
next
  case (RestoreFence r)
  moreover assume "window_agrees e evs"
  ultimately show ?thesis by (auto intro!: window_agrees_keep simp: set_post_restore_fence_def)
next
  case (ReconcileShed g r)
  moreover assume "window_agrees e evs"
  ultimately show ?thesis by (auto intro!: window_agrees_keep simp: engine_simps)
next
  case (ReconcileRestore g r)
  moreover assume "window_agrees e evs"
  ultimately show ?thesis by (auto intro!: window_agrees_keep simp: engine_simps)
qed (auto simp: window_agrees_report window_agrees_load window_agrees_capacity
    append_shed_def append_restore_def intro!: window_agrees_closed)

lemma window_agrees_run: "window_agrees (engine_run (new_engine p) evs) evs"
proof (induction evs rule: rev_induct)
  case Nil
  then show ?case by (simp add: window_agrees_def new_engine_def)
next
  case (snoc ev evs)
  then show ?case by (simp add: window_agrees_step)
qed

section \<open>The one-report barrier\<close>

text \<open>
  The post-shed and the post-restore barrier share one contract. A barrier is installed with
  a generation, gets a causal fence, and is released by the first aggregate report that is
  both of a newer generation and reported after the fence.
\<close>

definition qualifies :: "int \<Rightarrow> rat option \<Rightarrow> int \<Rightarrow> pyfloat option \<Rightarrow> bool" where
  "qualifies pending fence gen reported \<longleftrightarrow>
     pending < gen \<and> (\<exists>f r. fence = Some f \<and> reported = Some (Fin r) \<and> f < r)"

locale report_barrier =
  fixes pending :: "'e \<Rightarrow> int option"
    and fence :: "'e \<Rightarrow> rat option"
    and reconcile :: "'e \<Rightarrow> int \<Rightarrow> pyfloat option \<Rightarrow> bool \<times> 'e"
  assumes open_stays: "pending e = None \<Longrightarrow> reconcile e g r = (True, e)"
    and blocked: "pending e = Some p \<Longrightarrow> \<not> qualifies p (fence e) g r \<Longrightarrow> reconcile e g r = (False, e)"
    and released: "pending e = Some p \<Longrightarrow> qualifies p (fence e) g r \<Longrightarrow>
      fst (reconcile e g r) \<and> pending (snd (reconcile e g r)) = None"
begin

definition attempts :: "'e \<Rightarrow> (int \<times> pyfloat option) list \<Rightarrow> 'e" where
  "attempts e rs = foldl (\<lambda>e (g, r). snd (reconcile e g r)) e rs"

lemma attempts_open: "pending e = None \<Longrightarrow> attempts e rs = e"
  by (induction rs) (auto simp: attempts_def open_stays)

lemma attempts_release:
  "pending e = Some p \<Longrightarrow>
   pending (attempts e rs) = None \<longleftrightarrow> (\<exists>(g, r) \<in> set rs. qualifies p (fence e) g r)"
proof (induction rs)
  case Nil
  then show ?case by (simp add: attempts_def)
next
  case (Cons x rs)
  obtain g r where x: "x = (g, r)" by (cases x)
  show ?case
  proof (cases "qualifies p (fence e) g r")
    case True
    with Cons.prems have "pending (snd (reconcile e g r)) = None" using released by blast
    then have "pending (attempts (snd (reconcile e g r)) rs) = None" by (simp add: attempts_open)
    with True x show ?thesis by (auto simp: attempts_def)
  next
    case False
    with Cons.prems have "reconcile e g r = (False, e)" using blocked by blast
    with Cons False x show ?thesis by (auto simp: attempts_def)
  qed
qed

lemma verdict: "fst (reconcile e g r) \<longleftrightarrow> pending (snd (reconcile e g r)) = None"
proof (cases "pending e")
  case None
  then show ?thesis by (simp add: open_stays)
next
  case (Some p)
  then show ?thesis
    by (cases "qualifies p (fence e) g r") (simp_all add: blocked released)
qed

end

interpretation shed_barrier: report_barrier
  pending_post_shed_generation pending_post_shed_after_reported_at reconcile_shed
proof
  fix e :: policy_engine and p g r
  show "pending_post_shed_generation e = None \<Longrightarrow> reconcile_shed e g r = (True, e)"
    by (simp add: reconcile_shed_def)
  show "pending_post_shed_generation e = Some p \<Longrightarrow>
      \<not> qualifies p (pending_post_shed_after_reported_at e) g r \<Longrightarrow> reconcile_shed e g r = (False, e)"
    by (auto simp: reconcile_shed_def qualifies_def isfinite_iff not_less split: option.splits)
  show "pending_post_shed_generation e = Some p \<Longrightarrow>
      qualifies p (pending_post_shed_after_reported_at e) g r \<Longrightarrow>
      fst (reconcile_shed e g r) \<and> pending_post_shed_generation (snd (reconcile_shed e g r)) = None"
    by (auto simp: reconcile_shed_def qualifies_def)
qed

interpretation restore_barrier: report_barrier
  pending_post_restore_generation pending_post_restore_after_reported_at reconcile_restore
proof
  fix e :: policy_engine and p g r
  show "pending_post_restore_generation e = None \<Longrightarrow> reconcile_restore e g r = (True, e)"
    by (simp add: reconcile_restore_def)
  show "pending_post_restore_generation e = Some p \<Longrightarrow>
      \<not> qualifies p (pending_post_restore_after_reported_at e) g r \<Longrightarrow>
      reconcile_restore e g r = (False, e)"
    by (auto simp: reconcile_restore_def qualifies_def isfinite_iff not_less split: option.splits)
  show "pending_post_restore_generation e = Some p \<Longrightarrow>
      qualifies p (pending_post_restore_after_reported_at e) g r \<Longrightarrow>
      fst (reconcile_restore e g r)
      \<and> pending_post_restore_generation (snd (reconcile_restore e g r)) = None"
    by (auto simp: reconcile_restore_def qualifies_def)
qed

section \<open>Properties\<close>

lemma exceeded_have_timers:
  "distinct (map tier_id (thresholds (policy e))) \<Longrightarrow> t \<in> set (exceeded_tiers e load) \<Longrightarrow>
   timers_after e load now (tier_id t) \<noteq> None"
  by (simp add: timers_after_def exceeded_tiers_def update_timers_lookup)

definition held :: "rat \<Rightarrow> rat \<Rightarrow> engine_event list \<Rightarrow> rat \<Rightarrow> bool" where
  "held limit dur h now \<longleftrightarrow> (\<exists>s. excess_start limit h = Some s \<and> dur \<le> now - s)"

lemma held_case:
  "(case excess_start limit h of None \<Rightarrow> False | Some s \<Rightarrow> dur \<le> now - s) = held limit dur h now"
  by (simp add: held_def split: option.split)

lemma held_sustained: "held limit dur (rev evs) now \<Longrightarrow> sustained limit dur evs now"
  by (auto simp: held_def intro: excess_start_sustained)

lemma sustained_held: "sustained limit dur evs now \<Longrightarrow> times_increase evs \<Longrightarrow> held limit dur (rev evs) now"
  by (auto simp: held_def dest: sustained_excess_start)

lemma run_trigger_held:
  "distinct (map tier_id (thresholds p)) \<Longrightarrow> \<not> invalid_load load \<Longrightarrow>
   trigger_tier (engine_run (new_engine p) evs) (fin_val load) now =
     last_opt (filter (\<lambda>t. held (limit_w t) (duration_s t) (rev (evs @ [Load load now])) now)
       (thresholds p))"
  unfolding held_case [symmetric] by (rule run_trigger)

lemma sorted_wrt_last: "sorted_wrt R xs \<Longrightarrow> x \<in> set xs \<Longrightarrow> x = last xs \<or> R x (last xs)"
  by (induction xs) auto

text \<open>C9. The engine asks for a shed only when some tier of the policy has been exceeded by every
  aggregate report for at least the tier's dwell time: whatever calls a fresh engine has seen,
  a triggered decision names the reason of a tier whose limit was exceeded without
  interruption from a report at least \<open>duration_s\<close> seconds old up to the present load.\<close>

theorem shed_needs_sustained_overload:
  assumes "distinct (map tier_id (thresholds p))"
    and "triggered (fst (observe_load (engine_run (new_engine p) evs) load now))"
  shows "\<exists>t \<in> set (thresholds p).
    decision_reason (fst (observe_load (engine_run (new_engine p) evs) load now)) = tier_reason t
    \<and> sustained (limit_w t) (duration_s t) (evs @ [Load load now]) now"
proof -
  let ?e = "engine_run (new_engine p) evs"
  have valid: "\<not> invalid_load load" using assms(2) by (auto simp: engine_simps)
  with assms(2) obtain t where t: "trigger_tier ?e (fin_val load) now = Some t"
    by (auto simp: engine_simps)
  then have "t \<in> set (filter (\<lambda>t. held (limit_w t) (duration_s t)
      (rev (evs @ [Load load now])) now) (thresholds p))"
    unfolding run_trigger_held [OF assms(1) valid] by (rule last_opt_Some)
  then have "t \<in> set (thresholds p)"
    "sustained (limit_w t) (duration_s t) (evs @ [Load load now]) now"
    by (auto simp del: rev_append intro: held_sustained)
  moreover have "decision_reason (fst (observe_load ?e load now)) = tier_reason t"
    using t valid by (simp add: observe_load_reason)
  ultimately show ?thesis by blast
qed

definition demo_policy :: policy_config where
  "demo_policy = \<lparr>thresholds =
     [\<lparr>tier_id = ''custom_1'', limit_w = 5000, duration_s = 30, tier_reason = SHED_CUSTOM_THRESHOLD\<rparr>,
      \<lparr>tier_id = ''custom_2'', limit_w = 8000, duration_s = 0, tier_reason = SHED_CUSTOM_THRESHOLD\<rparr>],
     policy_version = ''load_shedding_v3''\<rparr>"

lemma demo_trigger:
  "triggered (fst (observe_load (engine_run (new_engine demo_policy)
     [Load (Fin 5200) 10, Report (Fin 5100) 25]) (Fin 5300) 40))"
  by (simp add: engine_run_def observe_load_def observe_report_def invalid_load_def
      update_exceeded_tiers_def exceeded_tiers_def demo_policy_def new_engine_def last_opt_def
      load_decision_def tier_matured_def mk_decision_def)

theorem shed_needs_sustained_overload_witness:
  "\<exists>t \<in> set (thresholds demo_policy).
    decision_reason (fst (observe_load (engine_run (new_engine demo_policy)
      [Load (Fin 5200) 10, Report (Fin 5100) 25]) (Fin 5300) 40)) = tier_reason t
    \<and> sustained (limit_w t) (duration_s t)
        ([Load (Fin 5200) 10, Report (Fin 5100) 25] @ [Load (Fin 5300) 40]) 40"
  by (rule shed_needs_sustained_overload [OF _ demo_trigger]) (simp add: demo_policy_def)

text \<open>C10. A sustained overload is never missed: on a valid load, when the report times of the
  history increase and some tier's limit has been exceeded for its dwell time, the engine
  triggers, and the reason it gives is that of the highest tier that is matured (no matured
  tier has a higher limit).\<close>

theorem sustained_overload_sheds:
  assumes "tiers_ok (thresholds p)" and "\<not> invalid_load load"
    and "times_increase (evs @ [Load load now])"
    and "t \<in> set (thresholds p)"
    and "sustained (limit_w t) (duration_s t) (evs @ [Load load now]) now"
  shows "triggered (fst (observe_load (engine_run (new_engine p) evs) load now))
    \<and> (\<exists>u \<in> set (thresholds p). limit_w t \<le> limit_w u
         \<and> sustained (limit_w u) (duration_s u) (evs @ [Load load now]) now
         \<and> decision_reason (fst (observe_load (engine_run (new_engine p) evs) load now)) = tier_reason u)"
proof -
  let ?e = "engine_run (new_engine p) evs"
  let ?P = "\<lambda>t. held (limit_w t) (duration_s t) (rev (evs @ [Load load now])) now"
  have dist: "distinct (map tier_id (thresholds p))" using assms(1) by (simp add: tiers_ok_def)
  have sorted: "sorted_wrt (\<lambda>s t. limit_w s < limit_w t) (filter ?P (thresholds p))"
    using assms(1) by (auto simp: tiers_ok_def intro: increasing_sorted_wrt sorted_wrt_filter)
  have Pt: "?P t" using assms(5,3) by (rule sustained_held)
  then have t: "t \<in> set (filter ?P (thresholds p))" using assms(4) by simp
  then obtain u where u: "last_opt (filter ?P (thresholds p)) = Some u"
    by (metis empty_iff empty_set last_opt_def)
  then have tu: "trigger_tier ?e (fin_val load) now = Some u"
    by (simp only: run_trigger_held [OF dist assms(2)])
  from u have mem: "u \<in> set (filter ?P (thresholds p))" by (rule last_opt_Some)
  then have "sustained (limit_w u) (duration_s u) (evs @ [Load load now]) now"
    by (auto simp del: rev_append intro: held_sustained)
  moreover have "limit_w t \<le> limit_w u"
    using u sorted_wrt_last [OF sorted t] by (auto simp: last_opt_def split: if_splits)
  ultimately show ?thesis
    using tu mem assms(2) by (auto simp: engine_simps observe_load_reason)
qed


theorem sustained_overload_sheds_witness:
  "triggered (fst (observe_load (engine_run (new_engine demo_policy) [Load (Fin 5200) 10]) (Fin 5300) 40))
   \<and> (\<exists>u \<in> set (thresholds demo_policy). limit_w (hd (thresholds demo_policy)) \<le> limit_w u
         \<and> sustained (limit_w u) (duration_s u) ([Load (Fin 5200) 10] @ [Load (Fin 5300) 40]) 40
         \<and> decision_reason (fst (observe_load (engine_run (new_engine demo_policy) [Load (Fin 5200) 10])
             (Fin 5300) 40)) = tier_reason u)"
proof (rule sustained_overload_sheds)
  show "tiers_ok (thresholds demo_policy)"
    by (simp add: demo_policy_def tiers_ok_def MAX_POLICY_POWER_W_def MAX_POLICY_DURATION_S_def)
  show "\<not> invalid_load (Fin 5300)" by (simp add: invalid_load_def)
  show "times_increase ([Load (Fin 5200) 10] @ [Load (Fin 5300) 40])" by simp
  show "hd (thresholds demo_policy) \<in> set (thresholds demo_policy)" by (simp add: demo_policy_def)
  show "sustained (limit_w (hd (thresholds demo_policy))) (duration_s (hd (thresholds demo_policy)))
     ([Load (Fin 5200) 10] @ [Load (Fin 5300) 40]) 40"
    by (rule sustainedI [of _ "[]" "Load (Fin 5200) 10" "[Load (Fin 5300) 40]" "Fin 5200" 10])
      (simp_all add: demo_policy_def invalid_load_def)
qed

text \<open>C12. A mature restore window proves a safe minute: if \<open>restore_window_matured\<close> grants a
  candidate of \<open>c\<close> watts under the limit \<open>m\<close>, then the history contains a capacity check for
  exactly this candidate at least 60 seconds ago that left room, and every report since then
  was valid and left room for the candidate, with no stop, restore, invalidation or reset in
  between.\<close>

theorem matured_window_needs_safe_minute:
  assumes "restore_window_matured (engine_run (new_engine p) evs) c m now"
  shows "\<exists>older l s newer. evs = older @ Capacity (Fin l) (Fin c) (Fin m) s # newer
    \<and> 60 \<le> now - s \<and> 0 \<le> l \<and> l + c < m \<and> (\<forall>ev \<in> set newer. keeps_window c m ev)"
proof -
  from assms obtain s where "restore_capacity (engine_run (new_engine p) evs) = Some (c, m)"
    "restore_since (engine_run (new_engine p) evs) = Some s" "60 \<le> now - s"
    by (auto simp: restore_window_matured_def RESTORE_SAFE_CAPACITY_DWELL_S_def split: option.splits)
  moreover from this have "window_history evs c m s"
    using window_agrees_run [of p evs] by (simp add: window_agrees_def)
  ultimately show ?thesis unfolding window_history_def by blast
qed

theorem matured_window_needs_safe_minute_witness:
  "\<exists>older l s newer. [Capacity (Fin 1000) (Fin 2000) (Fin 5000) 0, Report (Fin 2900) 30]
      = older @ Capacity (Fin l) (Fin 2000) (Fin 5000) s # newer
    \<and> 60 \<le> 61 - s \<and> 0 \<le> l \<and> l + 2000 < 5000 \<and> list_all (keeps_window 2000 5000) newer"
  unfolding list_all_iff by (rule matured_window_needs_safe_minute [of demo_policy])
    (simp add: engine_run_def restore_window_matured_def observe_report_def invalid_load_def
      observe_restore_safe_capacity_def restore_window_elapsed_def update_exceeded_tiers_def
      new_engine_def RESTORE_SAFE_CAPACITY_DWELL_S_def reset_restore_window_def)

lemma attempts_shed_run:
  "shed_barrier.attempts e rs = engine_run e (map (\<lambda>(g, r). ReconcileShed g r) rs)"
  unfolding shed_barrier.attempts_def engine_run_def
  by (induction rs arbitrary: e) auto

lemma attempts_restore_run:
  "restore_barrier.attempts e rs = engine_run e (map (\<lambda>(g, r). ReconcileRestore g r) rs)"
  unfolding restore_barrier.attempts_def engine_run_def
  by (induction rs arbitrary: e) auto

lemma finite_report_Some [simp]: "finite_report r = Some f \<longleftrightarrow> r = Some (Fin f)"
  by (auto simp: finite_report_def split: option.splits pyfloat.splits)

text \<open>After a confirmed stop another shed is blocked until, and released by, the first
  aggregate report that belongs to a newer generation and was reported strictly after the
  stop's causal fence; reports that fail either condition, and every report while the fence
  is missing, leave it blocked.\<close>

theorem shed_barrier_release:
  "can_shed_again (engine_run (set_post_shed_fence (append_shed e op gen rc) fence)
      (map (\<lambda>(g, r). ReconcileShed g r) reports))
   \<longleftrightarrow> (\<exists>(g, r) \<in> set reports. \<exists>f t. fence = Some (Fin f) \<and> r = Some (Fin t) \<and> gen < g \<and> f < t)"
proof -
  let ?e = "set_post_shed_fence (append_shed e op gen rc) fence"
  have "pending_post_shed_generation ?e = Some gen"
    "pending_post_shed_after_reported_at ?e = finite_report fence"
    by (simp_all add: append_shed_def set_post_shed_fence_def)
  from shed_barrier.attempts_release [OF this(1), of reports] this(2) show ?thesis
    by (fastforce simp: can_shed_again_def attempts_shed_run qualifies_def)
qed

text \<open>The restore barrier obeys the same law: after a confirmed restore the next one waits
  for a newer generation reported strictly after the restore's causal fence.\<close>

theorem restore_barrier_release:
  "pending_post_restore_generation
      (engine_run (set_post_restore_fence (append_restore e op gen) fence)
        (map (\<lambda>(g, r). ReconcileRestore g r) reports)) = None
   \<longleftrightarrow> (\<exists>(g, r) \<in> set reports. \<exists>f t. fence = Some (Fin f) \<and> r = Some (Fin t) \<and> gen < g \<and> f < t)"
proof -
  let ?e = "set_post_restore_fence (append_restore e op gen) fence"
  have "pending_post_restore_generation ?e = Some gen"
    "pending_post_restore_after_reported_at ?e = finite_report fence"
    by (simp_all add: append_restore_def set_post_restore_fence_def)
  from restore_barrier.attempts_release [OF this(1), of reports] this(2) show ?thesis
    by (fastforce simp: attempts_restore_run qualifies_def)
qed

end
