(* ===== verification/Audit_Journal.thy ===== *)
theory Audit_Journal
  imports Policy_Engine
begin

text \<open>
  \<open>journal.py\<close> and the action journal of \<open>storage.py\<close>: bounded normalization of action records
  and of their evidence snapshot, the merge of a later phase into the record of its action, and
  the unfinished actions a restart finds.
\<close>

section \<open>Normalization\<close>

definition MAX_AUDIT_ENTRIES :: nat where "MAX_AUDIT_ENTRIES = 100"
definition MAX_UNRESOLVED_ACTIONS :: nat where "MAX_UNRESOLVED_ACTIONS = 16"
definition MAX_ACTION_FIELD_LENGTH :: nat where "MAX_ACTION_FIELD_LENGTH = 256"

text \<open>The values of a list of optional values.\<close>

fun somes :: "'a option list \<Rightarrow> 'a list" where
  "somes [] = []"
| "somes (None # xs) = somes xs"
| "somes (Some x # xs) = x # somes xs"

text \<open>
  The source iterates over a set of field names, in no particular order; the model uses the
  order of its definition.
\<close>

definition snapshot_fields :: "string list" where
  "snapshot_fields =
     [''captured_at'', ''integration_version'', ''policy_version'', ''load_w'', ''load_valid'',
      ''load_reason'', ''load_reported_at'', ''load_age_s'', ''load_max_age_s'', ''safety_state'',
      ''safety_available'', ''safety_ok'', ''safety_reported_at'', ''battery_threshold'',
      ''battery_charge'', ''battery_min_soc'', ''mode'']"

definition snapshot_item :: "pyval \<Rightarrow> pyval option res" where
  "snapshot_item item =
     (case item of
        PStr s \<Rightarrow> Inr (Some (PStr (take 128 s)))
      | PNone \<Rightarrow> Inr (Some PNone)
      | PBool b \<Rightarrow> Inr (Some (PBool b))
      | PInt i \<Rightarrow> rbind (py_isfinite item) (\<lambda>b. Inr (if b then Some item else None))
      | PFloat f \<Rightarrow> Inr (if isfinite f then Some item else None)
      | _ \<Rightarrow> Inr None)"

fun snapshot_loop :: "pydict \<Rightarrow> string list \<Rightarrow> pydict \<Rightarrow> pydict res" where
  "snapshot_loop v [] acc = Inr acc"
| "snapshot_loop v (k # ks) acc =
     (case map_of v k of
        None \<Rightarrow> snapshot_loop v ks acc
      | Some item \<Rightarrow>
          rbind (snapshot_item item) (\<lambda>x.
            snapshot_loop v ks (case x of None \<Rightarrow> acc | Some y \<Rightarrow> acc @ [(k, y)])))"

text \<open>One field of a threshold: a finite, non-negative number that is no bool.\<close>

definition tier_number :: "pydict \<Rightarrow> string \<Rightarrow> bool res" where
  "tier_number tier k =
     (let v = dget tier k
      in if is_bool v \<or> \<not> is_number v then Inr False
         else rbind (py_isfinite v) (\<lambda>b. Inr (b \<and> Fin 0 \<le> num_val v)))"

definition snapshot_tier :: "pyval \<Rightarrow> pyval option res" where
  "snapshot_tier tier =
     (case tier of
        PDict t \<Rightarrow>
          rbind (tier_number t ''limit_w'') (\<lambda>a.
          if \<not> a then Inr None
          else rbind (tier_number t ''duration_s'') (\<lambda>b.
            Inr (if b then Some (PDict [(''limit_w'', dget t ''limit_w''), (''duration_s'', dget t ''duration_s'')])
                 else None)))
      | _ \<Rightarrow> Inr None)"

definition normalize_input_snapshot :: "pyval \<Rightarrow> pydict option res" where
  "normalize_input_snapshot v =
     (case v of
        PDict d \<Rightarrow>
          rbind (snapshot_loop d snapshot_fields []) (\<lambda>result.
          (case dget d ''thresholds'' of
             PList ts \<Rightarrow>
               rbind (map_res snapshot_tier (take MAX_CUSTOM_THRESHOLDS ts)) (\<lambda>tiers.
                 Inr (Some (result @ [(''thresholds'', PList (somes tiers))])))
           | _ \<Rightarrow> Inr (Some result)))
      | _ \<Rightarrow> Inr None)"

definition normalized_action_value :: "pyval \<Rightarrow> pyval option" where
  "normalized_action_value v =
     (case v of
        PStr s \<Rightarrow> Some (PStr (take MAX_ACTION_FIELD_LENGTH s))
      | PFloat f \<Rightarrow> if isfinite f then Some v else None
      | PInt _ \<Rightarrow> Some v
      | PBool _ \<Rightarrow> Some v
      | PNone \<Rightarrow> Some v
      | _ \<Rightarrow> None)"

definition valid_action_identity :: "pyval \<Rightarrow> pyval \<Rightarrow> bool" where
  "valid_action_identity action_id action \<longleftrightarrow>
     is_str action_id \<and> nonblank (the_str action_id) \<and> is_str action \<and> nonblank (the_str action)"

definition normalized_item :: "string \<Rightarrow> pyval \<Rightarrow> pyval option res" where
  "normalized_item k v =
     (if k = ''input_snapshot''
      then rbind (normalize_input_snapshot v) (\<lambda>s. Inr (map_option PDict s))
      else Inr (normalized_action_value v))"

fun normalize_items :: "pydict \<Rightarrow> pydict \<Rightarrow> pydict res" where
  "normalize_items [] acc = Inr acc"
| "normalize_items ((k, v) # r) acc =
     (if k = ''action_id'' \<or> k = ''action'' then normalize_items r acc
      else rbind (normalized_item k v) (\<lambda>x.
        normalize_items r (case x of None \<Rightarrow> acc | Some w \<Rightarrow> AList.update k w acc)))"

definition setdefault :: "string \<Rightarrow> pyval \<Rightarrow> pydict \<Rightarrow> pydict" where
  "setdefault k v d = (if dhas d k then d else d @ [(k, v)])"

definition normalize_action_event :: "rat \<Rightarrow> pyval \<Rightarrow> pydict option res" where
  "normalize_action_event now event =
     (case event of
        PDict e \<Rightarrow>
          if \<not> valid_action_identity (dget e ''action_id'') (dget e ''action'') then Inr None
          else rbind (normalize_items e
                 [(''action_id'', PStr (take MAX_ACTION_FIELD_LENGTH (the_str (dget e ''action_id'')))),
                  (''action'', PStr (take MAX_ACTION_FIELD_LENGTH (the_str (dget e ''action''))))])
                 (\<lambda>n. Inr (Some (setdefault ''timestamp'' (PFloat (Fin now)) n)))
      | _ \<Rightarrow> Inr None)"

definition last_n :: "nat \<Rightarrow> 'a list \<Rightarrow> 'a list" where
  "last_n n xs = drop (length xs - n) xs"

definition normalize_history :: "rat \<Rightarrow> pyval \<Rightarrow> pydict list res" where
  "normalize_history now v =
     (case v of
        PList xs \<Rightarrow>
          rbind (map_res (normalize_action_event now) (last_n MAX_AUDIT_ENTRIES xs)) (\<lambda>es.
            Inr (somes es))
      | _ \<Rightarrow> Inr [])"

section \<open>Recording\<close>

definition dict_update :: "pydict \<Rightarrow> pydict \<Rightarrow> pydict" where
  "dict_update a b = fold (\<lambda>(k, v) d. AList.update k v d) b a"

text \<open>A later phase of an action: its fields win, the decision evidence of the first phase stays.\<close>

definition merge_record :: "pydict \<Rightarrow> pydict \<Rightarrow> pydict" where
  "merge_record previous normalized =
     fold (\<lambda>k merged. case map_of previous k of None \<Rightarrow> merged | Some v \<Rightarrow> AList.update k v merged)
       [''decision_reason'', ''input_snapshot''] (dict_update previous normalized)"

fun merge_into :: "pydict \<Rightarrow> pydict list \<Rightarrow> pydict list option" where
  "merge_into n [] = None"
| "merge_into n (p # ps) =
     (if dget p ''action_id'' = dget n ''action_id'' then Some (merge_record p n # ps)
      else map_option (Cons p) (merge_into n ps))"

text \<open>
  \<open>RuntimeStore.record_action\<close> on the stored history; the result is the new \<open>audit_history\<close>
  value, unchanged where the event names no action.
\<close>

definition store_record_action :: "rat \<Rightarrow> pyval \<Rightarrow> pyval \<Rightarrow> pyval res" where
  "store_record_action now history event =
     rbind (normalize_action_event now event) (\<lambda>n.
     case n of
       None \<Rightarrow> Inr history
     | Some normalized \<Rightarrow>
         rbind (normalize_history now history) (\<lambda>hist.
         rbind (normalize_history now (PList (map PDict
                  (case merge_into normalized hist of
                     Some merged \<Rightarrow> merged | None \<Rightarrow> hist @ [normalized])))) (\<lambda>final.
         Inr (PList (map PDict final)))))"

text \<open>\<open>journal.record_action\<close>: defaults are filled in before the store normalizes.\<close>

definition EVENT_SCHEMA_VERSION :: int where "EVENT_SCHEMA_VERSION = 1"

definition record_action :: "rat \<Rightarrow> pyval \<Rightarrow> pydict \<Rightarrow> (bool \<times> pyval) res" where
  "record_action now history event =
     (case dget event ''action_id'' of
        PStr (c # cs) \<Rightarrow>
          rbind (store_record_action now history (PDict (setdefault ''timestamp'' (PFloat (Fin now))
                   (setdefault ''event_schema'' (PInt EVENT_SCHEMA_VERSION) event)))) (\<lambda>h. Inr (True, h))
      | _ \<Rightarrow> Inr (False, history))"

text \<open>The payload of \<open>emit_event\<close>.\<close>

definition event_payload :: "string \<Rightarrow> pydict \<Rightarrow> string \<Rightarrow> string \<Rightarrow> pydict" where
  "event_payload event_type data entry_id mode =
     dict_merge data [(''schema_version'', PInt EVENT_SCHEMA_VERSION), (''event_type'', PStr event_type),
       (''entry_id'', PStr entry_id), (''mode'', PStr mode)]"

definition is_unresolved :: "pydict \<Rightarrow> bool" where
  "is_unresolved e \<longleftrightarrow>
     dget e ''phase'' \<in> {PStr ''prepared'', PStr ''dispatched''}
     \<or> dget e ''result'' \<in> {PStr ''prepared'', PStr ''dispatched''}"

definition unresolved_actions :: "rat \<Rightarrow> pyval \<Rightarrow> pydict list res" where
  "unresolved_actions now history =
     rbind (normalize_history now history) (\<lambda>h.
       Inr (last_n MAX_UNRESOLVED_ACTIONS (filter is_unresolved h)))"

section \<open>Normal forms\<close>

text \<open>A value of a record that normalization leaves as it is.\<close>

definition item_stable :: "string \<Rightarrow> pyval \<Rightarrow> bool" where
  "item_stable k v \<longleftrightarrow> normalized_item k v = Inr (Some v)"

definition action_ok :: "pydict \<Rightarrow> bool" where
  "action_ok e \<longleftrightarrow>
     (\<exists>i a rest. e = (''action_id'', PStr i) # (''action'', PStr a) # rest
        \<and> nonblank i \<and> nonblank a \<and> length i \<le> 256 \<and> length a \<le> 256
        \<and> distinct (map fst e) \<and> (\<forall>(k, v) \<in> set rest. item_stable k v) \<and> dhas rest ''timestamp'')"

lemma snapshot_item_stable: "snapshot_item v = Inr (Some w) \<Longrightarrow> snapshot_item w = Inr (Some w)"
  by (cases v) (auto simp: snapshot_item_def rbind_Inr_iff min_def split: if_splits)

lemma snapshot_tier_stable: "snapshot_tier v = Inr (Some w) \<Longrightarrow> snapshot_tier w = Inr (Some w)"
  by (cases v) (auto simp: snapshot_tier_def tier_number_def rbind_Inr_iff Let_def split: if_splits)

lemma snapshot_loop_acc:
  "snapshot_loop v ks acc = rbind (snapshot_loop v ks []) (\<lambda>r. Inr (acc @ r))"
proof (induction ks arbitrary: acc)
  case Nil
  then show ?case by simp
next
  case (Cons k ks)
  show ?case
  proof (cases "map_of v k")
    case None
    then show ?thesis by (simp add: Cons [of acc])
  next
    case (Some item)
    show ?thesis
    proof (cases "snapshot_item item")
      case (Inl e)
      with Some show ?thesis by simp
    next
      case (Inr x)
      show ?thesis
        using Some Inr Cons [of "acc @ [(k, the x)]"] Cons [of acc] Cons [of "[(k, the x)]"]
        by (cases x; cases "snapshot_loop v ks []") auto
    qed
  qed
qed

lemma snapshot_loop_keys: "snapshot_loop v ks [] = Inr d \<Longrightarrow> subseq (map fst d) ks"
proof (induction ks arbitrary: d)
  case Nil
  then show ?case by simp
next
  case (Cons k ks)
  show ?case
  proof (cases "map_of v k")
    case None
    with Cons show ?thesis by auto
  next
    case (Some item)
    with Cons.prems obtain x where x: "snapshot_item item = Inr x"
      and l: "snapshot_loop v ks (case x of None \<Rightarrow> [] | Some y \<Rightarrow> [(k, y)]) = Inr d"
      by (auto simp: rbind_Inr_iff split: option.splits)
    from l obtain r where r: "snapshot_loop v ks [] = Inr r"
      and d: "d = (case x of None \<Rightarrow> [] | Some y \<Rightarrow> [(k, y)]) @ r"
      by (subst (asm) snapshot_loop_acc) (auto simp: rbind_Inr_iff)
    from Cons.IH [OF r] d show ?thesis by (cases x) auto
  qed
qed

lemma snapshot_loop_stable_values:
  "snapshot_loop v ks [] = Inr d \<Longrightarrow> (k, x) \<in> set d \<Longrightarrow> snapshot_item x = Inr (Some x)"
proof (induction ks arbitrary: d)
  case Nil
  then show ?case by simp
next
  case (Cons k' ks)
  show ?case
  proof (cases "map_of v k'")
    case None
    with Cons show ?thesis by auto
  next
    case (Some item)
    with Cons.prems obtain y where y: "snapshot_item item = Inr y"
      and l: "snapshot_loop v ks (case y of None \<Rightarrow> [] | Some z \<Rightarrow> [(k', z)]) = Inr d"
      by (auto simp: rbind_Inr_iff split: option.splits)
    from l obtain r where r: "snapshot_loop v ks [] = Inr r"
      and d: "d = (case y of None \<Rightarrow> [] | Some z \<Rightarrow> [(k', z)]) @ r"
      by (subst (asm) snapshot_loop_acc) (auto simp: rbind_Inr_iff)
    from Cons.IH [OF r] Cons.prems(2) d y show ?thesis
      by (cases y) (auto dest: snapshot_item_stable)
  qed
qed

text \<open>A dict whose keys are an ordered selection of the fields, with stable values, is a fixed
  point of the loop.\<close>

lemma snapshot_loop_fixed:
  assumes "\<And>k x. (k, x) \<in> set d \<Longrightarrow> snapshot_item x = Inr (Some x)"
    and "subseq (map fst d) ks" "distinct ks" "\<And>k. k \<in> set ks \<Longrightarrow> map_of w k = map_of d k"
  shows "snapshot_loop w ks [] = Inr d"
  using assms
proof (induction ks arbitrary: d)
  case Nil
  then show ?case by (cases d) auto
next
  case (Cons k ks)
  show ?case
  proof (cases "k \<in> set (map fst d)")
    case False
    then have "subseq (map fst d) ks"
      using Cons.prems(2) by (cases d) (auto split: if_splits)
    moreover from False have "map_of d k = None" by (simp add: map_of_eq_None_iff)
    ultimately show ?thesis using Cons.IH [of d] Cons.prems by auto
  next
    case True
    then obtain k' x d' where d': "d = (k', x) # d'" by (cases d) auto
    have "k' = k"
    proof (rule ccontr)
      assume "k' \<noteq> k"
      with Cons.prems(2) d' have "subseq (map fst d) ks" by simp
      then have "k \<in> set ks" by (rule in_subseq) (rule True)
      with Cons.prems(3) show False by simp
    qed
    with d' have d: "d = (k, x) # d'" by simp
    have "k \<notin> set ks" using Cons.prems(3) by simp
    moreover have sub: "subseq (map fst d') ks" using Cons.prems(2) d by auto
    ultimately have "map_of w j = map_of d' j" if "j \<in> set ks" for j
      using Cons.prems(4) [of j] that d by auto
    then have "snapshot_loop w ks [] = Inr d'"
      using Cons.IH [of d'] Cons.prems(1,3) sub d by auto
    moreover have "map_of w k = Some x" using Cons.prems(4) [of k] d by simp
    moreover have "snapshot_item x = Inr (Some x)" using Cons.prems(1) [of k x] d by simp
    ultimately show ?thesis using d by (simp add: snapshot_loop_acc [of w ks "[(k, x)]"])
  qed
qed

lemma map_res_stable:
  "map_res f xs = Inr ys \<Longrightarrow> (\<And>x y. f x = Inr (Some y) \<Longrightarrow> f y = Inr (Some y)) \<Longrightarrow>
   map_res f (somes ys) = Inr (map Some (somes ys))
   \<and> length (somes ys) \<le> length xs"
proof (induction xs arbitrary: ys)
  case Nil
  then show ?case by simp
next
  case (Cons x xs)
  from Cons.prems(1) obtain y ys' where y: "f x = Inr y" and ys': "map_res f xs = Inr ys'" "ys = y # ys'"
    by (auto simp: rbind_Inr_iff)
  have "map_res f (somes ys') = Inr (map Some (somes ys')) \<and> length (somes ys') \<le> length xs"
    using Cons.IH [OF ys'(1)] Cons.prems(2) by blast
  with y ys'(2) Cons.prems(2) [of x] show ?case
    by (cases y) auto
qed

lemma somes_map_Some [simp]: "somes (map Some xs) = xs"
  by (induction xs) simp_all

lemma input_snapshot_stable:
  assumes "normalize_input_snapshot v = Inr (Some d)"
  shows "normalize_input_snapshot (PDict d) = Inr (Some d)"
proof -
  from assms obtain w result where v: "v = PDict w" and loop: "snapshot_loop w snapshot_fields [] = Inr result"
    by (cases v) (auto simp: normalize_input_snapshot_def rbind_Inr_iff)
  have keys: "subseq (map fst result) snapshot_fields" by (rule snapshot_loop_keys [OF loop])
  have no: "''thresholds'' \<notin> set snapshot_fields" by (simp add: snapshot_fields_def)
  then have no': "map_of result ''thresholds'' = None"
    using in_subseq [OF keys] by (metis map_of_eq_None_iff set_map)
  have fixed: "snapshot_loop (result @ extra) snapshot_fields [] = Inr result"
    if "extra = [] \<or> map fst extra = [''thresholds'']" for extra
  proof (rule snapshot_loop_fixed)
    show "\<And>k x. (k, x) \<in> set result \<Longrightarrow> snapshot_item x = Inr (Some x)"
      by (rule snapshot_loop_stable_values [OF loop])
    show "subseq (map fst result) snapshot_fields" by (rule keys)
    show "distinct snapshot_fields" by (simp add: snapshot_fields_def)
    fix k assume "k \<in> set snapshot_fields"
    with no have "k \<noteq> ''thresholds''" by metis
    with that have "map_of extra k = None" by (cases extra) auto
    then show "map_of (result @ extra) k = map_of result k" by (simp add: map_add_def split: option.split)
  qed
  show ?thesis
  proof (cases "\<exists>ts. dget w ''thresholds'' = PList ts")
    case False
    with assms v loop have "d = result"
      by (auto simp: normalize_input_snapshot_def split: pyval.splits)
    then show ?thesis using fixed [of "[]"] no'
      by (simp add: normalize_input_snapshot_def dget_def)
  next
    case True
    then obtain ts where ts: "dget w ''thresholds'' = PList ts" by blast
    with assms v loop obtain tiers where m: "map_res snapshot_tier (take MAX_CUSTOM_THRESHOLDS ts) = Inr tiers"
      and d: "d = result @ [(''thresholds'', PList (somes tiers))]"
      by (auto simp: normalize_input_snapshot_def rbind_Inr_iff)
    have st: "map_res snapshot_tier (somes tiers) = Inr (map Some (somes tiers))"
      and len: "length (somes tiers) \<le> MAX_CUSTOM_THRESHOLDS"
      using map_res_stable [OF m snapshot_tier_stable] by auto
    have "dget d ''thresholds'' = PList (somes tiers)"
      using no' d by (simp add: dget_def map_add_def)
    then show ?thesis using fixed [of "[(''thresholds'', PList (somes tiers))]"] st len d
      by (simp add: normalize_input_snapshot_def)
  qed
qed

lemma normalized_item_stable: "normalized_item k v = Inr (Some w) \<Longrightarrow> item_stable k w"
proof (cases "k = ''input_snapshot''")
  case True
  then show "normalized_item k v = Inr (Some w) \<Longrightarrow> ?thesis"
    by (auto simp: item_stable_def normalized_item_def rbind_Inr_iff dest: input_snapshot_stable)
next
  case False
  then show "normalized_item k v = Inr (Some w) \<Longrightarrow> ?thesis"
    by (cases v) (auto simp: item_stable_def normalized_item_def normalized_action_value_def split: if_splits)
qed

lemma normalize_items_fixed:
  "distinct (map fst (acc @ rest)) \<Longrightarrow> \<forall>(k, v) \<in> set rest. item_stable k v \<Longrightarrow>
   ''action_id'' \<notin> set (map fst rest) \<Longrightarrow> ''action'' \<notin> set (map fst rest) \<Longrightarrow>
   normalize_items rest acc = Inr (acc @ rest)"
proof (induction rest arbitrary: acc)
  case Nil
  then show ?case by simp
next
  case (Cons p rest)
  obtain k v where p: "p = (k, v)" by force
  with Cons.prems have "k \<notin> set (map fst acc)" by auto
  then have "AList.update k v acc = acc @ [(k, v)]" by (rule update_new_key)
  with Cons p show ?case by (auto simp: item_stable_def)
qed

lemma stable_update:
  "\<forall>(k, v) \<in> set d. item_stable k v \<Longrightarrow> item_stable j w \<Longrightarrow> distinct (map fst d) \<Longrightarrow>
   \<forall>(k, v) \<in> set (AList.update j w d). item_stable k v"
  by (induction d) auto

lemma normalize_items_ok:
  "normalize_items items (b1 # b2 # acc) = Inr d \<Longrightarrow> fst b1 = ''action_id'' \<Longrightarrow> fst b2 = ''action'' \<Longrightarrow>
   distinct (map fst (b1 # b2 # acc)) \<Longrightarrow> \<forall>(k, v) \<in> set acc. item_stable k v \<Longrightarrow>
   \<exists>rest. d = b1 # b2 # rest \<and> distinct (map fst d) \<and> (\<forall>(k, v) \<in> set rest. item_stable k v)"
proof (induction items arbitrary: acc)
  case Nil
  then have "d = b1 # b2 # acc" by simp
  with Nil show ?case by simp
next
  case (Cons p items)
  obtain k v where p: "p = (k, v)" by force
  show ?case
  proof (cases "k = ''action_id'' \<or> k = ''action''")
    case True
    with Cons p show ?thesis by auto
  next
    case False
    with Cons.prems(1) p obtain x where x: "normalized_item k v = Inr x"
      and d: "normalize_items items (case x of None \<Rightarrow> b1 # b2 # acc | Some w \<Rightarrow> AList.update k w (b1 # b2 # acc)) = Inr d"
      by (auto simp: rbind_Inr_iff)
    show ?thesis
    proof (cases x)
      case None
      with d Cons show ?thesis by auto
    next
      case (Some w)
      obtain v1 v2 where b: "b1 = (''action_id'', v1)" "b2 = (''action'', v2)"
        using Cons.prems(2,3) by (metis prod.collapse)
      with False Some d have d: "normalize_items items (b1 # b2 # AList.update k w acc) = Inr d"
        by (auto split: if_splits)
      have "distinct (map fst (b1 # b2 # AList.update k w acc))"
        using Cons.prems(4) b False by (auto simp: map_fst_update)
      moreover have "\<forall>(k, v) \<in> set (AList.update k w acc). item_stable k v"
        using stable_update [of acc k w] Cons.prems(4,5) normalized_item_stable x Some by auto
      ultimately show ?thesis using Cons.IH [OF d Cons.prems(2,3)] by blast
    qed
  qed
qed

lemma timestamp_stable: "item_stable ''timestamp'' (PFloat (Fin x))"
  by (simp add: item_stable_def normalized_item_def normalized_action_value_def)

lemma nonblank_take: "nonblank (take n s) \<Longrightarrow> nonblank s"
  by (auto simp: nonblank_def py_strip_blank dest: in_set_takeD)

text \<open>
  Truncation to 256 characters can leave only blanks of an identity that starts with 256 of
  them; such a record is dropped when the history is next normalized.
\<close>

lemma normalized_action_ok:
  assumes "normalize_action_event now v = Inr (Some e)"
    "nonblank (the_str (dget e ''action_id''))" "nonblank (the_str (dget e ''action''))"
  shows "action_ok e"
proof -
  from assms(1) obtain d n where v: "v = PDict d" and n: "normalize_items d
        [(''action_id'', PStr (take 256 (the_str (dget d ''action_id'')))),
         (''action'', PStr (take 256 (the_str (dget d ''action''))))] = Inr n"
    and e: "e = setdefault ''timestamp'' (PFloat (Fin now)) n"
    by (cases v) (auto simp: normalize_action_event_def rbind_Inr_iff MAX_ACTION_FIELD_LENGTH_def split: if_splits)
  from normalize_items_ok [OF n] obtain rest where
    rest: "n = (''action_id'', PStr (take 256 (the_str (dget d ''action_id'')))) #
        (''action'', PStr (take 256 (the_str (dget d ''action'')))) # rest"
      "distinct (map fst n)" "\<forall>(k, v) \<in> set rest. item_stable k v" by auto
  show ?thesis
  proof (cases "dhas n ''timestamp''")
    case True
    with e rest assms(2,3) show ?thesis
      unfolding action_ok_def by (auto simp: setdefault_def dhas_def)
  next
    case False
    with e rest assms(2,3) timestamp_stable show ?thesis
      unfolding action_ok_def by (auto simp: setdefault_def dhas_def)
  qed
qed

lemma action_ok_fixed: "action_ok e \<Longrightarrow> normalize_action_event now (PDict e) = Inr (Some e)"
proof -
  assume "action_ok e"
  then obtain i a rest where e: "e = (''action_id'', PStr i) # (''action'', PStr a) # rest"
    and ia: "nonblank i" "nonblank a" "length i \<le> 256" "length a \<le> 256"
    and rest: "distinct (map fst e)" "\<forall>(k, v) \<in> set rest. item_stable k v" "dhas rest ''timestamp''"
    unfolding action_ok_def by blast
  have "normalize_items rest [(''action_id'', PStr i), (''action'', PStr a)]
      = Inr ([(''action_id'', PStr i), (''action'', PStr a)] @ rest)"
    by (rule normalize_items_fixed) (use e rest in auto)
  moreover have "dhas e ''timestamp''" using e rest(3) by (simp add: dhas_def)
  ultimately show ?thesis
    using e ia by (simp add: normalize_action_event_def valid_action_identity_def
        MAX_ACTION_FIELD_LENGTH_def setdefault_def)
qed

section \<open>Merging phases\<close>

definition field_ok :: "string \<Rightarrow> pyval \<Rightarrow> bool" where
  "field_ok k v \<longleftrightarrow>
     (if k = ''action_id'' \<or> k = ''action'' then \<exists>s. v = PStr s \<and> nonblank s \<and> length s \<le> 256
      else item_stable k v)"

lemma action_ok_fields: "action_ok e \<Longrightarrow> (k, v) \<in> set e \<Longrightarrow> field_ok k v"
proof -
  assume "action_ok e" and kv: "(k, v) \<in> set e"
  then obtain i a rest where e: "e = (''action_id'', PStr i) # (''action'', PStr a) # rest"
    and ia: "nonblank i" "nonblank a" "length i \<le> 256" "length a \<le> 256"
    and rest: "distinct (map fst e)" "\<forall>(k, v) \<in> set rest. item_stable k v"
    unfolding action_ok_def by blast
  from kv e consider "k = ''action_id''" "v = PStr i" | "k = ''action''" "v = PStr a" | "(k, v) \<in> set rest" by auto
  then show ?thesis
  proof cases
    case 3
    then have "k \<in> set (map fst rest)" by (metis fst_conv imageI set_map)
    with e rest(1) have "k \<noteq> ''action_id''" "k \<noteq> ''action''" by (metis distinct.simps(2) fst_conv list.set_intros(2) list.simps(9))+
    with 3 rest(2) show ?thesis by (auto simp: field_ok_def)
  qed (use ia in \<open>simp_all add: field_ok_def\<close>)
qed

lemma action_ok_distinct: "action_ok e \<Longrightarrow> distinct (map fst e)"
  by (auto simp: action_ok_def)

lemma action_ok_update:
  assumes "action_ok d" "field_ok k v"
  shows "action_ok (AList.update k v d)"
proof -
  from assms(1) obtain i a rest where d: "d = (''action_id'', PStr i) # (''action'', PStr a) # rest"
    and ia: "nonblank i" "nonblank a" "length i \<le> 256" "length a \<le> 256"
    and rest: "distinct (map fst d)" "\<forall>(k, v) \<in> set rest. item_stable k v" "dhas rest ''timestamp''"
    unfolding action_ok_def by blast
  have dist: "distinct (map fst (AList.update k v d))" using rest(1) by (simp add: distinct_update)
  consider "k = ''action_id''" | "k = ''action''" | "k \<noteq> ''action_id''" "k \<noteq> ''action''" by blast
  then show ?thesis
  proof cases
    case 1
    with assms(2) obtain s where "v = PStr s" "nonblank s" "length s \<le> 256" by (auto simp: field_ok_def)
    with d ia rest dist 1 show ?thesis unfolding action_ok_def by auto
  next
    case 2
    with assms(2) obtain s where "v = PStr s" "nonblank s" "length s \<le> 256" by (auto simp: field_ok_def)
    with d ia rest dist 2 show ?thesis unfolding action_ok_def by auto
  next
    case 3
    with assms(2) have "item_stable k v" by (simp add: field_ok_def)
    with rest d have "\<forall>(k, v) \<in> set (AList.update k v rest). item_stable k v"
      by (intro stable_update) auto
    moreover have "dhas (AList.update k v rest) ''timestamp''"
      using rest(3) by (simp add: dhas_def map_fst_update)
    ultimately show ?thesis using d ia 3 dist unfolding action_ok_def by auto
  qed
qed

lemma fold_update_ok:
  "action_ok d \<Longrightarrow> \<forall>(k, v) \<in> set b. field_ok k v \<Longrightarrow> action_ok (fold (\<lambda>(k, v) d. AList.update k v d) b d)"
  by (induction b arbitrary: d) (auto simp: action_ok_update)

lemma map_of_fold_update:
  "distinct (map fst b) \<Longrightarrow>
   map_of (fold (\<lambda>(k, v) d. AList.update k v d) b d) = map_of d ++ map_of b"
proof (induction b arbitrary: d)
  case Nil
  then show ?case by simp
next
  case (Cons p b)
  obtain k v where p: "p = (k, v)" by force
  with Cons.prems have "map_of b k = None" by (simp add: map_of_eq_None_iff)
  with Cons p show ?case by (auto simp: update_conv' map_add_def fun_eq_iff split: option.split)
qed

lemma merge_record_ok: "action_ok p \<Longrightarrow> action_ok n \<Longrightarrow> action_ok (merge_record p n)"
proof -
  assume p: "action_ok p" and n: "action_ok n"
  have "action_ok (dict_update p n)"
    unfolding dict_update_def by (rule fold_update_ok [OF p]) (use action_ok_fields [OF n] in blast)
  then show ?thesis
    unfolding merge_record_def
    by (auto intro!: action_ok_update intro: action_ok_fields [OF p] dest: map_of_SomeD split: option.split)
qed

lemma merge_record_lookup:
  assumes "action_ok p" "action_ok n"
  shows "map_of (merge_record p n) k =
    (if k \<in> {''decision_reason'', ''input_snapshot''} \<and> map_of p k \<noteq> None then map_of p k
     else case map_of n k of None \<Rightarrow> map_of p k | Some v \<Rightarrow> Some v)"
  using map_of_fold_update [OF action_ok_distinct [OF assms(2)], of p]
  by (auto simp: merge_record_def dict_update_def update_conv' map_add_def split: option.split)

lemma merge_into_cases:
  "merge_into n ps =
     (if \<exists>p \<in> set ps. dget p ''action_id'' = dget n ''action_id''
      then Some (takeWhile (\<lambda>p. dget p ''action_id'' \<noteq> dget n ''action_id'') ps
             @ merge_record (hd (dropWhile (\<lambda>p. dget p ''action_id'' \<noteq> dget n ''action_id'') ps)) n
             # tl (dropWhile (\<lambda>p. dget p ''action_id'' \<noteq> dget n ''action_id'') ps))
      else None)"
  by (induction ps) auto

lemma normalize_records: "list_all action_ok h \<Longrightarrow> map_res (normalize_action_event now) (map PDict h) = Inr (map Some h)"
  by (induction h) (simp_all add: action_ok_fixed)

lemma normalize_history_fixed:
  "list_all action_ok h \<Longrightarrow> normalize_history now (PList (map PDict h)) = Inr (last_n 100 h)"
proof -
  assume ok: "list_all action_ok h"
  have "list_all action_ok (last_n 100 h)" using ok by (auto simp: last_n_def list_all_iff dest: in_set_dropD)
  then have "map_res (normalize_action_event now) (map PDict (last_n 100 h)) = Inr (map Some (last_n 100 h))"
    by (rule normalize_records)
  then show ?thesis
    by (simp add: normalize_history_def MAX_AUDIT_ENTRIES_def last_n_def drop_map)
qed

lemma merge_into_ok:
  "list_all action_ok ps \<Longrightarrow> action_ok n \<Longrightarrow> merge_into n ps = Some qs \<Longrightarrow>
   list_all action_ok qs \<and> length qs = length ps"
  by (induction ps arbitrary: qs) (auto simp: merge_record_ok split: if_splits)

lemma last_n_short [simp]: "length xs \<le> n \<Longrightarrow> last_n n xs = xs"
  by (simp add: last_n_def)

lemma length_last_n [simp]: "length (last_n n xs) = min n (length xs)"
  by (simp add: last_n_def)

lemma list_all_last_n: "list_all P xs \<Longrightarrow> list_all P (last_n n xs)"
  by (auto simp: last_n_def list_all_iff dest: in_set_dropD)

text \<open>C22. Recording a phase of an action keeps the journal a list of at most 100 normalized
  records. The first phase of an action is appended (the oldest record makes room); a later phase
  is merged into its action's record in place, where its fields win except that the decision
  evidence of the first phase is kept; every other record is unchanged. What a restart will take for
  unfinished are then the records of this journal still in a prepared or dispatched phase, the latest
  16 of them; a record that the caps drop is no longer among them, finished or not.\<close>

theorem record_action_journal:
  assumes "list_all action_ok hist" "length hist \<le> 100"
    and "normalize_action_event now event = Inr (Some n)" "action_ok n"
  shows "\<exists>hist'. store_record_action now (PList (map PDict hist)) event = Inr (PList (map PDict hist'))
    \<and> list_all action_ok hist' \<and> length hist' \<le> 100
    \<and> ((\<forall>p \<in> set hist. dget p ''action_id'' \<noteq> dget n ''action_id'') \<longrightarrow> hist' = last_n 100 (hist @ [n]))
    \<and> (\<forall>before p after. hist = before @ p # after \<and> dget p ''action_id'' = dget n ''action_id''
          \<and> (\<forall>q \<in> set before. dget q ''action_id'' \<noteq> dget n ''action_id'') \<longrightarrow>
        (\<exists>m. hist' = before @ m # after \<and> (\<forall>k. map_of m k =
           (if k \<in> {''decision_reason'', ''input_snapshot''} \<and> map_of p k \<noteq> None then map_of p k
            else case map_of n k of None \<Rightarrow> map_of p k | Some v \<Rightarrow> Some v))))
    \<and> unresolved_actions later (PList (map PDict hist')) = Inr (last_n 16 (filter is_unresolved hist'))"
proof -
  have run: "store_record_action now (PList (map PDict hist)) event =
      rbind (normalize_history now (PList (map PDict
        (case merge_into n hist of Some merged \<Rightarrow> merged | None \<Rightarrow> hist @ [n]))))
        (\<lambda>final. Inr (PList (map PDict final)))"
    using assms by (simp add: store_record_action_def normalize_history_fixed)
  have restart: "unresolved_actions later (PList (map PDict h)) = Inr (last_n 16 (filter is_unresolved h))"
    if "list_all action_ok h" "length h \<le> 100" for h
    using normalize_history_fixed [OF that(1), of later] that(2)
    by (simp add: unresolved_actions_def MAX_UNRESOLVED_ACTIONS_def)
  show ?thesis
  proof (cases "merge_into n hist")
    case None
    then have no: "\<forall>p \<in> set hist. dget p ''action_id'' \<noteq> dget n ''action_id''"
      by (auto simp: merge_into_cases split: if_splits)
    have ok: "list_all action_ok (hist @ [n])" using assms by simp
    show ?thesis
      using no run None normalize_history_fixed [OF ok] list_all_last_n [OF ok, of 100]
        restart [of "last_n 100 (hist @ [n])"]
      by (intro exI [of _ "last_n 100 (hist @ [n])"]) auto
  next
    case (Some qs)
    have qs: "list_all action_ok qs" "length qs \<le> 100"
      using merge_into_ok [OF assms(1,4) Some] assms(2) by simp_all
    have some: "\<exists>p \<in> set hist. dget p ''action_id'' = dget n ''action_id''"
      using Some by (auto simp: merge_into_cases split: if_splits)
    have place: "\<exists>m. qs = before @ m # after \<and> (\<forall>k. map_of m k =
           (if k \<in> {''decision_reason'', ''input_snapshot''} \<and> map_of p k \<noteq> None then map_of p k
            else case map_of n k of None \<Rightarrow> map_of p k | Some v \<Rightarrow> Some v))"
      if "hist = before @ p # after" "dget p ''action_id'' = dget n ''action_id''"
        "\<forall>q \<in> set before. dget q ''action_id'' \<noteq> dget n ''action_id''" for before p after
    proof (intro exI conjI)
      show "qs = before @ merge_record p n # after"
        using Some that by (simp add: merge_into_cases split: if_splits)
      have "action_ok p" using assms(1) that(1) by simp
      then show "\<forall>k. map_of (merge_record p n) k =
           (if k \<in> {''decision_reason'', ''input_snapshot''} \<and> map_of p k \<noteq> None then map_of p k
            else case map_of n k of None \<Rightarrow> map_of p k | Some v \<Rightarrow> Some v)"
        using merge_record_lookup assms(4) by blast
    qed
    show ?thesis
      using run Some normalize_history_fixed [OF qs(1)] qs some place restart [OF qs]
      by (intro exI [of _ qs]) auto
  qed
qed

definition demo_event :: "string \<Rightarrow> string \<Rightarrow> pydict" where
  "demo_event ph r = [(''action_id'', PStr ''shed_1''), (''action'', PStr ''off''), (''phase'', PStr ph),
     (''decision_reason'', PStr r), (''timestamp'', PFloat (Fin 5))]"

lemma demo_event_ok: "action_ok (demo_event ph r)" if "length ph \<le> 256" "length r \<le> 256"
  using that unfolding action_ok_def demo_event_def
  by (simp add: nonblank_def py_strip_def is_space_def Let_def item_stable_def normalized_item_def
      normalized_action_value_def MAX_ACTION_FIELD_LENGTH_def dhas_def)

lemma record_action_journal_witness:
  "\<exists>m. store_record_action 9 (PList [PDict (demo_event ''prepared'' ''overload'')])
       (PDict (demo_event ''confirmed'' ''late'')) = Inr (PList [PDict m])
     \<and> dget m ''phase'' = PStr ''confirmed'' \<and> dget m ''decision_reason'' = PStr ''overload''
     \<and> unresolved_actions 9 (PList [PDict m]) = Inr []"
proof -
  have ok: "action_ok (demo_event ''prepared'' ''overload'')" "action_ok (demo_event ''confirmed'' ''late'')"
    by (simp_all add: demo_event_ok)
  obtain hist' where h: "store_record_action 9 (PList (map PDict [demo_event ''prepared'' ''overload'']))
        (PDict (demo_event ''confirmed'' ''late'')) = Inr (PList (map PDict hist'))"
    and p: "\<forall>before p after. [demo_event ''prepared'' ''overload''] = before @ p # after
          \<and> dget p ''action_id'' = dget (demo_event ''confirmed'' ''late'') ''action_id''
          \<and> (\<forall>q \<in> set before. dget q ''action_id'' \<noteq> dget (demo_event ''confirmed'' ''late'') ''action_id'') \<longrightarrow>
        (\<exists>m. hist' = before @ m # after \<and> (\<forall>k. map_of m k =
           (if k \<in> {''decision_reason'', ''input_snapshot''} \<and> map_of p k \<noteq> None then map_of p k
            else case map_of (demo_event ''confirmed'' ''late'') k of None \<Rightarrow> map_of p k | Some v \<Rightarrow> Some v)))"
    and u: "unresolved_actions 9 (PList (map PDict hist')) = Inr (last_n 16 (filter is_unresolved hist'))"
    using record_action_journal [where hist = "[demo_event ''prepared'' ''overload'']" and now = 9 and later = 9
        and event = "PDict (demo_event ''confirmed'' ''late'')" and n = "demo_event ''confirmed'' ''late''"]
      ok action_ok_fixed [OF ok(2), of 9] by auto
  from p [rule_format, of "[]" "demo_event ''prepared'' ''overload''" "[]"] obtain m where
    "hist' = [m]" "\<forall>k. map_of m k =
       (if k \<in> {''decision_reason'', ''input_snapshot''} \<and> map_of (demo_event ''prepared'' ''overload'') k \<noteq> None
        then map_of (demo_event ''prepared'' ''overload'') k
        else case map_of (demo_event ''confirmed'' ''late'') k of
               None \<Rightarrow> map_of (demo_event ''prepared'' ''overload'') k | Some v \<Rightarrow> Some v)"
    by (auto simp: demo_event_def)
  then show ?thesis
    using h u by (intro exI [of _ m]) (simp add: dget_def demo_event_def is_unresolved_def)
qed

section \<open>A recorded phase is in the journal\<close>

lemma somes_length: "length (somes ys) \<le> length ys"
  by (induction ys rule: somes.induct) auto

lemma somes_source: "y \<in> set (somes ys) \<Longrightarrow> Some y \<in> set ys"
  by (induction ys rule: somes.induct) auto

lemma map_res_source: "map_res f xs = Inr ys \<Longrightarrow> y \<in> set ys \<Longrightarrow> \<exists>x \<in> set xs. f x = Inr y"
  by (induction xs arbitrary: ys) (auto simp: rbind_Inr_iff)

lemma history_short: "normalize_history now v = Inr hs \<Longrightarrow> length hs \<le> 100"
  by (cases v) (auto simp: normalize_history_def rbind_Inr_iff MAX_AUDIT_ENTRIES_def
      dest!: map_res_length intro: order_trans [OF somes_length])

text \<open>What normalization leaves of any event, whatever its identity becomes.\<close>

lemma normalized_shape:
  assumes "normalize_action_event now v = Inr (Some e)"
  shows "\<exists>i a rest. e = (''action_id'', PStr i) # (''action'', PStr a) # rest \<and> distinct (map fst e)
    \<and> (\<forall>(k, v) \<in> set rest. item_stable k v) \<and> dhas rest ''timestamp'' \<and> length i \<le> 256 \<and> length a \<le> 256"
proof -
  from assms obtain d n where v: "v = PDict d" and n: "normalize_items d
        [(''action_id'', PStr (take 256 (the_str (dget d ''action_id'')))),
         (''action'', PStr (take 256 (the_str (dget d ''action''))))] = Inr n"
    and e: "e = setdefault ''timestamp'' (PFloat (Fin now)) n"
    by (cases v) (auto simp: normalize_action_event_def rbind_Inr_iff MAX_ACTION_FIELD_LENGTH_def split: if_splits)
  from normalize_items_ok [OF n] obtain rest where
    rest: "n = (''action_id'', PStr (take 256 (the_str (dget d ''action_id'')))) #
        (''action'', PStr (take 256 (the_str (dget d ''action'')))) # rest"
      "distinct (map fst n)" "\<forall>(k, v) \<in> set rest. item_stable k v" by auto
  let ?i = "take 256 (the_str (dget d ''action_id''))" and ?a = "take 256 (the_str (dget d ''action''))"
  show ?thesis
  proof (cases "dhas n ''timestamp''")
    case True
    then have "e = n" "dhas rest ''timestamp''" using e rest(1) by (simp_all add: setdefault_def dhas_def)
    with rest show ?thesis by (intro exI [of _ ?i] exI [of _ ?a] exI [of _ rest]) simp
  next
    case False
    let ?t = "(''timestamp'', PFloat (Fin now))"
    have "e = (''action_id'', PStr ?i) # (''action'', PStr ?a) # rest @ [?t]"
      using e rest(1) False by (simp add: setdefault_def dhas_def)
    then have 1: "e = (''action_id'', PStr ?i) # (''action'', PStr ?a) # (rest @ [?t])" by simp
    have "distinct (map fst (n @ [?t]))" using rest(2) False unfolding dhas_def by simp
    then have 2: "distinct (map fst e)" unfolding 1 rest(1) by simp
    have 3: "\<forall>(k, v) \<in> set (rest @ [?t]). item_stable k v" using rest(3) timestamp_stable [of now] by simp
    have 4: "dhas (rest @ [?t]) ''timestamp''" by (simp add: dhas_def)
    show ?thesis by (intro exI conjI) (rule 1, rule 2, rule 3, rule 4, simp_all)
  qed
qed

lemma history_shape:
  assumes "normalize_history now v = Inr hs" "p \<in> set hs"
  shows "\<exists>i a rest. p = (''action_id'', PStr i) # (''action'', PStr a) # rest \<and> distinct (map fst p)
    \<and> (\<forall>(k, v) \<in> set rest. item_stable k v) \<and> dhas rest ''timestamp'' \<and> length i \<le> 256 \<and> length a \<le> 256"
proof -
  from assms obtain xs es where es: "map_res (normalize_action_event now) xs = Inr es" "p \<in> set (somes es)"
    by (cases v) (auto simp: normalize_history_def rbind_Inr_iff)
  from map_res_source [OF es(1) somes_source [OF es(2)]] obtain x where
    "normalize_action_event now x = Inr (Some p)" by blast
  then show ?thesis by (rule normalized_shape)
qed

text \<open>Merging overwrites the identity, so only the rest of the earlier record matters.\<close>

lemma merge_identity:
  "merge_record ((''action_id'', i) # (''action'', b) # rest) ((''action_id'', j) # (''action'', a) # rn) =
   merge_record ((''action_id'', j) # (''action'', a) # rest) ((''action_id'', j) # (''action'', a) # rn)"
  by (simp add: merge_record_def dict_update_def)

lemma merged_ok:
  assumes "normalize_history now v = Inr hs" "p \<in> set hs" "action_ok n"
    "dget p ''action_id'' = dget n ''action_id''"
  shows "action_ok (merge_record p n) \<and> (\<forall>k. k \<noteq> ''decision_reason'' \<longrightarrow> k \<noteq> ''input_snapshot'' \<longrightarrow>
    map_of n k \<noteq> None \<longrightarrow> map_of (merge_record p n) k = map_of n k)"
proof -
  from history_shape [OF assms(1,2)] obtain i b rest where
    p: "p = (''action_id'', PStr i) # (''action'', PStr b) # rest" "distinct (map fst p)"
      "\<forall>(k, v) \<in> set rest. item_stable k v" "dhas rest ''timestamp''" by blast
  from assms(3) obtain j a rn where n: "n = (''action_id'', PStr j) # (''action'', PStr a) # rn"
    and ja: "nonblank j" "nonblank a" "length j \<le> 256" "length a \<le> 256"
    unfolding action_ok_def by blast
  let ?p = "(''action_id'', PStr j) # (''action'', PStr a) # rest"
  have ok: "action_ok ?p" using p ja unfolding action_ok_def by auto
  have "merge_record p n = merge_record ?p n" unfolding p(1) n by (rule merge_identity)
  then show ?thesis
    using merge_record_ok [OF ok assms(3)] merge_record_lookup [OF ok assms(3)]
    by (auto split: option.split)
qed

text \<open>Normalizing the journal again keeps the identities, so the first record of an action stays its
  first record.\<close>

lemma renormalized_identity:
  assumes "normalize_action_event now (PDict p) = Inr (Some e)" "dget p ''action_id'' = PStr i" "length i \<le> 256"
  shows "dget e ''action_id'' = PStr i"
proof -
  from assms(1) obtain n where n: "normalize_items p
        [(''action_id'', PStr (take 256 (the_str (dget p ''action_id'')))),
         (''action'', PStr (take 256 (the_str (dget p ''action''))))] = Inr n"
    and e: "e = setdefault ''timestamp'' (PFloat (Fin now)) n"
    by (auto simp: normalize_action_event_def rbind_Inr_iff MAX_ACTION_FIELD_LENGTH_def split: if_splits)
  from normalize_items_ok [OF n] have "map_of n ''action_id'' = Some (PStr i)"
    using assms(2,3) by auto
  then show ?thesis unfolding e setdefault_def dget_def by (auto simp: map_add_def)
qed

lemma find_renormalized:
  assumes "map_res (normalize_action_event now) (map PDict (before @ m # after)) = Inr es"
    and "action_ok m" "\<forall>q \<in> set before. dget q ''action_id'' \<noteq> dget m ''action_id''
      \<and> (\<exists>i. dget q ''action_id'' = PStr i \<and> length i \<le> 256)"
  shows "find (\<lambda>r. dget r ''action_id'' = dget m ''action_id'') (somes es) = Some m"
  using assms
proof (induction before arbitrary: es)
  case Nil
  then show ?case by (auto simp: rbind_Inr_iff action_ok_fixed)
next
  case (Cons q before)
  from Cons.prems(1) obtain x xs where x: "normalize_action_event now (PDict q) = Inr x" and es: "es = x # xs"
    and xs: "map_res (normalize_action_event now) (map PDict (before @ m # after)) = Inr xs"
    by (auto simp: rbind_Inr_iff)
  have rest: "find (\<lambda>r. dget r ''action_id'' = dget m ''action_id'') (somes xs) = Some m"
    using Cons.IH [OF xs] Cons.prems by simp
  show ?case
  proof (cases x)
    case None
    then show ?thesis using rest es by simp
  next
    case (Some e)
    obtain i where i: "dget q ''action_id'' = PStr i" "length i \<le> 256" using Cons.prems(3) by auto
    have "normalize_action_event now (PDict q) = Inr (Some e)" using x Some by simp
    from renormalized_identity [OF this i] have "dget e ''action_id'' = dget q ''action_id''"
      using i(1) by simp
    then show ?thesis using Cons.prems(3) rest es Some by simp
  qed
qed

lemma recorded_phase:
  assumes "store_record_action now history ev = Inr h"
    and n: "normalize_action_event now ev = Inr (Some n)" "action_ok n"
  shows "\<exists>fs r. h = PList (map PDict fs) \<and> find (\<lambda>r. dget r ''action_id'' = dget n ''action_id'') fs = Some r
    \<and> (\<forall>k. k \<noteq> ''decision_reason'' \<longrightarrow> k \<noteq> ''input_snapshot'' \<longrightarrow> map_of n k \<noteq> None \<longrightarrow> map_of r k = map_of n k)"
proof -
  let ?q = "\<lambda>p. dget p ''action_id'' \<noteq> dget n ''action_id''"
  from assms(1) n(1) obtain hs fs where hs: "normalize_history now history = Inr hs"
    and fs: "normalize_history now (PList (map PDict
        (case merge_into n hs of Some merged \<Rightarrow> merged | None \<Rightarrow> hs @ [n]))) = Inr fs"
    and h: "h = PList (map PDict fs)"
    by (auto simp: store_record_action_def rbind_Inr_iff)
  have known: "\<exists>i. dget q ''action_id'' = PStr i \<and> length i \<le> 256" if "q \<in> set hs" for q
    using history_shape [OF hs that] by (auto simp: dget_def)
  have found: "find (\<lambda>r. dget r ''action_id'' = dget n ''action_id'') fs = Some m"
    if "normalize_history now (PList (map PDict qs)) = Inr fs" "last_n 100 qs = before @ m # after"
      "action_ok m" "dget m ''action_id'' = dget n ''action_id''" "set before \<subseteq> {q \<in> set hs. ?q q}" for qs before m after
  proof -
    from that(1) obtain es where es: "map_res (normalize_action_event now) (last_n 100 (map PDict qs)) = Inr es"
      and fs: "fs = somes es" by (auto simp: normalize_history_def rbind_Inr_iff MAX_AUDIT_ENTRIES_def)
    have "last_n 100 (map PDict qs) = map PDict (before @ m # after)"
      unfolding that(2) [symmetric] by (simp add: last_n_def drop_map)
    then have run: "map_res (normalize_action_event now) (map PDict (before @ m # after)) = Inr es"
      using es by simp
    have "\<forall>q \<in> set before. dget q ''action_id'' \<noteq> dget m ''action_id''
      \<and> (\<exists>i. dget q ''action_id'' = PStr i \<and> length i \<le> 256)"
      using that(4,5) known by auto
    from find_renormalized [OF run that(3) this] show ?thesis using that(4) fs by simp
  qed
  show ?thesis
  proof (cases "merge_into n hs")
    case None
    then have no: "\<forall>p \<in> set hs. ?q p" by (auto simp: merge_into_cases split: if_splits)
    have run: "normalize_history now (PList (map PDict (hs @ [n]))) = Inr fs" using fs None by simp
    have last: "last_n 100 (hs @ [n]) = last_n 99 hs @ n # []" by (simp add: last_n_def Suc_diff_le)
    have "set (last_n 99 hs) \<subseteq> {q \<in> set hs. ?q q}" using no by (auto simp: last_n_def dest: in_set_dropD)
    from found [OF run last n(2) _ this] show ?thesis using h by auto
  next
    case (Some qs)
    let ?p = "hd (dropWhile ?q hs)"
    have some: "\<exists>p \<in> set hs. \<not> ?q p" using Some by (auto simp: merge_into_cases split: if_splits)
    have qs: "qs = takeWhile ?q hs @ merge_record ?p n # tl (dropWhile ?q hs)"
      using Some some by (simp add: merge_into_cases split: if_splits)
    have ne: "dropWhile ?q hs \<noteq> []" using some by (simp add: dropWhile_eq_Nil_conv)
    have p: "?p \<in> set hs" "\<not> ?q ?p"
      using hd_dropWhile [OF ne] set_dropWhileD [of ?p ?q hs] hd_in_set [OF ne] by simp_all
    have ok: "action_ok (merge_record ?p n)" and won: "\<forall>k. k \<noteq> ''decision_reason'' \<longrightarrow> k \<noteq> ''input_snapshot'' \<longrightarrow>
        map_of n k \<noteq> None \<longrightarrow> map_of (merge_record ?p n) k = map_of n k"
      using merged_ok [OF hs p(1) n(2)] p(2) by simp_all
    have "map_of n ''action_id'' \<noteq> None" using n(2) by (auto simp: action_ok_def)
    then have identity: "dget (merge_record ?p n) ''action_id'' = dget n ''action_id''"
      using won by (simp add: dget_def)
    have "length qs = length (takeWhile ?q hs) + length (dropWhile ?q hs)" unfolding qs using ne by simp
    then have "length qs \<le> 100"
      using history_short [OF hs] unfolding length_append [symmetric] takeWhile_dropWhile_id by simp
    then have last: "last_n 100 qs = takeWhile ?q hs @ merge_record ?p n # tl (dropWhile ?q hs)"
      using qs by simp
    have run: "normalize_history now (PList (map PDict qs)) = Inr fs" using fs Some by simp
    have "set (takeWhile ?q hs) \<subseteq> {q \<in> set hs. ?q q}" by (auto dest: set_takeWhileD)
    from found [OF run last ok identity this] won show ?thesis using h by blast
  qed
qed

text \<open>A text field survives normalization, cut to 256 characters, and a flag as it is.\<close>

lemma normalize_items_value:
  "normalize_items es acc = Inr n \<Longrightarrow> distinct (map fst es) \<Longrightarrow>
   k \<noteq> ''action_id'' \<Longrightarrow> k \<noteq> ''action'' \<Longrightarrow> k \<noteq> ''input_snapshot'' \<Longrightarrow> normalized_action_value v = Some v' \<Longrightarrow>
   (map_of es k = Some v \<longrightarrow> map_of n k = Some v') \<and> (k \<notin> set (map fst es) \<longrightarrow> map_of n k = map_of acc k)"
proof (induction es arbitrary: acc)
  case Nil
  then show ?case by simp
next
  case (Cons p es)
  obtain j u where p: "p = (j, u)" by force
  show ?case
  proof (cases "j = ''action_id'' \<or> j = ''action''")
    case True
    with Cons p show ?thesis by auto
  next
    case False
    with Cons.prems(1) p obtain x where x: "normalized_item j u = Inr x"
      and rest: "normalize_items es (case x of None \<Rightarrow> acc | Some w \<Rightarrow> AList.update j w acc) = Inr n"
      by (auto simp: rbind_Inr_iff)
    show ?thesis
    proof (cases "j = k")
      case True
      then have "k \<notin> set (map fst es)" using Cons.prems(2) p by auto
      with Cons.IH [OF rest] Cons.prems(2-) have
        "map_of n k = map_of (case x of None \<Rightarrow> acc | Some w \<Rightarrow> AList.update j w acc) k" by simp
      moreover have "u = v \<Longrightarrow> x = Some v'"
        using x True Cons.prems(5,6) by (simp add: normalized_item_def)
      ultimately show ?thesis using p True by (auto simp: update_conv')
    next
      case False
      have "map_of (case x of None \<Rightarrow> acc | Some w \<Rightarrow> AList.update j w acc) k = map_of acc k"
        using False by (auto simp: update_conv' split: option.split)
      with Cons.IH [OF rest] Cons.prems(2-) p False show ?thesis by auto
    qed
  qed
qed

lemma normalized_value:
  assumes "normalize_action_event now (PDict e) = Inr (Some n)" "distinct (map fst e)"
    and "map_of e k = Some v" "k \<noteq> ''action_id''" "k \<noteq> ''action''" "k \<noteq> ''input_snapshot''"
    and "normalized_action_value v = Some v'"
  shows "map_of n k = Some v'"
proof -
  from assms(1) obtain m where m: "normalize_items e
      [(''action_id'', PStr (take 256 (the_str (dget e ''action_id'')))),
       (''action'', PStr (take 256 (the_str (dget e ''action''))))] = Inr m"
    and n: "n = setdefault ''timestamp'' (PFloat (Fin now)) m"
    by (auto simp: normalize_action_event_def rbind_Inr_iff MAX_ACTION_FIELD_LENGTH_def split: if_splits)
  have "map_of m k = Some v'" using normalize_items_value [OF m] assms by blast
  then show ?thesis
    unfolding n setdefault_def by (auto simp: map_add_def split: option.split)
qed

lemma normalized_flag:
  assumes "normalize_action_event now (PDict e) = Inr (Some n)" "distinct (map fst e)"
    and "map_of e k = Some (PBool b)" "k \<noteq> ''action_id''" "k \<noteq> ''action''" "k \<noteq> ''input_snapshot''"
  shows "map_of n k = Some (PBool b)"
  using assms(3-) by (rule normalized_value [OF assms(1,2)])
    (simp add: normalized_action_value_def)

lemma normalized_text:
  assumes "normalize_action_event now (PDict e) = Inr (Some n)" "distinct (map fst e)"
    and "map_of e k = Some (PStr s)" "k \<noteq> ''action_id''" "k \<noteq> ''action''" "k \<noteq> ''input_snapshot''"
  shows "map_of n k = Some (PStr (take 256 s))"
  using assms(3-) by (rule normalized_value [OF assms(1,2)])
    (simp add: normalized_action_value_def MAX_ACTION_FIELD_LENGTH_def)

end
