(* ===== verification/Fault_Registry.thy ===== *)
theory Fault_Registry
  imports Prelude
begin

text \<open>\<open>fault_registry.py\<close>: faulted and quarantined device ids with bounded reasons.\<close>

definition MAX_REASON_LENGTH :: nat where "MAX_REASON_LENGTH = 160"

record fault_registry =
  faulted :: "string set"
  quarantined :: "string set"
  reasons :: "string \<rightharpoonup> string"
  fault_dirty :: bool

definition new_registry :: fault_registry where
  "new_registry = \<lparr>faulted = {}, quarantined = {}, reasons = Map.empty, fault_dirty = False\<rparr>"

definition latch :: "fault_registry \<Rightarrow> string \<Rightarrow> string \<Rightarrow> fault_registry" where
  "latch r i reason = r\<lparr>quarantined := insert i (quarantined r), faulted := insert i (faulted r),
     reasons := (reasons r)(i \<mapsto> take MAX_REASON_LENGTH reason), fault_dirty := True\<rparr>"

definition clear :: "fault_registry \<Rightarrow> string \<Rightarrow> fault_registry" where
  "clear r i = r\<lparr>quarantined := quarantined r - {i}, faulted := faulted r - {i},
     reasons := (reasons r)(i := None), fault_dirty := True\<rparr>"

definition is_flagged :: "fault_registry \<Rightarrow> string \<Rightarrow> bool" where
  "is_flagged r i \<longleftrightarrow> i \<in> faulted r \<or> i \<in> quarantined r"

text \<open>A flagged device of a registry that only saw latches and clears has a reason of at most
  160 characters.\<close>

definition reasons_cover :: "fault_registry \<Rightarrow> bool" where
  "reasons_cover r \<longleftrightarrow> faulted r = quarantined r \<and> dom (reasons r) = faulted r
     \<and> (\<forall>i s. reasons r i = Some s \<longrightarrow> length s \<le> MAX_REASON_LENGTH)"

lemma reasons_cover_new [inv_intros]: "reasons_cover new_registry"
  by (simp add: reasons_cover_def new_registry_def)

lemma reasons_cover_latch [inv_intros]: "reasons_cover r \<Longrightarrow> reasons_cover (latch r i s)"
  by (auto simp: reasons_cover_def latch_def)

lemma reasons_cover_clear [inv_intros]: "reasons_cover r \<Longrightarrow> reasons_cover (clear r i)"
  by (auto simp: reasons_cover_def clear_def dom_def split: if_splits)

datatype fault_op = Latch string string | Clear string

primrec fault_step :: "fault_registry \<Rightarrow> fault_op \<Rightarrow> fault_registry" where
  "fault_step r (Latch i s) = latch r i s"
| "fault_step r (Clear i) = clear r i"

lemma flagged_step:
  "is_flagged (fault_step r op) i \<longleftrightarrow>
     (case op of Latch j s \<Rightarrow> i = j \<or> is_flagged r i | Clear j \<Rightarrow> i \<noteq> j \<and> is_flagged r i)"
  by (cases op) (auto simp: is_flagged_def latch_def clear_def)

lemma reasons_cover_run: "reasons_cover (foldl fault_step new_registry ops)"
proof (induction ops rule: rev_induct)
  case Nil
  then show ?case by (simp add: inv_intros)
next
  case (snoc op ops)
  then show ?case by (cases op) (simp_all add: inv_intros)
qed

lemma reason_iff_flagged:
  "reasons_cover r \<Longrightarrow>
   faulted r = quarantined r \<and> (is_flagged r i \<longleftrightarrow> (\<exists>s. reasons r i = Some s \<and> length s \<le> 160))"
  unfolding reasons_cover_def is_flagged_def MAX_REASON_LENGTH_def by blast

lemma flagged_last_latch:
  "is_flagged (foldl fault_step new_registry ops) i \<longleftrightarrow>
     (\<exists>before s after. ops = before @ Latch i s # after \<and> Clear i \<notin> set after)"
proof (induction ops rule: rev_induct)
  case Nil
  then show ?case by (simp add: is_flagged_def new_registry_def)
next
  case (snoc op ops)
  have split: "(\<exists>before s after. ops @ [op] = before @ Latch i s # after \<and> Clear i \<notin> set after)
      \<longleftrightarrow> (\<exists>s. op = Latch i s)
        \<or> op \<noteq> Clear i \<and> (\<exists>before s after. ops = before @ Latch i s # after \<and> Clear i \<notin> set after)"
    (is "?l \<longleftrightarrow> ?r")
  proof
    assume ?l
    then obtain before s after where a: "ops @ [op] = before @ Latch i s # after" "Clear i \<notin> set after"
      by blast
    then show ?r by (cases after rule: rev_cases) auto
  next
    assume ?r
    then show ?l
    proof
      assume "\<exists>s. op = Latch i s"
      then show ?l by (metis empty_iff empty_set)
    next
      assume "op \<noteq> Clear i \<and> (\<exists>before s after. ops = before @ Latch i s # after \<and> Clear i \<notin> set after)"
      then obtain before s after where
        "ops = before @ Latch i s # after" "Clear i \<notin> set after" "op \<noteq> Clear i" by blast
      then have "ops @ [op] = before @ Latch i s # (after @ [op]) \<and> Clear i \<notin> set (after @ [op])"
        by simp
      then show ?l by blast
    qed
  qed
  have run: "foldl fault_step new_registry (ops @ [op]) = fault_step (foldl fault_step new_registry ops) op"
    by simp
  show ?case
    unfolding split run flagged_step snoc.IH by (cases op) auto
qed

text \<open>A device is flagged after any sequence of latches and clears exactly when its last
  mention is a latch; it is then both faulted and quarantined and has a recorded reason of at
  most 160 characters, and a device that is not flagged has none.\<close>

theorem flagged_iff_last_latch:
  "(is_flagged (foldl fault_step new_registry ops) i \<longleftrightarrow>
     (\<exists>before s after. ops = before @ Latch i s # after \<and> Clear i \<notin> set after))
   \<and> faulted (foldl fault_step new_registry ops) = quarantined (foldl fault_step new_registry ops)
   \<and> (is_flagged (foldl fault_step new_registry ops) i \<longleftrightarrow>
        (\<exists>s. reasons (foldl fault_step new_registry ops) i = Some s \<and> length s \<le> 160))"
  using flagged_last_latch [of ops i] reason_iff_flagged [OF reasons_cover_run [of ops], of i] by metis

end
