(* ===== verification/Storage.thy ===== *)
theory Storage
  imports Requests Audit_Journal Selection Fault_Registry
begin

text \<open>
  \<open>storage.py\<close>: the durable payload of one config entry. The payload is the dict the store
  writes; two sticky flags record that safety or journal data could not be trusted. Home
  Assistant's \<open>Store\<close> is a parameter: loading hands in its payload, saving hands the payload out.
\<close>

definition STORAGE_VERSION :: int where "STORAGE_VERSION = 3"
definition DEVICE_RUNTIME_SCHEMA_VERSION :: int where "DEVICE_RUNTIME_SCHEMA_VERSION = 2"
definition FAULT_NOTIFICATION_SCHEMA_VERSION :: int where "FAULT_NOTIFICATION_SCHEMA_VERSION = 1"
definition MAX_RUNTIME_PAUSE_SECONDS :: rat where "MAX_RUNTIME_PAUSE_SECONDS = 24 * 60 * 60"
definition MAX_FAULT_REASON_LENGTH :: nat where "MAX_FAULT_REASON_LENGTH = 160"

record runtime_store =
  rs_data :: pydict
  rs_safety_invalid :: bool
  rs_journal_invalid :: bool

definition put :: "string \<Rightarrow> pyval \<Rightarrow> runtime_store \<Rightarrow> runtime_store" where
  "put k v s = s\<lparr>rs_data := AList.update k v (rs_data s)\<rparr>"

definition pop :: "string \<Rightarrow> runtime_store \<Rightarrow> runtime_store" where
  "pop k s = s\<lparr>rs_data := AList.delete k (rs_data s)\<rparr>"

definition distrust :: "runtime_store \<Rightarrow> runtime_store" where
  "distrust s = s\<lparr>rs_safety_invalid := True\<rparr>"

text \<open>\<open>except TypeError, ValueError\<close> around a reader that then distrusts the store.\<close>

definition distrusting :: "'a \<Rightarrow> runtime_store \<Rightarrow> 'a res \<Rightarrow> ('a \<times> runtime_store) res" where
  "distrusting fallback s r =
     (case r of
        Inr x \<Rightarrow> Inr (x, s)
      | Inl TypeErr \<Rightarrow> Inr (fallback, distrust s)
      | Inl (ValueErr _) \<Rightarrow> Inr (fallback, distrust s)
      | Inl e \<Rightarrow> Inl e)"

section \<open>Mode\<close>

definition MODES :: "string list" where "MODES = [''auto'', ''off'', ''observe'']"
definition DEFAULT_MODE :: string where "DEFAULT_MODE = ''observe''"

definition in_modes :: "pyval \<Rightarrow> bool res" where
  "in_modes v = py_in v (map PStr MODES)"

definition store_set_mode :: "string \<Rightarrow> runtime_store \<Rightarrow> runtime_store" where
  "store_set_mode mode s =
     (if mode \<in> set MODES then pop ''execution_mode'' (put ''mode'' (PStr mode) s) else s)"

definition restore_mode :: "runtime_store \<Rightarrow> string option res" where
  "restore_mode s =
     (if \<not> dhas (rs_data s) ''mode'' then Inr None
      else rbind (in_modes (dget (rs_data s) ''mode'')) (\<lambda>b.
        Inr (Some (if b then the_str (dget (rs_data s) ''mode'') else DEFAULT_MODE))))"

definition in_executions :: "pyval \<Rightarrow> bool res" where
  "in_executions v = py_in v [PStr ''observe'', PStr ''live'']"

text \<open>The execution mode that counts: the stored one, else the configured one where the store
  still has the dual shape or no usable mode.\<close>

definition legacy_execution :: "pyval \<Rightarrow> runtime_store \<Rightarrow> pyval res" where
  "legacy_execution config_execution s =
     rbind (in_executions (dget (rs_data s) ''execution_mode'')) (\<lambda>known.
     if known then Inr (dget (rs_data s) ''execution_mode'')
     else
       rbind (if dhas (rs_data s) ''execution_mode'' then Inr True
              else rbind (in_modes (dget (rs_data s) ''mode'')) (\<lambda>b. Inr (\<not> b))) (\<lambda>consult.
       if consult
       then rbind (in_executions config_execution) (\<lambda>b. Inr (if b then config_execution else PNone))
       else Inr PNone))"

definition unified_mode :: "pyval \<Rightarrow> pyval \<Rightarrow> string" where
  "unified_mode legacy stored =
     (if legacy = PStr ''observe'' then ''observe''
      else if stored = PStr ''auto'' \<or> stored = PStr ''off'' then the_str stored
      else if stored = PStr ''observe'' then ''observe''
      else DEFAULT_MODE)"

definition resolve_unified_mode :: "pyval \<Rightarrow> runtime_store \<Rightarrow> (string \<times> runtime_store) res" where
  "resolve_unified_mode config_execution s =
     rbind (legacy_execution config_execution s) (\<lambda>legacy.
       (let mode = unified_mode legacy (dget (rs_data s) ''mode'')
        in Inr (mode, store_set_mode mode s)))"

section \<open>Loading and saving\<close>

definition migrate_device_runtime :: "runtime_store \<Rightarrow> runtime_store" where
  "migrate_device_runtime s =
     (case dget (rs_data s) ''device_runtime'' of
        PDict raw \<Rightarrow>
          if \<not> scalar_eq (dget raw ''schema_version'') (PInt 1) then s
          else
            (let migrated = (if dhas raw ''quarantined_devices'' then Some raw
                             else (case dget raw ''recovery_blocked_devices'' of
                                     PList legacy \<Rightarrow> Some (AList.update ''quarantined_devices'' (PList legacy) raw)
                                   | _ \<Rightarrow> None))
             in (case migrated of
                   None \<Rightarrow> s
                 | Some m \<Rightarrow>
                     put ''device_runtime'' (PDict (AList.update ''schema_version'' (PInt DEVICE_RUNTIME_SCHEMA_VERSION)
                       (AList.delete ''recovery_blocked_devices'' m))) s))
      | _ \<Rightarrow> s)"

definition store_load :: "rat \<Rightarrow> pyval \<Rightarrow> runtime_store res" where
  "store_load now raw =
     (case raw of
        PDict d \<Rightarrow>
          (let invalid = dget_or d ''safety_storage_invalid'' (PBool False);
               s0 = \<lparr>rs_data = d, rs_safety_invalid = (invalid \<noteq> PBool False), rs_journal_invalid = False\<rparr>;
               s1 = migrate_device_runtime s0;
               s2 = s1\<lparr>rs_journal_invalid := truthy (dget (rs_data s1) ''action_journal_invalid'')\<rparr>
           in rbind (normalize_history now (dget_or (rs_data s2) ''audit_history'' (PList []))) (\<lambda>h.
                Inr (put ''audit_history'' (PList (map PDict h)) s2)))
      | _ \<Rightarrow> Inr \<lparr>rs_data = [], rs_safety_invalid = (raw \<noteq> PNone), rs_journal_invalid = False\<rparr>)"

definition store_save :: "runtime_store \<Rightarrow> runtime_store" where
  "store_save s = put ''safety_storage_invalid'' (PBool (rs_safety_invalid s))
     (put ''storage_version'' (PInt STORAGE_VERSION) s)"

section \<open>Intents and tickets\<close>

definition save_requests :: "intent_registry \<Rightarrow> runtime_store \<Rightarrow> runtime_store" where
  "save_requests r s =
     pop ''run_requests''
       (put ''restore_intents''
          (PList (map (\<lambda>((d, _), i). PDict (dict_merge [(''device_id'', PStr d)] (intent_to_dict i)))
             (sort_key fst r))) s)"

text \<open>The loop bodies; \<open>model\<close> is only asked whether it knows a device.\<close>

fun restore_intents_from ::
  "rat \<Rightarrow> power_model \<Rightarrow> pyval list \<Rightarrow> intent_registry \<Rightarrow> intent_registry res" where
  "restore_intents_from now model [] acc = Inr acc"
| "restore_intents_from now model (item # items) acc =
     (case item of
        PDict d \<Rightarrow>
          (case dget d ''device_id'' of
             PStr i \<Rightarrow>
               if get_device model i = None then restore_intents_from now model items acc
               else rbind (intent_from_dict (PDict (AList.delete ''device_id'' d))) (\<lambda>intent.
                    rbind (intent_validate_recovery intent now) (\<lambda>_.
                    restore_intents_from now model items (AList.update (i, ri_source intent) intent acc)))
           | _ \<Rightarrow> restore_intents_from now model items acc)
      | _ \<Rightarrow> Inl (ValueErr ''invalid restore intent''))"

fun restore_legacy_from ::
  "rat \<Rightarrow> power_model \<Rightarrow> pydict \<Rightarrow> intent_registry \<Rightarrow> intent_registry res" where
  "restore_legacy_from now model [] acc = Inr acc"
| "restore_legacy_from now model ((i, v) # items) acc =
     (if get_device model i = None then restore_legacy_from now model items acc
      else rbind (intent_from_dict v) (\<lambda>intent.
           rbind (intent_validate_recovery intent now) (\<lambda>_.
           restore_legacy_from now model items
             (if ri_active intent then AList.update (i, ri_source intent) intent acc else acc))))"

definition restore_requests ::
  "rat \<Rightarrow> power_model \<Rightarrow> runtime_store \<Rightarrow> (intent_registry \<times> runtime_store) res" where
  "restore_requests now model s =
     (case dget (rs_data s) ''restore_intents'' of
        PNone \<Rightarrow>
          (case dget_or (rs_data s) ''run_requests'' (PDict []) of
             PDict d \<Rightarrow> distrusting [] s (restore_legacy_from now model d [])
           | _ \<Rightarrow> Inr ([], distrust s))
      | PList raw \<Rightarrow> distrusting [] s (restore_intents_from now model raw [])
      | _ \<Rightarrow> Inr ([], distrust s))"

type_synonym ticket_table = "(string \<times> restore_ticket) list"

definition save_restore_tickets :: "ticket_table \<Rightarrow> runtime_store \<Rightarrow> runtime_store" where
  "save_restore_tickets ts s =
     put ''pending_restore'' (PList (map (PStr \<circ> fst) ts))
       (put ''restore_tickets'' (PList (map (PDict \<circ> ticket_to_dict \<circ> snd) ts)) s)"

fun restore_tickets_from :: "rat \<Rightarrow> power_model \<Rightarrow> pyval list \<Rightarrow> ticket_table \<Rightarrow> ticket_table res" where
  "restore_tickets_from now model [] acc = Inr acc"
| "restore_tickets_from now model (item # items) acc =
     rbind (ticket_from_dict item) (\<lambda>t.
     rbind (ticket_validate_recovery t now) (\<lambda>_.
     restore_tickets_from now model items
       (if get_device model (rt_device_id t) \<noteq> None then AList.update (rt_device_id t) t acc else acc)))"

definition restore_restore_tickets ::
  "rat \<Rightarrow> power_model \<Rightarrow> runtime_store \<Rightarrow> (ticket_table \<times> runtime_store) res" where
  "restore_restore_tickets now model s =
     (case dget_or (rs_data s) ''restore_tickets'' (PList []) of
        PList raw \<Rightarrow> distrusting [] s (restore_tickets_from now model raw [])
      | _ \<Rightarrow> Inr ([], distrust s))"

definition save_pending_restore :: "pyval list \<Rightarrow> runtime_store \<Rightarrow> runtime_store" where
  "save_pending_restore ids s =
     put ''pending_restore'' (PList (fromkeys (filter (\<lambda>v. is_str v \<and> the_str v \<noteq> []) ids))) s"

definition restore_pending_restore :: "power_model \<Rightarrow> runtime_store \<Rightarrow> string list" where
  "restore_pending_restore model s =
     (case dget_or (rs_data s) ''pending_restore'' (PList []) of
        PList raw \<Rightarrow>
          fromkeys (filter (\<lambda>i. i \<in> d_device_id ` set (all_devices model)) (map the_str (filter is_str raw)))
      | _ \<Rightarrow> [])"

section \<open>Pauses\<close>

definition pause_table :: "runtime_store \<Rightarrow> pydict" where
  "pause_table s = (case dget_or (rs_data s) ''pause_timestamps'' (PDict []) of PDict p \<Rightarrow> p | _ \<Rightarrow> [])"

definition update_pause_timestamp :: "string \<Rightarrow> pyval \<Rightarrow> runtime_store \<Rightarrow> runtime_store res" where
  "update_pause_timestamp device_id pause_until s =
     (let pauses = pause_table s; s1 = put ''pause_timestamps'' (PDict pauses) s
      in if pause_until = PNone
         then Inr (put ''pause_timestamps'' (PDict (AList.delete device_id pauses)) s1)
         else if is_bool pause_until \<or> \<not> is_number pause_until then Inr s1
         else rbind (py_float pause_until) (\<lambda>value.
                Inr (if isfinite value
                     then put ''pause_timestamps'' (PDict (AList.update device_id (PFloat value) pauses)) s1
                     else s1)))"

definition set_pause :: "rat \<Rightarrow> string \<Rightarrow> pyval \<Rightarrow> runtime_store \<Rightarrow> runtime_store res" where
  "set_pause now device_id v s =
     (if is_bool v then Inr s
      else case py_float v of
             Inl TypeErr \<Rightarrow> Inr s
           | Inl (ValueErr _) \<Rightarrow> Inr s
           | Inl e \<Rightarrow> Inl e
           | Inr f \<Rightarrow>
               if \<not> isfinite f \<or> f < Fin 0 then Inr s
               else
                 (let x = fin_val f;
                      absolute = (if x \<le> MAX_RUNTIME_PAUSE_SECONDS then now + x else x)
                  in update_pause_timestamp device_id
                       (PFloat (Fin (min absolute (now + MAX_RUNTIME_PAUSE_SECONDS)))) s))"

definition clear_pause :: "string \<Rightarrow> runtime_store \<Rightarrow> runtime_store res" where
  "clear_pause device_id s = update_pause_timestamp device_id PNone s"

definition pause_valid :: "rat \<Rightarrow> rat \<Rightarrow> pyval \<Rightarrow> bool res" where
  "pause_valid now maximum v =
     (if \<not> is_number v \<or> is_bool v then Inr False
      else rbind (py_float v) (\<lambda>f. Inr (isfinite f \<and> now < fin_val f \<and> fin_val f \<le> now + maximum)))"

fun restore_pauses_from ::
  "rat \<Rightarrow> rat \<Rightarrow> pydict \<Rightarrow> pydict \<Rightarrow> power_model \<Rightarrow> (pydict \<times> power_model) res" where
  "restore_pauses_from now maximum [] pauses model = Inr (pauses, model)"
| "restore_pauses_from now maximum ((i, v) # r) pauses model =
     (if get_device model i = None
      then restore_pauses_from now maximum r (AList.delete i pauses) model
      else rbind (pause_valid now maximum v) (\<lambda>ok.
        if \<not> ok then restore_pauses_from now maximum r (AList.delete i pauses) model
        else restore_pauses_from now maximum r pauses
               (set_device i (\<lambda>d. d\<lparr>d_pause_until := Some (fin_val (num_val v))\<rparr>) model)))"

definition restore_pause_timestamps ::
  "rat \<Rightarrow> pyval \<Rightarrow> power_model \<Rightarrow> runtime_store \<Rightarrow> (power_model \<times> runtime_store) res" where
  "restore_pause_timestamps now max_pause model s =
     (case dget_or (rs_data s) ''pause_timestamps'' (PDict []) of
        PDict pauses \<Rightarrow>
          rbind (case py_float max_pause of
                   Inr f \<Rightarrow> Inr (if \<not> isfinite f \<or> f < Fin 0 then MAX_RUNTIME_PAUSE_SECONDS else fin_val f)
                 | Inl TypeErr \<Rightarrow> Inr MAX_RUNTIME_PAUSE_SECONDS
                 | Inl (ValueErr _) \<Rightarrow> Inr MAX_RUNTIME_PAUSE_SECONDS
                 | Inl e \<Rightarrow> Inl e) (\<lambda>maximum.
          rbind (restore_pauses_from now maximum pauses pauses model) (\<lambda>(pauses', model').
            Inr (model', if dhas (rs_data s) ''pause_timestamps''
                         then put ''pause_timestamps'' (PDict pauses') s else s)))
      | _ \<Rightarrow> Inr (model, put ''pause_timestamps'' (PDict []) s))"

section \<open>Faults\<close>

definition configured :: "power_model \<Rightarrow> string set" where
  "configured model = set (map d_device_id (all_devices model))"

text \<open>\<open>sorted\<close> of a set is \<open>sorted_list_of_set\<close>; the reasons keep the table's order.\<close>

definition save_device_runtime ::
  "power_model \<Rightarrow> string set \<Rightarrow> string set \<Rightarrow> (string \<times> string) list \<Rightarrow> runtime_store \<Rightarrow> runtime_store" where
  "save_device_runtime model faulted_devices quarantined_devices fault_reasons s =
     put ''device_runtime''
       (PDict [(''schema_version'', PInt DEVICE_RUNTIME_SCHEMA_VERSION),
          (''devices'', PDict (map (\<lambda>d. (d_device_id d, PDict [])) (all_devices model))),
          (''faulted_devices'', PList (map PStr (sorted_list_of_set (faulted_devices \<inter> configured model)))),
          (''quarantined_devices'', PList (map PStr (sorted_list_of_set (quarantined_devices \<inter> configured model)))),
          (''fault_reasons'', PDict (map (\<lambda>(i, r). (i, PStr (take MAX_FAULT_REASON_LENGTH r)))
             (filter (\<lambda>(i, r). i \<in> configured model \<and> nonblank r) fault_reasons)))]) s"

definition envelope_valid :: "pyval \<Rightarrow> bool res" where
  "envelope_valid raw =
     (case raw of
        PDict d \<Rightarrow>
          rbind (py_in (dget d ''schema_version'') [PInt 1, PInt DEVICE_RUNTIME_SCHEMA_VERSION]) (\<lambda>b.
            Inr (b \<and> is_dict (dget d ''devices'') \<and> is_list (dget d ''faulted_devices'')
                 \<and> is_list (dget d ''quarantined_devices'')))
      | _ \<Rightarrow> Inr False)"

definition validated_device_set :: "pyval \<Rightarrow> string set \<Rightarrow> string set" where
  "validated_device_set v conf =
     (case v of PList xs \<Rightarrow> {i \<in> conf. PStr i \<in> set xs} | _ \<Rightarrow> {})"

definition forget_state :: "string set \<Rightarrow> power_model \<Rightarrow> power_model" where
  "forget_state ids model = map (\<lambda>(k, d). (k, if k \<in> ids then d\<lparr>d_is_on := None\<rparr> else d)) model"

definition store_restore_device_runtime ::
  "power_model \<Rightarrow> runtime_store \<Rightarrow> ((string set \<times> string set) \<times> power_model \<times> runtime_store) res" where
  "store_restore_device_runtime model s =
     (let raw = dget (rs_data s) ''device_runtime'' in
      if raw = PNone then Inr (({}, {}), model, s)
      else rbind (envelope_valid raw) (\<lambda>valid.
        if \<not> valid then Inr (({}, configured model), model, distrust s)
        else
          (let d = the_dict raw;
               f = validated_device_set (dget d ''faulted_devices'') (configured model);
               q = validated_device_set (dget d ''quarantined_devices'') (configured model)
           in Inr ((f, q), forget_state (f \<union> q) model, s))))"

definition restore_fault_reasons ::
  "power_model \<Rightarrow> runtime_store \<Rightarrow> ((string \<rightharpoonup> string) \<times> runtime_store) res" where
  "restore_fault_reasons model s =
     (let raw = dget (rs_data s) ''device_runtime'' in
      if raw = PNone then Inr (Map.empty, s)
      else rbind (envelope_valid raw) (\<lambda>valid.
        if \<not> valid
        then Inr ((\<lambda>i. if i \<in> configured model then Some (reason_value PERSISTED_RUNTIME_INVALID) else None),
                  distrust s)
        else
          (case dget_or (the_dict raw) ''fault_reasons'' (PDict []) of
             PDict values \<Rightarrow>
               Inr ((\<lambda>i. case dget values i of
                       PStr r \<Rightarrow> if i \<in> configured model \<and> nonblank r
                                 then Some (take MAX_FAULT_REASON_LENGTH r) else None
                     | _ \<Rightarrow> None), s)
           | _ \<Rightarrow> Inr (Map.empty, s))))"

section \<open>Notifications and the telemetry latch\<close>

definition bounded_string_map :: "(string \<times> string) list \<Rightarrow> pydict" where
  "bounded_string_map m =
     map (\<lambda>(k, v). (k, PStr (take 128 v))) (filter (\<lambda>(k, v). nonblank k \<and> nonblank v) m)"

definition save_fault_notification_state ::
  "(string \<times> string) list \<Rightarrow> (string \<times> string) list \<Rightarrow> runtime_store \<Rightarrow> runtime_store" where
  "save_fault_notification_state active pending s =
     put ''fault_notifications''
       (PDict [(''schema_version'', PInt FAULT_NOTIFICATION_SCHEMA_VERSION),
               (''active'', PDict (bounded_string_map active)),
               (''pending_dismissal'', PDict (bounded_string_map pending))]) s"

definition valid_fingerprints :: "string set \<Rightarrow> pyval \<Rightarrow> (string \<times> string) list" where
  "valid_fingerprints known v =
     (case v of
        PDict d \<Rightarrow> map (\<lambda>(k, x). (k, take 128 (the_str x)))
          (filter (\<lambda>(k, x). k \<in> known \<and> is_str x \<and> nonblank (the_str x)) d)
      | _ \<Rightarrow> [])"

definition restore_fault_notification_state ::
  "power_model \<Rightarrow> string option \<Rightarrow> runtime_store \<Rightarrow> (string \<times> string) list \<times> (string \<times> string) list" where
  "restore_fault_notification_state model telemetry_id s =
     (case dget (rs_data s) ''fault_notifications'' of
        PDict raw \<Rightarrow>
          if \<not> scalar_eq (dget raw ''schema_version'') (PInt FAULT_NOTIFICATION_SCHEMA_VERSION) then ([], [])
          else
            (let known = configured model \<union> (case telemetry_id of Some (c # cs) \<Rightarrow> {c # cs} | _ \<Rightarrow> {})
             in (valid_fingerprints known (dget raw ''active''),
                 valid_fingerprints known (dget raw ''pending_dismissal'')))
      | _ \<Rightarrow> ([], []))"

definition save_telemetry_fault :: "bool \<Rightarrow> string option \<Rightarrow> bool \<Rightarrow> runtime_store \<Rightarrow> runtime_store" where
  "save_telemetry_fault latched reason emergency_handled s =
     put ''telemetry_fault''
       (PDict [(''latched'', PBool latched),
               (''reason'', case reason of None \<Rightarrow> PNone | Some r \<Rightarrow> PStr (take 160 r)),
               (''emergency_handled'', PBool (latched \<and> emergency_handled))]) s"

definition restore_telemetry_fault :: "runtime_store \<Rightarrow> (bool \<times> string option) \<times> runtime_store" where
  "restore_telemetry_fault s =
     (case dget_or (rs_data s) ''telemetry_fault'' (PDict []) of
        PDict raw \<Rightarrow>
          (case (dget_or raw ''latched'' (PBool False), dget raw ''reason'') of
             (PBool b, PNone) \<Rightarrow> ((b, None), s)
           | (PBool b, PStr r) \<Rightarrow> ((b, Some (take 160 r)), s)
           | _ \<Rightarrow> ((True, Some ''persisted_runtime_invalid''), distrust s))
      | _ \<Rightarrow> ((True, Some ''persisted_runtime_invalid''), distrust s))"

definition restore_telemetry_emergency_handled :: "runtime_store \<Rightarrow> bool \<times> runtime_store" where
  "restore_telemetry_emergency_handled s0 =
     (case restore_telemetry_fault s0 of
        ((latched, _), s) \<Rightarrow>
          (case dget_or (rs_data s) ''telemetry_fault'' (PDict []) of
             PDict raw \<Rightarrow>
               (case dget_or raw ''emergency_handled'' (PBool latched) of
                  PBool handled \<Rightarrow> (latched \<and> handled, s)
                | _ \<Rightarrow> (True, distrust s))
           | _ \<Rightarrow> (True, s)))"

section \<open>Policy fences\<close>

definition opt_int :: "int option \<Rightarrow> pyval" where
  "opt_int x = (case x of None \<Rightarrow> PNone | Some i \<Rightarrow> PInt i)"

definition opt_float :: "rat option \<Rightarrow> pyval" where
  "opt_float x = (case x of None \<Rightarrow> PNone | Some q \<Rightarrow> PFloat (Fin q))"

definition save_policy_runtime :: "policy_engine \<Rightarrow> runtime_store \<Rightarrow> runtime_store" where
  "save_policy_runtime e s =
     put ''policy_runtime''
       (PDict [(''phase'', PStr (phase_value (phase e))),
          (''pending_post_shed_generation'', opt_int (pending_post_shed_generation e)),
          (''pending_post_shed_after_reported_at'', opt_float (pending_post_shed_after_reported_at e)),
          (''pending_operation_id'', opt_text (pending_operation_id e)),
          (''last_shed_load_generation'', opt_int (last_shed_load_generation e)),
          (''pending_post_restore_generation'', opt_int (pending_post_restore_generation e)),
          (''pending_post_restore_after_reported_at'', opt_float (pending_post_restore_after_reported_at e)),
          (''pending_restore_operation_id'', opt_text (pending_restore_operation_id e)),
          (''last_restore_load_generation'', opt_int (last_restore_load_generation e)),
          (''last_telemetry_validity'', PStr (validity_value (last_telemetry_validity e))),
          (''last_reason_code'', PStr (reason_value (last_reason_code e))),
          (''decision_sequence'', PInt (decision_sequence e))]) s"

definition finite_or_none :: "pyval \<Rightarrow> rat option res" where
  "finite_or_none v =
     (if is_bool v \<or> \<not> is_number v then Inr None
      else rbind (py_float v) (\<lambda>f. Inr (if isfinite f then Some (fin_val f) else None)))"

definition fresh_generation :: "pyval \<Rightarrow> int option" where
  "fresh_generation v = (case v of PInt i \<Rightarrow> if 0 \<le> i then Some 0 else None | _ \<Rightarrow> None)"

definition restore_shed_fence :: "rat \<Rightarrow> pydict \<Rightarrow> policy_engine \<Rightarrow> policy_engine res" where
  "restore_shed_fence now raw e =
     (let g = fresh_generation (dget raw ''pending_post_shed_generation'') in
      rbind (finite_or_none (dget raw ''pending_post_shed_after_reported_at'')) (\<lambda>a.
        Inr (e\<lparr>pending_post_shed_generation := g,
               pending_post_shed_after_reported_at := (if g \<noteq> None \<and> a = None then Some now else a),
               pending_operation_id := str_option (dget raw ''pending_operation_id''),
               last_shed_load_generation := fresh_generation (dget raw ''last_shed_load_generation'')\<rparr>)))"

definition restore_restore_fence :: "rat \<Rightarrow> pydict \<Rightarrow> policy_engine \<Rightarrow> policy_engine res" where
  "restore_restore_fence now raw e =
     (let g = fresh_generation (dget raw ''pending_post_restore_generation'') in
      rbind (finite_or_none (dget raw ''pending_post_restore_after_reported_at'')) (\<lambda>a.
        Inr (e\<lparr>pending_post_restore_generation := g,
               pending_post_restore_after_reported_at := (if g \<noteq> None \<and> a = None then Some now else a),
               pending_restore_operation_id := str_option (dget raw ''pending_restore_operation_id''),
               last_restore_load_generation := fresh_generation (dget raw ''last_restore_load_generation'')\<rparr>)))"

text \<open>\<open>Enum(value)\<close> with the member used where the lookup raises.\<close>

definition lookup_or :: "'a \<Rightarrow> 'a res \<Rightarrow> 'a" where
  "lookup_or x r = (case r of Inr y \<Rightarrow> y | Inl _ \<Rightarrow> x)"

definition restore_policy_runtime :: "rat \<Rightarrow> runtime_store \<Rightarrow> policy_engine \<Rightarrow> policy_engine res" where
  "restore_policy_runtime now s e =
     (case dget (rs_data s) ''policy_runtime'' of
        PDict raw \<Rightarrow>
          (let e1 = e\<lparr>phase := lookup_or PHASE_FAULT (enum_lookup phase_value all_phases
                          (dget_or raw ''phase'' (PStr (phase_value STARTUP)))),
                      active_tier := None, tier_started_at := None, tier_since := Map.empty\<rparr>
           in rbind (restore_shed_fence now raw e1) (\<lambda>e2.
              rbind (restore_restore_fence now raw e2) (\<lambda>e3.
                (let e4 = (reset_restore_window e3)
                       \<lparr>last_telemetry_validity := lookup_or INVALID (enum_lookup validity_value all_validities
                            (dget_or raw ''last_telemetry_validity'' (PStr (validity_value UNKNOWN)))),
                        last_reason_code := lookup_or FAULT (enum_lookup reason_value all_reasons
                            (dget_or raw ''last_reason_code'' (PStr (reason_value FAULT)))),
                        decision_sequence := (case dget_or raw ''decision_sequence'' (PInt 0) of
                            PInt n \<Rightarrow> if 0 \<le> n then n else 0
                          | PBool b \<Rightarrow> if b then 1 else 0
                          | _ \<Rightarrow> 0)\<rparr>
                 in Inr e4))))
      | _ \<Rightarrow> Inr e)"

section \<open>Facts on the payload\<close>

lemma dget_or_update [simp]: "dget_or (AList.update k v d) k' x = (if k' = k then v else dget_or d k' x)"
  by (simp add: dget_or_def update_conv')

lemma dget_or_delete [simp]: "dget_or (AList.delete k d) k' x = (if k' = k then x else dget_or d k' x)"
  by (simp add: dget_or_def delete_conv')

lemma dhas_update [simp]: "dhas (AList.update k v d) k' \<longleftrightarrow> k' = k \<or> dhas d k'"
  by (auto simp: dhas_def map_fst_update)

lemma put_fields [simp]:
  "rs_data (put k v s) = AList.update k v (rs_data s)"
  "rs_safety_invalid (put k v s) = rs_safety_invalid s"
  "rs_journal_invalid (put k v s) = rs_journal_invalid s"
  "rs_data (pop k s) = AList.delete k (rs_data s)"
  "rs_safety_invalid (pop k s) = rs_safety_invalid s"
  "rs_journal_invalid (pop k s) = rs_journal_invalid s"
  "rs_data (distrust s) = rs_data s" "rs_safety_invalid (distrust s)"
  "rs_journal_invalid (distrust s) = rs_journal_invalid s"
  by (simp_all add: put_def pop_def distrust_def)

lemma distrusting_cases:
  "distrusting fb s r = Inr (x, s') \<Longrightarrow> (r = Inr x \<and> s' = s) \<or> (x = fb \<and> s' = distrust s)"
  by (auto simp: distrusting_def split: sum.splits exn.splits)

lemma distrusting_Inr [simp]: "distrusting fb s (Inr x) = Inr (x, s)"
  by (simp add: distrusting_def)

section \<open>Tickets\<close>

definition tickets_ok :: "rat \<Rightarrow> power_model \<Rightarrow> ticket_table \<Rightarrow> bool" where
  "tickets_ok now model ts \<longleftrightarrow> distinct (map fst ts)
     \<and> (\<forall>(i, t) \<in> set ts. rt_device_id t = i \<and> ticket_wf t \<and> deadline (rt_created_at t) \<le> now
          \<and> get_device model i \<noteq> None)"

lemma tickets_ok_update:
  "tickets_ok now model ts \<Longrightarrow> ticket_wf t \<Longrightarrow> deadline (rt_created_at t) \<le> now \<Longrightarrow>
   get_device model (rt_device_id t) \<noteq> None \<Longrightarrow> tickets_ok now model (AList.update (rt_device_id t) t ts)"
proof -
  assume ok: "tickets_ok now model ts" and t: "ticket_wf t" "deadline (rt_created_at t) \<le> now"
    "get_device model (rt_device_id t) \<noteq> None"
  have "(i, u) \<in> set (AList.update (rt_device_id t) t ts) \<Longrightarrow> (i, u) = (rt_device_id t, t) \<or> (i, u) \<in> set ts" for i u
    by (induction ts) (auto split: if_splits)
  then show ?thesis using ok t unfolding tickets_ok_def by (fastforce simp: distinct_update)
qed

lemma restore_tickets_from_ok:
  "restore_tickets_from now model items acc = Inr ts \<Longrightarrow> tickets_ok now model acc \<Longrightarrow> tickets_ok now model ts"
proof (induction items arbitrary: acc)
  case Nil
  then show ?case by simp
next
  case (Cons item items)
  then obtain t where t: "ticket_from_dict item = Inr t" "deadline (rt_created_at t) \<le> now"
    and rest: "restore_tickets_from now model items
      (if get_device model (rt_device_id t) \<noteq> None then AList.update (rt_device_id t) t acc else acc) = Inr ts"
    by (auto simp: rbind_Inr_iff ticket_validate_recovery_def not_less split: if_splits)
  have "tickets_ok now model
      (if get_device model (rt_device_id t) \<noteq> None then AList.update (rt_device_id t) t acc else acc)"
    using Cons.prems(2) tickets_ok_update [OF Cons.prems(2) ticket_codec.dec_wf [OF t(1)] t(2)] by simp
  then show ?case by (rule Cons.IH [OF rest])
qed

lemma restore_tickets_from_saved:
  "tickets_ok now model (acc @ ts) \<Longrightarrow>
   restore_tickets_from now model (map (PDict \<circ> ticket_to_dict \<circ> snd) ts) acc = Inr (acc @ ts)"
proof (induction ts arbitrary: acc)
  case Nil
  then show ?case by simp
next
  case (Cons p ts)
  obtain i t where p: "p = (i, t)" by force
  have t: "rt_device_id t = i" "ticket_wf t" "deadline (rt_created_at t) \<le> now" "get_device model i \<noteq> None"
    and new: "i \<notin> set (map fst acc)"
    using Cons.prems p by (auto simp: tickets_ok_def)
  have "AList.update i t acc = acc @ [(i, t)]" by (rule update_new_key [OF new])
  moreover have "restore_tickets_from now model (map (PDict \<circ> ticket_to_dict \<circ> snd) ts) (acc @ [p]) = Inr ((acc @ [p]) @ ts)"
    by (rule Cons.IH) (use Cons.prems in simp)
  ultimately show ?case
    using t p ticket_codec.dec_enc [OF t(2)] by (simp add: ticket_validate_recovery_def comp_def)
qed

text \<open>Saved tickets come back after a restart, all of them, unchanged and in shedding order,
  provided they are well formed, were created before now and name configured loads.\<close>

theorem tickets_survive_restart:
  assumes "tickets_ok now model ts"
  shows "restore_restore_tickets now model (store_save (save_restore_tickets ts s))
    = Inr (ts, store_save (save_restore_tickets ts s))"
  using restore_tickets_from_saved [of now model "[]" ts] assms
  by (simp add: restore_restore_tickets_def save_restore_tickets_def store_save_def)

lemma tickets_survive_restart_witness:
  "restore_restore_tickets 2000 [(''pump'', demo_load ''pump'' 500)]
      (store_save (save_restore_tickets [(''pump'', demo_ticket)] \<lparr>rs_data = [], rs_safety_invalid = False, rs_journal_invalid = False\<rparr>))
    = Inr ([(''pump'', demo_ticket)],
        store_save (save_restore_tickets [(''pump'', demo_ticket)] \<lparr>rs_data = [], rs_safety_invalid = False, rs_journal_invalid = False\<rparr>))"
  by (rule tickets_survive_restart)
    (simp add: tickets_ok_def demo_ticket_wf, simp add: demo_ticket_def deadline_def get_device_def)

lemma restored_tickets_cases:
  assumes "restore_restore_tickets now model s = Inr (ts, s')"
  shows "(tickets_ok now model ts \<and> s' = s) \<or> (ts = [] \<and> s' = distrust s)"
proof (cases "dget_or (rs_data s) ''restore_tickets'' (PList [])")
  case (PList raw)
  with assms have "distrusting [] s (restore_tickets_from now model raw []) = Inr (ts, s')"
    by (simp add: restore_restore_tickets_def)
  from distrusting_cases [OF this] show ?thesis
    using restore_tickets_from_ok [of now model raw "[]" ts] by (auto simp: tickets_ok_def)
qed (use assms in \<open>simp_all add: restore_restore_tickets_def\<close>)

text \<open>C25. Whatever is stored under the tickets' key, reading it either yields tickets that are all
  well formed, not from the future and for configured loads, leaving the store as it was, or yields
  no ticket at all and marks the stored safety data invalid.\<close>

theorem restored_tickets_trustworthy:
  assumes "restore_restore_tickets now model s = Inr (ts, s')"
  shows "(tickets_ok now model ts \<and> s' = s) \<or> (ts = [] \<and> s' = distrust s)"
  by (rule restored_tickets_cases [OF assms])

lemma restored_tickets_trustworthy_witness:
  "(\<exists>ts s'. restore_restore_tickets 0 []
       \<lparr>rs_data = [(''restore_tickets'', PInt 3)], rs_safety_invalid = False, rs_journal_invalid = False\<rparr>
       = Inr (ts, s') \<and> ts = [] \<and> rs_safety_invalid s')"
proof -
  let ?s = "\<lparr>rs_data = [(''restore_tickets'', PInt 3)], rs_safety_invalid = False, rs_journal_invalid = False\<rparr>"
  have run: "restore_restore_tickets 0 [] ?s = Inr ([], distrust ?s)"
    by (simp add: restore_restore_tickets_def dget_or_def)
  from restored_tickets_trustworthy [OF run] run show ?thesis by auto
qed

section \<open>Policy fences\<close>

text \<open>C23. A pending post-shed or post-restore barrier survives a restart: it is pending again, with
  its operation, it still waits for a report strictly newer than the one it was armed with (or newer
  than the restart), and it accepts no load generation of the old process. Dwell timers and the
  restore window never survive.\<close>

theorem fences_survive_restart:
  assumes "\<forall>g. pending_post_shed_generation e = Some g \<longrightarrow> 0 \<le> g"
    and "\<forall>g. pending_post_restore_generation e = Some g \<longrightarrow> 0 \<le> g"
  shows "\<exists>e'. restore_policy_runtime now (store_save (save_policy_runtime e s)) fresh = Inr e'
    \<and> (can_shed_again e' \<longleftrightarrow> can_shed_again e)
    \<and> pending_post_shed_generation e' = map_option (\<lambda>_. 0) (pending_post_shed_generation e)
    \<and> pending_post_restore_generation e' = map_option (\<lambda>_. 0) (pending_post_restore_generation e)
    \<and> (pending_post_shed_generation e \<noteq> None \<longrightarrow> pending_post_shed_after_reported_at e'
         = Some (case pending_post_shed_after_reported_at e of Some r \<Rightarrow> r | None \<Rightarrow> now))
    \<and> (pending_post_restore_generation e \<noteq> None \<longrightarrow> pending_post_restore_after_reported_at e'
         = Some (case pending_post_restore_after_reported_at e of Some r \<Rightarrow> r | None \<Rightarrow> now))
    \<and> pending_operation_id e' = pending_operation_id e
    \<and> pending_restore_operation_id e' = pending_restore_operation_id e
    \<and> phase e' = phase e \<and> policy e' = policy fresh
    \<and> tier_since e' = Map.empty \<and> restore_since e' = None \<and> restore_capacity e' = None"
proof -
  have opt: "finite_or_none (opt_float x) = Inr x" for x
    by (cases x) (simp_all add: finite_or_none_def opt_float_def)
  have gen: "fresh_generation (opt_int g) = map_option (\<lambda>_. 0) g" if "\<forall>n. g = Some n \<longrightarrow> 0 \<le> n" for g
    using that by (cases g) (simp_all add: fresh_generation_def opt_int_def)
  show ?thesis
    using assms unfolding restore_policy_runtime_def save_policy_runtime_def store_save_def
      restore_shed_fence_def restore_restore_fence_def can_shed_again_def Let_def
    by (auto simp: opt gen lookup_or_def dget_or_def reset_restore_window_def split: option.split)
qed

lemma fences_survive_restart_witness:
  "\<exists>e'. restore_policy_runtime 50 (store_save (save_policy_runtime
        ((new_engine demo_policy)\<lparr>pending_post_shed_generation := Some 7\<rparr>)
        \<lparr>rs_data = [], rs_safety_invalid = False, rs_journal_invalid = False\<rparr>)) (new_engine demo_policy) = Inr e'
    \<and> \<not> can_shed_again e' \<and> pending_post_shed_after_reported_at e' = Some 50"
  using fences_survive_restart [of "(new_engine demo_policy)\<lparr>pending_post_shed_generation := Some 7\<rparr>" 50
      "\<lparr>rs_data = [], rs_safety_invalid = False, rs_journal_invalid = False\<rparr>" "new_engine demo_policy"]
  by (auto simp: new_engine_def can_shed_again_def)

section \<open>Fault and quarantine state\<close>

lemma forget_state_off: "d \<in> set (all_devices (forget_state ids model)) \<Longrightarrow> model_ok model \<Longrightarrow>
    d_device_id d \<in> ids \<Longrightarrow> d_is_on d = None"
  by (auto simp: forget_state_def all_devices_def model_ok_def split: if_splits)

text \<open>C24. Fault and quarantine sets survive a restart for every configured load, with the state of
  those loads forgotten; and if the stored runtime is anything but a well-formed envelope, every
  configured load comes back quarantined and the stored safety data is marked invalid.\<close>

theorem faults_survive_restart:
  assumes "finite faulted_devices" "finite quarantined_devices"
  shows "store_restore_device_runtime model
      (store_save (save_device_runtime model faulted_devices quarantined_devices fault_reasons s))
    = Inr ((faulted_devices \<inter> configured model, quarantined_devices \<inter> configured model),
        forget_state ((faulted_devices \<union> quarantined_devices) \<inter> configured model) model,
        store_save (save_device_runtime model faulted_devices quarantined_devices fault_reasons s))
    \<and> (dget (rs_data t) ''device_runtime'' \<noteq> PNone
        \<and> envelope_valid (dget (rs_data t) ''device_runtime'') = Inr False \<longrightarrow>
       store_restore_device_runtime model t = Inr (({}, configured model), model, distrust t))"
proof -
  have set_back: "validated_device_set (PList (map PStr (sorted_list_of_set (X \<inter> configured model)))) (configured model)
      = X \<inter> configured model" if "finite X" for X
    using that by (auto simp: validated_device_set_def)
  show ?thesis
    using assms
    by (simp add: store_restore_device_runtime_def save_device_runtime_def store_save_def envelope_valid_def
        py_in_def DEVICE_RUNTIME_SCHEMA_VERSION_def set_back Let_def Int_Un_distrib2)
qed

lemma faults_survive_restart_witness:
  "store_restore_device_runtime [(''pump'', demo_load ''pump'' 500)]
     (store_save (save_device_runtime [(''pump'', demo_load ''pump'' 500)] {''pump''} {} []
        \<lparr>rs_data = [], rs_safety_invalid = False, rs_journal_invalid = False\<rparr>))
    = Inr (({''pump''}, {}), forget_state {''pump''} [(''pump'', demo_load ''pump'' 500)],
        store_save (save_device_runtime [(''pump'', demo_load ''pump'' 500)] {''pump''} {} []
        \<lparr>rs_data = [], rs_safety_invalid = False, rs_journal_invalid = False\<rparr>))"
  using faults_survive_restart [of "{''pump''}" "{}" "[(''pump'', demo_load ''pump'' 500)]" "[]"
      "\<lparr>rs_data = [], rs_safety_invalid = False, rs_journal_invalid = False\<rparr>"]
  by (simp add: configured_def all_devices_def demo_load_def)

section \<open>Pauses\<close>

definition pauses_within :: "rat \<Rightarrow> rat \<Rightarrow> power_model \<Rightarrow> bool" where
  "pauses_within lo hi model \<longleftrightarrow>
     (\<forall>d \<in> set (all_devices model). \<forall>p. d_pause_until d = Some p \<longrightarrow> lo < p \<and> p \<le> hi)"

lemma pauses_within_set:
  "pauses_within lo hi model \<Longrightarrow> lo < x \<Longrightarrow> x \<le> hi \<Longrightarrow>
   pauses_within lo hi (set_device i (\<lambda>d. d\<lparr>d_pause_until := Some x\<rparr>) model)"
  by (auto simp: pauses_within_def set_device_def all_devices_def split: if_splits)

lemma restore_pauses_from_within:
  "restore_pauses_from now maximum items pauses model = Inr (pauses', model') \<Longrightarrow>
   pauses_within now (now + maximum) model \<Longrightarrow> pauses_within now (now + maximum) model'"
proof (induction items arbitrary: pauses model)
  case Nil
  then show ?case by simp
next
  case (Cons p items)
  obtain i v where p: "p = (i, v)" by force
  show ?case
  proof (cases "get_device model i")
    case None
    with Cons p show ?thesis by simp
  next
    case (Some d)
    with Cons.prems(1) p obtain ok where ok: "pause_valid now maximum v = Inr ok"
      by (auto simp: rbind_Inr_iff)
    show ?thesis
    proof (cases ok)
      case False
      with Cons p Some ok show ?thesis by auto
    next
      case True
      then have "now < fin_val (num_val v) \<and> fin_val (num_val v) \<le> now + maximum"
        using ok by (cases v) (auto simp: pause_valid_def rbind_Inr_iff int_to_float_def split: if_splits)
      then have "pauses_within now (now + maximum)
          (set_device i (\<lambda>d. d\<lparr>d_pause_until := Some (fin_val (num_val v))\<rparr>) model)"
        by (intro pauses_within_set Cons.prems(2)) auto
      with Cons.IH Cons.prems(1) p Some ok True show ?thesis by auto
    qed
  qed
qed

text \<open>No stored pause outlives its bound: after recovery every load that had no pause before is
  either not paused or paused until a time after now and at most 24 hours away, whatever was stored.\<close>

theorem recovered_pauses_bounded:
  assumes "\<forall>d \<in> set (all_devices model). d_pause_until d = None"
    and "restore_pause_timestamps now (PInt 86400) model s = Inr (model', s')"
  shows "\<forall>d \<in> set (all_devices model'). \<forall>p. d_pause_until d = Some p \<longrightarrow> now < p \<and> p \<le> now + 86400"
proof -
  have none: "pauses_within now (now + 86400) model" using assms(1) by (simp add: pauses_within_def)
  have f: "py_float (PInt 86400) = Inr (Fin 86400)"
    using py_float_small_int [of 86400] by simp
  have "pauses_within now (now + 86400) model'"
    using assms(2) none restore_pauses_from_within [of now 86400]
    unfolding restore_pause_timestamps_def f
    by (auto simp: rbind_Inr_iff split: pyval.splits)
  then show ?thesis by (simp add: pauses_within_def)
qed

lemma recovered_pauses_bounded_witness:
  "\<exists>model' s'. restore_pause_timestamps 100 (PInt 86400) [(''pump'', demo_load ''pump'' 500)]
       \<lparr>rs_data = [(''pause_timestamps'', PDict [(''pump'', PInt 500)])], rs_safety_invalid = False, rs_journal_invalid = False\<rparr>
       = Inr (model', s')
     \<and> map d_pause_until (all_devices model') = [Some 500]
     \<and> list_all (\<lambda>d. case d_pause_until d of None \<Rightarrow> True | Some p \<Rightarrow> 100 < p \<and> p \<le> 100 + 86400) (all_devices model')"
proof -
  have f: "py_float (PInt 86400) = Inr (Fin 86400)" "py_float (PInt 500) = Inr (Fin 500)"
    using py_float_small_int [of 86400] py_float_small_int [of 500] by simp_all
  let ?s = "\<lparr>rs_data = [(''pause_timestamps'', PDict [(''pump'', PInt 500)])], rs_safety_invalid = False, rs_journal_invalid = False\<rparr>"
  obtain model' s' where run: "restore_pause_timestamps 100 (PInt 86400) [(''pump'', demo_load ''pump'' 500)] ?s = Inr (model', s')"
    and out: "map d_pause_until (all_devices model') = [Some 500]"
    by (simp add: restore_pause_timestamps_def f dget_or_def pause_valid_def get_device_def set_device_def
        all_devices_def dhas_def del: py_float.simps)
  then show ?thesis
    using recovered_pauses_bounded [OF _ run]
    by (auto simp: all_devices_def demo_load_def list_all_iff split: option.split)
qed

section \<open>Mode\<close>

lemma resolved_mode:
  assumes "resolve_unified_mode config s = Inr (mode, s')"
  shows "mode \<in> {''auto'', ''off'', ''observe''}
    \<and> dget (rs_data s') ''mode'' = PStr mode \<and> dget (rs_data s') ''execution_mode'' = PNone
    \<and> (mode = ''auto'' \<longrightarrow> dget (rs_data s) ''mode'' = PStr ''auto''
         \<and> dget (rs_data s) ''execution_mode'' \<noteq> PStr ''observe'')
    \<and> (dget (rs_data s) ''execution_mode'' = PStr ''observe'' \<longrightarrow> mode = ''observe'')"
proof -
  from assms obtain legacy where l: "legacy_execution config s = Inr legacy"
    by (auto simp: resolve_unified_mode_def rbind_Inr_iff)
  have "in_executions (PStr ''observe'') = Inr True"
    by (simp add: in_executions_def py_in_def)
  then have "dget (rs_data s) ''execution_mode'' = PStr ''observe'' \<Longrightarrow> legacy = PStr ''observe''"
    using l by (simp add: legacy_execution_def)
  moreover from assms l have mode: "mode = unified_mode legacy (dget (rs_data s) ''mode'')"
    and s': "s' = store_set_mode mode s"
    by (auto simp: resolve_unified_mode_def Let_def)
  moreover from mode have three: "mode \<in> {''auto'', ''off'', ''observe''}"
    by (auto simp: unified_mode_def DEFAULT_MODE_def split: if_splits)
  moreover have "dget (rs_data s') ''mode'' = PStr mode \<and> dget (rs_data s') ''execution_mode'' = PNone"
    using three unfolding s' by (auto simp: store_set_mode_def MODES_def)
  moreover have "mode = ''auto'' \<Longrightarrow> legacy \<noteq> PStr ''observe'' \<and> dget (rs_data s) ''mode'' = PStr ''auto''"
    using mode by (auto simp: unified_mode_def DEFAULT_MODE_def split: if_splits)
  moreover have "legacy = PStr ''observe'' \<Longrightarrow> mode = ''observe''"
    using mode by (simp add: unified_mode_def)
  ultimately show ?thesis by blast
qed

text \<open>Recovery always resolves to one of the three modes, stores that mode and drops the legacy
  execution key; it resolves to automatic only when automatic mode was stored and no stored or
  consulted execution mode asks to observe.\<close>

theorem unified_mode_resolution:
  assumes "resolve_unified_mode config s = Inr (mode, s')"
  shows "mode \<in> {''auto'', ''off'', ''observe''}
    \<and> dget (rs_data s') ''mode'' = PStr mode \<and> dget (rs_data s') ''execution_mode'' = PNone
    \<and> (mode = ''auto'' \<longrightarrow> dget (rs_data s) ''mode'' = PStr ''auto''
         \<and> dget (rs_data s) ''execution_mode'' \<noteq> PStr ''observe'')
    \<and> (dget (rs_data s) ''execution_mode'' = PStr ''observe'' \<longrightarrow> mode = ''observe'')"
  by (rule resolved_mode [OF assms])

lemma unified_mode_resolution_witness:
  "''observe'' \<in> {''auto'', ''off'', ''observe'' :: string}
   \<and> (\<exists>s'. resolve_unified_mode PNone \<lparr>rs_data = [(''mode'', PStr ''auto''), (''execution_mode'', PStr ''observe'')],
        rs_safety_invalid = False, rs_journal_invalid = False\<rparr> = Inr (''observe'', s')
      \<and> dget (rs_data s') ''mode'' = PStr ''observe'')"
proof -
  let ?s = "\<lparr>rs_data = [(''mode'', PStr ''auto''), (''execution_mode'', PStr ''observe'')],
        rs_safety_invalid = False, rs_journal_invalid = False\<rparr>"
  obtain m s' where r: "resolve_unified_mode PNone ?s = Inr (m, s')"
    by (simp add: resolve_unified_mode_def legacy_execution_def in_executions_def py_in_def Let_def)
  from unified_mode_resolution [OF r] have "m = ''observe''" "dget (rs_data s') ''mode'' = PStr m" by simp_all
  with r show ?thesis by auto
qed

end
