(* ===== verification/Act.thy ===== *)
theory Act
  imports Prelude
begin

text \<open>
  Coroutines as state transformers with exceptions. An action takes the world to a result, which
  is a value or an exception, and the world it leaves; an exception keeps the changes made
  before it. What other tasks do while an action awaits is part of the primitive action that
  awaits. The locale states how a relation between the world before and after is carried through
  the composition of actions; every frame and every invariant of the controller is an instance.
\<close>

type_synonym ('w, 'a) act = "'w \<Rightarrow> 'a res \<times> 'w"

definition ret :: "'a \<Rightarrow> ('w, 'a) act" where
  "ret x w = (Inr x, w)"

definition raise :: "exn \<Rightarrow> ('w, 'a) act" where
  "raise e w = (Inl e, w)"

definition bnd :: "('w, 'a) act \<Rightarrow> ('a \<Rightarrow> ('w, 'b) act) \<Rightarrow> ('w, 'b) act" where
  "bnd m f w = (case m w of (Inl e, w') \<Rightarrow> (Inl e, w') | (Inr x, w') \<Rightarrow> f x w')"

definition thn :: "('w, 'a) act \<Rightarrow> ('w, 'b) act \<Rightarrow> ('w, 'b) act" where
  "thn m k = bnd m (\<lambda>_. k)"

definition gets :: "('w \<Rightarrow> 'a) \<Rightarrow> ('w, 'a) act" where
  "gets f w = (Inr (f w), w)"

definition upd :: "('w \<Rightarrow> 'w) \<Rightarrow> ('w, unit) act" where
  "upd f w = (Inr (), f w)"

definition skip :: "('w, unit) act" where
  "skip = ret ()"

definition whenever :: "bool \<Rightarrow> ('w, unit) act \<Rightarrow> ('w, unit) act" where
  "whenever b m = (if b then m else skip)"

text \<open>Looking at the world before acting.\<close>

definition look :: "('w \<Rightarrow> ('w, 'a) act) \<Rightarrow> ('w, 'a) act" where
  "look k w = k w w"

text \<open>A computation that may raise but leaves the world alone.\<close>

definition lift :: "'a res \<Rightarrow> ('w, 'a) act" where
  "lift r w = (r, w)"

text \<open>\<open>except Exception\<close>: a cancellation passes through, as does running out of fuel.\<close>

definition is_exception :: "exn \<Rightarrow> bool" where
  "is_exception e \<longleftrightarrow> e \<noteq> Cancelled \<and> e \<noteq> OutOfFuel"

definition try_except :: "('w, 'a) act \<Rightarrow> (exn \<Rightarrow> ('w, 'a) act) \<Rightarrow> ('w, 'a) act" where
  "try_except m h w =
     (case m w of
        (Inl e, w') \<Rightarrow> if is_exception e then h e w' else (Inl e, w')
      | (Inr x, w') \<Rightarrow> (Inr x, w'))"

text \<open>\<open>except asyncio.CancelledError\<close>.\<close>

definition try_cancelled :: "('w, 'a) act \<Rightarrow> ('w, 'a) act \<Rightarrow> ('w, 'a) act" where
  "try_cancelled m h w =
     (case m w of
        (Inl Cancelled, w') \<Rightarrow> h w'
      | (r, w') \<Rightarrow> (r, w'))"

fun for_each :: "'a list \<Rightarrow> ('a \<Rightarrow> ('w, unit) act) \<Rightarrow> ('w, unit) act" where
  "for_each [] f = skip"
| "for_each (x # xs) f = thn (f x) (for_each xs f)"

definition final :: "('w, 'a) act \<Rightarrow> 'w \<Rightarrow> 'w" where
  "final m w = snd (m w)"

lemma act_simps [simp]:
  "ret x w = (Inr x, w)" "raise e w = (Inl e, w)" "gets g w = (Inr (g w), w)"
  "upd u w = (Inr (), u w)" "skip w = (Inr (), w)" "lift r w = (r, w)" "look k w = k w w"
  by (simp_all add: ret_def raise_def gets_def upd_def skip_def lift_def look_def)

lemma bnd_simps [simp]:
  "bnd (ret x) f = f x" "bnd (raise e) f = raise e"
  by (simp_all add: bnd_def fun_eq_iff)

lemma bnd_Inr: "m w = (Inr x, w') \<Longrightarrow> bnd m f w = f x w'"
  by (simp add: bnd_def)

lemma bnd_Inl: "m w = (Inl e, w') \<Longrightarrow> bnd m f w = (Inl e, w')"
  by (simp add: bnd_def)

lemma bnd_gets [simp]: "bnd (gets g) f w = f (g w) w"
  by (simp add: bnd_def)

lemma thn_upd [simp]: "thn (upd g) k w = k (g w)"
  by (simp add: thn_def bnd_def)

section \<open>Relations between the world before and after\<close>

text \<open>
  A reflexive and transitive relation is respected by a composition of actions as soon as each
  part keeps it, whatever the parts return or raise.
\<close>

definition keeps :: "('w \<Rightarrow> 'w \<Rightarrow> bool) \<Rightarrow> ('w, 'a) act \<Rightarrow> bool" where
  "keeps R m \<longleftrightarrow> (\<forall>w. R w (snd (m w)))"

lemma keeps_lookI: "(\<And>w. R w (snd (f w w))) \<Longrightarrow> keeps R (look f)"
  by (simp add: keeps_def)

locale action_relation =
  fixes R :: "'w \<Rightarrow> 'w \<Rightarrow> bool"
  assumes rel_refl: "R w w"
    and rel_trans: "R u v \<Longrightarrow> R v w \<Longrightarrow> R u w"
begin

lemma keeps_unchanged: "(\<And>w. snd (m w) = w) \<Longrightarrow> keeps R m"
  by (simp add: keeps_def rel_refl)

lemma keeps_ret: "keeps R (ret x)"
  by (rule keeps_unchanged) simp

lemma keeps_raise: "keeps R (raise e)"
  by (rule keeps_unchanged) simp

lemma keeps_gets: "keeps R (gets f)"
  by (rule keeps_unchanged) simp

lemma keeps_lift: "keeps R (lift r)"
  by (rule keeps_unchanged) simp

lemma keeps_skip: "keeps R skip"
  by (rule keeps_unchanged) simp

lemma keeps_upd: "(\<And>w. R w (f w)) \<Longrightarrow> keeps R (upd f)"
  by (simp add: keeps_def)

lemma keeps_bnd: "keeps R m \<Longrightarrow> (\<And>x. keeps R (f x)) \<Longrightarrow> keeps R (bnd m f)"
  by (auto simp: keeps_def bnd_def split: prod.split sum.split) (metis rel_trans snd_conv)+

lemma keeps_thn: "keeps R m \<Longrightarrow> keeps R k \<Longrightarrow> keeps R (thn m k)"
  unfolding thn_def by (rule keeps_bnd)

lemma keeps_look: "(\<And>w. keeps R (f w)) \<Longrightarrow> keeps R (look f)"
  by (simp add: keeps_def)

lemma keeps_if: "(b \<Longrightarrow> keeps R m) \<Longrightarrow> (\<not> b \<Longrightarrow> keeps R k) \<Longrightarrow> keeps R (if b then m else k)"
  by simp

lemma keeps_whenever: "(b \<Longrightarrow> keeps R m) \<Longrightarrow> keeps R (whenever b m)"
  by (simp add: whenever_def keeps_skip)

lemma keeps_option:
  "keeps R m \<Longrightarrow> (\<And>x. keeps R (f x)) \<Longrightarrow> keeps R (case o' of None \<Rightarrow> m | Some x \<Rightarrow> f x)"
  by (cases o') simp_all

lemma keeps_prod: "(\<And>x y. keeps R (f x y)) \<Longrightarrow> keeps R (case p of (x, y) \<Rightarrow> f x y)"
  by (cases p) simp

lemma keeps_try_except:
  "keeps R m \<Longrightarrow> (\<And>e. keeps R (h e)) \<Longrightarrow> keeps R (try_except m h)"
  by (auto simp: keeps_def try_except_def split: prod.split sum.split) (metis rel_trans snd_conv)+

lemma keeps_try_cancelled:
  "keeps R m \<Longrightarrow> keeps R h \<Longrightarrow> keeps R (try_cancelled m h)"
  by (auto simp: keeps_def try_cancelled_def split: prod.split sum.split exn.split)
    (metis rel_trans snd_conv)+

lemma keeps_for_each: "(\<And>x. x \<in> set xs \<Longrightarrow> keeps R (f x)) \<Longrightarrow> keeps R (for_each xs f)"
  by (induction xs) (auto intro: keeps_skip keeps_thn)

text \<open>From one world: where a check has just been made, the next action may rely on it.\<close>

lemma rel_bnd: "R w (snd (m w)) \<Longrightarrow> (\<And>x. keeps R (f x)) \<Longrightarrow> R w (snd (bnd m f w))"
  by (auto simp: keeps_def bnd_def split: prod.split sum.split) (metis rel_trans snd_conv)

lemma rel_thn: "R w (snd (m w)) \<Longrightarrow> keeps R k \<Longrightarrow> R w (snd (thn m k w))"
  unfolding thn_def by (rule rel_bnd)

lemma keeps_bnd_result:
  "keeps R m \<Longrightarrow> (\<And>w x w'. m w = (Inr x, w') \<Longrightarrow> keeps R (f x)) \<Longrightarrow> keeps R (bnd m f)"
  by (auto simp: keeps_def bnd_def split: prod.split sum.split) (metis rel_trans snd_conv)+

lemma rel_keeps: "keeps R m \<Longrightarrow> R w (snd (m w))"
  by (simp add: keeps_def)

lemmas keeps_rules =
  keeps_ret keeps_raise keeps_gets keeps_lift keeps_skip keeps_bnd keeps_thn
  keeps_look keeps_if keeps_whenever keeps_option keeps_prod keeps_try_except
  keeps_try_cancelled keeps_for_each

end

lemma keepsD: "keeps R m \<Longrightarrow> m w = (r, w') \<Longrightarrow> R w w'"
  by (metis keeps_def snd_conv)

end
