(* ===== verification/Actuator.thy ===== *)
theory Actuator
  imports Act States
begin

text \<open>
  \<open>actuator.py\<close>: the commands for one load. Home Assistant's \<open>services.async_call\<close> is a
  parameter: an action that takes the domain, the service and its data.
\<close>

type_synonym 'w service_call = "string \<Rightarrow> string \<Rightarrow> pydict \<Rightarrow> ('w, unit) act"

definition capture_restore_state :: "state_lookup \<Rightarrow> managed_device \<Rightarrow> pydict res" where
  "capture_restore_state states d =
     (let e = command_entity d;
          base = [(''entity_id'', PStr e), (''domain'', PStr (domain_of e))];
          with_state = (case states e of
              None \<Rightarrow> base
            | Some st \<Rightarrow>
                if st_state st = ''unknown'' \<or> st_state st = ''unavailable'' \<or> st_state st = ''off'' then base
                else base @ [(''state'', PStr (take 40 (st_state st)))]);
          temperature = (case states e of None \<Rightarrow> PNone | Some st \<Rightarrow> dget (st_attributes st) ''temperature'')
      in if is_number temperature \<and> \<not> is_bool temperature
         then rbind (py_float temperature) (\<lambda>v.
                Inr (if isfinite v then with_state @ [(''temperature'', PFloat v)] else with_state))
         else Inr with_state)"

definition issue_off :: "'w service_call \<Rightarrow> string \<Rightarrow> ('w, unit) act" where
  "issue_off call entity =
     (if domain_of entity = ''climate''
      then call (domain_of entity) ''set_hvac_mode'' [(''entity_id'', PStr entity), (''hvac_mode'', PStr ''off'')]
      else call (domain_of entity) ''turn_off'' [(''entity_id'', PStr entity)])"

text \<open>The loop over the fallback members, first occurrences only.\<close>

fun fallback_loop :: "'w service_call \<Rightarrow> ('w, bool) act \<Rightarrow> string list \<Rightarrow> ('w, bool) act" where
  "fallback_loop call permitted [] = ret True"
| "fallback_loop call permitted (e # es) =
     bnd permitted (\<lambda>ok.
       if \<not> ok then ret False
       else thn (issue_off call e) (fallback_loop call permitted es))"

definition issue_emergency_fallback ::
  "'w service_call \<Rightarrow> string list \<Rightarrow> ('w, bool) act \<Rightarrow> ('w, bool) act" where
  "issue_emergency_fallback call members permitted = fallback_loop call permitted (fromkeys members)"

definition restorable_hvac :: "pyval \<Rightarrow> bool" where
  "restorable_hvac v \<longleftrightarrow>
     is_str v \<and> the_str v \<noteq> ''off'' \<and> the_str v \<noteq> ''unknown'' \<and> the_str v \<noteq> ''unavailable''"

definition issue_climate_mode :: "'w service_call \<Rightarrow> string \<Rightarrow> pydict \<Rightarrow> ('w, unit) act" where
  "issue_climate_mode call e restore_state =
     (if restorable_hvac (dget restore_state ''state'')
      then call ''climate'' ''set_hvac_mode'' [(''entity_id'', PStr e), (''hvac_mode'', dget restore_state ''state'')]
      else call ''climate'' ''turn_on'' [(''entity_id'', PStr e)])"

definition issue_climate_temperature :: "'w service_call \<Rightarrow> string \<Rightarrow> pydict \<Rightarrow> ('w, unit) act" where
  "issue_climate_temperature call e restore_state =
     (let temperature = dget restore_state ''temperature'' in
      if is_number temperature \<and> \<not> is_bool temperature
      then bnd (lift (py_float temperature)) (\<lambda>v.
             call ''climate'' ''set_temperature'' [(''entity_id'', PStr e), (''temperature'', PFloat v)])
      else skip)"

definition issue_restore ::
  "'w service_call \<Rightarrow> managed_device \<Rightarrow> pydict \<Rightarrow> ('w, bool) act \<Rightarrow> ('w, bool) act" where
  "issue_restore call d restore_state permitted =
     (let e = command_entity d in
      bnd permitted (\<lambda>ok.
        if \<not> ok then ret False
        else if domain_of e \<noteq> ''climate''
        then thn (call (domain_of e) ''turn_on'' [(''entity_id'', PStr e)]) (ret True)
        else thn (issue_climate_temperature call e restore_state)
               (bnd permitted (\<lambda>still.
                  if \<not> still then ret False
                  else thn (issue_climate_mode call e restore_state) (ret True)))))"

end
