(* ===== verification/Readback.thy ===== *)
theory Readback
  imports Act States
begin

text \<open>
  \<open>readback.py\<close>: the observation of one load from before a command to its causal confirmation.
  The polling loop runs on fuel; with a clock that advances by at least what is slept, the fuel
  the controller gives it is never used up.
\<close>

definition IDLE_RELAY_MAX_AGE_SECONDS :: rat where "IDLE_RELAY_MAX_AGE_SECONDS = 180"
definition RELAY_READBACK_TIMEOUT_SECONDS :: rat where "RELAY_READBACK_TIMEOUT_SECONDS = 2"
definition RELAY_READBACK_POLL_INTERVAL_SECONDS :: rat where
  "RELAY_READBACK_POLL_INTERVAL_SECONDS = 1 / 10"

record readback =
  rb_members :: "string list"
  rb_command_entity :: string
  rb_expected_on :: bool
  rb_previous :: "string \<Rightarrow> rat option"

definition new_readback :: "state_lookup \<Rightarrow> managed_device \<Rightarrow> string \<Rightarrow> readback" where
  "new_readback states d expected_state =
     \<lparr>rb_members = readback_entities d, rb_command_entity = command_entity d,
      rb_expected_on = (expected_state \<noteq> ''off''),
      rb_previous = (\<lambda>e. if e \<in> set (readback_entities d @ [command_entity d])
                         then state_reported_timestamp (states e) else None)\<rparr>"

definition causal_report :: "readback \<Rightarrow> string \<Rightarrow> ha_state option \<Rightarrow> rat \<Rightarrow> rat \<Rightarrow> rat option" where
  "causal_report rb e state issued_at now =
     (case state_reported_timestamp state of
        None \<Rightarrow> None
      | Some reported \<Rightarrow>
          if \<not> (issued_at \<le> reported \<and> reported \<le> now)
             \<or> (case rb_previous rb e of None \<Rightarrow> False | Some p \<Rightarrow> reported \<le> p)
          then None else Some reported)"

text \<open>The two loops over the members, each with the reports confirmed so far.\<close>

fun idle_relays :: "state_lookup \<Rightarrow> string \<Rightarrow> rat \<Rightarrow> string list \<Rightarrow> rat list \<Rightarrow> rat list option" where
  "idle_relays states cmd now [] acc = Some acc"
| "idle_relays states cmd now (e # es) acc =
     (if e = cmd then idle_relays states cmd now es acc
      else case state_reported_timestamp (states e) of
             None \<Rightarrow> None
           | Some stamp \<Rightarrow>
               if actuator_state_on e (states e) \<noteq> Some False
                  \<or> \<not> (0 \<le> now - stamp \<and> now - stamp \<le> IDLE_RELAY_MAX_AGE_SECONDS)
               then None else idle_relays states cmd now es (acc @ [stamp]))"

definition idle_climate_report :: "readback \<Rightarrow> state_lookup \<Rightarrow> rat \<Rightarrow> rat \<Rightarrow> rat option" where
  "idle_climate_report rb states issued_at now =
     (let cmd = rb_command_entity rb in
      if \<not> startswith cmd ''climate.'' then None
      else case (states cmd, causal_report rb cmd (states cmd) issued_at now) of
             (Some st, Some reported) \<Rightarrow>
               if actuator_state_on cmd (Some st) \<noteq> Some True
                  \<or> dget (st_attributes st) ''hvac_action'' \<noteq> PStr ''idle''
               then None
               else map_option (\<lambda>c. Max (set c)) (idle_relays states cmd now (rb_members rb) [reported])
           | _ \<Rightarrow> None)"

fun member_reports :: "readback \<Rightarrow> state_lookup \<Rightarrow> rat \<Rightarrow> rat \<Rightarrow> string list \<Rightarrow> rat list \<Rightarrow> rat list option" where
  "member_reports rb states issued_at now [] acc = Some acc"
| "member_reports rb states issued_at now (e # es) acc =
     (case causal_report rb e (states e) issued_at now of
        None \<Rightarrow> None
      | Some reported \<Rightarrow>
          if actuator_state_on e (states e) \<noteq> Some (rb_expected_on rb) then None
          else member_reports rb states issued_at now es (acc @ [reported]))"

definition confirmed_report :: "readback \<Rightarrow> state_lookup \<Rightarrow> rat \<Rightarrow> rat \<Rightarrow> rat option" where
  "confirmed_report rb states issued_at now =
     (if rb_members rb = [] then None
      else case (if rb_expected_on rb then idle_climate_report rb states issued_at now else None) of
             Some r \<Rightarrow> Some r
           | None \<Rightarrow> map_option (\<lambda>c. Max (set c)) (member_reports rb states issued_at now (rb_members rb) []))"

text \<open>
  The environment of the loop: the states and clocks it reads and the sleep it awaits.
\<close>

record 'w loop_env =
  env_states :: "'w \<Rightarrow> state_lookup"
  env_now :: "'w \<Rightarrow> rat"
  env_mono :: "'w \<Rightarrow> rat"
  env_sleep :: "rat \<Rightarrow> ('w, unit) act"

text \<open>One turn of the loop and the turns after it; \<open>first\<close> is \<open>first_poll\<close>.\<close>

fun wait_loop ::
  "'w loop_env \<Rightarrow> readback \<Rightarrow> rat \<Rightarrow> rat \<Rightarrow> rat \<Rightarrow> nat \<Rightarrow> bool \<Rightarrow> ('w, rat option) act" where
  "wait_loop env rb issued_at poll_interval deadline 0 first w = (Inl OutOfFuel, w)"
| "wait_loop env rb issued_at poll_interval deadline (Suc n) first w =
     (if \<not> (first \<or> env_mono env w \<le> deadline) then (Inr None, w)
      else case confirmed_report rb (env_states env w) issued_at (env_now env w) of
             Some r \<Rightarrow> (Inr (Some r), w)
           | None \<Rightarrow>
               (let remaining = deadline - env_mono env w in
                if remaining \<le> 0 then (Inr None, w)
                else bnd (env_sleep env (min poll_interval remaining))
                       (\<lambda>_. wait_loop env rb issued_at poll_interval deadline n False) w))"

definition wait_fuel :: "rat \<Rightarrow> rat \<Rightarrow> nat" where
  "wait_fuel timeout poll_interval = nat \<lceil>timeout / poll_interval\<rceil> + 2"

definition readback_wait ::
  "'w loop_env \<Rightarrow> readback \<Rightarrow> rat \<Rightarrow> pyfloat \<Rightarrow> pyfloat \<Rightarrow> ('w, rat option) act" where
  "readback_wait env rb issued_at timeout poll_interval =
     (if \<not> isfinite timeout \<or> \<not> isfinite poll_interval \<or> timeout < Fin 0 \<or> poll_interval \<le> Fin 0
      then raise (ValueErr ''Readback requires a non-negative timeout and positive poll interval'')
      else look (\<lambda>w. wait_loop env rb issued_at (fin_val poll_interval) (env_mono env w + fin_val timeout)
             (wait_fuel (fin_val timeout) (fin_val poll_interval)) True))"

text \<open>Waiting changes the world only by sleeping.\<close>

context action_relation begin

lemma keeps_wait_loop:
  "(\<And>d. keeps R (env_sleep env d)) \<Longrightarrow> keeps R (wait_loop env rb issued_at poll deadline n first)"
proof (induction n arbitrary: first)
  case 0
  then show ?case by (intro keeps_unchanged) simp
next
  case (Suc n)
  have "R w (snd (bnd (env_sleep env d) (\<lambda>_. wait_loop env rb issued_at poll deadline n False) w))" for d w
    by (rule rel_bnd [OF rel_keeps]) (use Suc in auto)
  then show ?case
    unfolding keeps_def wait_loop.simps(2) by (auto simp: Let_def rel_refl split: option.split)
qed

lemma keeps_readback_wait:
  "(\<And>d. keeps R (env_sleep env d)) \<Longrightarrow> keeps R (readback_wait env rb issued_at timeout poll)"
  unfolding readback_wait_def by (intro keeps_rules keeps_wait_loop)

end

section \<open>What a confirmation proves\<close>

lemma causal_report_Some:
  "causal_report rb e state issued_at now = Some r \<longleftrightarrow>
     state_reported_timestamp state = Some r \<and> issued_at \<le> r \<and> r \<le> now
     \<and> (\<forall>p. rb_previous rb e = Some p \<longrightarrow> p < r)"
  by (auto simp: causal_report_def not_le split: option.splits if_splits)

lemma member_reports_Some:
  "member_reports rb states issued_at now es acc = Some c \<longleftrightarrow>
     (\<forall>e \<in> set es. actuator_state_on e (states e) = Some (rb_expected_on rb)
        \<and> (\<exists>r. causal_report rb e (states e) issued_at now = Some r))
     \<and> c = acc @ map (\<lambda>e. the (causal_report rb e (states e) issued_at now)) es"
  by (induction es arbitrary: acc) (auto split: option.splits)

lemma idle_relays_Some:
  "idle_relays states cmd now es acc = Some c \<Longrightarrow>
     (\<forall>e \<in> set es. e \<noteq> cmd \<longrightarrow> actuator_state_on e (states e) = Some False
        \<and> (\<exists>s. state_reported_timestamp (states e) = Some s \<and> s \<le> now \<and> now - s \<le> 180))
     \<and> (\<exists>d. c = acc @ d)"
proof (induction es arbitrary: acc)
  case Nil
  then show ?case by simp
next
  case (Cons e es)
  show ?case
  proof (cases "e = cmd")
    case True
    with Cons show ?thesis by auto
  next
    case False
    with Cons.prems obtain s where s: "state_reported_timestamp (states e) = Some s"
      "actuator_state_on e (states e) = Some False" "s \<le> now" "now - s \<le> 180"
      and rest: "idle_relays states cmd now es (acc @ [s]) = Some c"
      by (auto simp: IDLE_RELAY_MAX_AGE_SECONDS_def split: option.splits if_splits)
    from Cons.IH [OF rest] s show ?thesis by auto
  qed
qed

section \<open>The loop ends\<close>

declare wait_loop.simps(2) [simp del]

text \<open>Running out of fuel in one turn means having slept and running out later.\<close>

lemma wait_out_of_fuel:
  assumes "fst (wait_loop env rb issued_at poll deadline (Suc n) first w) = Inl OutOfFuel"
  shows "env_mono env w < deadline
    \<and> (fst (env_sleep env (min poll (deadline - env_mono env w)) w) = Inl OutOfFuel
       \<or> (\<exists>w'. env_sleep env (min poll (deadline - env_mono env w)) w = (Inr (), w')
            \<and> fst (wait_loop env rb issued_at poll deadline n False w') = Inl OutOfFuel))"
proof -
  let ?s = "env_sleep env (min poll (deadline - env_mono env w)) w"
  from assms have lt: "env_mono env w < deadline"
    and b: "fst (bnd (env_sleep env (min poll (deadline - env_mono env w)))
        (\<lambda>_. wait_loop env rb issued_at poll deadline n False) w) = Inl OutOfFuel"
    unfolding wait_loop.simps(2) by (auto simp: Let_def not_le split: if_splits option.splits)
  obtain r w' where s: "?s = (r, w')" by force
  show ?thesis
    using lt b s by (cases r) (auto simp: bnd_def)
qed

text \<open>
  The event loop: sleeping never moves the monotonic clock back, and a sleep that returns moved it
  by at least the delay.
\<close>

locale event_loop =
  fixes mono :: "'w \<Rightarrow> rat" and sleep :: "rat \<Rightarrow> ('w, unit) act"
  assumes sleep_advances: "sleep delay w = (Inr (), w') \<Longrightarrow> mono w + delay \<le> mono w'"
    and sleep_has_fuel: "fst (sleep delay w) \<noteq> Inl OutOfFuel"
begin

lemma loop_has_fuel:
  assumes "env_mono env = mono" "env_sleep env = sleep" "0 < poll"
  shows "deadline - mono w < of_nat n * poll \<Longrightarrow>
    fst (wait_loop env rb issued_at poll deadline (Suc n) first w) \<noteq> Inl OutOfFuel"
proof (induction n arbitrary: w first)
  case 0
  show ?case
  proof
    assume "fst (wait_loop env rb issued_at poll deadline (Suc 0) first w) = Inl OutOfFuel"
    from wait_out_of_fuel [OF this] 0 assms show False by simp
  qed
next
  case (Suc n)
  show ?case
  proof
    assume "fst (wait_loop env rb issued_at poll deadline (Suc (Suc n)) first w) = Inl OutOfFuel"
    from wait_out_of_fuel [OF this] obtain w' where lt: "mono w < deadline"
      and step: "sleep (min poll (deadline - mono w)) w = (Inr (), w')"
      and more: "fst (wait_loop env rb issued_at poll deadline (Suc n) False w') = Inl OutOfFuel"
      using assms sleep_has_fuel by auto
    have adv: "mono w + min poll (deadline - mono w) \<le> mono w'" by (rule sleep_advances [OF step])
    from wait_out_of_fuel [OF more] have "mono w' < deadline" using assms by simp
    with adv Suc.prems have "deadline - mono w' < of_nat n * poll"
      by (auto simp: min_def algebra_simps split: if_splits)
    from Suc.IH [OF this] more show False by blast
  qed
qed

lemma wait_has_fuel:
  assumes "env_mono env = mono" "env_sleep env = sleep"
  shows "fst (readback_wait env rb issued_at timeout poll w) \<noteq> Inl OutOfFuel"
proof (cases "\<not> isfinite timeout \<or> \<not> isfinite poll \<or> timeout < Fin 0 \<or> poll \<le> Fin 0")
  case True
  then show ?thesis by (simp add: readback_wait_def)
next
  case False
  then obtain t p where tp: "timeout = Fin t" "poll = Fin p" "0 \<le> t" "0 < p"
    by (auto simp: isfinite_iff)
  have "t / p \<le> of_int \<lceil>t / p\<rceil>" by simp
  also have "\<dots> \<le> of_nat (nat \<lceil>t / p\<rceil>)" by simp
  finally have "t < (of_nat (nat \<lceil>t / p\<rceil> + 1) :: rat) * p"
    using tp(4) by (simp add: pos_divide_le_eq algebra_simps)
  then have "env_mono env w + t - mono w < of_nat (nat \<lceil>t / p\<rceil> + 1) * p" using assms by simp
  from loop_has_fuel [OF assms tp(4) this] show ?thesis
    using False tp by (simp add: readback_wait_def wait_fuel_def del: wait_loop.simps)
qed

end

lemma wait_loop_confirms:
  "wait_loop env rb issued_at poll deadline n first w = (Inr (Some r), w') \<Longrightarrow>
   confirmed_report rb (env_states env w') issued_at (env_now env w') = Some r"
proof (induction n arbitrary: first w)
  case 0
  then show ?case by simp
next
  case (Suc n)
  show ?case
  proof (cases "confirmed_report rb (env_states env w) issued_at (env_now env w)")
    case (Some r')
    with Suc.prems show ?thesis by (auto simp: wait_loop.simps(2) split: if_splits)
  next
    case None
    obtain res v where s: "env_sleep env (min poll (deadline - env_mono env w)) w = (res, v)" by force
    from Suc.prems None s have "wait_loop env rb issued_at poll deadline n False v = (Inr (Some r), w')"
      by (cases res) (auto simp: wait_loop.simps(2) Let_def bnd_def split: if_splits)
    then show ?thesis by (rule Suc.IH)
  qed
qed

lemma max_of_reports:
  assumes "m = Max (set (r # d))" "issued_at \<le> r" "\<forall>x \<in> set (r # d). x \<le> now"
  shows "issued_at \<le> (m :: rat) \<and> m \<le> now"
proof -
  have "m \<in> set (r # d)" unfolding assms(1) by (rule Max_in) simp_all
  then have "m \<le> now" using assms(3) by blast
  moreover have "r \<le> m" unfolding assms(1) by (rule Max_ge) simp_all
  ultimately show ?thesis using assms(2) by simp
qed

definition member_proof :: "readback \<Rightarrow> state_lookup \<Rightarrow> rat \<Rightarrow> rat \<Rightarrow> string \<Rightarrow> bool" where
  "member_proof rb states issued_at now e \<longleftrightarrow>
     actuator_state_on e (states e) = Some (rb_expected_on rb)
     \<and> (\<exists>r. state_reported_timestamp (states e) = Some r \<and> issued_at \<le> r \<and> r \<le> now
          \<and> (\<forall>p. rb_previous rb e = Some p \<longrightarrow> p < r))"

definition idle_proof :: "readback \<Rightarrow> state_lookup \<Rightarrow> rat \<Rightarrow> rat \<Rightarrow> bool" where
  "idle_proof rb states issued_at now \<longleftrightarrow>
     rb_expected_on rb \<and> member_proof rb states issued_at now (rb_command_entity rb)
     \<and> (\<exists>st. states (rb_command_entity rb) = Some st \<and> dget (st_attributes st) ''hvac_action'' = PStr ''idle'')
     \<and> (\<forall>e \<in> set (rb_members rb). e \<noteq> rb_command_entity rb \<longrightarrow>
          actuator_state_on e (states e) = Some False
          \<and> (\<exists>s. state_reported_timestamp (states e) = Some s \<and> s \<le> now \<and> now - s \<le> 180))"

lemma idle_relays_bounded:
  "idle_relays states cmd now es acc = Some c \<Longrightarrow> \<forall>x \<in> set acc. x \<le> now \<Longrightarrow> \<forall>x \<in> set c. x \<le> now"
proof (induction es arbitrary: acc)
  case Nil
  then show ?case by simp
next
  case (Cons e es)
  show ?case
  proof (cases "e = cmd")
    case True
    with Cons show ?thesis by simp
  next
    case False
    with Cons.prems(1) obtain s where "s \<le> now" "idle_relays states cmd now es (acc @ [s]) = Some c"
      by (auto split: option.splits if_splits)
    with Cons.IH [of "acc @ [s]"] Cons.prems(2) show ?thesis by simp
  qed
qed

lemma idle_climate_proof:
  assumes "rb_expected_on rb" "idle_climate_report rb states issued_at now = Some r"
  shows "idle_proof rb states issued_at now \<and> issued_at \<le> r \<and> r \<le> now"
proof -
  let ?cmd = "rb_command_entity rb"
  from assms(2) obtain st reported c where st: "states ?cmd = Some st"
    and rep: "causal_report rb ?cmd (states ?cmd) issued_at now = Some reported"
    and on: "actuator_state_on ?cmd (Some st) = Some True"
    and idle: "dget (st_attributes st) ''hvac_action'' = PStr ''idle''"
    and relays: "idle_relays states ?cmd now (rb_members rb) [reported] = Some c" and r: "r = Max (set c)"
    by (auto simp: idle_climate_report_def Let_def split: if_splits option.splits)
  from idle_relays_Some [OF relays] obtain d where d: "c = reported # d" by auto
  have bound: "\<forall>x \<in> set (reported # d). x \<le> now"
    using idle_relays_bounded [OF relays] rep d by (auto simp: causal_report_Some)
  have "issued_at \<le> reported" using rep by (simp add: causal_report_Some)
  from max_of_reports [OF _ this bound] r d have "issued_at \<le> r \<and> r \<le> now" by simp
  moreover have "idle_proof rb states issued_at now"
    using assms(1) st rep on idle idle_relays_Some [OF relays]
    by (auto simp: idle_proof_def member_proof_def causal_report_Some)
  ultimately show ?thesis by simp
qed

lemma confirmed_report_proof:
  assumes "confirmed_report rb states issued_at now = Some r"
  shows "issued_at \<le> r \<and> r \<le> now \<and> rb_members rb \<noteq> []
    \<and> ((\<forall>e \<in> set (rb_members rb). member_proof rb states issued_at now e)
       \<or> idle_proof rb states issued_at now)"
proof (cases "rb_expected_on rb \<and> idle_climate_report rb states issued_at now = Some r")
  case True
  with assms idle_climate_proof show ?thesis by (auto simp: confirmed_report_def split: if_splits)
next
  case False
  with assms obtain c where c: "member_reports rb states issued_at now (rb_members rb) [] = Some c"
    and r: "r = Max (set c)" and ne: "rb_members rb \<noteq> []"
    by (auto simp: confirmed_report_def split: if_splits option.splits)
  from c have all: "\<forall>e \<in> set (rb_members rb). member_proof rb states issued_at now e"
    by (auto simp: member_reports_Some member_proof_def causal_report_Some)
  from c ne obtain x d where d: "c = x # d"
    unfolding member_reports_Some by (cases "rb_members rb") auto
  have "\<forall>y \<in> set c. issued_at \<le> y \<and> y \<le> now"
  proof
    fix y assume "y \<in> set c"
    then obtain e where e: "e \<in> set (rb_members rb)" "y = the (causal_report rb e (states e) issued_at now)"
      using c by (auto simp: member_reports_Some)
    then have "causal_report rb e (states e) issued_at now = Some y"
      using c by (auto simp: member_reports_Some)
    then show "issued_at \<le> y \<and> y \<le> now" by (simp add: causal_report_Some)
  qed
  with max_of_reports [of r x d issued_at now] r d have "issued_at \<le> r \<and> r \<le> now" by simp
  with all ne show ?thesis by simp
qed

text \<open>C11. A readback that confirms a command ends in a world whose states prove it: the returned
  time lies between the command and now, and every required member reports the expected state with
  a report at or after the command and strictly newer than the one captured before it; or, for an
  ON command only, the thermostat newly reports enabled and idle while every relay is freshly
  reported off. A required member set that is empty never confirms.\<close>

theorem readback_confirmation_sound:
  assumes "readback_wait env rb issued_at timeout poll w = (Inr (Some r), w')"
  shows "issued_at \<le> r \<and> r \<le> env_now env w' \<and> rb_members rb \<noteq> []
    \<and> ((\<forall>e \<in> set (rb_members rb). member_proof rb (env_states env w') issued_at (env_now env w') e)
       \<or> idle_proof rb (env_states env w') issued_at (env_now env w'))"
proof (rule confirmed_report_proof)
  show "confirmed_report rb (env_states env w') issued_at (env_now env w') = Some r"
    using assms by (auto simp: readback_wait_def split: if_splits dest: wait_loop_confirms)
qed

definition demo_env :: "rat loop_env" where
  "demo_env = \<lparr>env_states = (\<lambda>t e. if t < 1 then None
        else Some \<lparr>st_state = ''off'', st_attributes = [], st_last_reported = Datetime 1 None\<rparr>),
     env_now = id, env_mono = id, env_sleep = (\<lambda>d. upd (\<lambda>t. t + d))\<rparr>"

definition demo_readback :: readback where
  "demo_readback = \<lparr>rb_members = [''switch.a''], rb_command_entity = ''switch.a'', rb_expected_on = False,
     rb_previous = (\<lambda>_. None)\<rparr>"

lemma demo_wait: "readback_wait demo_env demo_readback 0 (Fin 2) (Fin 1) 0 = (Inr (Some 1), 1)"
proof -
  have off: "actuator_state_on ''switch.a'' (Some \<lparr>st_state = ''off'', st_attributes = [], st_last_reported = s\<rparr>)
      = Some False" for s
    by (simp add: actuator_state_on_def domain_of_def)
  have c: "confirmed_report demo_readback (env_states demo_env 1) 0 1 = Some 1"
    by (simp add: confirmed_report_def demo_readback_def causal_report_def off demo_env_def
        state_reported_timestamp_def)
  have n: "confirmed_report demo_readback (env_states demo_env 0) 0 0 = None"
    by (simp add: confirmed_report_def demo_readback_def causal_report_def demo_env_def
        state_reported_timestamp_def)
  have f: "wait_fuel 2 1 = Suc (Suc 2)" by (simp add: wait_fuel_def)
  have w: "env_now demo_env = id" "env_mono demo_env = id" "env_sleep demo_env = (\<lambda>d. upd (\<lambda>t. t + d))"
    by (simp_all add: demo_env_def)
  have loop: "wait_loop demo_env demo_readback 0 1 2 (Suc (Suc k)) True 0 = (Inr (Some 1), 1)" for k
    by (simp add: wait_loop.simps(2) w n c bnd_def Let_def)
  have run: "readback_wait demo_env demo_readback 0 (Fin 2) (Fin 1) 0
      = wait_loop demo_env demo_readback 0 1 2 (wait_fuel 2 1) True 0"
    by (simp add: readback_wait_def w less_eq_pyfloat_def)
  show ?thesis unfolding run f by (rule loop)
qed

lemma readback_confirmation_sound_witness:
  "readback_wait demo_env demo_readback 0 (Fin 2) (Fin 1) 0 = (Inr (Some 1), 1)
   \<and> member_proof demo_readback (env_states demo_env 1) 0 1 ''switch.a''"
proof -
  have m: "rb_members demo_readback = [''switch.a'']" and now: "env_now demo_env 1 = 1"
    by (simp_all add: demo_readback_def demo_env_def)
  from readback_confirmation_sound [OF demo_wait]
  have "member_proof demo_readback (env_states demo_env 1) 0 1 ''switch.a''
    \<or> idle_proof demo_readback (env_states demo_env 1) 0 1" unfolding m now by simp
  then show ?thesis using demo_wait by (simp add: idle_proof_def demo_readback_def)
qed

end
