(* ===== verification/Restore_Transactions.thy ===== *)
theory Restore_Transactions
  imports Act Requests
begin

text \<open>
  \<open>restore_transactions.py\<close>: ownership of shed loads (tickets in shedding order) and the durable
  protocol every physical transition runs through. What the protocol is given (recording,
  persisting, the projection of failed persistence) is its environment.
\<close>

section \<open>Ownership\<close>

record transactions =
  tr_tickets :: "(string \<times> restore_ticket) list"
  tr_pending :: "string list"

definition hydrate :: "(string \<times> restore_ticket) list \<Rightarrow> transactions \<Rightarrow> transactions" where
  "hydrate ts tr = tr\<lparr>tr_tickets := ts, tr_pending := map fst ts\<rparr>"

definition tr_remove :: "string \<Rightarrow> transactions \<Rightarrow> transactions" where
  "tr_remove i tr = tr\<lparr>tr_pending := remove1 i (tr_pending tr), tr_tickets := AList.delete i (tr_tickets tr)\<rparr>"

definition tr_create ::
  "string \<Rightarrow> string \<Rightarrow> string \<Rightarrow> pydict \<Rightarrow> string list \<Rightarrow> rat \<Rightarrow> (transactions, unit) act" where
  "tr_create i cause operation_id restore_state intent_sources now =
     thn (upd (tr_remove i))
       (bnd (lift (mk_ticket (PStr i) (PStr cause) (PStr operation_id) (PFloat (Fin now))
               (PFloat (Fin (now + MAX_INTENT_TTL_S))) (PDict restore_state) (map PStr intent_sources)))
          (\<lambda>t. upd (\<lambda>tr. tr\<lparr>tr_tickets := AList.update i t (tr_tickets tr), tr_pending := tr_pending tr @ [i]\<rparr>)))"

fun retire_loop ::
  "intent_registry \<Rightarrow> rat \<Rightarrow> (string \<times> restore_ticket) list \<Rightarrow> bool \<times> transactions \<Rightarrow> bool \<times> transactions" where
  "retire_loop intents now [] acc = acc"
| "retire_loop intents now ((i, t) # ts) (changed, tr) =
     (if ticket_expired t now \<or> active_sources intents i now = []
      then retire_loop intents now ts (True, tr_remove i tr)
      else retire_loop intents now ts (changed, tr))"

definition tr_reconcile ::
  "intent_registry \<Rightarrow> rat \<Rightarrow> transactions \<Rightarrow> bool \<times> intent_registry \<times> transactions" where
  "tr_reconcile intents now tr =
     (case registry_prune intents now of
        (kept, pruned) \<Rightarrow>
          (case retire_loop kept now (tr_tickets tr) (pruned, tr) of
             (changed, tr') \<Rightarrow> (changed, kept, tr')))"

section \<open>The durable protocol\<close>

datatype transition_result = CONFIRMED | REJECTED | FAILED | STORAGE_BLOCKED

primrec result_value :: "transition_result \<Rightarrow> string" where
  "result_value CONFIRMED = ''confirmed''"
| "result_value REJECTED = ''rejected''"
| "result_value FAILED = ''failed''"
| "result_value STORAGE_BLOCKED = ''storage_blocked''"

record 'w transition_env =
  tx_record :: "pydict \<Rightarrow> ('w, unit) act"
  tx_persist :: "('w, bool) act"
  tx_failed :: "string \<Rightarrow> string \<Rightarrow> ('w, unit) act"
  tx_remove :: "string \<Rightarrow> ('w, unit) act"

text \<open>\<open>str(exc)[:160]\<close>; the messages of the interpreter's own exceptions are left empty.\<close>

fun exn_text :: "exn \<Rightarrow> string" where
  "exn_text (ValueErr s) = take 160 s"
| "exn_text (RuntimeErr s) = take 160 s"
| "exn_text (ServiceErr s) = take 160 s"
| "exn_text _ = []"

definition phase_record :: "pydict \<Rightarrow> string \<Rightarrow> pydict" where
  "phase_record base ph = dict_merge base [(''phase'', PStr ph), (''result'', PStr ph)]"

definition failure_record :: "pydict \<Rightarrow> string \<Rightarrow> pydict" where
  "failure_record base reason =
     dict_merge base [(''phase'', PStr ''failed''), (''result'', PStr ''failed''),
       (''reason'', PStr reason), (''outcome_reason'', PStr reason)]"

definition storage_failure :: "'w transition_env \<Rightarrow> pydict \<Rightarrow> string \<Rightarrow> ('w, transition_result) act" where
  "storage_failure env base device_id =
     thn (tx_remove env device_id)
       (thn (tx_failed env device_id ''action_persistence_failed'')
         (thn (tx_record env (failure_record base ''action_persistence_failed''))
           (ret STORAGE_BLOCKED)))"

text \<open>One of the two durable phases before the dispatch.\<close>

definition publish :: "'w transition_env \<Rightarrow> pydict \<Rightarrow> string \<Rightarrow> ('w, bool) act" where
  "publish env base ph = thn (tx_record env (phase_record base ph)) (tx_persist env)"

definition result_reason :: "pydict \<Rightarrow> transition_result \<Rightarrow> string" where
  "result_reason base r =
     (case r of
        CONFIRMED \<Rightarrow> ''confirmed''
      | REJECTED \<Rightarrow> (if dget base ''action'' = PStr ''turn_on'' then ''restore_permission_withdrawn''
                     else ''off_permission_withdrawn'')
      | _ \<Rightarrow> ''relay_readback_timeout'')"

text \<open>The dispatch with \<open>except Exception\<close>: result, reason and outcome reason.\<close>

definition attempt ::
  "pydict \<Rightarrow> ('w, transition_result) act \<Rightarrow> ('w, transition_result \<times> string \<times> string) act" where
  "attempt base dispatch =
     try_except (bnd dispatch (\<lambda>r. ret (r, result_reason base r, result_reason base r)))
       (\<lambda>e. ret (FAILED, if exn_text e = [] then ''service_error'' else exn_text e, ''service_error''))"

definition outcome_record :: "pydict \<Rightarrow> transition_result \<Rightarrow> string \<Rightarrow> string \<Rightarrow> pydict" where
  "outcome_record base result reason outcome_reason =
     dict_merge base [(''phase'', PStr (result_value result)), (''result'', PStr (result_value result)),
       (''reason'', if result = CONFIRMED then dget base ''decision_reason'' else PStr reason),
       (''outcome_reason'', PStr outcome_reason)]"

definition commit_outcome ::
  "'w transition_env \<Rightarrow> pydict \<Rightarrow> string \<Rightarrow> (transition_result \<Rightarrow> string \<Rightarrow> ('w, unit) act)
     \<Rightarrow> transition_result \<times> string \<times> string \<Rightarrow> ('w, transition_result) act" where
  "commit_outcome env base device_id finish out =
     (case out of (result, reason, outcome_reason) \<Rightarrow>
        thn (finish result reason)
          (thn (tx_record env (outcome_record base result reason outcome_reason))
            (bnd (tx_persist env) (\<lambda>saved.
               if saved then ret result else storage_failure env base device_id))))"

definition on_cancelled ::
  "'w transition_env \<Rightarrow> pydict \<Rightarrow> string \<Rightarrow> (transition_result \<Rightarrow> string \<Rightarrow> ('w, unit) act)
     \<Rightarrow> ('w, transition_result) act" where
  "on_cancelled env base device_id finish =
     thn (tx_remove env device_id)
       (thn (finish FAILED ''action_cancelled'')
         (thn (tx_failed env device_id ''action_cancelled'')
           (thn (tx_record env (failure_record base ''action_cancelled''))
             (bnd (tx_persist env) (\<lambda>_. raise Cancelled)))))"

definition execute ::
  "'w transition_env \<Rightarrow> pydict \<Rightarrow> ('w, transition_result) act
     \<Rightarrow> (transition_result \<Rightarrow> string \<Rightarrow> ('w, unit) act) \<Rightarrow> ('w, transition_result) act" where
  "execute env base dispatch finish =
     (let device_id = the_str (dget base ''device_id'') in
      try_cancelled
        (bnd (publish env base ''prepared'') (\<lambda>ok1.
           if \<not> ok1 then storage_failure env base device_id
           else bnd (publish env base ''dispatched'') (\<lambda>ok2.
             if \<not> ok2 then storage_failure env base device_id
             else bnd (attempt base dispatch) (commit_outcome env base device_id finish))))
        (on_cancelled env base device_id finish))"

section \<open>The contract with the controller\<close>

text \<open>
  What the protocol relies on: recording, persisting, removing and projecting a failure keep a
  relation between worlds, and a dispatched phase whose publication succeeded is durable. Then
  the whole execution keeps the relation as soon as the dispatch keeps it from worlds where the
  record of its action is durable: it is never run from any other.
\<close>

locale durable_protocol = action_relation R for R :: "'w \<Rightarrow> 'w \<Rightarrow> bool" +
  fixes env :: "'w transition_env" and recordable :: "pydict \<Rightarrow> bool" and logged :: "pydict \<Rightarrow> 'w \<Rightarrow> bool"
  assumes record_keeps: "keeps R (tx_record env event)"
    and persist_keeps: "keeps R (tx_persist env)"
    and failed_keeps: "keeps R (tx_failed env i reason)"
    and remove_keeps: "keeps R (tx_remove env i)"
    and published: "publish env base ''dispatched'' w = (Inr True, w') \<Longrightarrow> recordable base \<Longrightarrow> logged base w'"
begin

lemma publish_keeps: "keeps R (publish env base ph)"
  unfolding publish_def by (intro keeps_rules record_keeps persist_keeps)

lemma storage_failure_keeps: "keeps R (storage_failure env base i)"
  unfolding storage_failure_def by (intro keeps_rules record_keeps failed_keeps remove_keeps)

lemma commit_keeps: "(\<And>r s. keeps R (finish r s)) \<Longrightarrow> keeps R (commit_outcome env base i finish out)"
  unfolding commit_outcome_def
  by (intro keeps_rules record_keeps persist_keeps storage_failure_keeps)

lemma cancelled_keeps: "(\<And>r s. keeps R (finish r s)) \<Longrightarrow> keeps R (on_cancelled env base i finish)"
  unfolding on_cancelled_def
  by (intro keeps_rules record_keeps persist_keeps failed_keeps remove_keeps)

lemma attempt_from: "R w (snd (dispatch w)) \<Longrightarrow> R w (snd (attempt base dispatch w))"
  by (cases "dispatch w"; cases "fst (dispatch w)") (auto simp: attempt_def try_except_def bnd_def)

lemma execute_keeps:
  assumes ok: "recordable base"
    and dispatch: "\<And>w. logged base w \<Longrightarrow> R w (snd (dispatch w))"
    and finish: "\<And>r s. keeps R (finish r s)"
  shows "keeps R (execute env base dispatch finish)"
proof -
  let ?i = "the_str (dget base ''device_id'')"
  let ?rest = "\<lambda>ok. if \<not> ok then storage_failure env base ?i
    else bnd (attempt base dispatch) (commit_outcome env base ?i finish)"
  have second: "keeps R (bnd (publish env base ''dispatched'') ?rest)"
    unfolding keeps_def
  proof (rule allI)
    fix w
    obtain r v where p: "publish env base ''dispatched'' w = (r, v)" by force
    have v: "R w v" using publish_keeps p by (metis rel_keeps snd_conv)
    show "R w (snd (bnd (publish env base ''dispatched'') ?rest w))"
    proof (cases "r = Inr True")
      case True
      then have "logged base v" using published p ok by blast
      then have "R v (snd (?rest True v))"
        by (auto intro!: rel_bnd attempt_from commit_keeps dispatch finish)
      then show ?thesis using p True v by (auto simp: bnd_def intro: rel_trans)
    next
      case False
      then show ?thesis
        using p v rel_keeps [OF storage_failure_keeps, of v] by (cases r) (auto simp: bnd_def intro: rel_trans)
    qed
  qed
  then show ?thesis
    unfolding execute_def Let_def
    by (intro keeps_rules publish_keeps storage_failure_keeps cancelled_keeps finish second)
qed

end

section \<open>Ownership stays consistent\<close>

definition owned_ok :: "transactions \<Rightarrow> bool" where
  "owned_ok tr \<longleftrightarrow> tr_pending tr = map fst (tr_tickets tr) \<and> distinct (tr_pending tr)
     \<and> (\<forall>(i, t) \<in> set (tr_tickets tr). rt_device_id t = i \<and> ticket_wf t)"

lemma owned_ok_keys: "owned_ok tr \<Longrightarrow> distinct (map fst (tr_tickets tr))"
  by (auto simp: owned_ok_def)

lemma removed_keys:
  "owned_ok tr \<Longrightarrow> map fst (tr_tickets (tr_remove i tr)) = remove1 i (map fst (tr_tickets tr))"
  by (simp add: tr_remove_def map_fst_delete filter_neq_remove1 owned_ok_keys)

lemma owned_remove [inv_intros]:
  assumes "owned_ok tr"
  shows "owned_ok (tr_remove i tr)"
proof -
  have "set (tr_tickets (tr_remove i tr)) \<subseteq> set (tr_tickets tr)"
    by (auto simp: tr_remove_def AList.delete_eq)
  moreover have "tr_pending (tr_remove i tr) = remove1 i (map fst (tr_tickets tr))"
    using assms by (simp add: tr_remove_def owned_ok_def)
  ultimately show ?thesis
    using assms owned_ok_keys [OF assms] removed_keys [OF assms, of i] unfolding owned_ok_def
    by (metis (no_types, lifting) distinct_remove1 subsetD)
qed

lemma removed_not_pending: "owned_ok tr \<Longrightarrow> i \<notin> set (tr_pending (tr_remove i tr))"
proof -
  assume ok: "owned_ok tr"
  then have "tr_pending (tr_remove i tr) = remove1 i (map fst (tr_tickets tr))"
    by (simp add: tr_remove_def owned_ok_def)
  then show ?thesis using owned_ok_keys [OF ok] by (metis set_remove1_eq Diff_iff singletonI)
qed

lemma owned_create [inv_intros]:
  assumes "owned_ok tr"
  shows "owned_ok (snd (tr_create i c oid st srcs now tr))"
proof (cases "mk_ticket (PStr i) (PStr c) (PStr oid) (PFloat (Fin now))
               (PFloat (Fin (now + MAX_INTENT_TTL_S))) (PDict st) (map PStr srcs)")
  case (Inl e)
  then show ?thesis using owned_remove [OF assms] by (simp add: tr_create_def bnd_def)
next
  case (Inr t)
  let ?r = "tr_remove i tr"
  have r: "owned_ok ?r" by (rule owned_remove [OF assms])
  have new: "i \<notin> set (tr_pending ?r)" by (rule removed_not_pending [OF assms])
  then have "AList.update i t (tr_tickets ?r) = tr_tickets ?r @ [(i, t)]"
    using r by (intro update_new_key) (simp add: owned_ok_def)
  moreover have "rt_device_id t = i" using mk_ticket_shape [OF Inr] by simp
  ultimately show ?thesis
    using Inr r new ticket_wf_mk [OF Inr] by (auto simp: tr_create_def bnd_def owned_ok_def)
qed

lemma retire_loop_filter:
  "owned_ok tr \<Longrightarrow> tr_tickets tr = done @ ts \<Longrightarrow>
   (\<forall>(i, t) \<in> set done. \<not> (ticket_expired t now \<or> active_sources r i now = [])) \<Longrightarrow>
   tr_tickets (snd (retire_loop r now ts (b, tr))) =
     filter (\<lambda>(i, t). \<not> ticket_expired t now \<and> active_sources r i now \<noteq> []) (tr_tickets tr)
   \<and> owned_ok (snd (retire_loop r now ts (b, tr)))"
proof (induction ts arbitrary: tr "done" b)
  case Nil
  then have "filter (\<lambda>(i, t). \<not> ticket_expired t now \<and> active_sources r i now \<noteq> []) (tr_tickets tr) = tr_tickets tr"
    by (intro filter_True) auto
  with Nil show ?case by simp
next
  case (Cons p ts)
  obtain i t where p: "p = (i, t)" by force
  show ?case
  proof (cases "ticket_expired t now \<or> active_sources r i now = []")
    case False
    then show ?thesis
      using Cons.IH [of tr "done @ [p]" b] Cons.prems p by auto
  next
    case True
    have dist: "distinct (map fst (done @ p # ts))"
      using owned_ok_keys [OF Cons.prems(1)] Cons.prems(2) by simp
    then have "AList.delete i done = done" "AList.delete i ts = ts" using p by auto
    then have del: "tr_tickets (tr_remove i tr) = done @ ts"
      using Cons.prems(2) p by (simp add: tr_remove_def AList.delete_eq)
    have "filter (\<lambda>(i, t). \<not> ticket_expired t now \<and> active_sources r i now \<noteq> []) (tr_tickets (tr_remove i tr))
        = filter (\<lambda>(i, t). \<not> ticket_expired t now \<and> active_sources r i now \<noteq> []) (tr_tickets tr)"
      unfolding del using Cons.prems(2) p True by simp
    then show ?thesis
      using Cons.IH [OF owned_remove [OF Cons.prems(1)] del Cons.prems(3), of True] p True by simp
  qed
qed

lemma reconcile_retires:
  assumes "owned_ok tr"
  shows "tr_tickets (snd (snd (tr_reconcile intents now tr))) =
      filter (\<lambda>(i, t). \<not> ticket_expired t now \<and> active_sources (fst (registry_prune intents now)) i now \<noteq> [])
        (tr_tickets tr)
    \<and> owned_ok (snd (snd (tr_reconcile intents now tr)))
    \<and> fst (snd (tr_reconcile intents now tr)) = fst (registry_prune intents now)"
proof -
  obtain kept pruned where p: "registry_prune intents now = (kept, pruned)" by force
  obtain ch tr' where r: "retire_loop kept now (tr_tickets tr) (pruned, tr) = (ch, tr')" by force
  from retire_loop_filter [OF assms, of "[]" "tr_tickets tr" now kept pruned] show ?thesis
    unfolding tr_reconcile_def p prod.case r fst_conv snd_conv by simp
qed

lemma owned_reconcile [inv_intros]:
  "owned_ok tr \<Longrightarrow> owned_ok (snd (snd (tr_reconcile intents now tr)))"
  using reconcile_retires by blast

end
