(* ===== verification/Coordinator_State.thy ===== *)
theory Coordinator_State
  imports Telemetry Selection Storage Actuator Readback
    Restore_Transactions
begin

text \<open>
  The state of \<open>coordinator.py\<close>, its permissions, and what may happen while it awaits. The record
  \<open>ctl\<close> holds the attributes of \<open>PowerOrchestratorCoordinator\<close> (prefix c), the values it is
  constructed with (prefix k) and the world it lives in (prefix w): the clocks, the entity states,
  the payload last written to disk, and a script that says, for every await to come, which
  events other tasks deliver meanwhile and how the await ends. \<open>coord\<close> adds the log of the
  commands issued to devices, each with the state at its dispatch. Time only passes, and entity
  states only change, while an action awaits. The digest, the uuids and the translations of Home
  Assistant are parameters.
\<close>

section \<open>Constants\<close>

definition STARTUP_TELEMETRY_GRACE_SECONDS :: rat where "STARTUP_TELEMETRY_GRACE_SECONDS = 30"
definition MAX_LAST_ACTION_LENGTH :: nat where "MAX_LAST_ACTION_LENGTH = 255"
definition NOTIFY_TELEMETRY_ID :: string where "NOTIFY_TELEMETRY_ID = ''power_orchestrator_telemetry_blocked''"
definition NOTIFY_MANUAL_ON_PREFIX :: string where "NOTIFY_MANUAL_ON_PREFIX = ''power_orchestrator_manual_on''"
definition EVENT_ACTION :: string where "EVENT_ACTION = ''power_orchestrator.action''"
definition EVENT_DECISION :: string where "EVENT_DECISION = ''power_orchestrator.decision''"
definition MAX_SAMPLES :: nat where "MAX_SAMPLES = 240"

section \<open>State\<close>

text \<open>An event of another task while the controller awaits, and the end of the await.\<close>

datatype interference =
    Tick rat rat
  | Reported string "ha_state option"
  | Shutdown

datatype await_end = Done | Fails string | Cancels

record platform =
  k_mobile :: bool
  k_translate :: "string \<Rightarrow> (string \<times> string) option"
  k_digest :: "string \<Rightarrow> string"
  k_uuid :: "nat \<Rightarrow> string"
  w_now :: rat
  w_mono :: rat
  w_states :: state_lookup
  w_script :: "(interference list \<times> await_end) list"
  w_uuids :: nat
  w_disk :: pydict
  w_notices :: "(string \<times> string \<times> pydict) list"
  w_fired :: "(string \<times> pydict) list"

record ctl = platform +
  k_load_sensor :: string
  k_averaging_period :: rat
  k_pause_period :: rat
  k_source :: safety_source
  k_entry_id :: string
  k_version :: "string option"
  c_model :: power_model
  c_store :: runtime_store
  c_engine :: policy_engine
  c_tx :: transactions
  c_intents :: intent_registry
  c_faults :: fault_registry
  c_stopping :: bool
  c_mode :: string
  c_startup_ready :: bool
  c_startup_deadline :: rat
  c_status :: string
  c_last_action :: string
  c_last_decision :: policy_decision
  c_load_valid :: bool
  c_load_reason :: string
  c_load_reported_at :: "rat option"
  c_last_accepted_at :: "rat option"
  c_generation :: int
  c_samples :: "(rat \<times> rat) list"
  c_pending_fault :: "string option"
  c_source_loss :: bool
  c_last_observed :: "string \<rightharpoonup> bool option"
  c_reconciled :: bool
  c_confirmed_at :: "string \<rightharpoonup> rat"
  c_last_operation_id :: "string option"
  c_last_action_id :: "string option"
  c_last_result :: string
  c_next_operation :: nat
  c_journal_invalid :: bool
  c_journal_dirty :: bool
  c_persist_blocked :: bool
  c_storage_invalid :: bool
  c_safety_reason :: "string option"
  c_fingerprints :: "(string \<times> string) list"
  c_pending_fingerprints :: "(string \<times> string) list"
  c_notices_dirty :: bool
  c_notice_active :: bool
  c_tele_latched :: bool
  c_tele_reason :: "string option"
  c_tele_handled :: bool
  c_tele_recorded :: bool
  c_persisted_tele :: "bool \<times> string option \<times> bool"
  c_incident :: "string option"
  c_expected_off :: "string set"
  c_deferred_off :: "string set"
  c_rejections :: shed_rejections
  c_reconfiguration :: bool

text \<open>A command as it leaves the controller: domain, service and data.\<close>

type_synonym command = "string \<times> string \<times> pydict"

record coord = ctl +
  w_trace :: "(command \<times> ctl) list"

type_synonym 'a action = "(coord, 'a) act"

section \<open>Construction\<close>

record coordinator_config =
  cc_load_sensor :: string
  cc_averaging_period :: rat
  cc_pause_period :: rat
  cc_grid_loss_mode :: string
  cc_policy :: policy_config
  cc_grid_loss_sensor :: "string option"
  cc_battery_threshold :: "rat option"
  cc_battery_soc_sensor :: "string option"
  cc_entry_id :: string
  cc_integration_version :: "string option"

definition no_rejections :: shed_rejections where
  "no_rejections = \<lparr>sr_counts = [], sr_devices = [], sr_total = 0, sr_truncated = 0, sr_evaluated_at = None\<rparr>"

definition new_coordinator ::
  "platform \<Rightarrow> power_model \<Rightarrow> runtime_store \<Rightarrow> coordinator_config \<Rightarrow> coord" where
  "new_coordinator p model store config = platform.extend p
     \<lparr>k_load_sensor = cc_load_sensor config,
      k_averaging_period = max 1 (cc_averaging_period config),
      k_pause_period = max 0 (cc_pause_period config),
      k_source = \<lparr>ss_mode = cc_grid_loss_mode config, ss_grid_sensor = cc_grid_loss_sensor config,
                  ss_battery_soc_sensor = cc_battery_soc_sensor config,
                  ss_battery_threshold = cc_battery_threshold config\<rparr>,
      k_entry_id = cc_entry_id config, k_version = cc_integration_version config,
      c_model = model, c_store = store, c_engine = new_engine (cc_policy config),
      c_tx = \<lparr>tr_tickets = [], tr_pending = []\<rparr>, c_intents = [], c_faults = new_registry,
      c_stopping = False, c_mode = ''observe'', c_startup_ready = False,
      c_startup_deadline = w_mono p + STARTUP_TELEMETRY_GRACE_SECONDS,
      c_status = ''monitoring'', c_last_action = ''Initialized'',
      c_last_decision = last_decision (new_engine (cc_policy config)),
      c_load_valid = False, c_load_reason = ''not_sampled'', c_load_reported_at = None,
      c_last_accepted_at = None, c_generation = 0, c_samples = [], c_pending_fault = None,
      c_source_loss = False, c_last_observed = Map.empty, c_reconciled = False,
      c_confirmed_at = Map.empty, c_last_operation_id = None, c_last_action_id = None,
      c_last_result = ''none'', c_next_operation = 0, c_journal_invalid = False,
      c_journal_dirty = False, c_persist_blocked = False, c_storage_invalid = False,
      c_safety_reason = None, c_fingerprints = [], c_pending_fingerprints = [],
      c_notices_dirty = False, c_notice_active = False, c_tele_latched = False,
      c_tele_reason = None, c_tele_handled = False, c_tele_recorded = False,
      c_persisted_tele = (False, None, False), c_incident = None, c_expected_off = {},
      c_deferred_off = {}, c_rejections = no_rejections, c_reconfiguration = False,
      w_trace = []\<rparr>"

section \<open>Permissions\<close>

definition grid_safety_source_available :: "'a ctl_scheme \<Rightarrow> bool" where
  "grid_safety_source_available w = source_available (k_source w) (w_states w)"

definition grid_ok :: "'a ctl_scheme \<Rightarrow> bool" where
  "grid_ok w = source_ok (k_source w) (w_states w)"

definition emergency_commands_allowed :: "'a ctl_scheme \<Rightarrow> bool" where
  "emergency_commands_allowed w \<longleftrightarrow>
     \<not> c_stopping w \<and> c_mode w = ''auto'' \<and> \<not> c_storage_invalid w \<and> \<not> c_reconfiguration w"

definition physical_commands_allowed :: "'a ctl_scheme \<Rightarrow> bool" where
  "physical_commands_allowed w \<longleftrightarrow>
     \<not> c_stopping w \<and> c_mode w = ''auto'' \<and> \<not> c_storage_invalid w \<and> \<not> c_reconfiguration w
     \<and> c_load_valid w \<and> grid_safety_source_available w \<and> grid_ok w
     \<and> \<not> c_tele_latched w \<and> \<not> c_source_loss w"

definition restore_commands_allowed :: "'a ctl_scheme \<Rightarrow> bool" where
  "restore_commands_allowed w \<longleftrightarrow>
     physical_commands_allowed w \<and> \<not> c_tele_latched w
     \<and> pending_post_shed_generation (c_engine w) = None
     \<and> pending_post_restore_generation (c_engine w) = None"

definition mode_is_observe :: "'a ctl_scheme \<Rightarrow> bool" where
  "mode_is_observe w \<longleftrightarrow> c_mode w = ''observe''"

definition lowest_limit :: "'a ctl_scheme \<Rightarrow> rat" where
  "lowest_limit w = lowest_limit_w (policy (c_engine w))"

definition request_permits :: "'a ctl_scheme \<Rightarrow> string \<Rightarrow> bool" where
  "request_permits w device_id = registry_permits (c_intents w) device_id (w_now w) (w_states w)"

text \<open>The table's object behind a reference to a load.\<close>

definition device_of :: "'a ctl_scheme \<Rightarrow> managed_device \<Rightarrow> managed_device" where
  "device_of w d = (case get_device (c_model w) (d_device_id d) of Some d' \<Rightarrow> d' | None \<Rightarrow> d)"

section \<open>Loads read from telemetry\<close>

definition current_load :: "'a ctl_scheme \<Rightarrow> rat option" where
  "current_load w = (if \<not> c_load_valid w \<or> c_samples w = [] then None else Some (fst (last (c_samples w))))"

definition average_load :: "'a ctl_scheme \<Rightarrow> rat option" where
  "average_load w =
     (if \<not> c_load_valid w \<or> c_samples w = [] then None
      else (let values = map fst (filter (\<lambda>(_, t). w_now w - t \<le> k_averaging_period w) (c_samples w))
            in if values = [] then None else Some (sum_list values / of_nat (length values))))"

definition available_capacity :: "'a ctl_scheme \<Rightarrow> rat option" where
  "available_capacity w = map_option (\<lambda>c. lowest_limit w - c) (current_load w)"

text \<open>\<open>_read_load_sensor\<close>: the validity it leaves, and the value.\<close>

definition sensor_reading :: "'a ctl_scheme \<Rightarrow> load_reading" where
  "sensor_reading w = read_load_sensor (w_states w) (k_load_sensor w) (w_now w)"

definition sampled :: "coord \<Rightarrow> coord" where
  "sampled w = w\<lparr>c_load_valid := lr_valid (sensor_reading w), c_load_reason := lr_reason (sensor_reading w),
     c_load_reported_at := lr_reported_at (sensor_reading w)\<rparr>"

definition read_load :: "rat action" where
  "read_load = look (\<lambda>w. thn (upd sampled) (ret (lr_value (sensor_reading w))))"

section \<open>Reports delivered by other tasks\<close>

definition reset_window :: "coord \<Rightarrow> coord" where
  "reset_window w = w\<lparr>c_engine := reset_restore_window (c_engine w)\<rparr>"

definition latch_report_fault :: "string \<Rightarrow> coord \<Rightarrow> coord" where
  "latch_report_fault reason w =
     (if \<not> c_startup_ready w \<or> c_tele_latched w then w
      else w\<lparr>c_pending_fault := Some reason, c_tele_handled := False, c_tele_latched := True,
             c_tele_reason := Some reason\<rparr>)"

definition observe_safety_report :: "ha_state option \<Rightarrow> coord \<Rightarrow> coord" where
  "observe_safety_report state w =
     (if ok_state (k_source w) state then w
      else if \<not> available_state (k_source w) state
      then latch_report_fault ''safety_telemetry_unavailable'' (reset_window w)
      else (reset_window w)\<lparr>c_source_loss := True\<rparr>)"

definition report_gap :: "rat option \<Rightarrow> load_reading \<Rightarrow> bool" where
  "report_gap previous reading =
     (case (previous, lr_reported_at reading) of
        (Some p, Some r) \<Rightarrow> LOAD_TELEMETRY_MAX_AGE_SECONDS < r - p
      | _ \<Rightarrow> False)"

definition observe_aggregate_report :: "ha_state option \<Rightarrow> rat option \<Rightarrow> coord \<Rightarrow> coord" where
  "observe_aggregate_report state previous w =
     (if c_stopping w then w
      else
        (let reading = read_load_state state (w_now w);
             gap = report_gap previous reading;
             load = (if lr_valid reading \<and> \<not> gap then Fin (lr_value reading) else NaN);
             w1 = w\<lparr>c_engine := observe_report (c_engine w) load (w_mono w)\<rparr>
         in if gap then latch_report_fault ''load_stale'' w1
            else if \<not> lr_valid reading then latch_report_fault (''load_'' @ lr_reason reading) w1
            else w1))"

definition observe_entity_report :: "string \<Rightarrow> ha_state option \<Rightarrow> rat option \<Rightarrow> coord \<Rightarrow> coord" where
  "observe_entity_report e state previous w =
     (if c_stopping w then w
      else if e = k_load_sensor w then observe_aggregate_report state previous w
      else if Some e = source_entity_id (k_source w) then observe_safety_report state w
      else w)"

text \<open>
  The listeners of \<open>async_track_reports\<close>: every report of the load sensor, and every change of
  state or attributes of the others, reaches \<open>observe_entity_report\<close> with the time of the
  report it replaces. The refresh they schedule waits for the lock and is another action.
\<close>

definition report_listened :: "'a ctl_scheme \<Rightarrow> string \<Rightarrow> ha_state option \<Rightarrow> ha_state option \<Rightarrow> bool" where
  "report_listened w e old new \<longleftrightarrow>
     e = k_load_sensor w
     \<or> map_option (\<lambda>s. (st_state s, st_attributes s)) old \<noteq> map_option (\<lambda>s. (st_state s, st_attributes s)) new"

definition deliver_report :: "string \<Rightarrow> ha_state option \<Rightarrow> coord \<Rightarrow> coord" where
  "deliver_report e new w =
     (let old = w_states w e; w1 = w\<lparr>w_states := (w_states w)(e := new)\<rparr>
      in if report_listened w e old new
         then observe_entity_report e new (state_reported_timestamp old) w1 else w1)"

primrec interfere :: "interference \<Rightarrow> coord \<Rightarrow> coord" where
  "interfere (Tick wall monotonic) w = w\<lparr>w_now := w_now w + wall, w_mono := w_mono w + max 0 monotonic\<rparr>"
| "interfere (Reported e new) w = deliver_report e new w"
| "interfere Shutdown w = w\<lparr>c_stopping := True\<rparr>"

section \<open>Awaiting\<close>

definition pass_time :: "(interference list \<times> await_end) \<Rightarrow> coord \<Rightarrow> coord" where
  "pass_time step w = fold interfere (fst step) (w\<lparr>w_script := tl (w_script w)\<rparr>)"

definition next_await :: "'a ctl_scheme \<Rightarrow> interference list \<times> await_end" where
  "next_await w = (case w_script w of [] \<Rightarrow> ([], Done) | step # _ \<Rightarrow> step)"

definition await :: "unit action" where
  "await = look (\<lambda>w. thn (upd (pass_time (next_await w)))
     (case snd (next_await w) of
        Done \<Rightarrow> skip | Fails s \<Rightarrow> raise (ServiceErr s) | Cancels \<Rightarrow> raise Cancelled))"

text \<open>\<open>asyncio.sleep\<close> lasts at least its delay and only a cancellation ends it early.\<close>

definition sleep :: "rat \<Rightarrow> unit action" where
  "sleep delay = look (\<lambda>w.
     thn (upd (\<lambda>w. w\<lparr>w_now := w_now w + delay, w_mono := w_mono w + max 0 delay\<rparr>))
       (thn (upd (pass_time (next_await w)))
         (if snd (next_await w) = Cancels then raise Cancelled else skip)))"

text \<open>A command to a device, logged with the state at its dispatch, and any other service.\<close>

definition device_call :: "string \<Rightarrow> string \<Rightarrow> pydict \<Rightarrow> unit action" where
  "device_call domain service data =
     thn (upd (\<lambda>w. w\<lparr>w_trace := ((domain, service, data), ctl.truncate w) # w_trace w\<rparr>)) await"

definition notice_call :: "string \<Rightarrow> string \<Rightarrow> pydict \<Rightarrow> unit action" where
  "notice_call domain service data =
     thn (upd (\<lambda>w. w\<lparr>w_notices := (domain, service, data) # w_notices w\<rparr>)) await"

section \<open>Ingestion of the load\<close>

definition accept_load_report :: "coord \<Rightarrow> coord" where
  "accept_load_report w =
     (case c_load_reported_at w of
        None \<Rightarrow> w
      | Some r \<Rightarrow>
          if (case c_last_accepted_at w of None \<Rightarrow> True | Some a \<Rightarrow> a < r)
          then w\<lparr>c_last_accepted_at := Some r, c_generation := c_generation w + 1\<rparr> else w)"

text \<open>The two deques are filled and emptied together; each keeps its last 240 entries.\<close>

definition append_load_sample :: "rat \<Rightarrow> coord \<Rightarrow> coord" where
  "append_load_sample load w =
     (if load < 0 then w
      else w\<lparr>c_samples := dropWhile (\<lambda>(_, t). k_averaging_period w < w_now w - t)
               (last_n MAX_SAMPLES (c_samples w @ [(load, w_now w)]))\<rparr>)"

definition reconcile_fences :: "coord \<Rightarrow> coord" where
  "reconcile_fences w =
     (let e1 = (if pending_post_shed_generation (c_engine w) \<noteq> None
                then snd (reconcile_shed (c_engine w) (c_generation w) (map_option Fin (c_load_reported_at w)))
                else c_engine w);
          e2 = (if pending_post_restore_generation e1 \<noteq> None
                then snd (reconcile_restore e1 (c_generation w) (map_option Fin (c_load_reported_at w)))
                else e1)
      in w\<lparr>c_engine := e2\<rparr>)"

definition ingested :: "coord \<Rightarrow> coord" where
  "ingested w =
     (let w1 = sampled w in
      if \<not> c_load_valid w1 then reset_window (w1\<lparr>c_samples := []\<rparr>)
      else reconcile_fences (append_load_sample (lr_value (sensor_reading w)) (accept_load_report w1)))"

definition ingest_load_telemetry :: "rat action" where
  "ingest_load_telemetry = look (\<lambda>w. thn (upd ingested) (ret (lr_value (sensor_reading w))))"

text \<open>The log keeps a plain copy of the state.\<close>

lemma truncate_selectors [simp]:
  "k_mobile (ctl.truncate w) = k_mobile w"
  "k_translate (ctl.truncate w) = k_translate w"
  "k_digest (ctl.truncate w) = k_digest w"
  "k_uuid (ctl.truncate w) = k_uuid w"
  "w_now (ctl.truncate w) = w_now w"
  "w_mono (ctl.truncate w) = w_mono w"
  "w_states (ctl.truncate w) = w_states w"
  "w_script (ctl.truncate w) = w_script w"
  "w_uuids (ctl.truncate w) = w_uuids w"
  "w_disk (ctl.truncate w) = w_disk w"
  "w_notices (ctl.truncate w) = w_notices w"
  "w_fired (ctl.truncate w) = w_fired w"
  "k_load_sensor (ctl.truncate w) = k_load_sensor w"
  "k_averaging_period (ctl.truncate w) = k_averaging_period w"
  "k_pause_period (ctl.truncate w) = k_pause_period w"
  "k_source (ctl.truncate w) = k_source w"
  "k_entry_id (ctl.truncate w) = k_entry_id w"
  "k_version (ctl.truncate w) = k_version w"
  "c_model (ctl.truncate w) = c_model w"
  "c_store (ctl.truncate w) = c_store w"
  "c_engine (ctl.truncate w) = c_engine w"
  "c_tx (ctl.truncate w) = c_tx w"
  "c_intents (ctl.truncate w) = c_intents w"
  "c_faults (ctl.truncate w) = c_faults w"
  "c_stopping (ctl.truncate w) = c_stopping w"
  "c_mode (ctl.truncate w) = c_mode w"
  "c_startup_ready (ctl.truncate w) = c_startup_ready w"
  "c_startup_deadline (ctl.truncate w) = c_startup_deadline w"
  "c_status (ctl.truncate w) = c_status w"
  "c_last_action (ctl.truncate w) = c_last_action w"
  "c_last_decision (ctl.truncate w) = c_last_decision w"
  "c_load_valid (ctl.truncate w) = c_load_valid w"
  "c_load_reason (ctl.truncate w) = c_load_reason w"
  "c_load_reported_at (ctl.truncate w) = c_load_reported_at w"
  "c_last_accepted_at (ctl.truncate w) = c_last_accepted_at w"
  "c_generation (ctl.truncate w) = c_generation w"
  "c_samples (ctl.truncate w) = c_samples w"
  "c_pending_fault (ctl.truncate w) = c_pending_fault w"
  "c_source_loss (ctl.truncate w) = c_source_loss w"
  "c_last_observed (ctl.truncate w) = c_last_observed w"
  "c_reconciled (ctl.truncate w) = c_reconciled w"
  "c_confirmed_at (ctl.truncate w) = c_confirmed_at w"
  "c_last_operation_id (ctl.truncate w) = c_last_operation_id w"
  "c_last_action_id (ctl.truncate w) = c_last_action_id w"
  "c_last_result (ctl.truncate w) = c_last_result w"
  "c_next_operation (ctl.truncate w) = c_next_operation w"
  "c_journal_invalid (ctl.truncate w) = c_journal_invalid w"
  "c_journal_dirty (ctl.truncate w) = c_journal_dirty w"
  "c_persist_blocked (ctl.truncate w) = c_persist_blocked w"
  "c_storage_invalid (ctl.truncate w) = c_storage_invalid w"
  "c_safety_reason (ctl.truncate w) = c_safety_reason w"
  "c_fingerprints (ctl.truncate w) = c_fingerprints w"
  "c_pending_fingerprints (ctl.truncate w) = c_pending_fingerprints w"
  "c_notices_dirty (ctl.truncate w) = c_notices_dirty w"
  "c_notice_active (ctl.truncate w) = c_notice_active w"
  "c_tele_latched (ctl.truncate w) = c_tele_latched w"
  "c_tele_reason (ctl.truncate w) = c_tele_reason w"
  "c_tele_handled (ctl.truncate w) = c_tele_handled w"
  "c_tele_recorded (ctl.truncate w) = c_tele_recorded w"
  "c_persisted_tele (ctl.truncate w) = c_persisted_tele w"
  "c_incident (ctl.truncate w) = c_incident w"
  "c_expected_off (ctl.truncate w) = c_expected_off w"
  "c_deferred_off (ctl.truncate w) = c_deferred_off w"
  "c_rejections (ctl.truncate w) = c_rejections w"
  "c_reconfiguration (ctl.truncate w) = c_reconfiguration w"
  by (simp_all add: ctl.defs)

section \<open>Frames\<close>

text \<open>
  What an action adds to the log of commands. Actions are composed, so a bound on the entries
  each part adds bounds what the whole adds, whatever the parts return or raise.
\<close>

definition extends :: "(command \<times> ctl \<Rightarrow> bool) \<Rightarrow> coord \<Rightarrow> coord \<Rightarrow> bool" where
  "extends P w w' \<longleftrightarrow> (\<exists>new. w_trace w' = new @ w_trace w \<and> list_all P new)"

interpretation commands: action_relation "extends P" for P
proof
  show "extends P w w" for w by (simp add: extends_def)
  show "extends P u v \<Longrightarrow> extends P v w \<Longrightarrow> extends P u w" for u v w
    by (force simp: extends_def)
qed

named_theorems frames and trace_simps

declare commands.keeps_rules [frames]

lemma extends_same: "w_trace w' = w_trace w \<Longrightarrow> extends P w w'"
  by (simp add: extends_def)

lemma trace_sampled [trace_simps]: "w_trace (sampled w) = w_trace w"
  by (simp add: sampled_def)

lemma trace_reset [trace_simps]: "w_trace (reset_window w) = w_trace w"
  by (simp add: reset_window_def)

lemma trace_latch_report [trace_simps]: "w_trace (latch_report_fault r w) = w_trace w"
  by (simp add: latch_report_fault_def)

lemma trace_ingested [trace_simps]: "w_trace (ingested w) = w_trace w"
  by (simp add: ingested_def reconcile_fences_def append_load_sample_def accept_load_report_def
      trace_simps Let_def split: option.split)

lemma trace_observe [trace_simps]: "w_trace (observe_entity_report e st p w) = w_trace w"
  by (simp add: observe_entity_report_def observe_aggregate_report_def observe_safety_report_def
      trace_simps Let_def)

lemma trace_interfere [trace_simps]: "w_trace (interfere i w) = w_trace w"
  by (cases i) (simp_all add: deliver_report_def trace_simps Let_def)

lemma trace_fold [trace_simps]: "w_trace (fold interfere evs w) = w_trace w"
  by (induction evs arbitrary: w) (simp_all add: trace_simps)

lemma trace_pass_time [trace_simps]: "w_trace (pass_time st w) = w_trace w"
  by (simp add: pass_time_def trace_simps)

lemma upd_frame [frames]: "(\<And>w. w_trace (f w) = w_trace w) \<Longrightarrow> keeps (extends P) (upd f)"
  by (rule commands.keeps_upd) (simp add: extends_same)

lemma await_frame [frames]: "keeps (extends P) await"
  unfolding await_def
  by (intro frames) (simp_all add: trace_simps frames split: await_end.split)

lemma sleep_frame [frames]: "keeps (extends P) (sleep d)"
  unfolding sleep_def by (intro frames) (simp_all add: trace_simps)

lemma notice_frame [frames]: "keeps (extends P) (notice_call d s x)"
  unfolding notice_call_def by (intro frames) simp

lemma read_load_frame [frames]: "keeps (extends P) read_load"
  unfolding read_load_def by (intro frames) (simp add: trace_simps)

lemma ingest_frame [frames]: "keeps (extends P) ingest_load_telemetry"
  unfolding ingest_load_telemetry_def by (intro frames) (simp add: trace_simps)

text \<open>The only action that logs a command logs exactly one, with the state it finds.\<close>

lemma device_call_extends: "P ((d, s, x), ctl.truncate w) \<Longrightarrow> extends P w (snd (device_call d s x w))"
proof -
  assume p: "P ((d, s, x), ctl.truncate w)"
  let ?w = "w\<lparr>w_trace := ((d, s, x), ctl.truncate w) # w_trace w\<rparr>"
  have "extends P ?w (snd (await ?w))" using await_frame [of P] by (simp add: keeps_def)
  moreover have "extends P w ?w" using p by (simp add: extends_def)
  ultimately show ?thesis
    unfolding device_call_def thn_upd by (rule commands.rel_trans [rotated])
qed

section \<open>The clock of the controller is an event loop\<close>

lemma mono_observe: "w_mono (observe_entity_report e st p w) = w_mono w"
  by (simp add: observe_entity_report_def observe_aggregate_report_def observe_safety_report_def
      latch_report_fault_def reset_window_def Let_def)

lemma mono_interfere: "w_mono w \<le> w_mono (interfere i w)"
  by (cases i) (simp_all add: deliver_report_def mono_observe Let_def)

lemma mono_fold: "w_mono w \<le> w_mono (fold interfere evs w)"
  by (induction evs arbitrary: w) (use mono_interfere order_trans in \<open>auto intro: order_trans\<close>)

lemma mono_pass_time: "w_mono w \<le> w_mono (pass_time st w)"
  using mono_fold [of "w\<lparr>w_script := tl (w_script w)\<rparr>"] by (simp add: pass_time_def)

interpretation controller: event_loop "w_mono :: coord \<Rightarrow> rat" sleep
proof
  fix d and w w' :: coord
  assume "sleep d w = (Inr (), w')"
  then have "w' = pass_time (next_await w) (w\<lparr>w_now := w_now w + d, w_mono := w_mono w + max 0 d\<rparr>)"
    by (auto simp: sleep_def next_await_def split: if_splits)
  then have "w_mono w + max 0 d \<le> w_mono w'"
    using mono_pass_time [of "w\<lparr>w_now := w_now w + d, w_mono := w_mono w + max 0 d\<rparr>"] by simp
  then show "w_mono w + d \<le> w_mono w'" by simp
next
  show "fst (sleep d w) \<noteq> Inl OutOfFuel" for d and w :: coord
    by (simp add: sleep_def)
qed

end
