(* ===== verification/Coordinator_Journal.thy ===== *)
theory Coordinator_Journal
  imports Coordinator_State
begin

text \<open>
  What \<open>coordinator.py\<close> records, saves and announces: action records, the runtime snapshot and its
  durable write, events on the bus, and notifications. None of it commands a device.
\<close>

section \<open>Action records and events\<close>

definition new_action_id :: "string \<Rightarrow> string action" where
  "new_action_id label = look (\<lambda>w.
     thn (upd (\<lambda>w. w\<lparr>w_uuids := Suc (w_uuids w)\<rparr>)) (ret (label @ ''_'' @ k_uuid w (w_uuids w))))"

definition next_operation_id :: "nat action" where
  "next_operation_id =
     thn (upd (\<lambda>w. w\<lparr>c_next_operation := Suc (c_next_operation w)\<rparr>)) (gets c_next_operation)"

definition history_of :: "runtime_store \<Rightarrow> pyval" where
  "history_of s = dget_or (rs_data s) ''audit_history'' (PList [])"

text \<open>A record that is not normalizable leaves the payload alone; the journal counts as dirty
  as soon as the store was asked.\<close>

definition recorded :: "bool \<Rightarrow> pyval \<Rightarrow> coord \<Rightarrow> coord" where
  "recorded written h w =
     (if \<not> written then w
      else w\<lparr>c_store := (if h = history_of (c_store w) then c_store w else put ''audit_history'' h (c_store w)),
             c_journal_dirty := True\<rparr>)"

definition note_action :: "pydict \<Rightarrow> unit action" where
  "note_action event = look (\<lambda>w.
     bnd (lift (record_action (w_now w) (history_of (c_store w)) event)) (\<lambda>(written, h). upd (recorded written h)))"

definition fire_event :: "string \<Rightarrow> pydict \<Rightarrow> unit action" where
  "fire_event event_type data =
     upd (\<lambda>w. w\<lparr>w_fired := (event_type, event_payload event_type data (k_entry_id w) (c_mode w)) # w_fired w\<rparr>)"

section \<open>Saving\<close>

definition reason_items :: "fault_registry \<Rightarrow> power_model \<Rightarrow> (string \<times> string) list" where
  "reason_items f model =
     List.map_filter (\<lambda>d. map_option (Pair (d_device_id d)) (reasons f (d_device_id d))) (all_devices model)"

definition saved_snapshot :: "coord \<Rightarrow> coord" where
  "saved_snapshot w = w\<lparr>c_store :=
     save_telemetry_fault (c_tele_latched w) (c_tele_reason w) (c_tele_handled w)
      (save_fault_notification_state (c_fingerprints w) (c_pending_fingerprints w)
       (save_device_runtime (c_model w) (faulted (c_faults w)) (quarantined (c_faults w))
           (reason_items (c_faults w) (c_model w))
        (save_restore_tickets (tr_tickets (c_tx w))
         (save_policy_runtime (c_engine w)
          (save_requests (c_intents w)
           (store_set_mode (c_mode w) (c_store w)))))))\<rparr>"

text \<open>\<open>RuntimeStore.async_save\<close>: the payload is on disk once the write has ended without error.\<close>

definition async_save :: "unit action" where
  "async_save = thn (upd (\<lambda>w. w\<lparr>c_store := store_save (c_store w)\<rparr>))
     (look (\<lambda>w. thn await (upd (\<lambda>v. v\<lparr>w_disk := rs_data (c_store w)\<rparr>))))"

definition telemetry_state :: "'a ctl_scheme \<Rightarrow> bool \<times> string option \<times> bool" where
  "telemetry_state w = (c_tele_latched w, c_tele_reason w, c_tele_handled w)"

definition unsaved :: "'a ctl_scheme \<Rightarrow> bool" where
  "unsaved w \<longleftrightarrow> fault_dirty (c_faults w) \<or> c_journal_dirty w \<or> c_journal_invalid w \<or> c_persist_blocked w
     \<or> c_notices_dirty w \<or> telemetry_state w \<noteq> c_persisted_tele w"

definition persist_runtime_if_dirty :: "bool action" where
  "persist_runtime_if_dirty = look (\<lambda>w.
     if \<not> unsaved w then ret True
     else bnd (try_except
            (thn (upd saved_snapshot) (thn async_save (ret True)))
            (\<lambda>e. thn (upd (\<lambda>w. w\<lparr>c_persist_blocked := True, c_status := ''safety_blocked''\<rparr>)) (ret False)))
          (\<lambda>ok. if \<not> ok then ret False
            else thn (upd (\<lambda>v. v\<lparr>c_faults := (c_faults v)\<lparr>fault_dirty := False\<rparr>, c_journal_dirty := False,
                       c_notices_dirty := False, c_persist_blocked := False,
                       c_persisted_tele := telemetry_state w\<rparr>))
                   (ret True)))"

definition persist_runtime :: "unit action" where
  "persist_runtime = thn (upd saved_snapshot) async_save"

definition record_observe_only_action ::
  "string \<Rightarrow> string \<Rightarrow> string option \<Rightarrow> string option \<Rightarrow> string \<Rightarrow> pyval \<Rightarrow> pyval \<Rightarrow> unit action" where
  "record_observe_only_action action_name reason action_id device_id source actor_id context_id =
     bnd (case action_id of Some (c # cs) \<Rightarrow> ret (c # cs) | _ \<Rightarrow> new_action_id ''observe'') (\<lambda>i.
       thn (note_action
         [(''action_id'', PStr i), (''device_id'', opt_text device_id), (''action'', PStr action_name),
          (''result'', PStr ''observe_only''), (''phase'', PStr ''observe_only''), (''reason'', PStr reason),
          (''source'', PStr source), (''actor_id'', actor_id), (''context_id'', context_id)])
         (bnd persist_runtime_if_dirty (\<lambda>_. skip)))"

section \<open>Notifications\<close>

definition telemetry_notification_id :: "'a ctl_scheme \<Rightarrow> string" where
  "telemetry_notification_id w = NOTIFY_TELEMETRY_ID @ ''_'' @ k_entry_id w"

definition TELEMETRY_NOTIFICATION_TITLE :: string where
  "TELEMETRY_NOTIFICATION_TITLE = ''Power Orchestrator: telemetry unavailable''"

definition telemetry_notification_message :: "string \<Rightarrow> string" where
  "telemetry_notification_message reason = ''Telemetry fault: '' @ take 120 reason @
     ''. Managed devices keep their current state. '' @
     ''Monitoring and the fault recover automatically when valid telemetry returns.''"

text \<open>Loading the translations awaits; where it or the formatting fails the safe text is used.\<close>

definition telemetry_notification_text :: "string \<Rightarrow> (string \<times> string) action" where
  "telemetry_notification_text reason =
     try_except
       (thn await (look (\<lambda>w. case k_translate w (take 120 reason) of
           Some p \<Rightarrow> ret p | None \<Rightarrow> raise KeyErr)))
       (\<lambda>_. ret (TELEMETRY_NOTIFICATION_TITLE, telemetry_notification_message reason))"

definition notice_data :: "string \<Rightarrow> string \<Rightarrow> string \<Rightarrow> pydict" where
  "notice_data notification_id title message =
     [(''notification_id'', PStr notification_id), (''title'', PStr title), (''message'', PStr message)]"

definition fault_event :: "string \<Rightarrow> unit action" where
  "fault_event reason = upd (\<lambda>w. w\<lparr>w_fired := (''jarvis_household_event'',
     [(''version'', PInt 1), (''kind'', PStr ''power_orchestrator_fault''), (''source'', PStr (k_load_sensor w)),
      (''value'', PStr (take 120 reason)), (''occurred_at'', PFloat (Fin (w_now w)))]) # w_fired w\<rparr>)"

definition mobile_notice :: "string \<Rightarrow> string \<Rightarrow> string \<Rightarrow> unit action" where
  "mobile_notice notification_id title message = look (\<lambda>w.
     whenever (k_mobile w)
       (try_except
         (notice_call ''notify'' ''mobile_app_iphone_rostyslav_pro''
           [(''title'', PStr title), (''message'', PStr message),
            (''data'', PDict [(''tag'', PStr notification_id)])])
         (\<lambda>_. skip)))"

definition notified :: "string \<Rightarrow> string \<Rightarrow> coord \<Rightarrow> coord" where
  "notified notification_id fingerprint w =
     w\<lparr>c_notice_active := True,
       c_fingerprints := AList.update notification_id fingerprint (c_fingerprints w), c_notices_dirty := True\<rparr>"

definition ensure_telemetry_notification :: "string \<Rightarrow> unit action" where
  "ensure_telemetry_notification reason = look (\<lambda>w.
     let notification_id = telemetry_notification_id w;
         fingerprint = take 16 (k_digest w (c_mode w @ '':'' @ reason))
     in if c_notice_active w \<and> map_of (c_fingerprints w) notification_id = Some fingerprint then skip
        else bnd (telemetry_notification_text reason) (\<lambda>(title, message).
          bnd (try_except
                 (thn (notice_call ''persistent_notification'' ''create'' (notice_data notification_id title message))
                   (ret True))
                 (\<lambda>_. ret False))
            (\<lambda>created. if \<not> created then skip
               else thn (upd (notified notification_id fingerprint))
                 (thn (mobile_notice notification_id title message) (fault_event reason)))))"

definition dismissed :: "coord \<Rightarrow> coord" where
  "dismissed w = w\<lparr>c_notice_active := False,
     c_fingerprints := AList.delete (telemetry_notification_id w) (c_fingerprints w), c_notices_dirty := True\<rparr>"

definition dismiss_telemetry_notification :: "unit action" where
  "dismiss_telemetry_notification = look (\<lambda>w.
     if \<not> c_notice_active w then skip
     else bnd (try_except
            (thn (notice_call ''persistent_notification'' ''dismiss''
                   [(''notification_id'', PStr (telemetry_notification_id w))]) (ret True))
            (\<lambda>_. ret False))
          (\<lambda>ok. if ok then upd dismissed else skip))"

definition ensure_manual_on_notification :: "managed_device \<Rightarrow> string \<Rightarrow> unit action" where
  "ensure_manual_on_notification d outcome = look (\<lambda>w.
     try_except
       (notice_call ''persistent_notification'' ''create''
         (notice_data (NOTIFY_MANUAL_ON_PREFIX @ ''_'' @ k_entry_id w @ ''_'' @ d_device_id d)
           ''Power Orchestrator manual ON''
           (d_name d @ '' was turned on while pending restore. '' @ outcome)))
       (\<lambda>_. skip))"

text \<open>The fingerprints of the faults, one per faulted load.\<close>

definition fault_fingerprint :: "'a ctl_scheme \<Rightarrow> string \<Rightarrow> string" where
  "fault_fingerprint w device_id = take 32 (k_digest w (device_id @ '':'' @
     (case reasons (c_faults w) device_id of Some r \<Rightarrow> r | None \<Rightarrow> reason_value FAULT)))"

definition fingerprint_fault :: "string \<Rightarrow> coord \<Rightarrow> coord" where
  "fingerprint_fault device_id w =
     (if map_of (c_fingerprints w) device_id = Some (fault_fingerprint w device_id) then w
      else w\<lparr>c_fingerprints := AList.update device_id (fault_fingerprint w device_id) (c_fingerprints w),
             c_notices_dirty := True\<rparr>)"

definition notify_faults :: "unit action" where
  "notify_faults = look (\<lambda>w.
     if faulted (c_faults w) = {} then skip
     else thn (upd (fold fingerprint_fault (sorted_list_of_set (faulted (c_faults w)))))
            (bnd persist_runtime_if_dirty (\<lambda>_. skip)))"

section \<open>No command is issued here\<close>

lemma trace_recorded [trace_simps]: "w_trace (recorded b h w) = w_trace w"
  by (simp add: recorded_def)

lemma trace_saved [trace_simps]: "w_trace (saved_snapshot w) = w_trace w"
  by (simp add: saved_snapshot_def)

lemma trace_notified [trace_simps]: "w_trace (notified n f w) = w_trace w" "w_trace (dismissed w) = w_trace w"
  by (simp_all add: notified_def dismissed_def)

lemma trace_fingerprints [trace_simps]: "w_trace (fold fingerprint_fault is w) = w_trace w"
  by (induction "is" arbitrary: w) (simp_all add: fingerprint_fault_def)

lemma new_action_id_frame [frames]: "keeps (extends P) (new_action_id p)"
  unfolding new_action_id_def by (intro frames) simp

lemma next_operation_id_frame [frames]: "keeps (extends P) next_operation_id"
  unfolding next_operation_id_def by (intro frames) simp

lemma note_action_frame [frames]: "keeps (extends P) (note_action ev)"
  unfolding note_action_def by (intro frames) (simp add: trace_simps)

lemma fire_event_frame [frames]: "keeps (extends P) (fire_event t d)"
  unfolding fire_event_def by (intro frames) simp

lemma async_save_frame [frames]: "keeps (extends P) async_save"
  unfolding async_save_def by (intro frames) simp_all

lemma persist_frame [frames]: "keeps (extends P) persist_runtime_if_dirty"
  unfolding persist_runtime_if_dirty_def by (intro frames) (simp_all add: trace_simps)

lemma persist_runtime_frame [frames]: "keeps (extends P) persist_runtime"
  unfolding persist_runtime_def by (intro frames) (simp_all add: trace_simps)

lemma observe_only_frame [frames]: "keeps (extends P) (record_observe_only_action a r i d s x c)"
  unfolding record_observe_only_action_def
  by (intro frames) (simp add: frames split: option.split list.split)

lemma notification_text_frame [frames]: "keeps (extends P) (telemetry_notification_text r)"
  unfolding telemetry_notification_text_def by (intro frames)

lemma ensure_telemetry_frame [frames]: "keeps (extends P) (ensure_telemetry_notification r)"
  unfolding ensure_telemetry_notification_def mobile_notice_def fault_event_def Let_def
  by (intro frames) (simp_all add: trace_simps)

lemma dismiss_telemetry_frame [frames]: "keeps (extends P) dismiss_telemetry_notification"
  unfolding dismiss_telemetry_notification_def by (intro frames) (simp_all add: trace_simps)

lemma manual_notice_frame [frames]: "keeps (extends P) (ensure_manual_on_notification d t)"
  unfolding ensure_manual_on_notification_def by (intro frames)

lemma notify_faults_frame [frames]: "keeps (extends P) notify_faults"
  unfolding notify_faults_def by (intro frames) (simp add: trace_simps)

end
