(* ===== verification/Coordinator_Commands.thy ===== *)
theory Coordinator_Commands
  imports Coordinator_Journal
begin

text \<open>
  The physical commands of \<open>coordinator.py\<close>: the permissions checked again right before every
  dispatch, the OFF and ON commands run through the durable protocol, and what a confirmed or
  failed command leaves behind (pause, ticket, fence, latch).
\<close>

section \<open>Tickets, pauses and latches\<close>

definition update_device :: "managed_device \<Rightarrow> (managed_device \<Rightarrow> managed_device) \<Rightarrow> coord \<Rightarrow> coord" where
  "update_device d f w = w\<lparr>c_model := set_device (d_device_id d) f (c_model w)\<rparr>"

definition remove_pending_restore :: "string \<Rightarrow> coord \<Rightarrow> coord" where
  "remove_pending_restore device_id w = w\<lparr>c_tx := tr_remove device_id (c_tx w), c_journal_dirty := True\<rparr>"

definition pause_device :: "managed_device \<Rightarrow> unit action" where
  "pause_device d = look (\<lambda>w.
     thn (upd (update_device d (\<lambda>x. x\<lparr>d_last_turn_off_time := Some (w_now w)\<rparr>)))
       (if k_pause_period w \<le> 0
        then thn (upd (update_device d (\<lambda>x. x\<lparr>d_pause_until := None\<rparr>)))
               (bnd (lift (clear_pause (d_device_id d) (c_store w))) (\<lambda>s. upd (\<lambda>w. w\<lparr>c_store := s\<rparr>)))
        else thn (upd (update_device d (\<lambda>x. x\<lparr>d_pause_until := Some (w_now w + k_pause_period w)\<rparr>)))
               (bnd (lift (set_pause (w_now w) (d_device_id d) (PFloat (Fin (w_now w + k_pause_period w))) (c_store w)))
                 (\<lambda>s. upd (\<lambda>w. w\<lparr>c_store := s\<rparr>)))))"

definition operation_text :: "string option \<Rightarrow> string" where
  "operation_text i = (case i of Some (c # cs) \<Rightarrow> c # cs | _ \<Rightarrow> ''unknown'')"

definition create_restore_ticket :: "managed_device \<Rightarrow> string \<Rightarrow> pydict \<Rightarrow> string option \<Rightarrow> unit action" where
  "create_restore_ticket d cause restore_state operation_id = look (\<lambda>w.
     case tr_create (d_device_id d) cause
            (operation_text (if operation_id = None \<or> operation_id = Some [] then c_last_operation_id w else operation_id))
            restore_state (active_sources (c_intents w) (d_device_id d) (w_now w)) (w_now w) (c_tx w) of
       (r, tr) \<Rightarrow> thn (upd (\<lambda>w. w\<lparr>c_tx := tr\<rparr>)) (thn (lift r) (upd (\<lambda>w. w\<lparr>c_journal_dirty := True\<rparr>))))"

definition confirmed_report_of :: "'a ctl_scheme \<Rightarrow> managed_device \<Rightarrow> pyfloat option" where
  "confirmed_report_of w d = map_option Fin (c_confirmed_at w (d_device_id d))"

definition commit_stop :: "managed_device \<Rightarrow> string \<Rightarrow> pydict \<Rightarrow> policy_decision option \<Rightarrow> unit action" where
  "commit_stop d cause restore_state decision =
     thn (pause_device d) (look (\<lambda>w.
       let operation_id = operation_text (c_last_operation_id w) in
       thn (create_restore_ticket d cause restore_state (Some operation_id))
         (case decision of
            None \<Rightarrow> skip
          | Some x \<Rightarrow> upd (\<lambda>w. w\<lparr>c_engine := set_post_shed_fence
                (append_shed (c_engine w) operation_id (c_generation w) (decision_reason x))
                (confirmed_report_of w d)\<rparr>))))"

definition latch_device_fault :: "managed_device \<Rightarrow> string \<Rightarrow> coord \<Rightarrow> coord" where
  "latch_device_fault d reason w =
     (update_device d (\<lambda>x. x\<lparr>d_is_on := None\<rparr>) w)
       \<lparr>c_faults := latch (c_faults w) (d_device_id d) reason, c_status := ''safety_blocked''\<rparr>"

definition action_persistence_failed :: "string \<Rightarrow> string \<Rightarrow> coord \<Rightarrow> coord" where
  "action_persistence_failed device_id reason w =
     reset_window ((case get_device (c_model w) device_id of
         None \<Rightarrow> w | Some d \<Rightarrow> latch_device_fault d reason w)
       \<lparr>c_last_result := ''failed'', c_safety_reason := Some reason\<rparr>)"

text \<open>The environment of the durable protocol: the controller's own recorder, writer and latch.\<close>

definition controller_env :: "coord transition_env" where
  "controller_env = \<lparr>tx_record = note_action, tx_persist = persist_runtime_if_dirty,
     tx_failed = (\<lambda>i r. upd (action_persistence_failed i r)),
     tx_remove = (\<lambda>i. upd (\<lambda>w. w\<lparr>c_tx := tr_remove i (c_tx w)\<rparr>))\<rparr>"

section \<open>Battery policy\<close>

definition battery_charge :: "'a ctl_scheme \<Rightarrow> rat option" where
  "battery_charge w =
     (case ss_battery_soc_sensor (k_source w) of
        Some (c # cs) \<Rightarrow>
          (case w_states w (c # cs) of
             None \<Rightarrow> None
           | Some s \<Rightarrow> if \<not> state_is_available (Some s) \<or> \<not> percent_unit s then None else soc_value s)
      | _ \<Rightarrow> None)"

definition battery_policy_active :: "'a ctl_scheme \<Rightarrow> managed_device \<Rightarrow> bool" where
  "battery_policy_active w d \<longleftrightarrow> d_battery_min_soc d \<noteq> None \<and> truthy_str (ss_battery_soc_sensor (k_source w))"

definition battery_permits :: "'a ctl_scheme \<Rightarrow> managed_device \<Rightarrow> bool" where
  "battery_permits w d =
     (if \<not> battery_policy_active w d \<or> \<not> c_load_valid w then False
      else case (battery_charge w, d_battery_min_soc d) of
             (Some charge, Some minimum) \<Rightarrow> minimum \<le> charge
           | _ \<Rightarrow> False)"

section \<open>Evidence\<close>

definition safety_state_of :: "'a ctl_scheme \<Rightarrow> ha_state option \<Rightarrow> pyval" where
  "safety_state_of w source =
     (let raw = (case source of None \<Rightarrow> ''unknown'' | Some s \<Rightarrow> st_state s)
      in if raw \<in> set [''on'', ''off'', ''unknown'', ''unavailable''] then PStr raw
         else case source of
                Some s \<Rightarrow> if grid_safety_source_available w then PFloat (state_number s) else PStr ''invalid''
              | None \<Rightarrow> PStr ''invalid'')"

definition action_input_snapshot :: "'a ctl_scheme \<Rightarrow> managed_device \<Rightarrow> pydict" where
  "action_input_snapshot w d =
     (let now = w_now w; reading = sensor_reading w;
          source = w_states w (case source_entity_id (k_source w) of Some e \<Rightarrow> e | None \<Rightarrow> [])
      in [(''captured_at'', PFloat (Fin now)),
          (''integration_version'', opt_text (k_version w)),
          (''policy_version'', PStr (policy_version (policy (c_engine w)))),
          (''mode'', PStr (c_mode w)),
          (''load_w'', if lr_valid reading then PFloat (Fin (lr_value reading)) else PNone),
          (''load_valid'', PBool (lr_valid reading)),
          (''load_reason'', PStr (lr_reason reading)),
          (''load_reported_at'', opt_float (lr_reported_at reading)),
          (''load_age_s'', opt_float (map_option (\<lambda>r. now - r) (lr_reported_at reading))),
          (''load_max_age_s'', PFloat (Fin LOAD_TELEMETRY_MAX_AGE_SECONDS)),
          (''safety_state'', safety_state_of w source),
          (''safety_available'', PBool (grid_safety_source_available w)),
          (''safety_ok'', PBool (grid_ok w)),
          (''safety_reported_at'', opt_float (state_reported_timestamp source)),
          (''battery_threshold'', opt_float (ss_battery_threshold (k_source w))),
          (''battery_charge'', opt_float (battery_charge w)),
          (''battery_min_soc'', opt_float (d_battery_min_soc d)),
          (''thresholds'', PList (map (\<lambda>t. PDict [(''limit_w'', PFloat (Fin (limit_w t))),
              (''duration_s'', PFloat (Fin (duration_s t)))]) (thresholds (policy (c_engine w)))))])"

section \<open>Readback\<close>

definition controller_loop :: "coord loop_env" where
  "controller_loop = \<lparr>env_states = w_states, env_now = w_now, env_mono = w_mono, env_sleep = sleep\<rparr>"

definition confirm_device_state :: "managed_device \<Rightarrow> readback \<Rightarrow> rat \<Rightarrow> bool action" where
  "confirm_device_state d rb issued_at =
     bnd (readback_wait controller_loop rb issued_at (Fin RELAY_READBACK_TIMEOUT_SECONDS)
            (Fin RELAY_READBACK_POLL_INTERVAL_SECONDS))
       (\<lambda>confirmed. case confirmed of
          None \<Rightarrow> ret False
        | Some r \<Rightarrow> thn (upd (\<lambda>w. w\<lparr>c_confirmed_at := (c_confirmed_at w)(d_device_id d \<mapsto> r)\<rparr>)) (ret True))"

section \<open>Switching a load off\<close>

definition off_clear :: "'a ctl_scheme \<Rightarrow> managed_device \<Rightarrow> bool \<Rightarrow> string \<Rightarrow> bool" where
  "off_clear w d emergency source =
     (if \<not> emergency then physical_commands_allowed w
      else if \<not> emergency_commands_allowed w then False
      else if source = ''emergency'' then True
      else if \<not> grid_safety_source_available w \<or> grid_ok w then False
      else source \<notin> set [''grid_loss'', ''battery_minimum'', ''manual_on_reshed''] \<or> \<not> battery_permits w d)"

definition off_dispatch_permitted :: "managed_device \<Rightarrow> bool \<Rightarrow> string \<Rightarrow> bool action" where
  "off_dispatch_permitted d emergency source =
     thn (if emergency then skip else upd sampled) (gets (\<lambda>w. off_clear w d emergency source))"

definition off_result :: "bool \<Rightarrow> transition_result" where
  "off_result confirmed = (if confirmed then CONFIRMED else FAILED)"

definition fallback_off :: "managed_device \<Rightarrow> bool \<Rightarrow> string \<Rightarrow> transition_result action" where
  "fallback_off d emergency source =
     bnd (off_dispatch_permitted d emergency source) (\<lambda>ok.
       if \<not> ok then ret FAILED
       else look (\<lambda>w.
         bnd (issue_emergency_fallback device_call (emergency_off_entities d) (off_dispatch_permitted d emergency source))
           (\<lambda>issued. if \<not> issued then ret FAILED
             else bnd (confirm_device_state d (new_readback (w_states w) d ''off'') (w_now w)) (\<lambda>confirmed.
               ret (off_result confirmed)))))"

definition dispatch_off :: "managed_device \<Rightarrow> bool \<Rightarrow> string \<Rightarrow> transition_result action" where
  "dispatch_off d emergency source =
     bnd (off_dispatch_permitted d emergency source) (\<lambda>ok.
       if \<not> ok then ret REJECTED
       else look (\<lambda>w.
         thn (issue_off device_call (command_entity d))
           (bnd (confirm_device_state d (new_readback (w_states w) d ''off'') (w_now w)) (\<lambda>confirmed.
             if \<not> confirmed \<and> emergency \<and> emergency_off_entities d \<noteq> [] then fallback_off d emergency source
             else ret (off_result confirmed)))))"

definition complete_off :: "managed_device \<Rightarrow> unit action \<Rightarrow> transition_result \<Rightarrow> string \<Rightarrow> unit action" where
  "complete_off d on_confirmed result reason =
     thn (upd (\<lambda>w. w\<lparr>c_last_result := result_value result\<rparr>))
       (case result of
          CONFIRMED \<Rightarrow> thn (upd (\<lambda>w. reset_window (update_device d (\<lambda>x. x\<lparr>d_is_on := Some False\<rparr>) w))) on_confirmed
        | FAILED \<Rightarrow> upd (\<lambda>w. (latch_device_fault d reason w)\<lparr>c_safety_reason := Some reason\<rparr>)
        | _ \<Rightarrow> skip)"

text \<open>The record of an action: what every phase of it carries.\<close>

definition action_base ::
  "coord \<Rightarrow> managed_device \<Rightarrow> string \<Rightarrow> string \<Rightarrow> string \<Rightarrow> string \<Rightarrow> pyval \<Rightarrow> pyval \<Rightarrow> bool \<Rightarrow> string \<Rightarrow> pydict" where
  "action_base w d action_id operation_id action_name source actor_id context_id emergency why =
     [(''action_id'', PStr action_id), (''operation_id'', PStr operation_id),
      (''device_id'', PStr (d_device_id d)), (''action'', PStr action_name), (''source'', PStr source),
      (''actor_id'', actor_id), (''context_id'', context_id), (''emergency'', PBool emergency),
      (''decision_reason'', PStr why),
      (''input_snapshot'', PDict (action_input_snapshot w d))]"

definition begin_operation :: "string action" where
  "begin_operation = bnd next_operation_id (\<lambda>n.
     thn (upd (\<lambda>w. w\<lparr>c_last_operation_id := Some (nat_text n)\<rparr>)) (ret (nat_text n)))"

definition given_action_id :: "string option \<Rightarrow> string \<Rightarrow> string action" where
  "given_action_id action_id label =
     bnd (case action_id of Some (c # cs) \<Rightarrow> ret (c # cs) | _ \<Rightarrow> new_action_id label) (\<lambda>i.
       thn (upd (\<lambda>w. w\<lparr>c_last_action_id := Some i\<rparr>)) (ret i))"

definition command_off ::
  "managed_device \<Rightarrow> bool \<Rightarrow> string option \<Rightarrow> string \<Rightarrow> pyval \<Rightarrow> pyval \<Rightarrow> string option \<Rightarrow> unit action
     \<Rightarrow> bool action" where
  "command_off d emergency action_id source actor_id context_id why on_confirmed =
     bnd (given_action_id action_id ''stop'') (\<lambda>aid. look (\<lambda>w.
       if d_device_id d \<in> quarantined (c_faults w) \<and> \<not> emergency then ret False
       else bnd (off_dispatch_permitted d emergency source) (\<lambda>ok.
         if \<not> ok
         then thn (upd (\<lambda>w. w\<lparr>c_last_result := ''rejected'', c_status := ''observe''\<rparr>))
                (thn (record_observe_only_action ''turn_off'' (reason_value OBSERVE_MODE) (Some aid)
                        (Some (d_device_id d)) source actor_id context_id)
                  (ret False))
         else bnd begin_operation (\<lambda>oid. look (\<lambda>w.
           bnd (execute controller_env
                  (action_base w d aid oid ''turn_off'' source actor_id context_id emergency
                    (case why of Some (c # cs) \<Rightarrow> c # cs | _ \<Rightarrow> source))
                  (dispatch_off d emergency source) (complete_off d on_confirmed))
             (\<lambda>r. ret (r = CONFIRMED)))))))"

section \<open>Switching a load on again\<close>

definition RECOVERABLE_TELEMETRY_REASONS :: "string list" where
  "RECOVERABLE_TELEMETRY_REASONS = [''safety_telemetry_unavailable'', ''load_unavailable'',
     ''load_unsupported_unit'', ''load_invalid_value'', ''load_stale'']"

text \<open>A fresh look at everything that permits switching a load on; \<open>current\<close> is the load just
  read. The identity test on the ticket is equality here: a ticket is never replaced by an equal one.\<close>

definition restore_clear :: "'a ctl_scheme \<Rightarrow> managed_device \<Rightarrow> restore_ticket \<Rightarrow> rat \<Rightarrow> bool" where
  "restore_clear w d ticket current \<longleftrightarrow>
     restore_commands_allowed w
     \<and> rt_cause ticket \<notin> set RECOVERABLE_TELEMETRY_REASONS
     \<and> map_of (tr_tickets (c_tx w)) (d_device_id d) = Some ticket
     \<and> dget (rt_restore_state ticket) ''entity_id'' = PStr (command_entity d)
     \<and> dget (rt_restore_state ticket) ''domain'' = PStr (domain_of (command_entity d))
     \<and> \<not> ticket_expired ticket (w_now w)
     \<and> \<not> is_flagged (c_faults w) (d_device_id d)
     \<and> \<not> pause_active (device_of w d) (w_now w)
     \<and> logical_device_state (w_states w) d = Some False
     \<and> actuator_state_on (command_entity d) (w_states w (command_entity d)) = Some False
     \<and> request_permits w (d_device_id d)
     \<and> current + of_int (d_expected_power d) < lowest_limit w
     \<and> restore_window_matured (c_engine w) (of_int (d_expected_power d)) (lowest_limit w) (w_mono w)"

definition restore_dispatch_permitted :: "managed_device \<Rightarrow> restore_ticket \<Rightarrow> bool action" where
  "restore_dispatch_permitted d ticket = bnd read_load (\<lambda>current. gets (\<lambda>w. restore_clear w d ticket current))"

definition dispatch_on :: "managed_device \<Rightarrow> restore_ticket \<Rightarrow> transition_result action" where
  "dispatch_on d ticket = look (\<lambda>w.
     bnd (issue_restore device_call d (rt_restore_state ticket) (restore_dispatch_permitted d ticket)) (\<lambda>issued.
       if \<not> issued then ret REJECTED
       else bnd (confirm_device_state d (new_readback (w_states w) d ''on'') (w_now w)) (\<lambda>confirmed.
         ret (off_result confirmed))))"

definition restored :: "managed_device \<Rightarrow> string \<Rightarrow> coord \<Rightarrow> coord" where
  "restored d operation_id w =
     (let w1 = remove_pending_restore (d_device_id d)
            ((update_device d (\<lambda>x. x\<lparr>d_is_on := Some True\<rparr>) w)
               \<lparr>c_last_observed := (c_last_observed w)(d_device_id d \<mapsto> Some True)\<rparr>)
      in w1\<lparr>c_engine := set_post_restore_fence (append_restore (c_engine w1) operation_id (c_generation w1))
              (confirmed_report_of w1 d)\<rparr>)"

definition complete_on :: "managed_device \<Rightarrow> string \<Rightarrow> transition_result \<Rightarrow> string \<Rightarrow> unit action" where
  "complete_on d operation_id result reason =
     thn (upd (\<lambda>w. reset_window (w\<lparr>c_last_result := result_value result\<rparr>)))
       (case result of
          CONFIRMED \<Rightarrow> upd (restored d operation_id)
        | FAILED \<Rightarrow> upd (\<lambda>w. (latch_device_fault d reason w)\<lparr>c_safety_reason := Some reason\<rparr>)
        | _ \<Rightarrow> skip)"

definition command_on ::
  "managed_device \<Rightarrow> string option \<Rightarrow> string \<Rightarrow> pyval \<Rightarrow> pyval \<Rightarrow> bool action" where
  "command_on d action_id source actor_id context_id = look (\<lambda>w.
     case map_of (tr_tickets (c_tx w)) (d_device_id d) of
       None \<Rightarrow> ret False
     | Some ticket \<Rightarrow>
         bnd (given_action_id action_id ''restore'') (\<lambda>aid. look (\<lambda>w.
           if \<not> restore_commands_allowed w \<or> \<not> request_permits w (d_device_id d)
           then thn (upd (\<lambda>w. w\<lparr>c_status := ''observe''\<rparr>))
                  (thn (record_observe_only_action ''turn_on'' (reason_value RESTORE_OBSERVE_MODE) (Some aid)
                          (Some (d_device_id d)) source actor_id context_id)
                    (ret False))
           else bnd read_load (\<lambda>current. look (\<lambda>w.
             if \<not> c_load_valid w \<or> lowest_limit w < current + of_int (d_expected_power d) then ret False
             else bnd begin_operation (\<lambda>oid. look (\<lambda>w.
               bnd (execute controller_env
                      (action_base w d aid oid ''turn_on'' source actor_id context_id False
                        (reason_value RESTORE_HEADROOM_AVAILABLE))
                      (dispatch_on d ticket) (complete_on d oid))
                 (\<lambda>r. ret (r = CONFIRMED)))))))))"

end
