(* ===== verification/Coordinator_Lanes.thy ===== *)
theory Coordinator_Lanes
  imports Coordinator_Commands
begin

text \<open>
  The evaluation cycle of \<open>coordinator.py\<close>: device states and manual starts, the telemetry and
  grid-loss lanes that come before any policy action, then shedding, restoring and monitoring.
  The em dash of some texts is written as the bytes of its UTF-8 encoding.
\<close>

section \<open>Texts\<close>

definition dash :: string where "dash = [CHR '' '', CHR 0xE2, CHR 0x80, CHR 0x94, CHR '' '']"

text \<open>\<open>f"{x:.0f}"\<close> of a non-negative number: ties go to the even neighbour.\<close>

definition whole_text :: "rat \<Rightarrow> string" where
  "whole_text x =
     (let f = \<lfloor>x\<rfloor>; r = x - of_int f
      in nat_text (nat (if r < 1 / 2 \<or> r = 1 / 2 \<and> even f then f else f + 1)))"

fun join_text :: "string list \<Rightarrow> string" where
  "join_text [] = []"
| "join_text [s] = s"
| "join_text (s # r) = s @ '', '' @ join_text r"

definition contains :: "string \<Rightarrow> string \<Rightarrow> bool" where
  "contains s part \<longleftrightarrow> list_ex (\<lambda>t. startswith t part) (suffixes s)"

definition say :: "string \<Rightarrow> unit action" where
  "say text = upd (\<lambda>w. w\<lparr>c_last_action := text\<rparr>)"

definition set_status :: "string \<Rightarrow> unit action" where
  "set_status s = upd (\<lambda>w. w\<lparr>c_status := s\<rparr>)"

definition persist :: "unit action" where
  "persist = bnd persist_runtime_if_dirty (\<lambda>_. skip)"

definition reset_restore :: "unit action" where
  "reset_restore = upd reset_window"

definition set_phase :: "policy_phase \<Rightarrow> reason_code \<Rightarrow> unit action" where
  "set_phase p r = upd (\<lambda>w. w\<lparr>c_engine := (c_engine w)\<lparr>phase := p, last_reason_code := r\<rparr>\<rparr>)"

section \<open>Measured power and enforcement\<close>

definition measured :: "state_lookup \<Rightarrow> managed_device \<Rightarrow> rat \<times> bool \<times> string" where
  "measured states d =
     (case d_power_sensor_id d of
        Some (c # cs) \<Rightarrow>
          (case states (c # cs) of
             None \<Rightarrow> (0, False, ''unavailable'')
           | Some s \<Rightarrow>
               if \<not> state_is_available (Some s) then (0, False, ''unavailable'')
               else if py_lower (unit_of s) \<notin> set [''w'', ''watt'', ''watts''] then (0, False, ''unsupported_unit'')
               else case parse_float (st_state s) of
                      None \<Rightarrow> (0, False, ''non_numeric'')
                    | Some f \<Rightarrow> if \<not> isfinite f \<or> f < Fin 0 then (0, False, ''invalid_value'')
                                else (fin_val f, True, ''ok''))
      | _ \<Rightarrow> (0, False, ''not_configured''))"

definition refresh_measured_power :: "managed_device \<Rightarrow> coord \<Rightarrow> coord" where
  "refresh_measured_power d w =
     (case measured (w_states w) d of (p, valid, reason) \<Rightarrow>
        update_device d (\<lambda>x. x\<lparr>d_measured_power := p, d_measured_power_valid := valid,
                               d_measured_power_reason := reason\<rparr>) w)"

definition overload_enforced :: "policy_engine \<Rightarrow> rat \<Rightarrow> rat \<Rightarrow> bool" where
  "overload_enforced e load now \<longleftrightarrow>
     0 \<le> load \<and> list_ex (\<lambda>t. limit_w t < load
       \<and> (case tier_since e (tier_id t) of
            None \<Rightarrow> duration_s t \<le> 0
          | Some started \<Rightarrow> duration_s t \<le> now - started)) (thresholds (policy e))"

definition ensure_manual_intent :: "string \<Rightarrow> unit action" where
  "ensure_manual_intent device_id = look (\<lambda>w.
     if active_sources (c_intents w) device_id (w_now w) \<noteq> [] then skip
     else bnd (lift (rbind (mk_intent (PStr ''manual_observed'') (PBool True)
                       (PFloat (Fin (w_now w + MAX_INTENT_TTL_S))) PNone PNone PNone PNone)
                 (registry_set (c_intents w) (PStr device_id))))
            (\<lambda>r. upd (\<lambda>w. w\<lparr>c_intents := r\<rparr>)))"

text \<open>\<open>self._safety_fault_reason or RELAY_READBACK_TIMEOUT\<close>, latched for a load that failed to stop.\<close>

definition stop_fault_reason :: "'a ctl_scheme \<Rightarrow> string" where
  "stop_fault_reason w =
     (case c_safety_reason w of Some (c # cs) \<Rightarrow> c # cs | _ \<Rightarrow> reason_value RELAY_READBACK_TIMEOUT)"

definition latch_failed_stop :: "managed_device \<Rightarrow> unit action" where
  "latch_failed_stop d = upd (\<lambda>w. w\<lparr>c_faults := latch (c_faults w) (d_device_id d) (stop_fault_reason w)\<rparr>)"

section \<open>Manual starts\<close>

definition manual_record ::
  "string \<Rightarrow> managed_device \<Rightarrow> string \<Rightarrow> string \<Rightarrow> string \<Rightarrow> string \<Rightarrow> pydict" where
  "manual_record action_id d result ph reason source =
     [(''action_id'', PStr action_id), (''device_id'', PStr (d_device_id d)), (''action'', PStr ''manual_on''),
      (''result'', PStr result), (''phase'', PStr ph), (''reason'', PStr reason), (''source'', PStr source)]"

definition manual_event :: "string \<Rightarrow> managed_device \<Rightarrow> string \<Rightarrow> reason_code \<Rightarrow> pydict" where
  "manual_event action_id d result rc =
     [(''action_id'', PStr action_id), (''device_id'', PStr (d_device_id d)), (''action'', PStr ''manual_on''),
      (''result'', PStr result), (''reason_code'', PStr (reason_value rc))]"

definition reshed_manual :: "managed_device \<Rightarrow> string \<Rightarrow> bool \<Rightarrow> unit action" where
  "reshed_manual d action_id grid_unsafe =
     bnd (command_off d grid_unsafe None ''manual_on_reshed'' PNone PNone None (pause_device d)) (\<lambda>stopped.
       if stopped
       then thn (note_action (manual_record action_id d ''re_shed'' ''confirmed'' (reason_value MANUAL_ON_RESHED)
                    ''manual_on_reshed''))
              (thn (fire_event EVENT_ACTION (manual_event action_id d ''re_shed'' MANUAL_ON_RESHED))
                (thn (say (''Manual ON of '' @ d_name d @ '' re-shed under unsafe conditions''))
                  (ensure_manual_on_notification d ''Unsafe conditions remain, so the device was turned off again.'')))
       else thn (say (''Manual ON of '' @ d_name d @ ''; re-shed failed''))
              (ensure_manual_on_notification d ''Unsafe conditions remain, but turning the device off failed.''))"

definition accept_manual :: "managed_device \<Rightarrow> string \<Rightarrow> unit action" where
  "accept_manual d action_id =
     thn (upd (remove_pending_restore (d_device_id d)))
       (thn (note_action (manual_record action_id d ''accepted'' ''confirmed'' (reason_value MANUAL_ON_ACCEPTED) ''external''))
         (thn (fire_event EVENT_ACTION (manual_event action_id d ''accepted'' MANUAL_ON_ACCEPTED))
           (thn (say (''Manual ON of '' @ d_name d @ '' accepted; removed from pending restore''))
             (thn (ensure_manual_on_notification d ''Capacity is safe. The manual start was accepted.'')
               persist))))"

definition handle_manual_on_pending :: "managed_device \<Rightarrow> unit action" where
  "handle_manual_on_pending d =
     bnd (new_action_id ''manual_on'') (\<lambda>action_id.
     thn (note_action (manual_record action_id d ''observed'' ''observed'' ''manual_on_pending'' ''external''))
       (bnd read_load (\<lambda>load. look (\<lambda>w.
         if \<not> grid_safety_source_available w \<or> \<not> c_load_valid w
         then thn reset_restore
                (thn (say (''Manual ON of '' @ d_name d @ ''; telemetry invalid, kept pending without action''))
                  (thn (ensure_telemetry_notification ''manual_on_telemetry_invalid'')
                    (thn (ensure_manual_on_notification d
                            ''Telemetry is invalid. The device remains on and pending restore.'')
                      persist)))
         else
           (let grid_unsafe = (\<not> grid_ok w \<and> \<not> battery_permits w d);
                enforced = (\<not> grid_unsafe \<and> overload_enforced (c_engine w) load (w_mono w))
            in if grid_unsafe \<or> enforced
               then thn (if (if grid_unsafe then emergency_commands_allowed w else physical_commands_allowed w)
                         then reshed_manual d action_id grid_unsafe
                         else thn (say (''Manual ON of '' @ d_name d @ ''; kept pending (no physical mode)''))
                                (ensure_manual_on_notification d
                                  ''Unsafe conditions remain. The current mode prevents physical action.''))
                      persist
               else accept_manual d action_id)))))"

definition manual_pending_on_observed ::
  "'a ctl_scheme \<Rightarrow> managed_device \<Rightarrow> bool option \<Rightarrow> bool option \<Rightarrow> bool" where
  "manual_pending_on_observed w d previous logical \<longleftrightarrow>
     \<not> (previous = Some True \<or> logical \<noteq> Some True)
     \<and> \<not> (\<not> c_reconciled w \<and> previous = None)
     \<and> d_device_id d \<in> set (tr_pending (c_tx w))"

definition refresh_device_state :: "managed_device \<Rightarrow> unit action" where
  "refresh_device_state d = look (\<lambda>w.
     let previous = (case c_last_observed w (d_device_id d) of Some p \<Rightarrow> p | None \<Rightarrow> d_is_on (device_of w d));
         logical = logical_device_state (w_states w) d
     in thn (if d_device_id d \<in> quarantined (c_faults w)
             then upd (update_device d (\<lambda>x. x\<lparr>d_is_on := None\<rparr>))
             else thn (upd (update_device d (\<lambda>x. x\<lparr>d_is_on := logical\<rparr>)))
                    (whenever (manual_pending_on_observed w d previous logical) (handle_manual_on_pending d)))
          (upd (\<lambda>v. refresh_measured_power d
             (v\<lparr>c_last_observed := (c_last_observed v)(d_device_id d \<mapsto> d_is_on (device_of v d))\<rparr>))))"

definition refresh_device_states :: "unit action" where
  "refresh_device_states = look (\<lambda>w.
     thn (for_each (all_devices (c_model w)) refresh_device_state) (upd (\<lambda>w. w\<lparr>c_reconciled := True\<rparr>)))"

section \<open>Telemetry faults\<close>

definition fault_text :: "coord \<Rightarrow> string \<Rightarrow> string" where
  "fault_text w reason = (if c_tele_latched w then (case c_tele_reason w of Some r \<Rightarrow> r | None \<Rightarrow> reason) else reason)"

definition telemetry_code :: "string \<Rightarrow> reason_code" where
  "telemetry_code reason = (if contains reason ''stale'' then TELEMETRY_STALE else TELEMETRY_INVALID)"

definition telemetry_blocked :: "string \<Rightarrow> coord \<Rightarrow> coord" where
  "telemetry_blocked reason w =
     (let w1 = (if c_tele_latched w then w else w\<lparr>c_tele_handled := False, c_tele_recorded := False\<rparr>)
      in w1\<lparr>c_status := ''safety_blocked'', c_tele_latched := True, c_tele_reason := Some (take 160 reason),
            c_safety_reason := Some (take 160 reason),
            c_engine := snd (observe_invalid_load (c_engine w1) (telemetry_code reason)),
            c_last_action := ''Safety blocked'' @ dash @ take 120 reason\<rparr>)"

definition handle_telemetry_fault :: "string \<Rightarrow> unit action" where
  "handle_telemetry_fault cause = look (\<lambda>w.
     let reason = fault_text w cause in
     thn (upd (telemetry_blocked reason))
       (thn (ensure_telemetry_notification reason)
         (look (\<lambda>w. if c_tele_recorded w then skip
            else thn (upd (\<lambda>w. w\<lparr>c_tele_recorded := True\<rparr>))
                   (record_observe_only_action ''telemetry_blocked'' reason None None ''telemetry_fault'' PNone PNone)))))"

definition handle_report_invalidations :: "unit action" where
  "handle_report_invalidations =
     thn (upd (\<lambda>w. if c_source_loss w then reset_window (w\<lparr>c_source_loss := False\<rparr>) else w))
       (look (\<lambda>w. case c_pending_fault w of
            None \<Rightarrow> skip
          | Some reason \<Rightarrow> thn (upd (\<lambda>w. w\<lparr>c_pending_fault := None\<rparr>)) (handle_telemetry_fault reason)))"

definition awaits_startup :: "'a ctl_scheme \<Rightarrow> bool" where
  "awaits_startup w \<longleftrightarrow>
     \<not> (grid_safety_source_available w \<and> \<not> grid_ok w)
     \<and> \<not> (\<not> c_load_valid w
          \<and> c_load_reason w \<notin> set [''missing'', ''unknown'', ''unavailable'', ''not_sampled''])
     \<and> w_mono w < c_startup_deadline w"

definition wait_for_startup_telemetry :: "bool action" where
  "wait_for_startup_telemetry = look (\<lambda>w.
     if c_startup_ready w \<or> c_tele_latched w then ret False
     else if \<not> source_configured (k_source w) then ret False
     else if c_load_valid w \<and> grid_safety_source_available w
     then thn (upd (\<lambda>w. w\<lparr>c_startup_ready := True\<rparr>)) (ret False)
     else if \<not> awaits_startup w then ret False
     else thn (set_status ''startup_wait'')
            (thn (say ''Waiting for initial telemetry; no physical commands'')
              (thn reset_restore (ret True))))"

definition project_latched_telemetry_fault :: "unit action" where
  "project_latched_telemetry_fault = look (\<lambda>w.
     thn (upd (\<lambda>w. w\<lparr>c_status := ''safety_blocked'', c_safety_reason := c_tele_reason w\<rparr>))
       (thn (set_phase PHASE_FAULT (telemetry_code (case c_tele_reason w of Some r \<Rightarrow> r | None \<Rightarrow> [])))
         (thn reset_restore
           (say ''Unclassified persisted fault; explicit reconciliation required''))))"

definition telemetry_cleared :: "string \<Rightarrow> coord \<Rightarrow> coord" where
  "telemetry_cleared reason w =
     reset_window (w\<lparr>c_tele_latched := False, c_tele_reason := None, c_tele_handled := False,
       c_tele_recorded := False, c_pending_fault := None,
       c_safety_reason := (if c_safety_reason w = Some reason then None else c_safety_reason w)\<rparr>)"

definition telemetry_trusted :: "'a ctl_scheme \<Rightarrow> bool" where
  "telemetry_trusted w \<longleftrightarrow> c_load_valid w \<and> grid_safety_source_available w"

definition recover_telemetry_fault :: "bool action" where
  "recover_telemetry_fault = look (\<lambda>w.
     case c_tele_reason w of
       None \<Rightarrow> ret False
     | Some reason \<Rightarrow>
         if c_storage_invalid w \<or> reason \<notin> set RECOVERABLE_TELEMETRY_REASONS then ret False
         else bnd read_load (\<lambda>_. look (\<lambda>w.
           if \<not> telemetry_trusted w then ret False
           else thn (upd (telemetry_cleared reason))
             (thn dismiss_telemetry_notification
               (bnd read_load (\<lambda>_. look (\<lambda>w.
                 if c_tele_latched w \<or> \<not> telemetry_trusted w then ret False
                 else bnd (new_action_id ''telemetry_recovered'') (\<lambda>aid.
                   thn (note_action
                     [(''action_id'', PStr aid), (''action'', PStr ''telemetry_recovered''),
                      (''reason'', PStr ''telemetry_recovered''), (''source'', PStr ''telemetry_fault''),
                      (''phase'', PStr ''observed''), (''result'', PStr ''observed'')])
                     (ret True)))))))))"

section \<open>Grid loss\<close>

definition stop_on_low_battery :: "managed_device \<Rightarrow> bool action" where
  "stop_on_low_battery d =
     bnd (command_off d True None ''battery_minimum'' PNone PNone None (pause_device d)) (\<lambda>stopped. look (\<lambda>w.
       if stopped then ret True
       else if c_last_result w = ''rejected'' then ret False
       else thn (latch_failed_stop d) (ret False)))"

definition enforce_battery_minimum :: "unit action" where
  "enforce_battery_minimum = look (\<lambda>w.
     if c_mode w \<noteq> ''auto'' then skip
     else thn (for_each (get_shed_devices (c_model w)) (\<lambda>d. look (\<lambda>w.
            if \<not> battery_policy_active w d \<or> battery_permits w d \<or> is_flagged (c_faults w) (d_device_id d)
               \<or> logical_device_confirmed_off (w_states w) d
            then skip
            else bnd (stop_on_low_battery d) (\<lambda>stopped.
              whenever stopped (say (''Grid loss'' @ dash @ d_name d @ '' stopped below its battery minimum''))))))
       persist)"

definition defer_off :: "managed_device \<Rightarrow> coord \<Rightarrow> coord" where
  "defer_off d w = w\<lparr>c_deferred_off := insert (d_device_id d) (c_deferred_off w)\<rparr>"

definition undefer_off :: "managed_device \<Rightarrow> coord \<Rightarrow> coord" where
  "undefer_off d w = w\<lparr>c_deferred_off := c_deferred_off w - {d_device_id d}\<rparr>"

text \<open>The OFF of one load on grid loss; the result says whether it counts as failed.\<close>

definition stop_for_grid_loss :: "reason_code \<Rightarrow> managed_device \<Rightarrow> bool action" where
  "stop_for_grid_loss rc d = look (\<lambda>w.
     bnd (lift (capture_restore_state (w_states w) d)) (\<lambda>st.
     thn (ensure_manual_intent (d_device_id d))
       (bnd (command_off d True None ''grid_loss'' PNone PNone (Some (reason_value rc))
               (commit_stop d (reason_value rc) st None)) (\<lambda>stopped.
         if stopped
         then thn (upd (undefer_off d))
                (thn (upd (\<lambda>w. w\<lparr>c_expected_off := insert (d_device_id d) (c_expected_off w)\<rparr>)) (ret False))
         else look (\<lambda>w.
           if c_last_result w = ''rejected'' then thn (upd (defer_off d)) (ret True)
           else thn (upd (undefer_off d)) (thn (latch_failed_stop d) (ret True)))))))"

fun grid_loss_loop :: "bool \<Rightarrow> reason_code \<Rightarrow> managed_device list \<Rightarrow> string list \<Rightarrow> string list action" where
  "grid_loss_loop retry rc [] failed = ret failed"
| "grid_loss_loop retry rc (d # ds) failed = look (\<lambda>w.
     if retry \<and> d_device_id d \<notin> c_deferred_off w then grid_loss_loop retry rc ds failed
     else if logical_device_confirmed_off (w_states w) d
     then thn (upd (undefer_off d)) (grid_loss_loop retry rc ds failed)
     else if battery_policy_active w d
     then bnd (if battery_permits w d then ret True else stop_on_low_battery d) (\<lambda>ok.
            grid_loss_loop retry rc ds (if ok then failed else failed @ [d_name d]))
     else bnd (stop_for_grid_loss rc d) (\<lambda>fails.
            grid_loss_loop retry rc ds (if fails then failed @ [d_name d] else failed)))"

definition grid_loss_observed :: "reason_code \<Rightarrow> string \<Rightarrow> unit action" where
  "grid_loss_observed rc label = look (\<lambda>w.
     thn (set_status (if mode_is_observe w then ''observe'' else ''grid_loss''))
       (thn (say ((if mode_is_observe w then ''Observe: '' else ''Mode off; '') @ label @ '' would stop optional loads''))
         (record_observe_only_action ''grid_loss_all_stop'' (reason_value rc) None None ''grid_loss'' PNone PNone)))"

definition grid_loss_stop :: "bool \<Rightarrow> reason_code \<Rightarrow> string \<Rightarrow> unit action" where
  "grid_loss_stop retry rc label = look (\<lambda>w.
     bnd (grid_loss_loop retry rc (get_shed_devices (c_model w)) []) (\<lambda>failed.
     thn (if failed \<noteq> []
          then thn (set_status ''safety_blocked'')
                 (say (label @ dash @ ''OFF not confirmed for: '' @ join_text failed))
          else say (label @ dash @ ''optional loads are off''))
       persist))"

definition handle_grid_loss :: "reason_code \<Rightarrow> string \<Rightarrow> string \<Rightarrow> unit action" where
  "handle_grid_loss rc label incident = look (\<lambda>w.
     let retry = (c_incident w = Some incident);
         act = thn (upd (\<lambda>w. w\<lparr>c_incident := Some incident\<rparr>))
                 (look (\<lambda>w. if c_mode w \<noteq> ''auto'' then grid_loss_observed rc label
                            else grid_loss_stop retry rc label))
     in if retry
        then thn enforce_battery_minimum (look (\<lambda>w.
               if c_deferred_off w = {}
               then say (label @ dash @ ''emergency action already handled'')
               else act))
        else thn (upd (\<lambda>w. w\<lparr>c_deferred_off := {}\<rparr>)) act)"

section \<open>Emergency stop\<close>

definition perform_emergency_all_stop :: "string \<Rightarrow> unit action" where
  "perform_emergency_all_stop cause = look (\<lambda>w.
     thn (for_each (get_shed_devices (c_model w)) (\<lambda>d. look (\<lambda>w.
            if logical_device_confirmed_off (w_states w) d then skip
            else bnd (lift (capture_restore_state (w_states w) d)) (\<lambda>st.
              thn (ensure_manual_intent (d_device_id d))
                (bnd (command_off d True None ''emergency'' PNone PNone (Some cause) (commit_stop d cause st None))
                  (\<lambda>stopped. whenever (\<not> stopped) (latch_failed_stop d)))))))
       (thn reset_restore persist))"

section \<open>Shedding\<close>

definition shed_candidate_snapshot :: "managed_device list action" where
  "shed_candidate_snapshot = look (\<lambda>w.
     case shed_candidates (c_model w) (quarantined (c_faults w)) (w_now w) of
       (candidates, rejections) \<Rightarrow> thn (upd (\<lambda>w. w\<lparr>c_rejections := rejections\<rparr>)) (ret candidates))"

definition command_data :: "'a ctl_scheme \<Rightarrow> managed_device \<Rightarrow> string \<Rightarrow> (string \<times> pyval) list" where
  "command_data w d action_name =
     [(''action_id'', opt_text (c_last_action_id w)),
      (''operation_id'', PStr (operation_text (c_last_operation_id w))),
      (''device_id'', PStr (d_device_id d)), (''action'', PStr action_name), (''result'', PStr ''confirmed'')]"

definition announce_command :: "managed_device \<Rightarrow> string \<Rightarrow> string \<Rightarrow> unit action" where
  "announce_command d action_name reason = look (\<lambda>w.
     thn (note_action (command_data w d action_name
            @ [(''reason'', PStr reason), (''load_generation'', PInt (c_generation w))]))
       (thn (fire_event EVENT_ACTION (command_data w d action_name @ [(''reason_code'', PStr reason)]))
         persist))"

definition shed_observed :: "managed_device \<Rightarrow> string \<Rightarrow> unit action" where
  "shed_observed d reason = look (\<lambda>w.
     thn (set_status (if mode_is_observe w then ''observe'' else c_status w))
       (thn (say ((if mode_is_observe w then ''Observe: would switch off '' else ''Mode off; would switch off '')
               @ d_name d @ '' ('' @ reason @ '')''))
         (record_observe_only_action ''shed'' reason None (Some (d_device_id d)) ''policy'' PNone PNone)))"

definition shed_failed :: "managed_device \<Rightarrow> unit action" where
  "shed_failed d =
     thn (set_status ''safety_blocked'') (look (\<lambda>w.
       if c_last_result w = ''rejected''
       then thn (say ''Load shedding deferred; OFF permission changed before dispatch'') persist
       else thn (latch_failed_stop d)
              (thn (say (''Load shedding OFF failed for '' @ d_name d)) persist)))"

definition perform_shedding :: "rat \<Rightarrow> policy_decision \<Rightarrow> unit action" where
  "perform_shedding load decision =
     bnd shed_candidate_snapshot (\<lambda>candidates. look (\<lambda>w.
       let reason = reason_value (decision_reason decision) in
       case candidates of
         [] \<Rightarrow> thn (say (take MAX_LAST_ACTION_LENGTH (''Load shedding required at '' @ whole_text load @
                 '' W; no eligible load ('' @ shed_rejection_summary (sr_counts (c_rejections w)) @ '')'')))
               (set_status ''safety_blocked'')
       | d # _ \<Rightarrow>
           if c_mode w \<noteq> ''auto'' then shed_observed d reason
           else bnd (lift (capture_restore_state (w_states w) d)) (\<lambda>st.
             thn (ensure_manual_intent (d_device_id d))
               (bnd (command_off d False None ''policy'' PNone PNone (Some reason)
                       (commit_stop d reason st (Some decision))) (\<lambda>stopped.
                 if \<not> stopped then shed_failed d
                 else thn (say (''Load shedding: switched off '' @ d_name d @ '' at '' @ whole_text load @
                             '' W ('' @ reason @ '')''))
                        (announce_command d ''turn_off'' reason))))))"

section \<open>Restoring\<close>

definition restore_candidate_snapshot :: "'a ctl_scheme \<Rightarrow> rat \<Rightarrow> managed_device list" where
  "restore_candidate_snapshot w current =
     filter (\<lambda>d. case map_of (tr_tickets (c_tx w)) (d_device_id d) of
                 None \<Rightarrow> True
               | Some t \<Rightarrow> rt_cause t \<notin> set RECOVERABLE_TELEMETRY_REASONS)
       (restore_candidates (w_states w) (w_now w) (c_model w) (tr_pending (c_tx w))
         (faulted (c_faults w)) (quarantined (c_faults w)) (lowest_limit w) current)"

definition restore_now :: "managed_device \<Rightarrow> rat \<Rightarrow> bool action" where
  "restore_now d current =
     thn (set_status ''load_restoring'')
       (thn (set_phase RESTORING RESTORE_HEADROOM_AVAILABLE)
         (bnd (command_on d None ''policy'' PNone PNone) (\<lambda>on. look (\<lambda>w.
           if \<not> on
           then thn (say (''Automatic restore '' @ (if c_last_result w = ''rejected'' then ''deferred'' else ''ON failed'')
                       @ '' for '' @ d_name d))
                  (thn persist (ret True))
           else thn (say (''Automatic restore: switched on '' @ d_name d @ '' at '' @ whole_text current @ '' W''))
                  (thn (announce_command d ''turn_on'' (reason_value RESTORE_HEADROOM_AVAILABLE)) (ret True))))))"

definition perform_restore :: "rat \<Rightarrow> bool action" where
  "perform_restore current = look (\<lambda>w.
     case filter (\<lambda>d. request_permits w (d_device_id d)) (restore_candidate_snapshot w current) of
       [] \<Rightarrow> thn reset_restore
              (thn (upd (\<lambda>w. w\<lparr>c_engine := (c_engine w)\<lparr>last_reason_code := RESTORE_BLOCKED_NO_CANDIDATES\<rparr>\<rparr>))
                (ret False))
     | d # _ \<Rightarrow>
         if map_of (tr_tickets (c_tx w)) (d_device_id d) = None
         then thn (upd (remove_pending_restore (d_device_id d))) (ret False)
         else
           (case observe_restore_safe_capacity (c_engine w) (Fin current) (Fin (of_int (d_expected_power d)))
                   (Fin (lowest_limit w)) (w_mono w) of
              (decision, e) \<Rightarrow>
                thn (upd (\<lambda>w. w\<lparr>c_engine := e\<rparr>))
                  (if \<not> triggered decision then ret False else restore_now d current)))"

section \<open>The cycle\<close>

definition emit_policy_decision :: "policy_decision \<Rightarrow> rat \<Rightarrow> unit action" where
  "emit_policy_decision decision current = look (\<lambda>w.
     fire_event EVENT_DECISION
       [(''phase'', PStr (phase_value (phase (c_engine w)))),
        (''reason_code'', PStr (reason_value (last_reason_code (c_engine w)))),
        (''current_load'', PFloat (Fin current)), (''load_generation'', PInt (c_generation w)),
        (''triggered'', PBool (triggered decision))])"

definition required_loads :: "(rat \<times> rat) action" where
  "required_loads = look (\<lambda>w. case (current_load w, average_load w) of
     (Some c, Some a) \<Rightarrow> ret (c, a) | _ \<Rightarrow> raise AssertErr)"

definition disabled_decision :: "coord \<Rightarrow> coord" where
  "disabled_decision w =
     (let e = reset_restore_window ((c_engine w)\<lparr>active_tier := None, tier_started_at := None, tier_since := Map.empty\<rparr>)
      in w\<lparr>c_engine := e\<lparr>
             phase := (if pending_post_shed_generation e \<noteq> None then WAITING_LOAD_RECONCILIATION else MONITORING),
             last_reason_code := NORMAL_MONITORING, decision_sequence := decision_sequence e + 1,
             last_decision := mk_decision False None NORMAL_MONITORING\<rparr>\<rparr>)"

definition policy_decision_for :: "rat \<Rightarrow> (policy_decision \<times> bool) action" where
  "policy_decision_for current = look (\<lambda>w.
     if c_mode w \<noteq> ''off''
     then (case observe_load (c_engine w) (Fin current) (w_mono w) of
             (d, e) \<Rightarrow> thn (upd (\<lambda>w. w\<lparr>c_engine := e\<rparr>)) (ret (d, False)))
     else thn (upd disabled_decision) (ret (mk_decision False None NORMAL_MONITORING, True)))"

definition shedding_lane_handled :: "policy_decision \<Rightarrow> rat \<Rightarrow> rat \<Rightarrow> bool action" where
  "shedding_lane_handled decision current average =
     (if \<not> triggered decision then ret False
      else thn (set_status ''load_shedding'') (look (\<lambda>w.
        if \<not> can_shed_again (c_engine w)
        then thn (say ''Waiting for a newer aggregate report after the previous shed'') (ret True)
        else thn (perform_shedding (max current average) decision) (ret True))))"

definition finish_monitoring_status :: "bool \<Rightarrow> unit action" where
  "finish_monitoring_status planner_disabled = look (\<lambda>w.
     thn (set_status (if mode_is_observe w then ''observe'' else ''monitoring''))
       (say (if planner_disabled then ''Mode off; normal load shedding disabled''
             else if mode_is_observe w then ''Observe: monitoring without physical commands''
             else ''Monitoring load'')))"

definition reconcile_intents :: "unit action" where
  "reconcile_intents = look (\<lambda>w.
     case tr_reconcile (c_intents w) (w_now w) (c_tx w) of
       (changed, intents, tr) \<Rightarrow>
         upd (\<lambda>w. w\<lparr>c_intents := intents, c_tx := tr, c_journal_dirty := c_journal_dirty w \<or> changed\<rparr>))"

definition grid_lane :: "unit action" where
  "grid_lane =
     thn (set_status ''grid_loss'')
       (thn (set_phase PHASE_GRID_LOSS GRID_LOSS)
         (thn reset_restore (handle_grid_loss GRID_LOSS ''grid loss'' ''power_source_unavailable'')))"

definition grid_returned :: "coord \<Rightarrow> coord" where
  "grid_returned w = w\<lparr>c_expected_off := {}, c_deferred_off := {},
     c_incident := (if c_tele_latched w then c_incident w else None)\<rparr>"

text \<open>The lane after the telemetry latch: grid loss, then the loads that policy needs.\<close>

definition supply_lane :: "bool action" where
  "supply_lane = look (\<lambda>w.
     if \<not> grid_ok w then thn grid_lane (ret True)
     else thn (upd grid_returned) (look (\<lambda>w.
       if c_load_valid w \<and> current_load w \<noteq> None \<and> average_load w \<noteq> None then ret False
       else thn (handle_telemetry_fault (''load_'' @ c_load_reason w)) (ret True))))"

definition latched_reason :: "'a ctl_scheme \<Rightarrow> string" where
  "latched_reason w =
     (case c_tele_reason w of
        Some (c # cs) \<Rightarrow> c # cs
      | _ \<Rightarrow> if \<not> grid_safety_source_available w then ''safety_telemetry_unavailable''
             else ''load_'' @ c_load_reason w)"

definition safety_lane_handled :: "bool action" where
  "safety_lane_handled =
     thn handle_report_invalidations
       (bnd wait_for_startup_telemetry (\<lambda>waiting. if waiting then ret True else look (\<lambda>w.
         if \<not> grid_safety_source_available w
         then thn (handle_telemetry_fault ''safety_telemetry_unavailable'') (ret True)
         else if c_load_valid w \<and> c_tele_latched w
         then bnd recover_telemetry_fault (\<lambda>recovered.
                if recovered then supply_lane
                else look (\<lambda>w.
                  thn (if c_storage_invalid w then project_latched_telemetry_fault
                       else handle_telemetry_fault (latched_reason w))
                    (ret True)))
         else supply_lane)))"

definition evaluate :: "unit action" where
  "evaluate = look (\<lambda>w.
     if c_stopping w then skip
     else thn (whenever (c_notice_active w \<and> \<not> c_tele_latched w) dismiss_telemetry_notification)
       (thn refresh_device_states
         (bnd ingest_load_telemetry (\<lambda>_.
         thn reconcile_intents
           (bnd safety_lane_handled (\<lambda>handled. if handled then skip
            else bnd required_loads (\<lambda>(current, average).
              bnd (policy_decision_for current) (\<lambda>(decision, planner_disabled).
              thn (upd (\<lambda>w. w\<lparr>c_last_decision := decision\<rparr>))
                (thn (emit_policy_decision decision current)
                  (bnd (shedding_lane_handled decision current average) (\<lambda>shed. if shed then skip
                   else look (\<lambda>w.
                     bnd (if restore_commands_allowed w \<and> can_restore_again (c_engine w) (c_generation w)
                          then perform_restore current else ret False)
                       (\<lambda>acted. if acted then skip else finish_monitoring_status planner_disabled)))))))))))))"

definition evaluation_failed :: "exn \<Rightarrow> unit action" where
  "evaluation_failed e =
     thn (upd (\<lambda>w. w\<lparr>c_status := ''safety_blocked'', c_safety_reason := Some (exn_text e)\<rparr>))
       (thn (set_phase PHASE_FAULT FAULT)
         (thn reset_restore
           (look (\<lambda>w. whenever (emergency_commands_allowed w) (perform_emergency_all_stop ''emergency'')))))"

definition evaluate_safely :: "unit action" where
  "evaluate_safely = try_except evaluate evaluation_failed"

definition update_data :: "unit action" where
  "update_data =
     thn evaluate_safely
       (thn persist
         (thn notify_faults
           (look (\<lambda>w. whenever (c_pending_fault w \<noteq> None)
             (bnd ingest_load_telemetry (\<lambda>_. thn handle_report_invalidations persist))))))"

end
