(* ===== verification/Coordinator_Services.thy ===== *)
theory Coordinator_Services
  imports Coordinator_Lanes
begin

text \<open>
  The operations \<open>coordinator.py\<close> offers to services, entities and setup: mode changes, restore
  intents, cancellation, requested stops, clearing of quarantine and of the telemetry fault,
  refreshes, shutdown, and the projection they publish. All but the refresh of \<open>async_set_mode\<close> run
  under the evaluation lock, so they do not interleave with the evaluation.
\<close>

section \<open>The published projection\<close>

definition opt_rat :: "rat option \<Rightarrow> pyval" where
  "opt_rat x = (case x of None \<Rightarrow> PNone | Some q \<Rightarrow> PFloat (Fin q))"

definition pending_restore_names :: "'a ctl_scheme \<Rightarrow> string list" where
  "pending_restore_names w =
     map (\<lambda>i. case get_device (c_model w) i of Some d \<Rightarrow> d_name d | None \<Rightarrow> i) (tr_pending (c_tx w))"

definition unresolved_count :: "'a ctl_scheme \<Rightarrow> int res" where
  "unresolved_count w = rbind (unresolved_actions (w_now w) (history_of (c_store w))) (\<lambda>us. Inr (int (length us)))"

definition sorted_ids :: "string set \<Rightarrow> pyval" where
  "sorted_ids s = PList (map PStr (sorted_list_of_set s))"

definition intents_data :: "'a ctl_scheme \<Rightarrow> pyval" where
  "intents_data w =
     PList (map (\<lambda>((d, _), i). PDict (dict_merge [(''device_id'', PStr d)] (intent_to_dict i)))
       (sort_key fst (c_intents w)))"

definition tickets_data :: "'a ctl_scheme \<Rightarrow> pyval" where
  "tickets_data w =
     PList (map (PDict \<circ> ticket_to_dict) (List.map_filter (map_of (tr_tickets (c_tx w))) (tr_pending (c_tx w))))"

definition tiers_data :: "'a ctl_scheme \<Rightarrow> pyval" where
  "tiers_data w = PList (map (\<lambda>t. PDict [(''tier_id'', PStr (tier_id t)), (''limit_w'', PFloat (Fin (limit_w t))),
     (''duration_s'', PFloat (Fin (duration_s t))), (''reason_code'', PStr (reason_value (tier_reason t)))])
     (thresholds (policy (c_engine w))))"

definition rejection_data :: "rejection_detail \<Rightarrow> pyval" where
  "rejection_data r = PDict [(''device_id'', PStr (rd_device_id r)), (''name'', PStr (rd_name r)),
     (''reason'', PStr (rd_reason r)), (''measured_power_w'', opt_rat (rd_measured_power_w r))]"

definition status_data :: "'a ctl_scheme \<Rightarrow> pydict" where
  "status_data w =
     [(''status'', PStr (c_status w)), (''current_load'', opt_rat (current_load w)),
      (''average_load'', opt_rat (average_load w)), (''available_capacity'', opt_rat (available_capacity w)),
      (''last_action'', PStr (c_last_action w)), (''grid_ok'', PBool (grid_ok w)),
      (''grid_safety_source_available'', PBool (grid_safety_source_available w)),
      (''safety_storage_invalid'', PBool (c_storage_invalid w)), (''load_sensor_valid'', PBool (c_load_valid w)),
      (''load_sensor_reason'', PStr (c_load_reason w)), (''mode'', PStr (c_mode w)),
      (''physical_commands_allowed'', PBool (physical_commands_allowed w)), (''startup_safe'', PBool True),
      (''policy_version'', PStr (policy_version (policy (c_engine w)))),
      (''policy_phase'', PStr (phase_value (phase (c_engine w)))),
      (''reason_code'', PStr (reason_value (last_reason_code (c_engine w)))), (''thresholds'', tiers_data w),
      (''lowest_limit_w'', PFloat (Fin (lowest_limit w))),
      (''shed_barrier_pending'', PBool (pending_post_shed_generation (c_engine w) \<noteq> None)),
      (''restore_commands_allowed'', PBool (restore_commands_allowed w)),
      (''restore_barrier_pending'', PBool (pending_post_restore_generation (c_engine w) \<noteq> None))]"

definition restore_data :: "'a ctl_scheme \<Rightarrow> pydict" where
  "restore_data w =
     [(''pending_restore_ids'', str_list (tr_pending (c_tx w))),
      (''pending_restore_names'', str_list (pending_restore_names w)), (''restore_tickets'', tickets_data w),
      (''restore_intents'', intents_data w), (''telemetry_fault_latched'', PBool (c_tele_latched w)),
      (''telemetry_fault_reason'', opt_text (c_tele_reason w)),
      (''reconfiguration_required'', PBool (c_reconfiguration w)),
      (''last_operation_id'', opt_text (c_last_operation_id w)),
      (''last_operation_result'', PStr (c_last_result w)), (''last_action_id'', opt_text (c_last_action_id w))]"

text \<open>Faults are only latched and recovered for configured loads, so the reasons are those of the
  table's loads; they are listed in its order.\<close>

definition fault_data :: "'a ctl_scheme \<Rightarrow> int \<Rightarrow> pydict list \<Rightarrow> pydict" where
  "fault_data w unresolved history =
     [(''journal_unresolved_count'', PInt unresolved), (''action_journal_invalid'', PBool (c_journal_invalid w)),
      (''journal_persistence_blocked'', PBool (c_persist_blocked w)),
      (''faulted_devices'', sorted_ids (faulted (c_faults w))),
      (''quarantined_devices'', sorted_ids (quarantined (c_faults w))),
      (''fault_reasons'', PDict (map (\<lambda>(i, r). (i, PStr r)) (reason_items (c_faults w) (c_model w)))),
      (''safety_fault_reason'', opt_text (c_safety_reason w)),
      (''shed_rejection_counts'', PDict (map (\<lambda>(r, n). (r, PInt (int n))) (sr_counts (c_rejections w)))),
      (''shed_rejection_devices'', PList (map rejection_data (sr_devices (c_rejections w)))),
      (''shed_rejection_total'', PInt (int (sr_total (c_rejections w)))),
      (''shed_rejection_truncated'', PInt (int (sr_truncated (c_rejections w)))),
      (''shed_rejection_evaluated_at'', opt_rat (sr_evaluated_at (c_rejections w))),
      (''audit_history'', PList (map PDict history)),
      (''devices'', PList (map (PDict \<circ> device_to_dict) (all_devices (c_model w))))]"

definition build_data :: "'a ctl_scheme \<Rightarrow> pydict res" where
  "build_data w =
     rbind (normalize_history (w_now w) (history_of (c_store w))) (\<lambda>history.
     rbind (unresolved_count w) (\<lambda>unresolved.
       Inr (status_data w @ restore_data w @ fault_data w unresolved history)))"

text \<open>\<open>async_set_updated_data(self._build_data())\<close>: the projection goes to the listeners.\<close>

definition publish_data :: "unit action" where
  "publish_data = look (\<lambda>w. bnd (lift (build_data w)) (\<lambda>_. skip))"

section \<open>Mode\<close>

definition mode_changed :: "string \<Rightarrow> coord \<Rightarrow> coord" where
  "mode_changed value w =
     (let w1 = w\<lparr>c_mode := value,
            c_pending_fault := (if value = ''auto'' \<and> c_tele_latched w \<and> \<not> c_tele_handled w
              then Some (case c_tele_reason w of Some (c # cs) \<Rightarrow> c # cs | _ \<Rightarrow> ''persisted_runtime_invalid'')
              else c_pending_fault w)\<rparr>;
          w2 = (if c_mode w = ''auto'' \<and> value \<noteq> ''auto'' then reset_window w1 else w1)
      in w2\<lparr>c_store := store_set_mode value (c_store w2), c_last_action := ''Mode changed to '' @ value\<rparr>)"

definition set_mode_property :: "string \<Rightarrow> unit action" where
  "set_mode_property value = look (\<lambda>w.
     if value \<notin> set MODES then raise (ValueErr (''Unsupported mode: '' @ value))
     else if value = ''auto'' \<and> c_storage_invalid w
     then raise (ValueErr ''safety storage is invalid; resolve persisted state first'')
     else if value = ''auto'' \<and> c_reconfiguration w
     then raise (ValueErr ''reconfiguration required before Auto mode'')
     else upd (mode_changed value))"

definition mode_rolled_back :: "string \<Rightarrow> rat option \<Rightarrow> coord \<Rightarrow> coord" where
  "mode_rolled_back mode since w =
     w\<lparr>c_mode := mode, c_engine := (c_engine w)\<lparr>restore_since := since\<rparr>,
       c_store := store_set_mode mode (c_store w),
       c_last_action := ''Mode persistence failed; previous mode retained''\<rparr>"

definition change_mode :: "string \<Rightarrow> unit action" where
  "change_mode value = look (\<lambda>w.
     try_except
       (thn (set_mode_property value)
         (thn (whenever (value \<noteq> ''auto'') reset_restore) persist_runtime))
       (\<lambda>e. thn (upd (mode_rolled_back (c_mode w) (restore_since (c_engine w)))) (raise e)))"

definition async_set_mode :: "string \<Rightarrow> unit action" where
  "async_set_mode value =
     (if value \<notin> set MODES then raise (ValueErr (''Unsupported mode: '' @ value))
      else thn (change_mode value) (thn update_data publish_data))"

definition async_force_evaluate :: "unit action" where
  "async_force_evaluate = thn update_data publish_data"

section \<open>Restore intents\<close>

definition restore_intent_eligibility :: "'a ctl_scheme \<Rightarrow> (string \<times> bool) list" where
  "restore_intent_eligibility w = map (\<lambda>i. (i, request_permits w i)) (tr_pending (c_tx w))"

definition new_revision :: "bool \<Rightarrow> pyval action" where
  "new_revision active =
     (if \<not> active then ret PNone
      else look (\<lambda>w. thn (upd (\<lambda>w. w\<lparr>w_uuids := Suc (w_uuids w)\<rparr>)) (ret (PStr (k_uuid w (w_uuids w))))))"

definition store_intent :: "string \<Rightarrow> restore_intent \<Rightarrow> bool \<Rightarrow> unit action" where
  "store_intent device_id intent active = look (\<lambda>w.
     if active
     then bnd (lift (registry_set (c_intents w) (PStr device_id) intent)) (\<lambda>r. upd (\<lambda>w. w\<lparr>c_intents := r\<rparr>))
     else upd (\<lambda>w. w\<lparr>c_intents := registry_remove (c_intents w) device_id (ri_source intent)\<rparr>))"

definition save_intent :: "unit action" where
  "save_intent = thn (upd saved_snapshot)
     (try_except async_save (\<lambda>e. thn (upd (\<lambda>w. w\<lparr>c_storage_invalid := True\<rparr>)) (raise e)))"

definition async_set_restore_intent ::
  "string \<Rightarrow> string \<Rightarrow> bool \<Rightarrow> pyval \<Rightarrow> pyval \<Rightarrow> pyval \<Rightarrow> pyval \<Rightarrow> pydict option \<Rightarrow> unit action" where
  "async_set_restore_intent device_id source active expires_at permit request_entity request_data expected =
     look (\<lambda>w. bnd (new_revision active) (\<lambda>revision.
       bnd (lift (mk_intent (PStr source) (PBool active) expires_at permit request_entity request_data revision)) (\<lambda>intent.
       if active \<and> \<not> (w_now w < deadline expires_at \<and> deadline expires_at \<le> w_now w + MAX_INTENT_TTL_S)
       then raise (ValueErr ''deadline must be within the next 24 hours'')
       else look (\<lambda>w.
         if c_stopping w then raise (ValueErr ''controller is stopping'')
         else if get_device (c_model w) device_id = None then raise (ValueErr ''unknown device_id'')
         else bnd (lift (registry_matches_snapshot (c_intents w) device_id source expected)) (\<lambda>matches.
           if \<not> matches then publish_data
           else thn (store_intent device_id intent active)
             (thn reconcile_intents
               (thn (upd (\<lambda>v. if restore_intent_eligibility v \<noteq> restore_intent_eligibility w
                              then reset_window v else v))
                 (thn save_intent publish_data))))))))"

definition async_set_request :: "string \<Rightarrow> string \<Rightarrow> bool \<Rightarrow> pyval \<Rightarrow> pyval \<Rightarrow> unit action" where
  "async_set_request device_id source active expires_at permit =
     async_set_restore_intent device_id source active expires_at permit PNone PNone None"

definition async_cancel_restore :: "string \<Rightarrow> bool action" where
  "async_cancel_restore device_id = look (\<lambda>w.
     if get_device (c_model w) device_id = None then raise (ValueErr ''unknown device_id'')
     else
       (let existed = (map_of (tr_tickets (c_tx w)) device_id \<noteq> None);
            changed = (existed \<or> device_id \<in> set (tr_pending (c_tx w)))
        in thn (upd (remove_pending_restore device_id))
             (thn (whenever changed reset_restore)
               (thn persist_runtime (thn publish_data (ret existed))))))"

section \<open>Stops, clearing and shutdown\<close>

definition async_shutdown :: "unit action" where
  "async_shutdown = thn (upd (\<lambda>w. w\<lparr>c_stopping := True\<rparr>)) persist_runtime"

definition stop_requested :: "managed_device \<Rightarrow> string \<Rightarrow> pyval \<Rightarrow> pyval \<Rightarrow> bool action" where
  "stop_requested d source actor_id context_id = look (\<lambda>w.
     bnd (lift (capture_restore_state (w_states w) d)) (\<lambda>st.
     thn (ensure_manual_intent (d_device_id d))
       (bnd (new_action_id ''intent'') (\<lambda>aid.
        bnd (command_off d (\<not> grid_ok w) (Some aid) source actor_id context_id (Some ''requested_stop'')
               (commit_stop d ''requested_stop'' st None)) (\<lambda>stopped.
        bnd persist_runtime_if_dirty (\<lambda>saved.
          if \<not> saved \<and> \<not> stopped then raise (RuntimeErr ''OFF intent could not be persisted'')
          else ret stopped))))))"

definition async_request_stop :: "string \<Rightarrow> string \<Rightarrow> pyval \<Rightarrow> pyval \<Rightarrow> bool action" where
  "async_request_stop device_id source actor_id context_id = look (\<lambda>w.
     case get_device (c_model w) device_id of
       None \<Rightarrow> raise (ValueErr ''unknown device_id'')
     | Some d \<Rightarrow>
         if d_is_on d \<noteq> Some True then ret False
         else bnd read_load (\<lambda>_. look (\<lambda>w.
           if \<not> grid_safety_source_available w \<or> \<not> c_load_valid w
           then thn (ensure_telemetry_notification ''stop_request_telemetry_invalid'') (ret False)
           else stop_requested d source actor_id context_id)))"

definition quarantine_clearable :: "'a ctl_scheme \<Rightarrow> managed_device \<Rightarrow> rat \<Rightarrow> bool" where
  "quarantine_clearable w d load \<longleftrightarrow>
     c_load_valid w \<and> load < lowest_limit w
     \<and> (truthy_str (d_power_sensor_id d) \<longrightarrow>
          d_measured_power_valid d \<and> d_measured_power d \<le> QUARANTINE_CLEAR_MAX_POWER_W)"

definition requarantined :: "string \<Rightarrow> coord \<Rightarrow> coord" where
  "requarantined i w = w\<lparr>c_faults := (c_faults w)\<lparr>quarantined := insert i (quarantined (c_faults w)),
     faulted := insert i (faulted (c_faults w)), fault_dirty := True\<rparr>\<rparr>"

definition clear_record :: "string \<Rightarrow> string \<Rightarrow> string \<Rightarrow> pyval \<Rightarrow> pyval \<Rightarrow> pydict" where
  "clear_record aid device_id source actor_id context_id =
     [(''action_id'', PStr aid), (''device_id'', PStr device_id), (''action'', PStr ''clear_quarantine''),
      (''result'', PStr ''confirmed''), (''reason'', PStr (reason_value NORMAL_MONITORING)),
      (''source'', PStr source), (''actor_id'', actor_id), (''context_id'', context_id)]"

definition async_clear_quarantine :: "string \<Rightarrow> string \<Rightarrow> pyval \<Rightarrow> pyval \<Rightarrow> bool action" where
  "async_clear_quarantine device_id source actor_id context_id = look (\<lambda>w.
     case get_device (c_model w) device_id of
       None \<Rightarrow> raise (ValueErr ''unknown device_id'')
     | Some d \<Rightarrow>
         if \<not> is_flagged (c_faults w) device_id then ret False
         else if logical_device_state (w_states w) d \<noteq> Some False then ret False
         else bnd read_load (\<lambda>load. look (\<lambda>w.
           if \<not> quarantine_clearable w d load then ret False
           else thn (upd (\<lambda>w. w\<lparr>c_faults := clear (c_faults w) device_id\<rparr>))
             (bnd (new_action_id ''clear'') (\<lambda>aid.
               thn (note_action (clear_record aid device_id source actor_id context_id))
                 (thn (upd saved_snapshot)
                   (thn (try_except async_save (\<lambda>e. thn (upd (requarantined device_id)) (raise e)))
                     (ret True))))))))"

definition fault_cleared :: "coord \<Rightarrow> coord" where
  "fault_cleared w = reset_window (w\<lparr>c_tele_latched := False, c_tele_reason := None, c_tele_handled := False,
     c_tele_recorded := False, c_pending_fault := None, c_source_loss := False, c_safety_reason := None,
     c_incident := None\<rparr>)"

definition async_clear_fault :: "bool action" where
  "async_clear_fault = bnd read_load (\<lambda>load. look (\<lambda>w.
     if \<not> (grid_safety_source_available w \<and> grid_ok w \<and> c_load_valid w) then ret False
     else thn (upd fault_cleared)
       (thn dismiss_telemetry_notification
         (thn persist_runtime (thn evaluate_safely (thn publish_data (ret True)))))))"

definition async_config_entry_first_refresh :: "unit action" where
  "async_config_entry_first_refresh = thn update_data publish_data"

end
