(* ===== verification/Runtime_Recovery.thy ===== *)
theory Runtime_Recovery
  imports Coordinator_Services
begin

text \<open>
  \<open>runtime_recovery.py\<close>: the order in which the durable state is read back and the mode the
  controller commits to, and the hooks of \<open>coordinator.py\<close> that call it. Readers that raise end the
  recovery with that exception; only the commitment of the mode is guarded.
\<close>

section \<open>Readers\<close>

definition restore_telemetry_fault_state :: "bool \<Rightarrow> string option \<Rightarrow> bool \<Rightarrow> coord \<Rightarrow> coord" where
  "restore_telemetry_fault_state latched reason emergency_handled w =
     (let w1 = w\<lparr>c_persisted_tele := (latched, reason, latched \<and> emergency_handled), c_tele_latched := latched,
            c_tele_reason := (if latched then reason else None), c_tele_handled := (latched \<and> emergency_handled)\<rparr>
      in if \<not> latched then w1
         else case reason of
                Some r \<Rightarrow> if r \<in> set RECOVERABLE_TELEMETRY_REASONS then w1\<lparr>c_pending_fault := Some r\<rparr>
                          else w1\<lparr>c_storage_invalid := True\<rparr>
              | None \<Rightarrow> w1\<lparr>c_storage_invalid := True\<rparr>)"

definition restore_fault_notifications ::
  "(string \<times> string) list \<Rightarrow> (string \<times> string) list \<Rightarrow> coord \<Rightarrow> coord" where
  "restore_fault_notifications sent pending w =
     (let cut = map (\<lambda>(k, v). (k, take 160 v))
      in w\<lparr>c_fingerprints := cut sent, c_pending_fingerprints := cut pending,
           c_notice_active := (telemetry_notification_id w \<in> set (map fst sent))\<rparr>)"

text \<open>Unfinished actions are ambiguous: their loads are faulted and quarantined.\<close>

definition quarantine_action :: "pydict \<Rightarrow> coord \<Rightarrow> coord" where
  "quarantine_action action_record w =
     (case dget action_record ''device_id'' of
        PStr i \<Rightarrow>
          if get_device (c_model w) i = None then w
          else w\<lparr>c_faults := (c_faults w)\<lparr>quarantined := insert i (quarantined (c_faults w)),
                   faulted := insert i (faulted (c_faults w)),
                   reasons := (reasons (c_faults w))(i \<mapsto> reason_value PERSISTED_RUNTIME_INVALID)\<rparr>\<rparr>
      | _ \<Rightarrow> w)"

definition restore_action_journal :: "pydict list \<Rightarrow> coord \<Rightarrow> coord" where
  "restore_action_journal unresolved w =
     (fold quarantine_action unresolved w)\<lparr>c_journal_invalid := (unresolved \<noteq> [])\<rparr>"

definition restore_device_faults ::
  "string set \<Rightarrow> string set \<Rightarrow> (string \<rightharpoonup> string) \<Rightarrow> bool \<Rightarrow> coord \<Rightarrow> coord" where
  "restore_device_faults faulted_devices quarantined_devices fault_reasons storage_invalid w =
     (let known = configured (c_model w);
          f = faulted (c_faults w) \<union> (faulted_devices \<inter> known);
          q = quarantined (c_faults w) \<union> (quarantined_devices \<inter> known)
      in w\<lparr>c_storage_invalid := c_storage_invalid w \<or> storage_invalid,
           c_faults := (c_faults w)\<lparr>faulted := f, quarantined := q,
             reasons := (\<lambda>i. case fault_reasons i of
                 Some r \<Rightarrow> if i \<in> known \<and> nonblank r then Some (take 160 r) else None
               | None \<Rightarrow> None)\<rparr>,
           c_model := forget_state (f \<union> q) (c_model w)\<rparr>)"

definition restore_tickets :: "ticket_table \<Rightarrow> coord \<Rightarrow> coord" where
  "restore_tickets tickets w = w\<lparr>c_tx := hydrate
     (filter (\<lambda>(i, t). i \<in> configured (c_model w) \<and> \<not> ticket_expired t (w_now w)) tickets) (c_tx w)\<rparr>"

text \<open>A reader of the store that may raise and may distrust the store.\<close>

definition read_store :: "(coord \<Rightarrow> ('a \<times> runtime_store) res) \<Rightarrow> ('a \<Rightarrow> unit action) \<Rightarrow> unit action" where
  "read_store reader k = look (\<lambda>w. bnd (lift (reader w)) (\<lambda>(x, s). thn (upd (\<lambda>w. w\<lparr>c_store := s\<rparr>)) (k x)))"

definition recover_pauses :: "unit action" where
  "recover_pauses = look (\<lambda>w.
     bnd (lift (restore_pause_timestamps (w_now w) (PInt 86400) (c_model w) (c_store w)))
       (\<lambda>(m, s). upd (\<lambda>w. w\<lparr>c_model := m, c_store := s\<rparr>)))"

definition recover_faults :: "unit action" where
  "recover_faults = look (\<lambda>w.
     bnd (lift (store_restore_device_runtime (c_model w) (c_store w))) (\<lambda>((f, q), m, s).
     thn (upd (\<lambda>w. w\<lparr>c_model := m, c_store := s\<rparr>))
       (read_store (\<lambda>w. restore_fault_reasons (c_model w) (c_store w)) (\<lambda>rs.
         upd (\<lambda>w. restore_device_faults f q rs (rs_safety_invalid (c_store w)) w)))))"

definition recover_notifications :: "unit action" where
  "recover_notifications = look (\<lambda>w.
     case restore_fault_notification_state (c_model w) (Some (telemetry_notification_id w)) (c_store w) of
       (active, pending) \<Rightarrow> upd (restore_fault_notifications active pending))"

definition recover_telemetry :: "unit action" where
  "recover_telemetry = look (\<lambda>w.
     case restore_telemetry_fault (c_store w) of
       ((latched, reason), s) \<Rightarrow>
         (case restore_telemetry_emergency_handled s of
            (handled, s') \<Rightarrow>
              thn (upd (\<lambda>w. w\<lparr>c_store := s'\<rparr>)) (upd (restore_telemetry_fault_state latched reason handled))))"

definition recover_journal :: "unit action" where
  "recover_journal = look (\<lambda>w.
     bnd (lift (unresolved_actions (w_now w) (history_of (c_store w)))) (\<lambda>us. upd (restore_action_journal us)))"

definition recover_policy :: "unit action" where
  "recover_policy = look (\<lambda>w.
     bnd (lift (restore_policy_runtime (w_now w) (c_store w) (c_engine w))) (\<lambda>e. upd (\<lambda>w. w\<lparr>c_engine := e\<rparr>)))"

definition recover_requests :: "unit action" where
  "recover_requests = read_store (\<lambda>w. restore_requests (w_now w) (c_model w) (c_store w))
     (\<lambda>r. upd (\<lambda>w. w\<lparr>c_intents := r\<rparr>))"

definition recover_tickets :: "unit action" where
  "recover_tickets = read_store (\<lambda>w. restore_restore_tickets (w_now w) (c_model w) (c_store w))
     (\<lambda>ts. upd (restore_tickets ts))"

section \<open>The mode\<close>

definition recovered_mode :: "pyval \<Rightarrow> bool \<Rightarrow> string action" where
  "recovered_mode config_execution reconfiguration = look (\<lambda>w.
     if c_storage_invalid w then ret ''off''
     else if reconfiguration then ret ''observe''
     else bnd (lift (resolve_unified_mode config_execution (c_store w))) (\<lambda>(mode, s).
       thn (upd (\<lambda>w. w\<lparr>c_store := s\<rparr>)) (ret (if mode \<in> set MODES then mode else ''observe''))))"

definition commit_failed :: "coord \<Rightarrow> coord" where
  "commit_failed w = w\<lparr>c_mode := ''observe'', c_store := store_set_mode ''observe'' (c_store w),
     c_persist_blocked := True, c_last_action := ''Mode persistence failed; defaulting to observe''\<rparr>"

definition commit_mode :: "pyval \<Rightarrow> bool \<Rightarrow> unit action" where
  "commit_mode config_execution reconfiguration =
     try_except
       (bnd (recovered_mode config_execution reconfiguration) (\<lambda>mode.
          thn (set_mode_property mode) persist_runtime))
       (\<lambda>e. upd commit_failed)"

definition read_back :: "bool \<Rightarrow> unit action" where
  "read_back reconfiguration =
     thn (upd (\<lambda>w. w\<lparr>c_reconfiguration := reconfiguration\<rparr>))
       (thn recover_pauses (thn recover_faults (thn recover_notifications (thn recover_telemetry
         (thn recover_journal (thn recover_policy (thn recover_requests (thn recover_tickets
           (upd (\<lambda>w. w\<lparr>c_storage_invalid := c_storage_invalid w \<or> rs_safety_invalid (c_store w)\<rparr>))))))))))"

definition async_recover :: "pydict \<Rightarrow> bool \<Rightarrow> unit action" where
  "async_recover data reconfiguration =
     thn (read_back reconfiguration) (commit_mode (dget data ''execution_mode'') reconfiguration)"

end
