(* ===== verification/Command_Safety.thy ===== *)
theory Command_Safety
  imports Coordinator_Commands
begin

text \<open>
  Why a command is never issued without its justification: at the dispatch the record of the very
  action the controller is executing is already on disk, it names the load that the command is for,
  and the permission that the code checks last still holds in the very state the command leaves
  from. The contract \<open>durable_protocol\<close> is discharged for the controller, and every OFF and ON
  command on a configured load is shown to log justified commands only.
\<close>

section \<open>Configured loads\<close>

text \<open>A load without what the controller observes of it, and the loads of a table so reduced.\<close>

definition plan_of :: "managed_device \<Rightarrow> managed_device" where
  "plan_of d = d\<lparr>d_is_on := None, d_measured_power := 0, d_measured_power_valid := False,
     d_measured_power_reason := [], d_pause_until := None, d_last_turn_off_time := None\<rparr>"

definition load_plan :: "power_model \<Rightarrow> (string \<times> managed_device) list" where
  "load_plan model = map (\<lambda>(k, d). (k, plan_of d)) model"

definition known :: "(string \<times> managed_device) list \<Rightarrow> managed_device \<Rightarrow> bool" where
  "known L d \<longleftrightarrow> plan_of d \<in> snd ` set L"

lemma known_load: "d \<in> set (all_devices m) \<Longrightarrow> known (load_plan m) d"
  by (force simp: known_def load_plan_def all_devices_def)

lemma known_configured: "known (load_plan m) d \<Longrightarrow> \<exists>x. x \<in> set (all_devices m) \<and> plan_of d = plan_of x"
  by (force simp: known_def load_plan_def all_devices_def)

section \<open>A dispatched phase is on disk before the dispatch\<close>

definition dispatch_record :: "string \<Rightarrow> bool \<Rightarrow> string \<Rightarrow> string \<Rightarrow> pydict \<Rightarrow> bool" where
  "dispatch_record device_id emergency action_name source r \<longleftrightarrow>
     dget r ''phase'' = PStr ''dispatched'' \<and> dget r ''device_id'' = PStr (take 256 device_id)
     \<and> dget r ''emergency'' = PBool emergency
     \<and> dget r ''action'' = PStr action_name \<and> dget r ''source'' = PStr (take 256 source)"

text \<open>The record of the action the controller is executing: the first one in the journal on disk that
  carries L Kts action id.\<close>

type_synonym record_key = "pydict \<times> string option"

definition journal_records :: "pyval \<Rightarrow> pydict list" where
  "journal_records history = (case history of
     PList xs \<Rightarrow> List.map_filter (\<lambda>x. case x of PDict r \<Rightarrow> Some r | _ \<Rightarrow> None) xs | _ \<Rightarrow> [])"

definition keyed_record :: "record_key \<Rightarrow> pydict option" where
  "keyed_record key = (case key of
     (disk, Some action_id) \<Rightarrow> find (\<lambda>r. dget r ''action_id'' = PStr (take 256 action_id))
       (journal_records (dget disk ''audit_history''))
   | (_, None) \<Rightarrow> None)"

definition record_key :: "'a ctl_scheme \<Rightarrow> record_key" where
  "record_key s = (w_disk s, c_last_action_id s)"

definition current_record :: "'a ctl_scheme \<Rightarrow> pydict option" where
  "current_record s = keyed_record (record_key s)"

definition on_record :: "managed_device \<Rightarrow> bool \<Rightarrow> string \<Rightarrow> string \<Rightarrow> record_key \<Rightarrow> bool" where
  "on_record d emergency action_name source key \<longleftrightarrow>
     (\<exists>r. keyed_record key = Some r \<and> dispatch_record (d_device_id d) emergency action_name source r)"

definition base_on_record :: "pydict \<Rightarrow> pydict \<Rightarrow> bool" where
  "base_on_record base disk \<longleftrightarrow>
     (\<exists>r. keyed_record (disk, Some (the_str (dget base ''action_id''))) = Some r
        \<and> dispatch_record (the_str (dget base ''device_id'')) (dget base ''emergency'' = PBool True)
            (the_str (dget base ''action'')) (the_str (dget base ''source'')) r)"

lemma records_of_dicts: "journal_records (PList (map PDict fs)) = fs"
  by (induction fs) (simp_all add: journal_records_def map_filter_simps)

definition recordable :: "pydict \<Rightarrow> bool" where
  "recordable base \<longleftrightarrow> distinct (map fst base)
     \<and> (\<exists>i a d s. dget base ''action_id'' = PStr i \<and> nonblank (take 256 i)
          \<and> dget base ''action'' = PStr a \<and> nonblank a \<and> length a \<le> 256
          \<and> dget base ''device_id'' = PStr d \<and> dget base ''source'' = PStr s
          \<and> (\<exists>e. dget base ''emergency'' = PBool e))"

lemma phase_record_lookup:
  "map_of (phase_record base ph) k =
     (if k = ''phase'' \<or> k = ''result'' then Some (PStr ph) else map_of base k)"
  "distinct (map fst base) \<Longrightarrow> distinct (map fst (phase_record base ph))"
  by (simp_all add: phase_record_def dict_merge_def update_conv' distinct_update)

lemma setdefault_lookup:
  "k \<noteq> j \<Longrightarrow> map_of (setdefault j v d) k = map_of d k"
  "distinct (map fst d) \<Longrightarrow> distinct (map fst (setdefault j v d))"
  by (auto simp: setdefault_def dhas_def map_add_def split: option.split)

lemma dget_values: "dget d k = PStr s \<longleftrightarrow> map_of d k = Some (PStr s)" "dget d k = PBool b \<longleftrightarrow> map_of d k = Some (PBool b)"
  by (auto simp: dget_def split: option.split)

text \<open>Recording the dispatched phase puts it into the stored history.\<close>

lemma recorded_dispatch:
  assumes "record_action now history (phase_record base ''dispatched'') = Inr (b, h)" "recordable base"
    and "dget disk ''audit_history'' = h"
  shows "b \<and> h \<noteq> PList [] \<and> base_on_record base disk"
proof -
  from assms(2) obtain i a d s e where
    i: "map_of base ''action_id'' = Some (PStr i)" "nonblank (take 256 i)" and
    a: "map_of base ''action'' = Some (PStr a)" "nonblank a" "length a \<le> 256" and
    d: "map_of base ''device_id'' = Some (PStr d)" "map_of base ''source'' = Some (PStr s)"
      "map_of base ''emergency'' = Some (PBool e)" and dist: "distinct (map fst base)"
    unfolding recordable_def dget_values by blast
  let ?ev = "setdefault ''timestamp'' (PFloat (Fin now))
    (setdefault ''event_schema'' (PInt EVENT_SCHEMA_VERSION) (phase_record base ''dispatched''))"
  have dist': "distinct (map fst ?ev)" using dist by (intro setdefault_lookup phase_record_lookup)
  have look: "map_of ?ev ''action_id'' = Some (PStr i)" "map_of ?ev ''action'' = Some (PStr a)"
    "map_of ?ev ''device_id'' = Some (PStr d)" "map_of ?ev ''phase'' = Some (PStr ''dispatched'')"
    "map_of ?ev ''source'' = Some (PStr s)" "map_of ?ev ''emergency'' = Some (PBool e)"
    by (simp_all add: setdefault_lookup phase_record_lookup i a d)
  have "i \<noteq> []" using i(2) by (auto simp: nonblank_def py_strip_def)
  then have b: "b" and h: "store_record_action now history (PDict ?ev) = Inr h"
    using assms(1) i(1) by (auto simp: record_action_def dget_def phase_record_lookup rbind_Inr_iff
        split: list.splits pyval.splits)
  from nonblank_take [OF i(2)] a(2)
  have id: "valid_action_identity (dget ?ev ''action_id'') (dget ?ev ''action'')"
    by (simp add: valid_action_identity_def dget_def look)
  obtain n where n: "normalize_action_event now (PDict ?ev) = Inr (Some n)"
    using h id by (auto simp: store_record_action_def normalize_action_event_def rbind_Inr_iff)
  from n obtain m where m: "normalize_items ?ev [(''action_id'', PStr (take 256 i)), (''action'', PStr (take 256 a))] = Inr m"
    and nm: "n = setdefault ''timestamp'' (PFloat (Fin now)) m"
    by (auto simp: normalize_action_event_def rbind_Inr_iff dget_def look MAX_ACTION_FIELD_LENGTH_def split: if_splits)
  obtain rest where rest: "m = (''action_id'', PStr (take 256 i)) # (''action'', PStr (take 256 a)) # rest"
    using normalize_items_ok [OF m] by auto
  have ids: "dget n ''action_id'' = PStr (take 256 i)" "dget n ''action'' = PStr a"
    using a(3) by (simp_all add: nm rest dget_def setdefault_lookup)
  have ok: "action_ok n" by (rule normalized_action_ok [OF n]) (simp_all add: ids i a)
  have fields: "map_of n ''phase'' = Some (PStr ''dispatched'')" "map_of n ''device_id'' = Some (PStr (take 256 d))"
    "map_of n ''source'' = Some (PStr (take 256 s))" "map_of n ''action'' = Some (PStr a)"
    "map_of n ''emergency'' = Some (PBool e)"
    using normalized_text [OF n dist' look(4)] normalized_text [OF n dist' look(3)]
      normalized_text [OF n dist' look(5)] normalized_flag [OF n dist' look(6)] ids(2) by (simp_all add: dget_values)
  from recorded_phase [OF h n ok] obtain fs r where r: "h = PList (map PDict fs)"
    "find (\<lambda>r. dget r ''action_id'' = PStr (take 256 i)) fs = Some r"
    "\<forall>k. k \<noteq> ''decision_reason'' \<longrightarrow> k \<noteq> ''input_snapshot'' \<longrightarrow> map_of n k \<noteq> None \<longrightarrow> map_of r k = map_of n k"
    unfolding ids(1) by (elim exE conjE)
  have "dispatch_record d e a s r"
    unfolding dispatch_record_def dget_values using r(3) fields by simp
  moreover have "the_str (dget base ''device_id'') = d" "the_str (dget base ''action'') = a"
    "the_str (dget base ''source'') = s" "the_str (dget base ''action_id'') = i" "(dget base ''emergency'' = PBool True) = e"
    using a(1) d i(1) by (simp_all add: dget_def)
  moreover have "keyed_record (disk, Some i) = Some r"
    using r(2) by (simp add: keyed_record_def assms(3) r(1) records_of_dicts)
  moreover have "h \<noteq> PList []" using r(1,2) by auto
  ultimately show ?thesis using b unfolding base_on_record_def by simp
qed

lemma saved_history: "dget (rs_data (store_save (c_store (saved_snapshot w)))) ''audit_history'' = dget (rs_data (c_store w)) ''audit_history''"
  by (simp add: saved_snapshot_def store_save_def save_telemetry_fault_def save_fault_notification_state_def
      save_device_runtime_def save_restore_tickets_def save_policy_runtime_def save_requests_def
      store_set_mode_def)

lemma persisted_payload:
  assumes "persist_runtime_if_dirty w = (Inr True, w')" "unsaved w"
  shows "w_disk w' = rs_data (store_save (c_store (saved_snapshot w)))"
proof -
  obtain r v where a: "await ((saved_snapshot w)\<lparr>c_store := store_save (c_store (saved_snapshot w))\<rparr>) = (r, v)" by force
  show ?thesis
    using assms a by (cases r) (auto simp: persist_runtime_if_dirty_def try_except_def bnd_def thn_def async_save_def
        split: if_splits)
qed

lemma publish_durable:
  assumes "publish controller_env base ''dispatched'' w = (Inr True, w')" "recordable base"
  shows "base_on_record base (w_disk w')"
proof -
  let ?ev = "phase_record base ''dispatched''"
  from assms(1) obtain b h where rec: "record_action (w_now w) (history_of (c_store w)) ?ev = Inr (b, h)"
    and saved: "persist_runtime_if_dirty (recorded b h w) = (Inr True, w')"
    by (auto simp: publish_def controller_env_def note_action_def thn_def bnd_def split: sum.splits prod.splits)
  define disk where "disk = [(''audit_history'', h)]"
  from recorded_dispatch [OF rec assms(2), of disk] have b: b and h: "h \<noteq> PList []"
    by (simp_all add: disk_def dget_def)
  have "unsaved (recorded b h w)" using b by (simp add: unsaved_def recorded_def)
  from persisted_payload [OF saved this]
  have disk: "dget (w_disk w') ''audit_history'' = dget (rs_data (c_store (recorded b h w))) ''audit_history''"
    by (simp only: saved_history)
  have "dget (rs_data (c_store (recorded b h w))) ''audit_history'' = h"
  proof (cases "h = history_of (c_store w)")
    case True
    with b h show ?thesis
      by (auto simp: recorded_def history_of_def dget_or_def dget_def split: option.splits)
  next
    case False
    with b show ?thesis by (simp add: recorded_def dget_def update_conv')
  qed
  with disk have "dget (w_disk w') ''audit_history'' = h" by simp
  from recorded_dispatch [OF rec assms(2) this] show ?thesis by blast
qed

section \<open>Every command is justified at its dispatch\<close>

definition off_command :: "command \<Rightarrow> bool" where
  "off_command c \<longleftrightarrow> (case c of (domain, service, data) \<Rightarrow>
     service = ''turn_off'' \<or> service = ''set_hvac_mode'' \<and> dget data ''hvac_mode'' = PStr ''off'')"

definition commanded :: "command \<Rightarrow> pyval" where
  "commanded c = (case c of (_, _, data) \<Rightarrow> dget data ''entity_id'')"

definition fresh :: "'a ctl_scheme \<Rightarrow> bool" where
  "fresh w \<longleftrightarrow> c_load_valid w = lr_valid (sensor_reading w)"

definition stop_justified :: "managed_device \<Rightarrow> bool \<Rightarrow> string \<Rightarrow> pyval \<Rightarrow> ctl \<Rightarrow> bool" where
  "stop_justified d emergency source target s \<longleftrightarrow> target \<in> PStr ` set (command_entity d # emergency_off_entities d)
     \<and> on_record d emergency ''turn_off'' source (record_key s)
     \<and> (if emergency then off_clear s d True source else physical_commands_allowed s \<and> fresh s)"

definition start_justified :: "managed_device \<Rightarrow> string \<Rightarrow> pyval \<Rightarrow> ctl \<Rightarrow> bool" where
  "start_justified d source target s \<longleftrightarrow> target = PStr (command_entity d) \<and> fresh s
     \<and> on_record d False ''turn_on'' source (record_key s)
     \<and> (\<exists>ticket. restore_clear s d ticket (lr_value (sensor_reading s)))"

text \<open>A command is justified for one of the configured loads.\<close>

definition justified :: "(string \<times> managed_device) list \<Rightarrow> command \<times> ctl \<Rightarrow> bool" where
  "justified L x \<longleftrightarrow> (case x of (c, s) \<Rightarrow> \<exists>d. known L d \<and>
     (if off_command c then \<exists>emergency source. stop_justified d emergency source (commanded c) s
      else \<exists>source. start_justified d source (commanded c) s))"

text \<open>The state in the log answers every question like the state at the dispatch.\<close>

lemma truncate_fields [simp]:
  "physical_commands_allowed (ctl.truncate w) = physical_commands_allowed w"
  "off_clear (ctl.truncate w) d e src = off_clear w d e src"
  "sensor_reading (ctl.truncate w) = sensor_reading w"
  "fresh (ctl.truncate w) = fresh w" "record_key (ctl.truncate w) = record_key w"
  "restore_clear (ctl.truncate w) d t x = restore_clear w d t x"
  by (simp_all add: physical_commands_allowed_def emergency_commands_allowed_def
      grid_safety_source_available_def grid_ok_def off_clear_def battery_permits_def
      battery_policy_active_def battery_charge_def sensor_reading_def fresh_def restore_clear_def
      restore_commands_allowed_def request_permits_def lowest_limit_def device_of_def record_key_def
      cong: option.case_cong list.case_cong)

text \<open>While the record of the action is on disk it stays there, and every command is justified.\<close>

definition carries :: "(string \<times> managed_device) list \<Rightarrow> (record_key \<Rightarrow> bool) \<Rightarrow> coord \<Rightarrow> coord \<Rightarrow> bool" where
  "carries L K w w' \<longleftrightarrow>
     (K (record_key w) \<longrightarrow> record_key w' = record_key w \<and> extends (justified L) w w')"

interpretation dispatching: action_relation "carries L K" for L K
proof
  show "carries L K w w" for w by (simp add: carries_def commands.rel_refl)
  show "carries L K u v \<Longrightarrow> carries L K v w \<Longrightarrow> carries L K u w" for u v w
    unfolding carries_def by (metis commands.rel_trans)
qed

named_theorems dispatch_frames
declare dispatching.keeps_rules [dispatch_frames]

lemma key_observe [simp]: "w_disk (observe_entity_report e st p w) = w_disk w"
  "c_last_action_id (observe_entity_report e st p w) = c_last_action_id w"
  by (simp_all add: observe_entity_report_def observe_aggregate_report_def observe_safety_report_def
      latch_report_fault_def reset_window_def Let_def)

lemma key_interfere [simp]: "w_disk (interfere i w) = w_disk w"
  "c_last_action_id (interfere i w) = c_last_action_id w"
  by (cases i; simp add: deliver_report_def Let_def)+

lemma key_fold [simp]: "w_disk (fold interfere evs w) = w_disk w"
  "c_last_action_id (fold interfere evs w) = c_last_action_id w"
  by (induction evs arbitrary: w) simp_all

lemma key_pass_time [simp]: "w_disk (pass_time st w) = w_disk w" "w_disk (sampled w) = w_disk w"
  "c_last_action_id (pass_time st w) = c_last_action_id w" "c_last_action_id (sampled w) = c_last_action_id w"
  by (simp_all add: pass_time_def sampled_def)

lemma carries_same: "record_key w' = record_key w \<Longrightarrow> w_trace w' = w_trace w \<Longrightarrow> carries L K w w'"
  by (simp add: carries_def extends_same)

lemma upd_dispatch [dispatch_frames]:
  "(\<And>w. record_key (f w) = record_key w) \<Longrightarrow> (\<And>w. w_trace (f w) = w_trace w) \<Longrightarrow> keeps (carries L K) (upd f)"
  by (rule dispatching.keeps_upd) (simp add: carries_same)

lemma await_dispatch [dispatch_frames]: "keeps (carries L K) await"
  unfolding await_def
  by (intro dispatch_frames) (simp_all add: trace_simps record_key_def dispatch_frames split: await_end.split)

lemma sleep_dispatch [dispatch_frames]: "keeps (carries L K) (sleep d)"
  unfolding sleep_def by (intro dispatch_frames) (simp_all add: trace_simps record_key_def)

lemma confirm_dispatch [dispatch_frames]: "keeps (carries L K) (confirm_device_state d rb t)"
  unfolding confirm_device_state_def
  by (intro dispatch_frames dispatching.keeps_readback_wait)
    (simp_all add: controller_loop_def record_key_def dispatch_frames)

lemma off_permitted_dispatch [dispatch_frames]: "keeps (carries L K) (off_dispatch_permitted d e src)"
  unfolding off_dispatch_permitted_def by (intro dispatch_frames) (simp_all add: trace_simps record_key_def)

lemma on_permitted_dispatch [dispatch_frames]: "keeps (carries L K) (restore_dispatch_permitted d t)"
  unfolding restore_dispatch_permitted_def read_load_def by (intro dispatch_frames) (simp_all add: trace_simps record_key_def)

text \<open>A command that is justified where it is issued.\<close>

lemma device_call_carries:
  assumes "K (record_key w) \<Longrightarrow> justified L ((d, s, x), ctl.truncate w)"
  shows "carries L K w (snd (device_call d s x w))"
proof -
  let ?w = "w\<lparr>w_trace := ((d, s, x), ctl.truncate w) # w_trace w\<rparr>"
  have "carries L K ?w (snd (await ?w))" using await_dispatch by (simp add: keeps_def)
  moreover have "carries L K w ?w" using assms by (auto simp: carries_def extends_def record_key_def)
  ultimately show ?thesis
    unfolding device_call_def thn_upd by (rule dispatching.rel_trans [rotated])
qed

text \<open>What the last check establishes for the call that follows it.\<close>

lemma off_permitted_run:
  "off_dispatch_permitted d e src w = (Inr b, v) \<Longrightarrow>
     b = off_clear v d e src \<and> (\<not> e \<longrightarrow> fresh v) \<and> record_key v = record_key w \<and> w_trace v = w_trace w"
  by (cases e) (auto simp: off_dispatch_permitted_def thn_def bnd_def fresh_def sampled_def sensor_reading_def record_key_def)

lemma off_permitted_total: "\<exists>b v. off_dispatch_permitted d e src w = (Inr b, v)"
  by (cases e) (simp_all add: off_dispatch_permitted_def thn_def bnd_def)

lemma off_then:
  assumes "\<And>v. off_clear v d e src \<Longrightarrow> (\<not> e \<Longrightarrow> fresh v) \<Longrightarrow> carries L K v (snd (k v))"
  shows "keeps (carries L K) (bnd (off_dispatch_permitted d e src) (\<lambda>ok. if \<not> ok then ret x else k))"
  unfolding keeps_def
proof (rule allI)
  fix w
  obtain b v where p: "off_dispatch_permitted d e src w = (Inr b, v)" using off_permitted_total by blast
  from off_permitted_run [OF p] have v: "b = off_clear v d e src" "\<not> e \<Longrightarrow> fresh v" "carries L K w v"
    by (simp_all add: carries_same)
  show "carries L K w (snd (bnd (off_dispatch_permitted d e src) (\<lambda>ok. if \<not> ok then ret x else k) w))"
  proof (cases b)
    case True
    with assms v have "carries L K v (snd (k v))" by blast
    with p True v(3) show ?thesis by (auto simp: bnd_def intro: dispatching.rel_trans)
  next
    case False
    with p v(3) show ?thesis by (simp add: bnd_def)
  qed
qed

lemma issue_off_carries:
  assumes "known L d" "off_clear w d e src" "\<not> e \<Longrightarrow> fresh w"
    and "target \<in> set (command_entity d # emergency_off_entities d)"
  shows "carries L (on_record d e ''turn_off'' src) w (snd (issue_off device_call target w))"
proof -
  have "if e then off_clear (ctl.truncate w) d True src else physical_commands_allowed w \<and> fresh w"
    using assms(2,3) unfolding truncate_fields by (cases e) (simp_all add: off_clear_def)
  then have stop: "on_record d e ''turn_off'' src (record_key w) \<Longrightarrow>
      stop_justified d e src (PStr target) (ctl.truncate w)"
    using assms(4) unfolding stop_justified_def truncate_fields by blast
  have call: "carries L (on_record d e ''turn_off'' src) w (snd (device_call dm srv data w))"
    if "off_command (dm, srv, data)" "commanded (dm, srv, data) = PStr target" for dm srv data
  proof (rule device_call_carries)
    assume "on_record d e ''turn_off'' src (record_key w)"
    from stop [OF this] that assms(1) show "justified L ((dm, srv, data), ctl.truncate w)"
      unfolding justified_def prod.case by (intro exI [of _ d]) auto
  qed
  show ?thesis
    unfolding issue_off_def by (auto intro!: call simp: off_command_def commanded_def dget_def)
qed

lemma fallback_carries:
  "known L d \<Longrightarrow> set members \<subseteq> set (emergency_off_entities d) \<Longrightarrow>
   keeps (carries L (on_record d e ''turn_off'' src)) (fallback_loop device_call (off_dispatch_permitted d e src) members)"
proof (induction members)
  case Nil
  then show ?case unfolding fallback_loop.simps by (intro dispatch_frames)
next
  case (Cons m members)
  show ?case
    unfolding fallback_loop.simps
    by (rule off_then, rule dispatching.rel_thn, rule issue_off_carries) (use Cons in auto)
qed

lemma fallback_off_carries: "known L d \<Longrightarrow> keeps (carries L (on_record d e ''turn_off'' src)) (fallback_off d e src)"
proof -
  assume d: "known L d"
  have "set (fromkeys (emergency_off_entities d)) \<subseteq> set (emergency_off_entities d)" by simp
  from fallback_carries [OF d this] show ?thesis
    unfolding fallback_off_def issue_emergency_fallback_def by (intro dispatch_frames)
qed

lemma dispatch_off_carries:
  assumes "known L d"
  shows "keeps (carries L (on_record d e ''turn_off'' src)) (dispatch_off d e src)"
  unfolding dispatch_off_def
proof (rule off_then)
  fix v :: coord
  assume v: "off_clear v d e src" "\<not> e \<Longrightarrow> fresh v"
  show "carries L (on_record d e ''turn_off'' src) v (snd (look (\<lambda>w. thn (issue_off device_call (command_entity d))
         (bnd (confirm_device_state d (new_readback (w_states w) d ''off'') (w_now w)) (\<lambda>confirmed.
             if \<not> confirmed \<and> e \<and> emergency_off_entities d \<noteq> [] then fallback_off d e src
             else ret (off_result confirmed)))) v))"
    unfolding look_def
    by (rule dispatching.rel_thn, rule issue_off_carries)
      (use v assms in \<open>auto intro!: dispatch_frames fallback_off_carries\<close>)
qed

lemma on_then:
  assumes "\<And>v. restore_clear v d t (lr_value (sensor_reading v)) \<Longrightarrow> fresh v \<Longrightarrow> carries L K v (snd (k v))"
  shows "keeps (carries L K) (bnd (restore_dispatch_permitted d t) (\<lambda>ok. if \<not> ok then ret x else k))"
  unfolding keeps_def
proof (rule allI)
  fix w
  have same: "sensor_reading (sampled w) = sensor_reading w" "fresh (sampled w)"
    by (simp_all add: sampled_def sensor_reading_def fresh_def)
  have key: "carries L K w (sampled w)"
    by (rule carries_same) (simp_all add: sampled_def record_key_def)
  have p: "restore_dispatch_permitted d t w
      = (Inr (restore_clear (sampled w) d t (lr_value (sensor_reading (sampled w)))), sampled w)"
    by (simp add: restore_dispatch_permitted_def read_load_def thn_def bnd_def same)
  show "carries L K w (snd (bnd (restore_dispatch_permitted d t) (\<lambda>ok. if \<not> ok then ret x else k) w))"
    using p same key assms [of "sampled w"] by (auto simp: bnd_def intro: dispatching.rel_trans)
qed

lemma start_call_carries:
  assumes "known L d" "restore_clear w d t (lr_value (sensor_reading w))" "fresh w"
    and "\<not> off_command (dm, srv, data)" "dget data ''entity_id'' = PStr (command_entity d)"
  shows "carries L (on_record d False ''turn_on'' src) w (snd (device_call dm srv data w))"
proof (rule device_call_carries)
  assume "on_record d False ''turn_on'' src (record_key w)"
  then have "start_justified d src (commanded (dm, srv, data)) (ctl.truncate w)"
    using assms unfolding start_justified_def truncate_fields commanded_def by auto
  then show "justified L ((dm, srv, data), ctl.truncate w)"
    unfolding justified_def prod.case if_not_P [OF assms(4)] using assms(1) by blast
qed

lemma climate_mode_carries:
  assumes "known L d" "restore_clear w d t (lr_value (sensor_reading w))" "fresh w"
  shows "carries L (on_record d False ''turn_on'' src) w (snd (issue_climate_mode device_call (command_entity d) st w))"
  unfolding issue_climate_mode_def
  by (auto intro!: start_call_carries [OF assms] simp: off_command_def dget_def restorable_hvac_def
      split: option.splits)

lemma climate_temperature_carries:
  assumes "known L d" "restore_clear w d t (lr_value (sensor_reading w))" "fresh w"
  shows "carries L (on_record d False ''turn_on'' src) w (snd (issue_climate_temperature device_call (command_entity d) st w))"
proof (cases "py_float (dget st ''temperature'')")
  case (Inl e)
  then show ?thesis
    by (simp add: issue_climate_temperature_def Let_def bnd_def dispatching.rel_refl)
next
  case (Inr f)
  have "carries L (on_record d False ''turn_on'' src) w (snd (device_call ''climate'' ''set_temperature''
      [(''entity_id'', PStr (command_entity d)), (''temperature'', PFloat f)] w))"
    by (rule start_call_carries [OF assms]) (simp_all add: off_command_def dget_def)
  with Inr show ?thesis
    by (simp add: issue_climate_temperature_def Let_def bnd_def dispatching.rel_refl)
qed

lemma issue_restore_carries:
  assumes d: "known L d"
  shows "keeps (carries L (on_record d False ''turn_on'' src)) (issue_restore device_call d st (restore_dispatch_permitted d t))"
  unfolding issue_restore_def Let_def
proof (rule on_then)
  fix v :: coord
  assume v: "restore_clear v d t (lr_value (sensor_reading v))" "fresh v"
  have second: "keeps (carries L (on_record d False ''turn_on'' src)) (bnd (restore_dispatch_permitted d t) (\<lambda>still.
      if \<not> still then ret False else thn (issue_climate_mode device_call (command_entity d) st) (ret True)))"
    by (rule on_then, rule dispatching.rel_thn, rule climate_mode_carries [OF d]) (auto intro: dispatch_frames)
  have on: "carries L (on_record d False ''turn_on'' src) v (snd (device_call (domain_of (command_entity d)) ''turn_on''
      [(''entity_id'', PStr (command_entity d))] v))"
    by (rule start_call_carries [OF d v]) (simp_all add: off_command_def dget_def)
  show "carries L (on_record d False ''turn_on'' src) v (snd ((if domain_of (command_entity d) \<noteq> ''climate''
      then thn (device_call (domain_of (command_entity d)) ''turn_on'' [(''entity_id'', PStr (command_entity d))]) (ret True)
      else thn (issue_climate_temperature device_call (command_entity d) st)
        (bnd (restore_dispatch_permitted d t) (\<lambda>still.
          if \<not> still then ret False else thn (issue_climate_mode device_call (command_entity d) st) (ret True)))) v))"
  proof (cases "domain_of (command_entity d) \<noteq> ''climate''")
    case True
    show ?thesis
      unfolding if_P [OF True] by (rule dispatching.rel_thn) (rule on, rule dispatching.keeps_ret)
  next
    case False
    show ?thesis
      unfolding if_not_P [OF False]
      by (rule dispatching.rel_thn) (rule climate_temperature_carries [OF d v], rule second)
  qed
qed

lemma dispatch_on_carries: "known L d \<Longrightarrow> keeps (carries L (on_record d False ''turn_on'' src)) (dispatch_on d t)"
  unfolding dispatch_on_def by (intro dispatch_frames issue_restore_carries)

section \<open>The controller meets the protocol's contract\<close>

lemma trace_latch [trace_simps]: "w_trace (latch_device_fault d r w) = w_trace w"
  by (simp add: latch_device_fault_def update_device_def)

lemma trace_persistence_failed [trace_simps]: "w_trace (action_persistence_failed i r w) = w_trace w"
  by (simp add: action_persistence_failed_def trace_simps split: option.split)

text \<open>While the controller executes an action it goes on executing that action.\<close>

definition acting :: "(string \<times> managed_device) list \<Rightarrow> string \<Rightarrow> coord \<Rightarrow> coord \<Rightarrow> bool" where
  "acting L action_id w w' \<longleftrightarrow>
     (c_last_action_id w = Some action_id \<longrightarrow> c_last_action_id w' = Some action_id \<and> extends (justified L) w w')"

interpretation executing: action_relation "acting L i" for L i
proof
  show "acting L i w w" for w by (simp add: acting_def commands.rel_refl)
  show "acting L i u v \<Longrightarrow> acting L i v w \<Longrightarrow> acting L i u w" for u v w
    unfolding acting_def by (metis commands.rel_trans)
qed

named_theorems acting_frames
declare executing.keeps_rules [acting_frames]

lemma upd_acting [acting_frames]:
  "(\<And>w. c_last_action_id (f w) = c_last_action_id w) \<Longrightarrow> (\<And>w. w_trace (f w) = w_trace w) \<Longrightarrow>
   keeps (acting L i) (upd f)"
  by (rule executing.keeps_upd) (simp add: acting_def extends_same)

lemma list_case_acting [acting_frames]:
  "keeps (acting L i) m \<Longrightarrow> (\<And>x xs. keeps (acting L i) (f x xs)) \<Longrightarrow>
   keeps (acting L i) (case l of [] \<Rightarrow> m | x # xs \<Rightarrow> f x xs)"
  by (cases l) simp_all

lemma recorded_action [simp]:
  "c_last_action_id (recorded b h w) = c_last_action_id w"
  "c_last_action_id (saved_snapshot w) = c_last_action_id w"
  "c_last_action_id (reset_window w) = c_last_action_id w"
  "c_last_action_id (update_device d f w) = c_last_action_id w"
  "c_last_action_id (latch_device_fault d r w) = c_last_action_id w"
  by (simp_all add: recorded_def saved_snapshot_def reset_window_def update_device_def latch_device_fault_def)

lemma failed_action [simp]: "c_last_action_id (action_persistence_failed j r w) = c_last_action_id w"
  by (simp add: action_persistence_failed_def split: option.split)

lemma update_device_trace [trace_simps]: "w_trace (update_device d f w) = w_trace w"
  by (simp add: update_device_def)

lemma remove_pending_trace [trace_simps]: "w_trace (remove_pending_restore i w) = w_trace w"
  by (simp add: remove_pending_restore_def)

lemma await_acting [acting_frames]: "keeps (acting L i) await"
  unfolding await_def
  by (intro acting_frames) (simp_all add: trace_simps acting_frames split: await_end.split)

lemma record_acting [acting_frames]:
  "keeps (acting L i) (new_action_id l)" "keeps (acting L i) next_operation_id" "keeps (acting L i) (note_action ev)"
  "keeps (acting L i) async_save" "keeps (acting L i) persist_runtime_if_dirty" "keeps (acting L i) begin_operation"
  unfolding new_action_id_def next_operation_id_def note_action_def async_save_def persist_runtime_if_dirty_def
    begin_operation_def
  by (intro acting_frames; simp add: trace_simps)+

lemma observe_only_acting [acting_frames]: "keeps (acting L i) (record_observe_only_action n r a d s x c)"
  unfolding record_observe_only_action_def by (intro acting_frames)

lemma permitted_acting [acting_frames]: "keeps (acting L i) (off_dispatch_permitted d e src)" "keeps (acting L i) read_load"
  unfolding off_dispatch_permitted_def read_load_def by (intro acting_frames; simp add: trace_simps)+

lemma pause_acting [acting_frames]: "keeps (acting L i) (pause_device d)"
  unfolding pause_device_def by (intro acting_frames) (simp_all add: trace_simps)

lemma commit_stop_acting [acting_frames]: "keeps (acting L i) (commit_stop d c st x)"
  unfolding commit_stop_def create_restore_ticket_def Let_def by (intro acting_frames) simp_all

lemma complete_off_acting [acting_frames]: "keeps (acting L i) k \<Longrightarrow> keeps (acting L i) (complete_off d k r s)"
  unfolding complete_off_def by (cases r) (auto intro!: acting_frames simp: trace_simps)

lemma complete_on_acting [acting_frames]: "keeps (acting L i) (complete_on d oid r s)"
  unfolding complete_on_def
  by (cases r) (auto intro!: acting_frames simp: trace_simps restored_def remove_pending_restore_def Let_def)

interpretation controller_protocol:
  durable_protocol "acting L i" controller_env recordable "\<lambda>base w. base_on_record base (w_disk w)" for L i
proof
  show "keeps (acting L i) (tx_record controller_env ev)" for ev
    by (simp add: controller_env_def acting_frames)
  show "keeps (acting L i) (tx_persist controller_env)"
    by (simp add: controller_env_def acting_frames)
  show "keeps (acting L i) (tx_failed controller_env j r)" for j r
    by (auto simp: controller_env_def trace_simps intro!: acting_frames)
  show "keeps (acting L i) (tx_remove controller_env j)" for j
    by (auto simp: controller_env_def intro!: acting_frames)
qed (rule publish_durable)

lemma off_permitted_frame [frames]: "keeps (extends P) (off_dispatch_permitted d e src)"
  unfolding off_dispatch_permitted_def by (intro frames) (simp_all add: trace_simps frames)

definition good_action_id :: "string option \<Rightarrow> bool" where
  "good_action_id a \<longleftrightarrow> (case a of Some (c # cs) \<Rightarrow> nonblank (take 256 (c # cs)) | _ \<Rightarrow> True)"

lemma nonblank_iff: "nonblank s \<longleftrightarrow> (\<exists>c \<in> set s. \<not> is_space c)"
  by (auto simp: nonblank_def py_strip_blank)

text \<open>Giving an action its id makes it the controller's current action.\<close>

lemma given_action_id_run:
  "\<exists>i v. given_action_id a l w = (Inr i, v) \<and> c_last_action_id v = Some i \<and> w_trace v = w_trace w
     \<and> (good_action_id a \<longrightarrow> l \<noteq> [] \<longrightarrow> \<not> is_space (hd l) \<longrightarrow> nonblank (take 256 i))"
  by (auto simp: given_action_id_def good_action_id_def new_action_id_def nonblank_iff thn_def bnd_def
      split: option.splits list.splits) (cases l; auto)+

lemma given_then:
  assumes "good_action_id a" "l \<noteq> []" "\<not> is_space (hd l)"
    and "\<And>i. nonblank (take 256 i) \<Longrightarrow> keeps (acting L i) (f i)"
  shows "keeps (extends (justified L)) (bnd (given_action_id a l) f)"
  unfolding keeps_def
proof (rule allI)
  fix w
  from given_action_id_run [of a l w] assms(1-3) obtain i v where run: "given_action_id a l w = (Inr i, v)"
    and v: "c_last_action_id v = Some i" "w_trace v = w_trace w" and i: "nonblank (take 256 i)" by blast
  have "extends (justified L) v (snd (f i v))"
    using assms(4) [OF i] v(1) by (simp add: keeps_def acting_def)
  then show "extends (justified L) w (snd (bnd (given_action_id a l) f w))"
    using run v(2) by (simp add: bnd_def extends_def)
qed

lemma action_base_recordable:
  "nonblank (take 256 aid) \<Longrightarrow> name = ''turn_off'' \<or> name = ''turn_on'' \<Longrightarrow>
   recordable (action_base w d aid oid name src actor ctx e why)"
  by (auto simp: recordable_def action_base_def dget_def nonblank_iff is_space_def)

lemma action_base_record:
  "base_on_record (action_base w d aid oid name src actor ctx e why) disk \<longleftrightarrow>
     on_record d e name src (disk, Some aid)"
  by (simp add: base_on_record_def on_record_def action_base_def dget_def)

lemma carried: "K (w_disk w, Some i) \<Longrightarrow> keeps (carries L K) m \<Longrightarrow> acting L i w (snd (m w))"
  by (auto simp: keeps_def carries_def acting_def record_key_def)

lemma command_off_justified:
  assumes "known L d" "good_action_id a" "\<And>i. keeps (acting L i) k"
  shows "keeps (extends (justified L)) (command_off d e a src actor ctx why k)"
  unfolding command_off_def
  apply (rule given_then [OF assms(2)], simp, simp add: is_space_def)
  apply (intro acting_frames controller_protocol.execute_keeps complete_off_acting assms action_base_recordable
      carried [OF _ dispatch_off_carries])
  apply (simp_all add: acting_frames action_base_record)
  done

lemma command_on_justified:
  assumes "known L d" "good_action_id a"
  shows "keeps (extends (justified L)) (command_on d a src actor ctx)"
  unfolding command_on_def
  apply (intro commands.keeps_look commands.keeps_option commands.keeps_ret)
  apply (rule given_then [OF assms(2)], simp, simp add: is_space_def)
  apply (intro acting_frames controller_protocol.execute_keeps action_base_recordable
      carried [OF _ dispatch_on_carries] assms)
  apply (simp_all add: acting_frames action_base_record)
  done

end
