(* ===== verification/Coordinator_Frames.thy ===== *)
theory Coordinator_Frames
  imports Runtime_Recovery Command_Safety
begin

text \<open>
  The operations of the controller that issue no command: the frames of its stages, of the services
  and of the recovery. And the requests the controller serves, one after the other, whatever each of
  them returns or raises.
\<close>

section \<open>Actions without commands\<close>

lemma stage_frames [frames]:
  "keeps (extends P) (say s)" "keeps (extends P) (set_status s)" "keeps (extends P) persist"
  "keeps (extends P) reset_restore" "keeps (extends P) (set_phase ph rc)" "keeps (extends P) (latch_failed_stop d)"
  "keeps (extends P) (fire_event t x)"
  unfolding say_def set_status_def persist_def reset_restore_def set_phase_def latch_failed_stop_def
  by (intro frames; simp add: trace_simps)+

lemma trace_measured [trace_simps]: "w_trace (refresh_measured_power d w) = w_trace w"
  by (simp add: refresh_measured_power_def trace_simps split: prod.split)

lemma trace_telemetry [trace_simps]:
  "w_trace (telemetry_blocked r w) = w_trace w" "w_trace (telemetry_cleared r w) = w_trace w"
  "w_trace (defer_off d w) = w_trace w" "w_trace (undefer_off d w) = w_trace w"
  "w_trace (disabled_decision w) = w_trace w" "w_trace (grid_returned w) = w_trace w"
  by (simp_all add: telemetry_blocked_def telemetry_cleared_def defer_off_def undefer_off_def
      disabled_decision_def grid_returned_def trace_simps Let_def)

lemma manual_intent_frame [frames]: "keeps (extends P) (ensure_manual_intent i)"
  unfolding ensure_manual_intent_def by (intro frames) simp

lemma accept_manual_frame [frames]: "keeps (extends P) (accept_manual d a)"
  unfolding accept_manual_def by (intro frames) (simp add: trace_simps)

lemma handle_telemetry_frame [frames]: "keeps (extends P) (handle_telemetry_fault r)"
  unfolding handle_telemetry_fault_def Let_def by (intro frames) (simp_all add: trace_simps)

lemma invalidations_frame [frames]: "keeps (extends P) handle_report_invalidations"
  unfolding handle_report_invalidations_def by (intro frames) (simp_all add: trace_simps)

lemma startup_frame [frames]: "keeps (extends P) wait_for_startup_telemetry"
  unfolding wait_for_startup_telemetry_def by (intro frames) simp

lemma project_frame [frames]: "keeps (extends P) project_latched_telemetry_fault"
  unfolding project_latched_telemetry_fault_def by (intro frames) simp

lemma recover_fault_frame [frames]: "keeps (extends P) recover_telemetry_fault"
  unfolding recover_telemetry_fault_def by (intro frames) (simp_all add: trace_simps)

lemma grid_observed_frame [frames]: "keeps (extends P) (grid_loss_observed rc l)"
  unfolding grid_loss_observed_def by (intro frames)

lemma small_frames [frames]:
  "keeps (extends P) shed_candidate_snapshot" "keeps (extends P) (announce_command d n r)"
  "keeps (extends P) (shed_observed d r)" "keeps (extends P) (shed_failed d)"
  "keeps (extends P) (emit_policy_decision x c)" "keeps (extends P) required_loads"
  "keeps (extends P) (policy_decision_for c)" "keeps (extends P) (finish_monitoring_status b)"
  "keeps (extends P) reconcile_intents"
  unfolding shed_candidate_snapshot_def announce_command_def shed_observed_def shed_failed_def
    emit_policy_decision_def required_loads_def policy_decision_for_def finish_monitoring_status_def
    reconcile_intents_def
  by (intro frames; simp add: trace_simps frames split: option.split)+

lemma list_case_frame [frames]:
  "keeps R m \<Longrightarrow> (\<And>x xs. keeps R (f x xs)) \<Longrightarrow> keeps R (case l of [] \<Rightarrow> m | x # xs \<Rightarrow> f x xs)"
  by (cases l) simp_all

section \<open>Services and recovery\<close>

lemma trace_services [trace_simps]:
  "w_trace (mode_changed v w) = w_trace w" "w_trace (mode_rolled_back m s w) = w_trace w"
  "w_trace (requarantined i w) = w_trace w" "w_trace (fault_cleared w) = w_trace w"
  by (simp_all add: mode_changed_def mode_rolled_back_def requarantined_def fault_cleared_def trace_simps Let_def)

lemma publish_frame [frames]: "keeps (extends P) publish_data"
  unfolding publish_data_def by (intro frames)

lemma mode_property_frame [frames]: "keeps (extends P) (set_mode_property v)"
  unfolding set_mode_property_def by (intro frames) (simp add: trace_simps)

lemma change_mode_frame [frames]: "keeps (extends P) (change_mode v)"
  unfolding change_mode_def by (intro frames) (simp add: trace_simps)

lemma set_intent_frame [frames]: "keeps (extends P) (async_set_restore_intent i s a x p e r d)"
  unfolding async_set_restore_intent_def new_revision_def store_intent_def save_intent_def
  by (intro frames) (simp_all add: trace_simps)

lemma cancel_frame [frames]: "keeps (extends P) (async_cancel_restore i)"
  unfolding async_cancel_restore_def Let_def by (intro frames) (simp add: trace_simps)

lemma shutdown_frame [frames]: "keeps (extends P) async_shutdown"
  unfolding async_shutdown_def by (intro frames) simp

lemma clear_quarantine_frame [frames]: "keeps (extends P) (async_clear_quarantine i src actor ctx)"
  unfolding async_clear_quarantine_def by (intro frames) (simp_all add: trace_simps)

lemma trace_quarantine [trace_simps]: "w_trace (fold quarantine_action us w) = w_trace w"
proof (induction us arbitrary: w)
  case (Cons u us)
  have "w_trace (quarantine_action u w) = w_trace w"
    by (auto simp: quarantine_action_def split: pyval.split)
  with Cons show ?case by simp
qed simp

lemma trace_recovery [trace_simps]:
  "w_trace (restore_telemetry_fault_state l r h w) = w_trace w" "w_trace (restore_fault_notifications a b w) = w_trace w"
  "w_trace (restore_action_journal us w) = w_trace w" "w_trace (restore_device_faults f q rs c w) = w_trace w"
  "w_trace (restore_tickets ts w) = w_trace w" "w_trace (commit_failed w) = w_trace w"
  by (simp_all add: restore_telemetry_fault_state_def restore_fault_notifications_def restore_action_journal_def
      restore_device_faults_def restore_tickets_def commit_failed_def trace_simps Let_def split: option.split)

lemma read_back_frame [frames]: "keeps (extends P) (read_back b)"
  unfolding read_back_def recover_pauses_def recover_faults_def recover_notifications_def recover_telemetry_def
    recover_journal_def recover_policy_def recover_requests_def recover_tickets_def read_store_def
  by (intro frames) (auto simp: trace_simps split: prod.split intro!: frames)

lemma recover_frame [frames]: "keeps (extends P) (async_recover d b)"
  unfolding async_recover_def commit_mode_def recovered_mode_def by (intro frames) (simp_all add: trace_simps)

section \<open>Runs of the controller\<close>

text \<open>A request to the controller, or an event while it is idle. Whatever a request returns or
  raises, the controller goes on with the state it left.\<close>

datatype request =
    SetMode string
  | ForceEvaluate
  | SetIntent string string bool pyval pyval pyval pyval "pydict option"
  | CancelRestore string
  | RequestStop string string pyval pyval
  | ClearQuarantine string string pyval pyval
  | ClearFault
  | Recover pydict bool
  | Unload
  | Meanwhile interference

primrec perform :: "request \<Rightarrow> coord \<Rightarrow> coord" where
  "perform (SetMode v) = final (async_set_mode v)"
| "perform ForceEvaluate = final async_force_evaluate"
| "perform (SetIntent i s a x p e r d) = final (async_set_restore_intent i s a x p e r d)"
| "perform (CancelRestore i) = final (async_cancel_restore i)"
| "perform (RequestStop i s a c) = final (async_request_stop i s a c)"
| "perform (ClearQuarantine i s a c) = final (async_clear_quarantine i s a c)"
| "perform ClearFault = final async_clear_fault"
| "perform (Recover d b) = final (async_recover d b)"
| "perform Unload = final async_shutdown"
| "perform (Meanwhile i) = interfere i"

definition run_requests :: "request list \<Rightarrow> coord \<Rightarrow> coord" where
  "run_requests rs w = fold perform rs w"


end
