(* ===== verification/Coordinator_Course.thy ===== *)
theory Coordinator_Course
  imports Coordinator_Frames
begin

text \<open>
  What every operation of the controller keeps: the configuration it was built with, the counters
  that only grow, a shutdown that is never taken back, and the invariant of its state. The relation
  \<open>continues\<close> carries these through the composition of actions, and through the states logged with
  the commands, so that they hold between any two moments of a run.
\<close>

section \<open>The invariant\<close>

definition sound :: "'a ctl_scheme \<Rightarrow> bool" where
  "sound w \<longleftrightarrow> c_mode w \<in> set MODES \<and> length (c_samples w) \<le> MAX_SAMPLES
     \<and> list_all (\<lambda>(load, t). 0 \<le> load) (c_samples w) \<and> owned_ok (c_tx w)"

definition same_setup :: "'a ctl_scheme \<Rightarrow> 'b ctl_scheme \<Rightarrow> bool" where
  "same_setup u v \<longleftrightarrow> k_load_sensor v = k_load_sensor u \<and> k_averaging_period v = k_averaging_period u
     \<and> k_pause_period v = k_pause_period u \<and> k_source v = k_source u \<and> k_entry_id v = k_entry_id u
     \<and> k_version v = k_version u \<and> policy (c_engine v) = policy (c_engine u)
     \<and> load_plan (c_model v) = load_plan (c_model u)"

definition outlives :: "'a ctl_scheme \<Rightarrow> 'b ctl_scheme \<Rightarrow> bool" where
  "outlives u v \<longleftrightarrow> same_setup u v \<and> (c_stopping u \<longrightarrow> c_stopping v) \<and> w_mono u \<le> w_mono v
     \<and> c_generation u \<le> c_generation v \<and> c_next_operation u \<le> c_next_operation v
     \<and> (sound u \<longrightarrow> sound v)"

text \<open>Only a recovery changes whether a reconfiguration is required.\<close>

definition succeeds :: "'a ctl_scheme \<Rightarrow> 'b ctl_scheme \<Rightarrow> bool" where
  "succeeds u v \<longleftrightarrow> outlives u v \<and> c_reconfiguration v = c_reconfiguration u"

lemma outlives_refl [simp]: "outlives u u"
  by (simp add: outlives_def same_setup_def)

lemma outlives_trans: "outlives u v \<Longrightarrow> outlives v w \<Longrightarrow> outlives u w"
  unfolding outlives_def same_setup_def by (metis order_trans)

lemma succeeds_refl [simp]: "succeeds u u"
  by (simp add: succeeds_def)

lemma succeeds_trans: "succeeds u v \<Longrightarrow> succeeds v w \<Longrightarrow> succeeds u w"
  unfolding succeeds_def using outlives_trans by auto

lemma succeeds_log [simp]: "succeeds u (ctl.truncate v) \<longleftrightarrow> succeeds u v"
  by (simp add: succeeds_def outlives_def same_setup_def sound_def)

definition continues :: "coord \<Rightarrow> coord \<Rightarrow> bool" where
  "continues w w' \<longleftrightarrow> succeeds w w' \<and> extends (\<lambda>(c, s). succeeds w s) w w'"

definition follows :: "coord \<Rightarrow> coord \<Rightarrow> bool" where
  "follows w w' \<longleftrightarrow> outlives w w' \<and> extends (\<lambda>(c, s). outlives w s) w w'"

interpretation course: action_relation continues
proof
  show "continues w w" for w by (simp add: continues_def commands.rel_refl)
next
  fix u v w
  assume "continues u v" "continues v w"
  then show "continues u w"
    unfolding continues_def extends_def
    by (fastforce simp: list_all_iff dest: succeeds_trans)
qed

interpretation history: action_relation follows
proof
  show "follows w w" for w by (simp add: follows_def commands.rel_refl)
next
  fix u v w
  assume "follows u v" "follows v w"
  then show "follows u w"
    unfolding follows_def extends_def
    by (fastforce simp: list_all_iff dest: outlives_trans)
qed

lemma continues_follows: "continues w w' \<Longrightarrow> follows w w'"
  unfolding continues_def follows_def extends_def by (fastforce simp: list_all_iff succeeds_def)

lemma keeps_follows: "keeps continues m \<Longrightarrow> keeps follows m"
  by (simp add: keeps_def continues_follows)

named_theorems lasting

declare course.keeps_rules [lasting]

lemma continues_same: "succeeds w w' \<Longrightarrow> w_trace w' = w_trace w \<Longrightarrow> continues w w'"
  by (simp add: continues_def extends_same)

lemma upd_lasting [lasting]:
  "(\<And>w. succeeds w (f w)) \<Longrightarrow> (\<And>w. w_trace (f w) = w_trace w) \<Longrightarrow> keeps continues (upd f)"
  by (rule course.keeps_upd) (rule continues_same)

lemma list_case_lasting [lasting]:
  "keeps continues m \<Longrightarrow> (\<And>x xs. keeps continues (f x xs)) \<Longrightarrow>
   keeps continues (case l of [] \<Rightarrow> m | x # xs \<Rightarrow> f x xs)"
  by (cases l) simp_all

lemmas succeeds_defs = succeeds_def outlives_def same_setup_def sound_def

named_theorems course_simps and succeeding

section \<open>Primitive updates\<close>

lemma plan_set_device [course_simps]:
  "(\<And>d. plan_of (f d) = plan_of d) \<Longrightarrow> load_plan (set_device i f m) = load_plan m"
  by (auto simp: load_plan_def set_device_def)

lemma plan_forget [course_simps]: "load_plan (forget_state ids m) = load_plan m"
  by (auto simp: load_plan_def forget_state_def plan_of_def)

lemma policy_updates [course_simps]:
  "policy (reset_restore_window e) = policy e" "policy (observe_report e l t) = policy e"
  "policy (snd (observe_load e l t)) = policy e" "policy (snd (observe_invalid_load e r)) = policy e"
  "policy (snd (observe_restore_safe_capacity e a b c t)) = policy e"
  "policy (snd (reconcile_shed e g s)) = policy e" "policy (snd (reconcile_restore e g s)) = policy e"
  "policy (append_shed e oid g r) = policy e" "policy (append_restore e oid g) = policy e"
  "policy (set_post_shed_fence e s) = policy e" "policy (set_post_restore_fence e s) = policy e"
  by simp_all

lemma last_n_length: "length (last_n n xs) \<le> n"
  by (simp add: last_n_def)

lemma append_sample_succeeds [succeeding]: "succeeds w (append_load_sample load w)"
proof (cases "load < 0")
  case False
  let ?kept = "last_n MAX_SAMPLES (c_samples w @ [(load, w_now w)])"
  have "length (dropWhile P ?kept) \<le> MAX_SAMPLES" for P
    by (rule order_trans [OF length_dropWhile_le last_n_length])
  moreover have "set (dropWhile P ?kept) \<subseteq> set (c_samples w @ [(load, w_now w)])" for P
    by (auto simp: last_n_def dest!: set_dropWhileD in_set_dropD)
  then have "list_all (\<lambda>(l, t). 0 \<le> l) (c_samples w) \<Longrightarrow> list_all (\<lambda>(l, t). 0 \<le> l) (dropWhile P ?kept)" for P
    using False unfolding list_all_iff by fastforce
  ultimately show ?thesis
    using False by (simp add: succeeds_defs append_load_sample_def)
qed (simp add: append_load_sample_def)

lemma accept_report_succeeds [succeeding]: "succeeds w (accept_load_report w)"
  by (simp add: succeeds_defs accept_load_report_def split: option.split)

lemma engine_succeeds: "policy e = policy (c_engine w) \<Longrightarrow> succeeds w (w\<lparr>c_engine := e\<rparr>)"
  by (simp add: succeeds_defs)

lemma model_succeeds: "load_plan m = load_plan (c_model w) \<Longrightarrow> succeeds w (w\<lparr>c_model := m\<rparr>)"
  by (simp add: succeeds_defs)

lemma fences_succeed [succeeding]: "succeeds w (reconcile_fences w)"
  unfolding reconcile_fences_def Let_def
  by (rule engine_succeeds) (cases "pending_post_shed_generation (c_engine w) = None"; simp)

lemma small_succeed [succeeding]:
  "succeeds w (sampled w)" "succeeds w (reset_window w)" "succeeds w (latch_report_fault r w)"
  by (simp_all add: succeeds_defs sampled_def reset_window_def latch_report_fault_def course_simps)

lemma ingested_succeeds [succeeding]: "succeeds w (ingested w)"
proof (cases "c_load_valid (sampled w)")
  case True
  have "succeeds w (reconcile_fences (append_load_sample (lr_value (sensor_reading w)) (accept_load_report (sampled w))))"
    by (rule succeeds_trans [OF small_succeed(1)], rule succeeds_trans [OF accept_report_succeeds],
        rule succeeds_trans [OF append_sample_succeeds], rule fences_succeed)
  with True show ?thesis unfolding ingested_def Let_def by simp
next
  case False
  have "succeeds w ((sampled w)\<lparr>c_samples := []\<rparr>)"
    by (simp add: succeeds_defs sampled_def)
  from succeeds_trans [OF this small_succeed(2)] False show ?thesis
    unfolding ingested_def Let_def by simp
qed

lemma observe_succeeds [succeeding]: "succeeds w (observe_entity_report e st p w)"
  unfolding observe_entity_report_def observe_aggregate_report_def observe_safety_report_def Let_def
  by (simp add: succeeds_defs reset_window_def latch_report_fault_def course_simps)

lemma interfere_succeeds [succeeding]: "succeeds w (interfere i w)"
proof (cases i)
  case (Reported e new)
  have s: "succeeds w (w\<lparr>w_states := (w_states w)(e := new)\<rparr>)" by (simp add: succeeds_defs)
  from s succeeds_trans [OF s observe_succeeds] show ?thesis
    using Reported by (simp add: deliver_report_def Let_def)
qed (simp_all add: succeeds_defs)

lemma fold_interfere_succeeds [succeeding]: "succeeds w (fold interfere evs w)"
proof (induction evs arbitrary: w)
  case (Cons i evs)
  show ?case unfolding fold_Cons comp_def by (rule succeeds_trans [OF interfere_succeeds Cons.IH])
qed simp

lemma pass_time_succeeds [succeeding]: "succeeds w (pass_time st w)"
  unfolding pass_time_def
  by (rule succeeds_trans [OF _ fold_interfere_succeeds]) (simp add: succeeds_defs)


section \<open>Primitive actions\<close>

lemma await_lasting [lasting]: "keeps continues await"
  unfolding await_def
  by (intro lasting) (simp_all add: succeeding trace_simps lasting split: await_end.split)

lemma sleep_lasting [lasting]: "keeps continues (sleep d)"
  unfolding sleep_def
  by (intro lasting) (rule succeeding | simp add: trace_simps succeeds_defs)+

lemma notice_lasting [lasting]: "keeps continues (notice_call d s x)"
  unfolding notice_call_def by (intro lasting) (simp_all add: succeeds_defs)

lemma read_load_lasting [lasting]: "keeps continues read_load"
  unfolding read_load_def by (intro lasting) (rule succeeding | simp add: trace_simps)+

lemma ingest_lasting [lasting]: "keeps continues ingest_load_telemetry"
  unfolding ingest_load_telemetry_def by (intro lasting) (rule succeeding | simp add: trace_simps)+

lemma device_call_lasting [lasting]: "keeps continues (device_call d s x)"
proof -
  have "keeps continues (upd (\<lambda>w. w\<lparr>w_trace := ((d, s, x), ctl.truncate w) # w_trace w\<rparr>))"
    by (rule course.keeps_upd) (simp add: continues_def extends_def, simp add: succeeds_defs)
  then show ?thesis unfolding device_call_def by (rule course.keeps_thn [OF _ await_lasting])
qed

section \<open>Records, saving and notices\<close>

lemma record_succeeds [succeeding]:
  "succeeds w (recorded b h w)" "succeeds w (saved_snapshot w)" "succeeds w (notified n fp w)"
  "succeeds w (dismissed w)"
  by (simp_all add: succeeds_defs recorded_def saved_snapshot_def notified_def dismissed_def)

lemma fingerprint_succeeds [succeeding]: "succeeds w (fold fingerprint_fault is w)"
proof (induction "is" arbitrary: w)
  case (Cons i "is")
  have "succeeds w (fingerprint_fault i w)" by (simp add: fingerprint_fault_def succeeds_defs)
  then show ?case unfolding fold_Cons comp_def by (rule succeeds_trans [OF _ Cons.IH])
qed simp

lemma record_lasting [lasting]:
  "keeps continues (new_action_id l)" "keeps continues next_operation_id" "keeps continues (note_action ev)"
  "keeps continues (fire_event t x)" "keeps continues async_save"
  unfolding new_action_id_def next_operation_id_def note_action_def fire_event_def async_save_def
  by (intro lasting; (rule succeeding | simp add: trace_simps succeeds_defs))+

lemma persist_lasting [lasting]: "keeps continues persist_runtime_if_dirty" "keeps continues persist_runtime"
  unfolding persist_runtime_if_dirty_def persist_runtime_def
  by (intro lasting; (rule succeeding | simp add: trace_simps succeeds_defs))+

lemma observe_only_lasting [lasting]: "keeps continues (record_observe_only_action a r i d s x c)"
  unfolding record_observe_only_action_def by (intro lasting)

lemma notify_lasting [lasting]:
  "keeps continues (telemetry_notification_text r)" "keeps continues (ensure_telemetry_notification r)"
  "keeps continues dismiss_telemetry_notification" "keeps continues (ensure_manual_on_notification d t)"
  "keeps continues notify_faults"
  unfolding telemetry_notification_text_def ensure_telemetry_notification_def mobile_notice_def fault_event_def
    dismiss_telemetry_notification_def ensure_manual_on_notification_def notify_faults_def Let_def
  by (intro lasting; (rule succeeding | simp add: trace_simps succeeds_defs))+

section \<open>Commands\<close>

lemma create_owned: "tr_create i c oid st srcs now tr = (r, tr') \<Longrightarrow> owned_ok tr \<Longrightarrow> owned_ok tr'"
  using owned_create [of tr i c oid st srcs now] by simp

lemma reconcile_owned: "tr_reconcile intents now tr = (b, r, tr') \<Longrightarrow> owned_ok tr \<Longrightarrow> owned_ok tr'"
  using owned_reconcile [of tr intents now] by simp

lemma device_updates [course_simps]:
  "plan_of (d\<lparr>d_is_on := b\<rparr>) = plan_of d" "plan_of (d\<lparr>d_pause_until := p\<rparr>) = plan_of d"
  "plan_of (d\<lparr>d_last_turn_off_time := p\<rparr>) = plan_of d"
  "plan_of (d\<lparr>d_measured_power := x, d_measured_power_valid := v, d_measured_power_reason := r\<rparr>) = plan_of d"
  by (simp_all add: plan_of_def)

lemma update_succeeds: "(\<And>d. plan_of (f d) = plan_of d) \<Longrightarrow> succeeds w (update_device d' f w)"
  unfolding update_device_def by (rule model_succeeds) (rule plan_set_device)

lemma ownership_succeeds [succeeding]:
  "succeeds w (remove_pending_restore i w)" "succeeds w (w\<lparr>c_tx := tr_remove i (c_tx w)\<rparr>)"
  by (simp_all add: remove_pending_restore_def succeeds_defs owned_remove)

lemma latch_succeeds [succeeding]: "succeeds w (latch_device_fault d r w)"
  by (simp add: latch_device_fault_def update_device_def succeeds_defs course_simps)

lemma persistence_failed_succeeds [succeeding]: "succeeds w (action_persistence_failed i r w)"
  by (simp add: action_persistence_failed_def latch_device_fault_def update_device_def reset_window_def
      succeeds_defs course_simps split: option.split)

lemma restored_succeeds [succeeding]: "succeeds w (restored d oid w)"
  by (simp add: restored_def remove_pending_restore_def update_device_def succeeds_defs course_simps
      owned_remove Let_def)

lemma pause_lasting [lasting]: "keeps continues (pause_device d)"
  unfolding pause_device_def
  by (intro lasting; (rule succeeding | simp add: update_succeeds trace_simps course_simps | simp add: succeeds_defs))+

lemma create_ticket_lasting [lasting]: "keeps continues (create_restore_ticket d c st oid)"
  unfolding create_restore_ticket_def
proof (rule keeps_lookI)
  fix w :: coord
  let ?make = "tr_create (d_device_id d) c
      (operation_text (if oid = None \<or> oid = Some [] then c_last_operation_id w else oid))
      st (active_sources (c_intents w) (d_device_id d) (w_now w)) (w_now w) (c_tx w)"
  obtain r tr where m: "?make = (r, tr)" by force
  have tr: "owned_ok (c_tx w) \<Longrightarrow> owned_ok tr" by (rule create_owned [OF m])
  have "continues w (w\<lparr>c_tx := tr\<rparr>)" by (rule continues_same) (simp_all add: succeeds_defs tr)
  moreover have "keeps continues (thn (lift r) (upd (\<lambda>w. w\<lparr>c_journal_dirty := True\<rparr>)))"
    by (intro lasting) (simp_all add: succeeds_defs)
  ultimately show "continues w (snd ((case ?make of (r, tr) \<Rightarrow> thn (upd (\<lambda>w. w\<lparr>c_tx := tr\<rparr>))
      (thn (lift r) (upd (\<lambda>w. w\<lparr>c_journal_dirty := True\<rparr>)))) w))"
    unfolding m prod.case thn_upd by (rule course.rel_trans [OF _ course.rel_keeps])
qed

lemma commit_stop_lasting [lasting]: "keeps continues (commit_stop d c st x)"
  unfolding commit_stop_def Let_def
  by (intro lasting) (simp_all add: engine_succeeds course_simps)

lemma confirm_lasting [lasting]: "keeps continues (confirm_device_state d rb t)"
  unfolding confirm_device_state_def
  by (intro lasting course.keeps_readback_wait) (simp_all add: controller_loop_def lasting succeeds_defs)

lemma off_permitted_lasting [lasting]: "keeps continues (off_dispatch_permitted d e src)"
  unfolding off_dispatch_permitted_def by (intro lasting; (rule succeeding | simp add: trace_simps))

lemma on_permitted_lasting [lasting]: "keeps continues (restore_dispatch_permitted d t)"
  unfolding restore_dispatch_permitted_def by (intro lasting)

lemma issue_lasting [lasting]:
  "keeps continues (issue_off device_call e)" "keeps continues (issue_climate_temperature device_call e st)"
  "keeps continues (issue_climate_mode device_call e st)"
  unfolding issue_off_def issue_climate_temperature_def issue_climate_mode_def Let_def by (intro lasting)+

lemma fallback_lasting [lasting]:
  "keeps continues permitted \<Longrightarrow> keeps continues (issue_emergency_fallback device_call es permitted)"
proof -
  assume p: "keeps continues permitted"
  have "keeps continues (fallback_loop device_call permitted xs)" for xs
  proof (induction xs)
    case (Cons x xs)
    then show ?case unfolding fallback_loop.simps by (intro lasting p)
  qed (simp add: course.keeps_unchanged)
  then show ?thesis unfolding issue_emergency_fallback_def .
qed

lemma restore_lasting [lasting]:
  "keeps continues permitted \<Longrightarrow> keeps continues (issue_restore device_call d st permitted)"
  unfolding issue_restore_def Let_def by (intro lasting)

lemma dispatch_lasting [lasting]:
  "keeps continues (dispatch_off d e src)" "keeps continues (dispatch_on d t)"
  unfolding dispatch_off_def fallback_off_def dispatch_on_def by (intro lasting)+

lemma complete_off_lasting [lasting]: "keeps continues m \<Longrightarrow> keeps continues (complete_off d m r reason)"
  unfolding complete_off_def
  by (cases r) (auto intro!: lasting simp: trace_simps succeeds_defs reset_window_def update_device_def
      latch_device_fault_def course_simps)

lemma complete_on_lasting [lasting]: "keeps continues (complete_on d oid r reason)"
  unfolding complete_on_def
  by (cases r) (auto intro!: lasting succeeding simp: trace_simps succeeds_defs reset_window_def update_device_def
      latch_device_fault_def restored_def course_simps Let_def)

interpretation lasting_protocol: durable_protocol continues controller_env "\<lambda>_. True" "\<lambda>_ _. True"
proof
  show "keeps continues (tx_record controller_env ev)" "keeps continues (tx_persist controller_env)" for ev
    by (simp_all add: controller_env_def lasting)
  show "keeps continues (tx_failed controller_env i r)" "keeps continues (tx_remove controller_env i)" for i r
    by (auto simp: controller_env_def trace_simps intro!: lasting succeeding)
qed simp

lemma execute_lasting [lasting]:
  "keeps continues dispatch \<Longrightarrow> (\<And>r s. keeps continues (finish r s)) \<Longrightarrow>
   keeps continues (execute controller_env base dispatch finish)"
  by (rule lasting_protocol.execute_keeps) (simp_all add: course.rel_keeps)

lemma command_lasting [lasting]:
  "keeps continues m \<Longrightarrow> keeps continues (command_off d e a src actor ctx why m)"
  "keeps continues (command_on d a src actor ctx)"
  unfolding command_off_def command_on_def given_action_id_def begin_operation_def
  by (intro lasting; simp add: succeeds_defs)+

section \<open>Lanes\<close>

lemma stage_lasting [lasting]:
  "keeps continues (say s)" "keeps continues (set_status s)" "keeps continues persist"
  "keeps continues reset_restore" "keeps continues (set_phase ph rc)" "keeps continues (latch_failed_stop d)"
  unfolding say_def set_status_def persist_def reset_restore_def set_phase_def latch_failed_stop_def
  by (intro lasting; (rule succeeding | simp add: trace_simps succeeds_defs))+

lemma lanes_succeed [succeeding]:
  "succeeds w (telemetry_blocked r w)" "succeeds w (telemetry_cleared r w)" "succeeds w (defer_off d w)"
  "succeeds w (undefer_off d w)" "succeeds w (disabled_decision w)" "succeeds w (grid_returned w)"
  by (simp_all add: telemetry_blocked_def telemetry_cleared_def defer_off_def undefer_off_def
      disabled_decision_def grid_returned_def reset_window_def succeeds_defs course_simps Let_def)

lemma measured_succeeds [succeeding]: "succeeds w (refresh_measured_power d w)"
  by (auto simp: refresh_measured_power_def intro!: update_succeeds course_simps split: prod.split)

lemma report_lasting [lasting]:
  "keeps continues (ensure_manual_intent i)" "keeps continues (accept_manual d a)"
  "keeps continues (handle_telemetry_fault r)" "keeps continues handle_report_invalidations"
  "keeps continues wait_for_startup_telemetry" "keeps continues project_latched_telemetry_fault"
  "keeps continues recover_telemetry_fault" "keeps continues (grid_loss_observed rc l)"
  unfolding ensure_manual_intent_def accept_manual_def handle_telemetry_fault_def
    handle_report_invalidations_def wait_for_startup_telemetry_def project_latched_telemetry_fault_def
    recover_telemetry_fault_def grid_loss_observed_def Let_def
  by (intro lasting; (rule succeeding | simp add: trace_simps succeeds_defs reset_window_def course_simps))+

lemma reconcile_lasting [lasting]: "keeps continues reconcile_intents"
  unfolding reconcile_intents_def
proof (rule keeps_lookI)
  fix w :: coord
  obtain b r tr where m: "tr_reconcile (c_intents w) (w_now w) (c_tx w) = (b, r, tr)"
    by (cases "tr_reconcile (c_intents w) (w_now w) (c_tx w)") auto
  show "continues w (snd ((case tr_reconcile (c_intents w) (w_now w) (c_tx w) of
      (changed, intents, tr) \<Rightarrow> upd (\<lambda>w. w\<lparr>c_intents := intents, c_tx := tr,
         c_journal_dirty := c_journal_dirty w \<or> changed\<rparr>)) w))"
    unfolding m by (simp, rule continues_same) (simp_all add: succeeds_defs reconcile_owned [OF m])
qed

lemma policy_of:
  "observe_load e l t = (d, e') \<Longrightarrow> policy e' = policy e"
  "observe_restore_safe_capacity e a b c t = (d, e') \<Longrightarrow> policy e' = policy e"
  using policy_updates(3) [of e l t] policy_updates(5) [of e a b c t] by simp_all

text \<open>An engine computed from the one just seen.\<close>

lemma engine_lasting:
  "policy e = policy (c_engine w) \<Longrightarrow> keeps continues k \<Longrightarrow>
   continues w (snd (thn (upd (\<lambda>w. w\<lparr>c_engine := e\<rparr>)) k w))"
  unfolding thn_upd
  by (rule course.rel_trans [OF _ course.rel_keeps]) (auto intro: continues_same engine_succeeds)

lemma decision_lasting [lasting]: "keeps continues (policy_decision_for c)"
  unfolding policy_decision_for_def
proof (rule keeps_lookI)
  fix w :: coord
  obtain d e where m: "observe_load (c_engine w) (Fin c) (w_mono w) = (d, e)" by force
  have "continues w (snd (thn (upd (\<lambda>w. w\<lparr>c_engine := e\<rparr>)) (ret (d, False)) w))"
    by (rule engine_lasting) (rule policy_of(1) [OF m], intro lasting)
  moreover have "keeps continues (thn (upd disabled_decision) (ret (mk_decision False None NORMAL_MONITORING, True)))"
    by (intro lasting) (simp_all add: succeeding trace_simps)
  ultimately show "continues w (snd ((if c_mode w \<noteq> ''off''
     then (case observe_load (c_engine w) (Fin c) (w_mono w) of
             (d, e) \<Rightarrow> thn (upd (\<lambda>w. w\<lparr>c_engine := e\<rparr>)) (ret (d, False)))
     else thn (upd disabled_decision) (ret (mk_decision False None NORMAL_MONITORING, True))) w))"
    unfolding m by (auto simp: keeps_def simp del: thn_upd)
qed

lemma small_lasting [lasting]:
  "keeps continues shed_candidate_snapshot" "keeps continues (announce_command d n r)"
  "keeps continues (shed_observed d r)" "keeps continues (shed_failed d)"
  "keeps continues (emit_policy_decision x c)" "keeps continues required_loads"
  "keeps continues (finish_monitoring_status b)"
  unfolding shed_candidate_snapshot_def announce_command_def shed_observed_def shed_failed_def
    emit_policy_decision_def required_loads_def finish_monitoring_status_def
  by (intro lasting; simp add: trace_simps succeeds_defs lasting split: option.split)+

lemma manual_lasting [lasting]:
  "keeps continues (handle_manual_on_pending d)" "keeps continues refresh_device_states"
  unfolding handle_manual_on_pending_def reshed_manual_def refresh_device_states_def refresh_device_state_def Let_def
  by (intro lasting; (simp add: update_succeeds trace_simps course_simps; fail
      | rule succeeds_trans [OF _ measured_succeeds], simp add: succeeds_defs
      | simp add: succeeds_defs))+

lemma grid_lasting [lasting]:
  "keeps continues (stop_on_low_battery d)" "keeps continues enforce_battery_minimum"
  "keeps continues (stop_for_grid_loss rc d)"
  unfolding stop_on_low_battery_def enforce_battery_minimum_def stop_for_grid_loss_def
  by (intro lasting; (rule succeeding | simp add: trace_simps succeeds_defs))+

lemma grid_loop_lasting [lasting]: "keeps continues (grid_loss_loop retry rc ds failed)"
proof (induction ds arbitrary: failed)
  case (Cons d ds)
  then show ?case
    unfolding grid_loss_loop.simps by (intro lasting) (simp_all add: trace_simps succeeding)
qed (simp add: course.keeps_unchanged)

lemma grid_loss_lasting [lasting]:
  "keeps continues (handle_grid_loss rc l i)" "keeps continues (perform_emergency_all_stop c)"
  unfolding handle_grid_loss_def grid_loss_stop_def perform_emergency_all_stop_def Let_def
  by (intro lasting; simp add: trace_simps succeeds_defs)+

lemma policy_lasting [lasting]: "keeps continues (perform_shedding l x)" 
  unfolding perform_shedding_def Let_def by (intro lasting)

lemma perform_restore_lasting [lasting]: "keeps continues (perform_restore c)"
proof -
  have now: "keeps continues (restore_now d c)" for d
    unfolding restore_now_def by (intro lasting)
  have none: "keeps continues (thn reset_restore
      (thn (upd (\<lambda>w. w\<lparr>c_engine := (c_engine w)\<lparr>last_reason_code := RESTORE_BLOCKED_NO_CANDIDATES\<rparr>\<rparr>)) (ret False)))"
    by (intro lasting) (simp_all add: succeeds_defs)
  have gone: "keeps continues (thn (upd (remove_pending_restore i)) (ret False))" for i
    by (intro lasting) (simp_all add: succeeding trace_simps)
  show ?thesis
    unfolding perform_restore_def
    by (rule keeps_lookI)
      (auto simp del: thn_upd intro: course.rel_keeps [OF none] course.rel_keeps [OF gone]
        engine_lasting [OF policy_of(2) now]
        engine_lasting [OF policy_of(2) course.keeps_ret] split: list.split prod.split)
qed

lemma safety_lasting [lasting]: "keeps continues safety_lane_handled"
  unfolding safety_lane_handled_def supply_lane_def grid_lane_def
  by (intro lasting) (simp_all add: succeeding trace_simps)

lemma evaluate_lasting [lasting]: "keeps continues evaluate"
  unfolding evaluate_def shedding_lane_handled_def by (intro lasting) (simp_all add: succeeds_defs)

lemma evaluate_safely_lasting [lasting]: "keeps continues evaluate_safely" "keeps continues update_data"
  unfolding update_data_def evaluate_safely_def evaluation_failed_def
  by (intro lasting; simp add: succeeds_defs)+

section \<open>Services\<close>

lemma services_succeed [succeeding]:
  "succeeds w (requarantined i w)" "succeeds w (fault_cleared w)" "succeeds w (commit_failed w)"
  "v \<in> set MODES \<Longrightarrow> succeeds w (mode_changed v w)"
  by (auto simp: requarantined_def fault_cleared_def commit_failed_def mode_changed_def reset_window_def
      succeeds_defs course_simps MODES_def Let_def)

lemma publish_lasting [lasting]: "keeps continues publish_data"
  unfolding publish_data_def by (intro lasting)

lemma mode_property_lasting [lasting]: "keeps continues (set_mode_property v)"
  unfolding set_mode_property_def by (intro lasting) (simp_all add: succeeding trace_simps)

lemma change_mode_lasting [lasting]: "keeps continues (change_mode v)"
  unfolding change_mode_def
proof (rule keeps_lookI)
  fix w :: coord
  let ?body = "thn (set_mode_property v) (thn (whenever (v \<noteq> ''auto'') reset_restore) persist_runtime)"
  obtain r u where run: "?body w = (r, u)" by force
  have "keeps continues ?body" by (intro lasting)
  from course.rel_keeps [OF this, of w] run have body: "continues w u" by simp
  have "continues w (mode_rolled_back (c_mode w) (restore_since (c_engine w)) u)"
  proof -
    have "succeeds w (mode_rolled_back (c_mode w) (restore_since (c_engine w)) u)"
      using body by (simp add: continues_def succeeds_defs mode_rolled_back_def)
    with body show ?thesis by (simp add: continues_def extends_def mode_rolled_back_def)
  qed
  with body run show "continues w (snd (try_except ?body
      (\<lambda>e. thn (upd (mode_rolled_back (c_mode w) (restore_since (c_engine w)))) (raise e)) w))"
    by (cases r) (simp_all add: try_except_def)
qed

lemma set_mode_lasting [lasting]: "keeps continues (async_set_mode v)" "keeps continues async_force_evaluate"
  unfolding async_set_mode_def async_force_evaluate_def by (intro lasting)+

lemma intent_lasting [lasting]:
  "keeps continues (async_set_restore_intent i s a x p e r d)" "keeps continues (async_cancel_restore i)"
  "keeps continues async_shutdown"
  unfolding async_set_restore_intent_def new_revision_def store_intent_def save_intent_def
    async_cancel_restore_def async_shutdown_def Let_def
  by (intro lasting; (rule succeeding | simp add: trace_simps succeeds_defs reset_window_def course_simps))+

lemma stop_lasting [lasting]:
  "keeps continues (async_request_stop i src actor ctx)" "keeps continues (async_clear_quarantine i src actor ctx)"
  "keeps continues async_clear_fault"
  unfolding async_request_stop_def stop_requested_def async_clear_quarantine_def async_clear_fault_def
  by (intro lasting; (rule succeeding | simp add: trace_simps succeeds_defs))+

section \<open>Recovery\<close>

lemma quarantine_succeeds [succeeding]: "succeeds w (restore_action_journal us w)"
proof -
  have "succeeds w (fold quarantine_action us w)"
  proof (induction us arbitrary: w)
    case (Cons u us)
    have "succeeds w (quarantine_action u w)"
      by (auto simp: quarantine_action_def succeeds_defs split: pyval.split)
    then show ?case unfolding fold_Cons comp_def by (rule succeeds_trans [OF _ Cons.IH])
  qed simp
  then show ?thesis unfolding restore_action_journal_def
    by (rule succeeds_trans) (simp add: succeeds_defs)
qed

lemma hooks_succeed [succeeding]:
  "succeeds w (restore_telemetry_fault_state l r h w)" "succeeds w (restore_fault_notifications a b w)"
  "succeeds w (restore_device_faults f q rs c w)"
  by (simp_all add: restore_telemetry_fault_state_def restore_fault_notifications_def restore_device_faults_def
      succeeds_defs course_simps Let_def split: option.split)

lemma pauses_plan: "restore_pauses_from now mx items ps m = Inr (ps', m') \<Longrightarrow> load_plan m' = load_plan m"
proof (induction items arbitrary: ps m)
  case (Cons p items)
  then show ?case
    by (cases p) (auto simp: rbind_Inr_iff course_simps split: if_splits)
qed simp

lemma recovered_plan:
  "restore_pause_timestamps now mx m s = Inr (m', s') \<Longrightarrow> load_plan m' = load_plan m"
  "store_restore_device_runtime m s = Inr (fq, m', s') \<Longrightarrow> load_plan m' = load_plan m"
  by (auto simp: restore_pause_timestamps_def store_restore_device_runtime_def rbind_Inr_iff course_simps Let_def
      dest: pauses_plan split: pyval.splits if_splits)

lemma recovered_policy: "restore_policy_runtime now s e = Inr e' \<Longrightarrow> policy e' = policy e"
  by (auto simp: restore_policy_runtime_def restore_shed_fence_def restore_restore_fence_def rbind_Inr_iff
      Let_def split: pyval.splits)

lemma restore_tickets_owned:
  assumes "restore_restore_tickets now m s = Inr (ts, s')"
  shows "owned_ok (hydrate (filter P ts) tr)"
proof -
  have "tickets_ok now m ts"
    using restored_tickets_cases [OF assms] by (auto simp: tickets_ok_def)
  then show ?thesis
    by (auto simp: owned_ok_def hydrate_def tickets_ok_def distinct_map_filter)
qed

text \<open>What a reader returns is known when it is written back.\<close>

lemma lift_lasting:
  "(\<And>x. r = Inr x \<Longrightarrow> continues w (snd (f x w))) \<Longrightarrow> continues w (snd (bnd (lift r) f w))"
  by (cases r) (simp_all add: bnd_def course.rel_refl)

lemma read_store_lasting:
  "(\<And>w x s. reader w = Inr (x, s) \<Longrightarrow> continues w (snd (k x (w\<lparr>c_store := s\<rparr>)))) \<Longrightarrow>
   keeps continues (read_store reader k)"
  unfolding read_store_def by (rule keeps_lookI, rule lift_lasting) auto

lemma store_lasting:
  "succeeds w (f w) \<Longrightarrow> w_trace (f w) = w_trace w \<Longrightarrow> keeps continues k \<Longrightarrow>
   continues w (snd (thn (upd f) k w))"
  unfolding thn_upd by (rule course.rel_trans [OF _ course.rel_keeps]) (auto intro: continues_same)

lemma recover_model_lasting [lasting]: "keeps continues recover_pauses" "keeps continues recover_faults"
proof -
  show "keeps continues recover_pauses"
    unfolding recover_pauses_def
    by (rule keeps_lookI, rule lift_lasting)
      (auto intro!: continues_same simp: succeeds_defs dest: recovered_plan)
  have faults: "keeps continues (read_store (\<lambda>w. restore_fault_reasons (c_model w) (c_store w)) (\<lambda>rs.
         upd (\<lambda>w. restore_device_faults f q rs (rs_safety_invalid (c_store w)) w)))" for f q
    unfolding read_store_def
    by (intro lasting; (rule succeeding | simp add: trace_simps succeeds_defs))+
  show "keeps continues recover_faults"
    unfolding recover_faults_def
    by (rule keeps_lookI, rule lift_lasting)
      (auto simp: succeeds_defs simp del: thn_upd intro!: store_lasting faults dest: recovered_plan)
qed

lemma recover_lasting [lasting]:
  "keeps continues recover_notifications" "keeps continues recover_telemetry" "keeps continues recover_journal"
  "keeps continues recover_requests"
  unfolding recover_notifications_def recover_telemetry_def recover_journal_def recover_requests_def read_store_def
  by (intro lasting; (rule succeeding | simp add: trace_simps succeeds_defs))+

lemma recover_policy_lasting [lasting]: "keeps continues recover_policy"
  unfolding recover_policy_def
  by (rule keeps_lookI, rule lift_lasting) (simp add: continues_same engine_succeeds recovered_policy)

lemma recover_tickets_lasting [lasting]: "keeps continues recover_tickets"
  unfolding recover_tickets_def
  by (rule read_store_lasting)
    (auto simp: restore_tickets_def succeeds_defs intro!: continues_same dest: restore_tickets_owned)

lemma recovery_follows: "keeps follows (async_recover d b)"
proof -
  define rest where "rest = thn recover_pauses (thn recover_faults (thn recover_notifications (thn recover_telemetry
    (thn recover_journal (thn recover_policy (thn recover_requests (thn recover_tickets
      (upd (\<lambda>w. w\<lparr>c_storage_invalid := c_storage_invalid w \<or> rs_safety_invalid (c_store w)\<rparr>)))))))))"
  have rest: "keeps continues rest"
    unfolding rest_def by (intro lasting; simp add: succeeds_defs)
  have commit: "keeps continues (commit_mode c b)" for c
    unfolding commit_mode_def recovered_mode_def
    by (intro lasting; (rule succeeding | simp add: trace_simps succeeds_defs))+
  have "keeps follows (upd (\<lambda>w. w\<lparr>c_reconfiguration := b\<rparr>))"
    by (rule history.keeps_upd) (simp add: follows_def extends_same outlives_def same_setup_def sound_def)
  then show ?thesis
    unfolding async_recover_def read_back_def rest_def [symmetric]
    by (intro history.keeps_thn keeps_follows [OF rest] keeps_follows [OF commit])
qed

section \<open>Runs\<close>

text \<open>Requests that are not a recovery; setup recovers once, before any other request.\<close>

primrec no_recovery :: "request \<Rightarrow> bool" where
  "no_recovery (SetMode v) = True"
| "no_recovery ForceEvaluate = True"
| "no_recovery (SetIntent i s a x p e r d) = True"
| "no_recovery (CancelRestore i) = True"
| "no_recovery (RequestStop i s a c) = True"
| "no_recovery (ClearQuarantine i s a c) = True"
| "no_recovery ClearFault = True"
| "no_recovery (Recover d b) = False"
| "no_recovery Unload = True"
| "no_recovery (Meanwhile i) = True"

lemma final_keeps: "keeps R m \<Longrightarrow> R w (final m w)"
  by (simp add: keeps_def final_def)

lemma perform_continues: "no_recovery r \<Longrightarrow> continues w (perform r w)"
proof -
  have final: "keeps continues m \<Longrightarrow> continues w (final m w)" for m :: "'x action"
    by (rule final_keeps)
  show "no_recovery r \<Longrightarrow> ?thesis"
    by (cases r) (auto intro!: final lasting continues_same simp: succeeding trace_simps)
qed

lemma run_continues: "list_all no_recovery rs \<Longrightarrow> continues w (run_requests rs w)"
  unfolding run_requests_def
proof (induction rs arbitrary: w)
  case Nil
  then show ?case by (simp add: course.rel_refl)
next
  case (Cons r rs)
  then show ?case
    unfolding fold_Cons comp_def by (auto intro: course.rel_trans [OF perform_continues])
qed

lemma perform_follows: "follows w (perform r w)"
proof (cases "no_recovery r")
  case True
  then show ?thesis by (rule continues_follows [OF perform_continues])
next
  case False
  then obtain d b where "r = Recover d b" by (cases r) simp_all
  then show ?thesis by (simp add: final_keeps [OF recovery_follows])
qed

lemma run_follows: "follows w (run_requests rs w)"
  unfolding run_requests_def
proof (induction rs arbitrary: w)
  case Nil
  then show ?case by (simp add: history.rel_refl)
next
  case (Cons r rs)
  show ?case unfolding fold_Cons comp_def by (rule history.rel_trans [OF perform_follows Cons.IH])
qed

lemma sound_new: "sound (new_coordinator p m st cfg)"
  by (simp add: sound_def new_coordinator_def platform.defs MODES_def owned_ok_def)

lemma run_append: "run_requests (rs @ rs') w = run_requests rs' (run_requests rs w)"
  by (simp add: run_requests_def)

end
