(* ===== verification/Coordinator_Safety.thy ===== *)
theory Coordinator_Safety
  imports Coordinator_Course
begin

text \<open>
  No operation of the controller ever issues a command without its justification, and none for
  anything but a configured load: the lanes, the services and the recovery, composed to runs of any
  length. The relation \<open>planned\<close> carries the plan of the loads along, so that a load taken from the
  controller's table is known to be one of the configured ones.
\<close>

section \<open>Commands for configured loads\<close>

definition planned :: "(string \<times> managed_device) list \<Rightarrow> coord \<Rightarrow> coord \<Rightarrow> bool" where
  "planned L w w' \<longleftrightarrow>
     (load_plan (c_model w) = L \<longrightarrow> load_plan (c_model w') = L \<and> extends (justified L) w w')"

interpretation planning: action_relation "planned L" for L
proof
  show "planned L w w" for w by (simp add: planned_def commands.rel_refl)
  show "planned L u v \<Longrightarrow> planned L v w \<Longrightarrow> planned L u w" for u v w
    unfolding planned_def by (metis commands.rel_trans)
qed

text \<open>In the middle of an operation the table still has the configured loads.\<close>

lemma planned_look:
  "(\<And>w. load_plan (c_model w) = L \<Longrightarrow> keeps (planned L) (f w)) \<Longrightarrow> keeps (planned L) (look f)"
  by (simp add: keeps_def planned_def)

lemma planned_option:
  "(o' = None \<Longrightarrow> keeps (planned L) m) \<Longrightarrow> (\<And>x. o' = Some x \<Longrightarrow> keeps (planned L) (f x)) \<Longrightarrow>
   keeps (planned L) (case o' of None \<Rightarrow> m | Some x \<Rightarrow> f x)"
  by (cases o') simp_all

lemma planned_list:
  "(l = [] \<Longrightarrow> keeps (planned L) m) \<Longrightarrow> (\<And>x xs. l = x # xs \<Longrightarrow> keeps (planned L) (f x xs)) \<Longrightarrow>
   keeps (planned L) (case l of [] \<Rightarrow> m | x # xs \<Rightarrow> f x xs)"
  by (cases l) simp_all

lemma planned_upd:
  "(\<And>w. load_plan (c_model (f w)) = load_plan (c_model w)) \<Longrightarrow> (\<And>w. w_trace (f w) = w_trace w) \<Longrightarrow>
   keeps (planned L) (upd f)"
  by (rule planning.keeps_upd) (simp add: planned_def extends_same)

lemma planned_result:
  assumes "keeps (planned L) m"
    and "\<And>w x w'. load_plan (c_model w) = L \<Longrightarrow> m w = (Inr x, w') \<Longrightarrow> keeps (planned L) (f x)"
  shows "keeps (planned L) (bnd m f)"
proof -
  have "planned L w (snd (bnd m f w))" for w
  proof (cases "load_plan (c_model w) = L")
    case True
    obtain r v where m: "m w = (r, v)" by force
    have v: "planned L w v" using keepsD [OF assms(1) m] .
    show ?thesis
    proof (cases r)
      case (Inl e)
      with m v show ?thesis by (simp add: bnd_def)
    next
      case (Inr x)
      have "planned L v (snd (f x v))"
        using assms(2) [OF True] m Inr by (blast intro: planning.rel_keeps)
      with m v Inr show ?thesis by (auto simp: bnd_def intro: planning.rel_trans)
    qed
  qed (simp add: planned_def)
  then show ?thesis by (simp add: keeps_def)
qed

named_theorems planned_rules

lemmas composing [planned_rules] = planned_look planned_option planned_list planned_upd
  planning.keeps_ret planning.keeps_raise planning.keeps_lift planning.keeps_skip planning.keeps_bnd
  planning.keeps_thn planning.keeps_if planning.keeps_whenever planning.keeps_prod planning.keeps_try_except
  planning.keeps_for_each

lemma follows_plan: "follows w w' \<Longrightarrow> load_plan (c_model w') = load_plan (c_model w)"
  by (simp add: follows_def outlives_def same_setup_def)

lemma succeeds_plan: "succeeds w w' \<Longrightarrow> load_plan (c_model w') = load_plan (c_model w)"
  by (simp add: succeeds_def outlives_def same_setup_def)

lemma planned_follows: "keeps (extends (justified L)) m \<Longrightarrow> keeps follows m \<Longrightarrow> keeps (planned L) m"
  by (auto simp: keeps_def planned_def dest: follows_plan)

lemma planned_of: "keeps (extends (justified L)) m \<Longrightarrow> keeps continues m \<Longrightarrow> keeps (planned L) m"
  by (rule planned_follows [OF _ keeps_follows])

lemma quiet_planned [planned_rules]:
  "keeps (planned L) (say s)" "keeps (planned L) (set_status s)" "keeps (planned L) persist"
  "keeps (planned L) reset_restore" "keeps (planned L) (set_phase ph rc)" "keeps (planned L) (latch_failed_stop d)"
  "keeps (planned L) (fire_event t x)" "keeps (planned L) (ensure_manual_intent i)"
  "keeps (planned L) (accept_manual d a)" "keeps (planned L) (handle_telemetry_fault r)"
  "keeps (planned L) handle_report_invalidations" "keeps (planned L) wait_for_startup_telemetry"
  "keeps (planned L) project_latched_telemetry_fault" "keeps (planned L) recover_telemetry_fault"
  "keeps (planned L) (grid_loss_observed rc l)" "keeps (planned L) shed_candidate_snapshot"
  "keeps (planned L) (announce_command d n r)" "keeps (planned L) (shed_observed d r)"
  "keeps (planned L) (shed_failed d)" "keeps (planned L) (emit_policy_decision pd c)"
  "keeps (planned L) required_loads" "keeps (planned L) (policy_decision_for c)"
  "keeps (planned L) (finish_monitoring_status b)" "keeps (planned L) reconcile_intents"
  by (rule planned_of; (rule frames | rule lasting))+

lemma journal_planned [planned_rules]:
  "keeps (planned L) (new_action_id l)" "keeps (planned L) (note_action ev)" "keeps (planned L) read_load"
  "keeps (planned L) ingest_load_telemetry" "keeps (planned L) (ensure_telemetry_notification r)"
  "keeps (planned L) (ensure_manual_on_notification d t)" "keeps (planned L) persist_runtime_if_dirty"
  "keeps (planned L) persist_runtime" "keeps (planned L) dismiss_telemetry_notification"
  "keeps (planned L) notify_faults" "keeps (planned L) publish_data" "keeps (planned L) (change_mode v)"
  "keeps (planned L) (async_set_restore_intent i s a x p re rd ex)" "keeps (planned L) (async_cancel_restore i)"
  "keeps (planned L) async_shutdown" "keeps (planned L) (async_clear_quarantine i src actor ctx)"
  by (rule planned_of; (rule frames | rule lasting))+

section \<open>Lanes that may command\<close>

lemma no_action_id [simp]: "good_action_id None"
  by (simp add: good_action_id_def)

lemma stop_planned [planned_rules]:
  assumes "known L d"
  shows "keeps (planned L) (command_off d e None src actor ctx why (pause_device d'))"
    "keeps (planned L) (command_off d e None src actor ctx why (commit_stop d' c st x))"
    "keeps (planned L) (command_on d None src actor ctx)"
  by (rule planned_of [OF command_off_justified [OF assms] command_lasting(1)];
      simp add: acting_frames lasting)+
    (rule planned_of [OF command_on_justified [OF assms] command_lasting(2)], simp)

text \<open>The loads an operation picks are loads of the table.\<close>

lemma known_table:
  "load_plan (c_model w) = L \<Longrightarrow> d \<in> set (all_devices (c_model w)) \<Longrightarrow> known L d"
  "load_plan (c_model w) = L \<Longrightarrow> d \<in> set (get_shed_devices (c_model w)) \<Longrightarrow> known L d"
  "load_plan (c_model w) = L \<Longrightarrow> get_device (c_model w) i = Some d \<Longrightarrow> known L d"
  using known_load by (auto simp: get_shed_devices_def get_device_def all_devices_def rev_image_eqI
      intro!: known_load dest!: map_of_SomeD)

lemma shed_snapshot_known:
  assumes "load_plan (c_model w) = L" "shed_candidate_snapshot w = (Inr ds, w')"
  shows "\<forall>d \<in> set ds. known L d"
proof -
  have "ds = fst (shed_candidates (c_model w) (quarantined (c_faults w)) (w_now w))"
    using assms(2) by (auto simp: shed_candidate_snapshot_def split: prod.splits)
  then have "set ds \<subseteq> set (get_shed_devices (c_model w))" by (auto simp: candidates_filter)
  with known_table(2) [OF assms(1)] show ?thesis by blast
qed

lemma restore_snapshot_known:
  assumes "load_plan (c_model w) = L" "filter P (restore_candidate_snapshot w current) = d # ds"
  shows "known L d"
proof -
  have "d \<in> set (restore_candidate_snapshot w current)" using assms(2) by (metis filter_is_subset list.set_intros(1) subsetD)
  then obtain i where "get_device (c_model w) i = Some d"
    by (auto simp: restore_candidate_snapshot_def restore_candidates_def List.map_filter_def)
  then show ?thesis by (rule known_table(3) [OF assms(1)])
qed

lemma manual_planned [planned_rules]: "known L d \<Longrightarrow> keeps (planned L) (handle_manual_on_pending d)"
  unfolding handle_manual_on_pending_def reshed_manual_def Let_def by (intro planned_rules)

lemma refresh_planned [planned_rules]: "keeps (planned L) refresh_device_states"
proof -
  have "keeps (planned L) (refresh_device_state d)" if "known L d" for d
    unfolding refresh_device_state_def Let_def
    by (intro planned_rules that; (simp add: update_device_def trace_simps course_simps; fail
      | rule succeeds_plan [OF succeeds_trans [OF _ measured_succeeds]], simp add: succeeds_defs))
  then show ?thesis
    unfolding refresh_device_states_def by (intro planned_rules) (simp_all, (blast intro: known_table)+)
qed

lemma battery_planned [planned_rules]:
  "known L d \<Longrightarrow> keeps (planned L) (stop_on_low_battery d)" "keeps (planned L) enforce_battery_minimum"
proof -
  show stop: "keeps (planned L) (stop_on_low_battery d)" if "known L d" for d
    unfolding stop_on_low_battery_def by (intro planned_rules that)
  show "keeps (planned L) enforce_battery_minimum"
    unfolding enforce_battery_minimum_def by (intro planned_rules stop) (blast intro: known_table)+
qed

lemma stop_grid_planned [planned_rules]: "known L d \<Longrightarrow> keeps (planned L) (stop_for_grid_loss rc d)"
  unfolding stop_for_grid_loss_def
  by (intro planned_rules) (simp_all add: defer_off_def undefer_off_def)

lemma grid_loop_planned:
  "\<forall>d \<in> set ds. known L d \<Longrightarrow> keeps (planned L) (grid_loss_loop retry rc ds failed)"
proof (induction ds arbitrary: failed)
  case (Cons d ds)
  then show ?case
    unfolding grid_loss_loop.simps by (intro planned_rules Cons.IH) (simp_all add: undefer_off_def)
qed (simp add: planning.keeps_ret)

lemma grid_loss_planned [planned_rules]: "keeps (planned L) (handle_grid_loss rc l i)"
  unfolding handle_grid_loss_def grid_loss_stop_def Let_def
  by (intro planned_rules grid_loop_planned ballI) (simp_all, (blast intro: known_table)+)

lemma emergency_planned [planned_rules]: "keeps (planned L) (perform_emergency_all_stop c)"
  unfolding perform_emergency_all_stop_def by (intro planned_rules) (blast intro: known_table)+

lemma shedding_planned [planned_rules]: "keeps (planned L) (perform_shedding l pd)"
  unfolding perform_shedding_def Let_def
  by (rule planned_result, intro planned_rules)
    (rule planned_look, rule planned_list; intro planned_rules; (drule (1) shed_snapshot_known, simp)?)

lemma restore_planned [planned_rules]: "keeps (planned L) (perform_restore c)"
proof -
  have now: "keeps (planned L) (restore_now d c)" if "known L d" for d
    unfolding restore_now_def by (intro planned_rules that)
  show ?thesis
    unfolding perform_restore_def
    by (intro planned_rules now) (simp_all add: remove_pending_restore_def trace_simps, (blast intro: restore_snapshot_known)+)
qed

lemma evaluate_planned [planned_rules]: "keeps (planned L) evaluate"
  unfolding evaluate_def shedding_lane_handled_def safety_lane_handled_def supply_lane_def grid_lane_def
  by (intro planned_rules) (simp_all add: grid_returned_def trace_simps)

lemma cycle_planned [planned_rules]: "keeps (planned L) evaluate_safely" "keeps (planned L) update_data"
  unfolding update_data_def evaluate_safely_def evaluation_failed_def by (intro planned_rules; simp)+

section \<open>Services and runs\<close>

lemma services_planned [planned_rules]:
  "keeps (planned L) (async_set_mode v)" "keeps (planned L) async_force_evaluate" "keeps (planned L) async_clear_fault"
  unfolding async_set_mode_def async_force_evaluate_def async_clear_fault_def
  by (intro planned_rules; (rule succeeds_plan, rule succeeding | simp add: trace_simps))+

lemma new_action_good: "new_action_id (c # cs) w = (Inr i, v) \<Longrightarrow> \<not> is_space c \<Longrightarrow> good_action_id (Some i)"
  by (auto simp: new_action_id_def good_action_id_def nonblank_iff thn_def bnd_def)

lemma request_stop_planned [planned_rules]: "keeps (planned L) (async_request_stop i src actor ctx)"
proof -
  have stop: "keeps (planned L) (command_off d e (Some aid) src actor ctx why (commit_stop d c st x))"
    if "known L d" "good_action_id (Some aid)" for d aid e why c st x
    by (rule planned_of [OF command_off_justified [OF that] command_lasting(1)]; simp add: acting_frames lasting)
  have "keeps (planned L) (stop_requested d src actor ctx)" if "known L d" for d
    unfolding stop_requested_def
    by (intro planned_look planning.keeps_bnd [OF planning.keeps_lift] planning.keeps_thn planned_rules(14)
        planning.keeps_bnd_result [OF journal_planned(1)] planning.keeps_bnd [OF stop] that)
      (auto intro!: planned_rules simp: is_space_def dest: new_action_good)
  then show ?thesis
    unfolding async_request_stop_def by (intro planned_rules) (blast intro: known_table)+
qed

lemma final_planned: "keeps (planned L) m \<Longrightarrow> planned L w (final m w)"
  by (simp add: keeps_def final_def)

lemma perform_planned: "planned L w (perform r w)"
proof -
  have recover: "keeps (planned L) (async_recover d b)" for d b
    by (rule planned_follows [OF recover_frame recovery_follows])
  have meanwhile: "planned L w (interfere i w)" for i
    using succeeds_plan [OF interfere_succeeds, of i w] by (simp add: planned_def extends_same trace_simps)
  show ?thesis by (cases r) (simp_all add: final_planned planned_rules recover meanwhile)
qed

lemma run_planned: "planned L w (run_requests rs w)"
  unfolding run_requests_def
proof (induction rs arbitrary: w)
  case Nil
  then show ?case by (simp add: planning.rel_refl)
next
  case (Cons r rs)
  show ?case
    unfolding fold_Cons comp_def by (rule planning.rel_trans [OF perform_planned Cons.IH])
qed

lemma run_justified: "extends (justified (load_plan (c_model w))) w (run_requests rs w)"
  using run_planned [of "load_plan (c_model w)" w rs] by (simp add: planned_def)

text \<open>What is fixed of a load: two records of the same plan agree on it.\<close>

lemma plan_fields:
  "d_device_id (plan_of d) = d_device_id d" "command_entity (plan_of d) = command_entity d"
  "emergency_off_entities (plan_of d) = emergency_off_entities d"
  "d_expected_power (plan_of d) = d_expected_power d"
  "logical_device_state states (plan_of d) = logical_device_state states d"
  "battery_permits w (plan_of d) = battery_permits w d"
  by (simp_all add: plan_of_def command_entity_def emergency_off_entities_def logical_device_state_def
      readback_entities_def control_entity_ids_def battery_permits_def battery_policy_active_def
      cong: option.case_cong list.case_cong)

lemma same_load:
  assumes "plan_of d = plan_of x"
  shows "d_device_id d = d_device_id x" "command_entity d = command_entity x"
    "emergency_off_entities d = emergency_off_entities x" "d_expected_power d = d_expected_power x"
    "logical_device_state states d = logical_device_state states x" "battery_permits w d = battery_permits w x"
  using assms plan_fields by metis+

lemma run_log_justified: "list_all (justified (load_plan m)) (w_trace (run_requests rs (new_coordinator p m s cfg)))"
proof -
  have "w_trace (new_coordinator p m s cfg) = []" "c_model (new_coordinator p m s cfg) = m"
    by (simp_all add: new_coordinator_def platform.defs)
  with run_justified [of "new_coordinator p m s cfg" rs] show ?thesis by (auto simp: extends_def)
qed

lemma off_clear_allowed: "off_clear s d e src \<Longrightarrow> emergency_commands_allowed s"
  by (auto simp: off_clear_def physical_commands_allowed_def emergency_commands_allowed_def split: if_splits)

lemma restore_clear_allowed: "restore_clear s d t x \<Longrightarrow> physical_commands_allowed s"
  by (simp add: restore_clear_def restore_commands_allowed_def)

lemma physical_emergency: "physical_commands_allowed s \<Longrightarrow> emergency_commands_allowed s"
  by (simp add: physical_commands_allowed_def emergency_commands_allowed_def)

lemma justified_allowed: "justified L (c, s) \<Longrightarrow> emergency_commands_allowed s"
  by (auto simp: justified_def stop_justified_def start_justified_def split: if_splits
      dest: off_clear_allowed restore_clear_allowed physical_emergency)

text \<open>What a justified command says of the configured load it is for and of its record.\<close>

lemma justified_case:
  assumes "justified (load_plan m) (c, s)"
  obtains (Stop) d x emergency source r where "off_command c" "x \<in> set (all_devices m)" "plan_of d = plan_of x"
      "commanded c \<in> PStr ` set (command_entity x # emergency_off_entities x)" "current_record s = Some r"
      "dispatch_record (d_device_id x) emergency ''turn_off'' source r"
      "if emergency then off_clear s d True source else physical_commands_allowed s \<and> fresh s"
  | (Start) d x source t r where "\<not> off_command c" "x \<in> set (all_devices m)" "plan_of d = plan_of x"
      "commanded c = PStr (command_entity x)" "current_record s = Some r"
      "dispatch_record (d_device_id x) False ''turn_on'' source r" "fresh s"
      "restore_clear s d t (lr_value (sensor_reading s))"
proof -
  from assms obtain d where d: "known (load_plan m) d" and j: "if off_command c
      then \<exists>emergency source. stop_justified d emergency source (commanded c) s
      else \<exists>source. start_justified d source (commanded c) s"
    unfolding justified_def by auto
  from known_configured [OF d] obtain x where x: "x \<in> set (all_devices m)" "plan_of d = plan_of x" by blast
  show thesis
  proof (cases "off_command c")
    case True
    with j obtain e src where stop: "stop_justified d e src (commanded c) s" by auto
    then obtain r where "current_record s = Some r" "dispatch_record (d_device_id d) e ''turn_off'' src r"
      unfolding stop_justified_def on_record_def current_record_def by blast
    with Stop [OF True x(1) x(2)] stop show thesis
      unfolding stop_justified_def same_load [OF x(2)] by blast
  next
    case False
    with j obtain src where start: "start_justified d src (commanded c) s" by auto
    then obtain r where "current_record s = Some r" "dispatch_record (d_device_id d) False ''turn_on'' src r"
      unfolding start_justified_def on_record_def current_record_def by blast
    with Start [OF False x(1) x(2)] start show thesis
      unfolding start_justified_def same_load [OF x(2)] by blast
  qed
qed

lemma log_property:
  "(\<And>c s. justified (load_plan m) (c, s) \<Longrightarrow> Q c s) \<Longrightarrow>
   list_all (\<lambda>(c, s). Q c s) (w_trace (run_requests rs (new_coordinator p m st cfg)))"
  using run_log_justified [of m rs p st cfg] by (auto simp: list_all_iff)




section \<open>Properties\<close>

text \<open>C1. Off and Observe never act, and neither does a stopping, mistrusting or unconfigured
  controller: in every run, whatever requests, reports, failures, cancellations and shutdowns it
  is made of, each command to a device leaves in Auto mode from a controller that is not stopping,
  trusts its stored safety state and needs no reconfiguration.\<close>

theorem commands_only_in_auto:
  "list_all (\<lambda>(c, s). c_mode s = ''auto'' \<and> \<not> c_stopping s \<and> \<not> c_storage_invalid s \<and> \<not> c_reconfiguration s)
     (w_trace (run_requests rs (new_coordinator p m st cfg)))"
  by (rule log_property) (use justified_allowed in \<open>auto simp: emergency_commands_allowed_def\<close>)

text \<open>C4. Every command is on record before it is sent, as what it is: at the moment it leaves, the
  payload on disk holds the record of the action the controller is executing, in phase \<open>dispatched\<close>,
  of the kind of the command, on one of the configured loads, and the entity commanded is that load's
  command entity or, for an OFF, one of its fallback entities.\<close>

theorem commands_on_record:
  "list_all (\<lambda>(c, s). \<exists>d r. d \<in> set (all_devices m) \<and> current_record s = Some r
       \<and> dget r ''phase'' = PStr ''dispatched'' \<and> dget r ''device_id'' = PStr (take 256 (d_device_id d))
       \<and> dget r ''action'' = PStr (if off_command c then ''turn_off'' else ''turn_on'')
       \<and> commanded c \<in> PStr ` set (command_entity d # (if off_command c then emergency_off_entities d else [])))
     (w_trace (run_requests rs (new_coordinator p m st cfg)))"
proof (rule log_property)
  fix c s
  assume "justified (load_plan m) (c, s)"
  then show "\<exists>d r. d \<in> set (all_devices m) \<and> current_record s = Some r
       \<and> dget r ''phase'' = PStr ''dispatched'' \<and> dget r ''device_id'' = PStr (take 256 (d_device_id d))
       \<and> dget r ''action'' = PStr (if off_command c then ''turn_off'' else ''turn_on'')
       \<and> commanded c \<in> PStr ` set (command_entity d # (if off_command c then emergency_off_entities d else []))"
  proof (cases rule: justified_case)
    case (Stop d x e src r)
    then show ?thesis unfolding dispatch_record_def if_P [OF Stop(1)] by blast
  next
    case (Start d x src t r)
    then show ?thesis unfolding dispatch_record_def if_not_P [OF Start(1)] by (intro exI [of _ x] exI [of _ r]) auto
  qed
qed



end
