(* ===== verification/Coordinator_Invariants.thy ===== *)
theory Coordinator_Invariants
  imports Coordinator_Safety
begin

text \<open>
  What holds between any two moments of a run: the state of the controller is well formed, a shutdown
  is final, and the configuration never changes. The relations are those of \<open>Coordinator_Course\<close>.
\<close>

text \<open>Commands leave a controller that is not stopping, and a stopping one never recovers.\<close>

lemma stopping_silent:
  assumes "follows w w'" "extends (justified L) w w'" "c_stopping w"
  shows "w_trace w' = w_trace w"
proof -
  obtain new where new: "w_trace w' = new @ w_trace w" "list_all (justified L) new"
    using assms(2) by (auto simp: extends_def)
  have "list_all (\<lambda>(c, s). outlives w s) new"
    using assms(1) new(1) by (auto simp: follows_def extends_def)
  then have "(c, s) \<in> set new \<Longrightarrow> c_stopping s" for c s
    using assms(3) by (auto simp: list_all_iff outlives_def)
  moreover have "(c, s) \<in> set new \<Longrightarrow> \<not> c_stopping s" for c s
    using new(2) justified_allowed by (fastforce simp: list_all_iff emergency_commands_allowed_def)
  ultimately have "new = []" by (cases new) auto
  with new(1) show ?thesis by simp
qed

text \<open>C6. The state of the controller is well formed after every request, and was whenever a command
  left: the mode is one of the three, the load samples are non-negative and at most 240, and the
  restore tickets are owned consistently (the pending ids are exactly the tickets' ids, without
  repetition, each ticket being well formed and for its own load). This holds in every run, whatever
  the requests, the reports, the failures and the cancellations.\<close>

theorem controller_stays_sound:
  "sound (run_requests rs (new_coordinator p m st cfg))
   \<and> list_all (\<lambda>(c, s). sound s) (w_trace (run_requests rs (new_coordinator p m st cfg)))"
proof -
  let ?w = "new_coordinator p m st cfg"
  have "w_trace ?w = []" by (simp add: new_coordinator_def platform.defs)
  with run_follows [of ?w rs] have "outlives ?w (run_requests rs ?w)"
    "list_all (\<lambda>(c, s). outlives ?w s) (w_trace (run_requests rs ?w))"
    by (auto simp: follows_def extends_def)
  then show ?thesis using sound_new [of p m st cfg] by (auto simp: outlives_def list_all_iff)
qed

text \<open>C5. A shutdown is final: once the controller is stopping no request, event or pending report
  ever makes it command a device again; in particular nothing is commanded from an unload on, even
  by the unload's own save.\<close>

theorem shutdown_is_final:
  "w_trace (run_requests rs (w\<lparr>c_stopping := True\<rparr>)) = w_trace w
   \<and> w_trace (run_requests (Unload # rs) w) = w_trace w"
proof -
  have silent: "w_trace (run_requests rs v) = w_trace v" if "c_stopping v" for v
    by (rule stopping_silent [OF run_follows run_justified that])
  let ?v = "w\<lparr>c_stopping := True\<rparr>"
  have unload: "perform Unload w = final persist_runtime ?v"
    by (simp add: final_def async_shutdown_def)
  have "continues ?v (perform Unload w)" "extends (justified []) ?v (perform Unload w)"
    unfolding unload final_def using persist_lasting(2) persist_runtime_frame [of "justified []"]
    by (simp_all add: keeps_def)
  then have "w_trace (perform Unload w) = w_trace w" "c_stopping (perform Unload w)"
    using stopping_silent [OF continues_follows, of ?v] by (simp_all add: continues_def succeeds_def outlives_def)
  moreover have "run_requests (Unload # rs) w = run_requests rs (perform Unload w)"
    by (simp add: run_requests_def)
  ultimately show ?thesis using silent [of ?v] silent [of "perform Unload w"] by simp
qed

text \<open>Along a run the configuration never changes (sensors, periods, safety source, the policy with
  its tiers, and the plan of every load: its id, entities, power, priorities and battery minimum),
  and the monotonic clock, the count of accepted load reports and the operation counter never go
  back.\<close>

theorem setup_is_constant:
  "same_setup (run_requests rs w) (run_requests (rs @ rs') w)
   \<and> w_mono (run_requests rs w) \<le> w_mono (run_requests (rs @ rs') w)
   \<and> c_generation (run_requests rs w) \<le> c_generation (run_requests (rs @ rs') w)
   \<and> c_next_operation (run_requests rs w) \<le> c_next_operation (run_requests (rs @ rs') w)"
  using run_follows [of "run_requests rs w" rs'] unfolding run_append
  by (simp add: follows_def outlives_def)

end
