(* ===== verification/Coordinator_Modes.thy ===== *)
theory Coordinator_Modes
  imports Coordinator_Invariants
begin

text \<open>
  The contract of a mode change and of the recovery after a restart: which mode is left in force,
  what is on disk then, and which loads come back quarantined.
\<close>

section \<open>What an await cannot change\<close>

lemma observe_fields [simp]:
  "c_mode (observe_entity_report e st p w) = c_mode w"
  "c_storage_invalid (observe_entity_report e st p w) = c_storage_invalid w"
  "c_reconfiguration (observe_entity_report e st p w) = c_reconfiguration w"
  "c_store (observe_entity_report e st p w) = c_store w"
  "c_faults (observe_entity_report e st p w) = c_faults w" "c_model (observe_entity_report e st p w) = c_model w"
  by (simp_all add: observe_entity_report_def observe_aggregate_report_def observe_safety_report_def
      latch_report_fault_def reset_window_def Let_def)

lemma interfere_fields [simp]:
  "c_mode (interfere i w) = c_mode w" "c_storage_invalid (interfere i w) = c_storage_invalid w"
  "c_reconfiguration (interfere i w) = c_reconfiguration w" "c_store (interfere i w) = c_store w"
  "c_faults (interfere i w) = c_faults w" "c_model (interfere i w) = c_model w"
  by (cases i; simp add: deliver_report_def Let_def)+

lemma fold_fields:
  "c_mode (fold interfere evs w) = c_mode w \<and> c_storage_invalid (fold interfere evs w) = c_storage_invalid w
   \<and> c_reconfiguration (fold interfere evs w) = c_reconfiguration w
   \<and> c_store (fold interfere evs w) = c_store w \<and> c_faults (fold interfere evs w) = c_faults w
   \<and> c_model (fold interfere evs w) = c_model w"
  by (induction evs arbitrary: w) simp_all

lemma pass_time_fields [simp]:
  "c_mode (pass_time st w) = c_mode w" "c_storage_invalid (pass_time st w) = c_storage_invalid w"
  "c_reconfiguration (pass_time st w) = c_reconfiguration w" "c_store (pass_time st w) = c_store w"
  "c_faults (pass_time st w) = c_faults w" "c_model (pass_time st w) = c_model w"
  by (simp_all add: pass_time_def fold_fields)

lemma snapshot_fields [simp]:
  "c_mode (saved_snapshot w) = c_mode w" "c_storage_invalid (saved_snapshot w) = c_storage_invalid w"
  "c_reconfiguration (saved_snapshot w) = c_reconfiguration w" "c_faults (saved_snapshot w) = c_faults w"
  "c_model (saved_snapshot w) = c_model w"
  by (simp_all add: saved_snapshot_def)

lemma snapshot_safety [simp]:
  "rs_safety_invalid (store_save r) = rs_safety_invalid r"
  "rs_safety_invalid (store_set_mode m r) = rs_safety_invalid r"
  "rs_safety_invalid (c_store (saved_snapshot w)) = rs_safety_invalid (c_store w)"
  by (simp_all add: saved_snapshot_def store_save_def save_telemetry_fault_def save_fault_notification_state_def
      save_device_runtime_def save_restore_tickets_def save_policy_runtime_def save_requests_def
      store_set_mode_def Let_def)

lemma await_run:
  "await w = (r, v) \<Longrightarrow> v = pass_time (next_await w) w
     \<and> (r = Inr () \<or> (\<exists>s. r = Inl (ServiceErr s)) \<or> r = Inl Cancelled)"
  by (auto simp: await_def split: await_end.splits)

text \<open>Saving changes neither the mode nor what decides about it, and a save that returns has put the
  snapshot on disk.\<close>

lemma persist_run:
  assumes "persist_runtime w = (r, v)"
  shows "c_mode v = c_mode w \<and> c_storage_invalid v = c_storage_invalid w
    \<and> c_reconfiguration v = c_reconfiguration w \<and> c_faults v = c_faults w \<and> c_model v = c_model w
    \<and> w_trace v = w_trace w \<and> rs_safety_invalid (c_store v) = rs_safety_invalid (c_store w)
    \<and> (case r of Inr _ \<Rightarrow> w_disk v = rs_data (store_save (c_store (saved_snapshot w)))
        | Inl e \<Rightarrow> e = Cancelled \<or> is_exception e)"
proof -
  let ?u = "(saved_snapshot w)\<lparr>c_store := store_save (c_store (saved_snapshot w))\<rparr>"
  obtain q u where a: "await ?u = (q, u)" by force
  have "persist_runtime w = (case q of Inl e \<Rightarrow> (Inl e, u)
      | Inr _ \<Rightarrow> (Inr (), u\<lparr>w_disk := rs_data (c_store ?u)\<rparr>))"
    using a by (cases q) (simp_all add: persist_runtime_def async_save_def, simp_all add: thn_def bnd_def)
  with assms await_run [OF a] show ?thesis
    by (auto simp: is_exception_def trace_simps split: sum.splits)
qed

lemma saved_mode:
  assumes "c_mode w \<in> set MODES"
  shows "dget (rs_data (store_save (c_store (saved_snapshot w)))) ''mode'' = PStr (c_mode w)"
  using assms
  by (simp add: saved_snapshot_def store_save_def save_telemetry_fault_def save_fault_notification_state_def
      save_device_runtime_def save_restore_tickets_def save_policy_runtime_def save_requests_def
      store_set_mode_def Let_def)

section \<open>Changing the mode\<close>

lemma mode_changed_fields [simp]:
  "c_mode (mode_changed v w) = v" "c_storage_invalid (mode_changed v w) = c_storage_invalid w"
  "c_reconfiguration (mode_changed v w) = c_reconfiguration w" "c_faults (mode_changed v w) = c_faults w"
  "c_model (mode_changed v w) = c_model w"
  "rs_safety_invalid (c_store (mode_changed v w)) = rs_safety_invalid (c_store w)"
  by (simp_all add: mode_changed_def reset_window_def Let_def)

lemma reset_fields [simp]:
  "c_mode (reset_window w) = c_mode w" "c_storage_invalid (reset_window w) = c_storage_invalid w"
  "c_reconfiguration (reset_window w) = c_reconfiguration w" "c_faults (reset_window w) = c_faults w"
  by (simp_all add: reset_window_def)

definition mode_allowed :: "'a ctl_scheme \<Rightarrow> string \<Rightarrow> bool" where
  "mode_allowed w v \<longleftrightarrow> v \<in> set MODES \<and> (v = ''auto'' \<longrightarrow> \<not> c_storage_invalid w \<and> \<not> c_reconfiguration w)"

lemma mode_property_run:
  "set_mode_property v w = (if mode_allowed w v then (Inr (), mode_changed v w) else (fst (set_mode_property v w), w))
   \<and> (\<not> mode_allowed w v \<longrightarrow> (\<exists>m. fst (set_mode_property v w) = Inl (ValueErr m)))"
  by (auto simp: set_mode_property_def mode_allowed_def MODES_def)

text \<open>The guarded part of a mode change, before any rollback.\<close>

lemma mode_body_run:
  assumes run: "thn (set_mode_property v) (thn (whenever (v \<noteq> ''auto'') reset_restore) persist_runtime) w = (r, u)"
  shows "w_trace u = w_trace w \<and>
    (if mode_allowed w v
     then c_mode u = v \<and> c_storage_invalid u = c_storage_invalid w \<and> c_reconfiguration u = c_reconfiguration w
       \<and> c_faults u = c_faults w
       \<and> (case r of Inr _ \<Rightarrow> dget (w_disk u) ''mode'' = PStr v | Inl e \<Rightarrow> e = Cancelled \<or> is_exception e)
     else u = w \<and> (\<exists>m. r = Inl (ValueErr m)))"
proof (cases "mode_allowed w v")
  case False
  with mode_property_run [of v w] obtain m where "set_mode_property v w = (Inl (ValueErr m), w)"
    by (metis prod.collapse snd_conv)
  with run False show ?thesis by (auto simp: thn_def bnd_def)
next
  case True
  let ?c = "if v \<noteq> ''auto'' then reset_window (mode_changed v w) else mode_changed v w"
  have c: "c_mode ?c = v" "c_storage_invalid ?c = c_storage_invalid w" "c_reconfiguration ?c = c_reconfiguration w"
    "c_faults ?c = c_faults w" "w_trace ?c = w_trace w"
    by (simp_all add: trace_simps)
  have "set_mode_property v w = (Inr (), mode_changed v w)" using mode_property_run [of v w] True by simp
  with run have p: "persist_runtime ?c = (r, u)"
    by (auto simp: thn_def bnd_def whenever_def reset_restore_def skip_def ret_def upd_def split: if_splits)
  have "c_mode ?c \<in> set MODES" unfolding c(1) using True by (simp add: mode_allowed_def)
  from persist_run [OF p] saved_mode [OF this] c True show ?thesis by (simp split: sum.splits)
qed

text \<open>C8. A mode change takes effect only if it is allowed and saved. If the request returns, the new
  mode is in force and is the mode on disk, and Auto is accepted only over trusted storage and
  without a required reconfiguration. If it is refused or the save fails, the previous mode is back
  in force and in the pending payload, with the restore window's start as it was; a cancellation
  during the save is the exception: it leaves the new mode in force though it may not be on disk.
  No device is commanded either way.\<close>

theorem mode_change_contract:
  "case change_mode v w of (r, w') \<Rightarrow> w_trace w' = w_trace w \<and>
     (case r of
        Inr _ \<Rightarrow> c_mode w' = v \<and> v \<in> set MODES \<and> dget (w_disk w') ''mode'' = PStr v
          \<and> (if v = ''auto'' then (c_storage_invalid w = False) \<and> (c_reconfiguration w = False) else True)
      | Inl e \<Rightarrow>
          if is_exception e
          then c_mode w' = c_mode w \<and> restore_since (c_engine w') = restore_since (c_engine w)
            \<and> (if c_mode w \<in> set MODES then dget (rs_data (c_store w')) ''mode'' = PStr (c_mode w) else True)
          else e = Cancelled \<and> c_mode w' = v \<and> mode_allowed w v)"
proof -
  let ?body = "thn (set_mode_property v) (thn (whenever (v \<noteq> ''auto'') reset_restore) persist_runtime)"
  obtain r u where b: "?body w = (r, u)" by force
  note run = mode_body_run [OF b]
  let ?undo = "mode_rolled_back (c_mode w) (restore_since (c_engine w)) u"
  have undone: "c_mode ?undo = c_mode w" "restore_since (c_engine ?undo) = restore_since (c_engine w)"
    "w_trace ?undo = w_trace u" "c_mode w \<in> set MODES \<Longrightarrow> dget (rs_data (c_store ?undo)) ''mode'' = PStr (c_mode w)"
    by (simp_all add: mode_rolled_back_def store_set_mode_def)
  show ?thesis
  proof (cases r)
    case (Inr x)
    with b have "change_mode v w = (Inr (), u)" by (simp add: change_mode_def try_except_def)
    with run Inr show ?thesis by (auto simp: mode_allowed_def split: if_splits)
  next
    case (Inl e)
    show ?thesis
    proof (cases "is_exception e")
      case True
      with b Inl have "change_mode v w = (Inl e, ?undo)" by (simp add: change_mode_def try_except_def)
      with run undone True show ?thesis by (auto split: if_splits)
    next
      case False
      then have "change_mode v w = (Inl e, u)" using b Inl by (simp add: change_mode_def try_except_def)
      with run Inl False show ?thesis by (auto simp: is_exception_def split: if_splits)
    qed
  qed
qed

section \<open>Recovery\<close>

text \<open>Reading the durable state back changes no mode and no stored mode, and only adds faults.\<close>

definition same_keys :: "runtime_store \<Rightarrow> runtime_store \<Rightarrow> bool" where
  "same_keys s t \<longleftrightarrow> dget (rs_data t) ''mode'' = dget (rs_data s) ''mode''
     \<and> dget (rs_data t) ''execution_mode'' = dget (rs_data s) ''execution_mode''
     \<and> history_of t = history_of s"

definition reading :: "coord \<Rightarrow> coord \<Rightarrow> bool" where
  "reading w v \<longleftrightarrow> c_mode v = c_mode w \<and> c_reconfiguration v = c_reconfiguration w \<and> w_now v = w_now w
     \<and> same_keys (c_store w) (c_store v) \<and> map fst (c_model v) = map fst (c_model w)
     \<and> faulted (c_faults w) \<subseteq> faulted (c_faults v) \<and> quarantined (c_faults w) \<subseteq> quarantined (c_faults v)"

interpretation restoring: action_relation reading
  by unfold_locales (auto simp: reading_def same_keys_def)

named_theorems readers
declare restoring.keeps_rules [readers]

lemma upd_reading [readers]: "(\<And>w. reading w (f w)) \<Longrightarrow> keeps reading (upd f)"
  by (rule restoring.keeps_upd)

lemma same_keys_simps [simp]:
  "same_keys s s" "same_keys s (distrust s)"
  "k \<notin> {''mode'', ''execution_mode'', ''audit_history''} \<Longrightarrow> same_keys s (put k v s)"
  by (auto simp: same_keys_def history_of_def)

lemma distrusting_keys: "distrusting fb s r = Inr (x, t) \<Longrightarrow> same_keys s t"
  by (auto dest: distrusting_cases)

lemma reader_keys:
  "restore_pause_timestamps now mx m s = Inr (m', t) \<Longrightarrow> same_keys s t"
  "store_restore_device_runtime m s = Inr (fq, m', t) \<Longrightarrow> same_keys s t"
  "restore_fault_reasons m s = Inr (rs, t) \<Longrightarrow> same_keys s t"
  "restore_requests now m s = Inr (reqs, t) \<Longrightarrow> same_keys s t"
  "restore_restore_tickets now m s = Inr (ts, t) \<Longrightarrow> same_keys s t"
  by (auto simp: restore_pause_timestamps_def store_restore_device_runtime_def restore_fault_reasons_def
      restore_requests_def restore_restore_tickets_def rbind_Inr_iff Let_def
      dest: distrusting_keys split: pyval.splits if_splits)

lemma telemetry_keys:
  "same_keys s (snd (restore_telemetry_fault s))" "same_keys s (snd (restore_telemetry_emergency_handled s))"
proof -
  show a: "same_keys s (snd (restore_telemetry_fault s))" for s
    by (auto simp: restore_telemetry_fault_def split: pyval.split)
  obtain l r t where t: "restore_telemetry_fault s = ((l, r), t)" by (metis prod.collapse)
  then show "same_keys s (snd (restore_telemetry_emergency_handled s))"
    using a [of s] by (auto simp: restore_telemetry_emergency_handled_def same_keys_def history_of_def split: pyval.split)
qed

lemma plan_keys: "load_plan m = load_plan m' \<Longrightarrow> map fst m = map fst m'"
proof -
  have "map fst (load_plan m) = map fst m" for m by (simp add: load_plan_def comp_def case_prod_beta)
  then show "load_plan m = load_plan m' \<Longrightarrow> map fst m = map fst m'" by metis
qed

lemma quarantine_reading: "reading w (fold quarantine_action us w)"
proof (induction us arbitrary: w)
  case (Cons u us)
  have "reading w (quarantine_action u w)"
    by (auto simp: reading_def quarantine_action_def split: pyval.split)
  then show ?case unfolding fold_Cons comp_def by (rule restoring.rel_trans [OF _ Cons.IH])
qed (simp add: restoring.rel_refl)

lemma hooks_reading:
  "reading w (restore_telemetry_fault_state l r h w)" "reading w (restore_fault_notifications a b w)"
  "reading w (restore_device_faults f q rs c w)" "reading w (restore_tickets ts w)"
  by (auto simp: reading_def restore_telemetry_fault_state_def restore_fault_notifications_def
      restore_device_faults_def restore_tickets_def forget_state_def comp_def case_prod_beta Let_def split: option.split)

lemma lift_reading:
  "(\<And>x. r = Inr x \<Longrightarrow> reading w (snd (f x w))) \<Longrightarrow> reading w (snd (bnd (lift r) f w))"
  by (cases r) (simp_all add: bnd_def restoring.rel_refl)

lemma read_store_reading:
  assumes "\<And>w x s. reader w = Inr (x, s) \<Longrightarrow> same_keys (c_store w) s" "\<And>x. keeps reading (k x)"
  shows "keeps reading (read_store reader k)"
proof -
  have "reading w (snd (k x (w\<lparr>c_store := s\<rparr>)))" if "reader w = Inr (x, s)" for w x s
  proof (rule restoring.rel_trans)
    show "reading w (w\<lparr>c_store := s\<rparr>)" using assms(1) [OF that] by (simp add: reading_def)
    show "reading (w\<lparr>c_store := s\<rparr>) (snd (k x (w\<lparr>c_store := s\<rparr>)))" by (rule restoring.rel_keeps [OF assms(2)])
  qed
  then show ?thesis
    unfolding read_store_def by (intro keeps_lookI lift_reading) auto
qed

lemma recover_pauses_reading [readers]: "keeps reading recover_pauses"
  unfolding recover_pauses_def
  by (rule keeps_lookI, rule lift_reading)
    (auto simp: reading_def reader_keys dest: plan_keys [OF recovered_plan(1)])

lemma recover_faults_reading [readers]: "keeps reading recover_faults"
proof -
  have rest: "keeps reading (read_store (\<lambda>w. restore_fault_reasons (c_model w) (c_store w)) (\<lambda>rs.
         upd (\<lambda>w. restore_device_faults f q rs (rs_safety_invalid (c_store w)) w)))" for f q
    by (rule read_store_reading) (auto simp: hooks_reading intro: reader_keys readers)
  have "reading w (w\<lparr>c_model := m, c_store := s\<rparr>)"
    if "store_restore_device_runtime (c_model w) (c_store w) = Inr (fq, m, s)" for w fq m s
    using reader_keys(2) [OF that] plan_keys [OF recovered_plan(2) [OF that]] by (simp add: reading_def)
  from restoring.rel_trans [OF this restoring.rel_keeps [OF rest]] show ?thesis
    unfolding recover_faults_def by (intro keeps_lookI lift_reading) auto
qed

lemma recover_telemetry_reading [readers]: "keeps reading recover_telemetry"
proof -
  have "reading w (snd (recover_telemetry w))" for w
  proof -
    obtain l r s where t: "restore_telemetry_fault (c_store w) = ((l, r), s)" by (metis prod.collapse)
    obtain h s' where h: "restore_telemetry_emergency_handled s = (h, s')" by force
    have "same_keys (c_store w) s'"
      using telemetry_keys(1) [of "c_store w"] telemetry_keys(2) [of s] t h by (simp add: same_keys_def)
    then have "reading w (w\<lparr>c_store := s'\<rparr>)" by (simp add: reading_def)
    from restoring.rel_trans [OF this hooks_reading(1)] show ?thesis
      by (simp add: recover_telemetry_def t h)
  qed
  then show ?thesis by (simp add: keeps_def)
qed

lemma recover_rest_reading [readers]:
  "keeps reading recover_notifications" "keeps reading recover_policy"
  "keeps reading recover_requests" "keeps reading recover_tickets"
proof -
  show "keeps reading recover_notifications" unfolding recover_notifications_def
    by (intro readers) (auto simp: hooks_reading split: prod.split intro!: readers)
  show "keeps reading recover_policy" unfolding recover_policy_def
    by (intro readers) (simp add: reading_def)
  show "keeps reading recover_requests" unfolding recover_requests_def
    by (rule read_store_reading) (auto simp: reading_def intro: reader_keys readers)
  show "keeps reading recover_tickets" unfolding recover_tickets_def
    by (rule read_store_reading) (auto simp: hooks_reading intro: reader_keys readers)
qed

lemma recover_journal_reading [readers]: "keeps reading recover_journal"
  unfolding recover_journal_def
  by (intro readers) (use quarantine_reading in \<open>simp add: reading_def restore_action_journal_def\<close>)

text \<open>Every load of an unfinished action is quarantined by the time the journal has been read.\<close>

definition quarantined_for :: "coord \<Rightarrow> pydict \<Rightarrow> bool" where
  "quarantined_for w u \<longleftrightarrow>
     (case dget u ''device_id'' of
        PStr i \<Rightarrow> i \<in> fst ` set (c_model w) \<longrightarrow> i \<in> quarantined (c_faults w) \<and> i \<in> faulted (c_faults w)
      | _ \<Rightarrow> True)"

lemma quarantined_for_reading: "reading w v \<Longrightarrow> quarantined_for w u \<Longrightarrow> quarantined_for v u"
proof -
  assume r: "reading w v" and q: "quarantined_for w u"
  then have "fst ` set (c_model v) = fst ` set (c_model w)" by (metis reading_def list.set_map)
  with r q show ?thesis by (auto simp: quarantined_for_def reading_def split: pyval.splits)
qed

lemma quarantine_all: "u \<in> set us \<Longrightarrow> quarantined_for (fold quarantine_action us w) u"
proof (induction us arbitrary: w)
  case (Cons x us)
  show ?case
  proof (cases "u = x")
    case True
    have "quarantined_for (quarantine_action x w) x"
      by (auto simp: quarantined_for_def quarantine_action_def get_device_def map_of_eq_None_iff split: pyval.split)
    from quarantined_for_reading [OF quarantine_reading this] True show ?thesis by simp
  next
    case False
    with Cons show ?thesis by simp
  qed
qed simp

lemma thn_Inr: "thn m k w = (Inr x, v) \<Longrightarrow> \<exists>y u. m w = (Inr y, u) \<and> k u = (Inr x, v)"
  by (auto simp: thn_def bnd_def split: prod.splits sum.splits)

lemma journal_quarantines:
  assumes "recover_journal w = (Inr x, v)"
  shows "\<exists>us. unresolved_actions (w_now w) (history_of (c_store w)) = Inr us
    \<and> list_all (quarantined_for v) us"
proof -
  from assms obtain us where us: "unresolved_actions (w_now w) (history_of (c_store w)) = Inr us"
    and v: "v = restore_action_journal us w"
    by (cases "unresolved_actions (w_now w) (history_of (c_store w))") (auto simp: recover_journal_def bnd_def)
  have "reading (fold quarantine_action us w) v" by (simp add: v restore_action_journal_def reading_def)
  then have "u \<in> set us \<Longrightarrow> quarantined_for v u" for u
    using quarantined_for_reading quarantine_all by blast
  with us show ?thesis by (auto simp: list_all_iff)
qed

lemma silent_trace:
  assumes "keeps (extends (\<lambda>_. False)) m" "m w = (r, v)"
  shows "w_trace v = w_trace w"
proof -
  from keepsD [OF assms] obtain new where "w_trace v = new @ w_trace w" "list_all (\<lambda>_. False) new"
    by (auto simp: extends_def)
  then show ?thesis by (cases new) simp_all
qed

lemma read_back_run:
  assumes run: "read_back b w = (r, v)"
  shows "reading (w\<lparr>c_reconfiguration := b\<rparr>) v \<and> w_trace v = w_trace w
    \<and> (case r of Inl _ \<Rightarrow> True
       | Inr _ \<Rightarrow> (rs_safety_invalid (c_store v) \<longrightarrow> c_storage_invalid v)
           \<and> (\<exists>us. unresolved_actions (w_now w) (history_of (c_store w)) = Inr us
                \<and> list_all (quarantined_for v) us))"
proof -
  let ?w = "w\<lparr>c_reconfiguration := b\<rparr>"
  let ?distrust = "upd (\<lambda>w :: coord. w\<lparr>c_storage_invalid := c_storage_invalid w \<or> rs_safety_invalid (c_store w)\<rparr>)"
  have distrust: "keeps reading ?distrust" by (intro readers) (simp add: reading_def)
  define later where "later = thn recover_policy (thn recover_requests (thn recover_tickets ?distrust))"
  have later: "keeps reading later" unfolding later_def by (intro readers distrust)
  define all where "all = thn recover_pauses (thn recover_faults (thn recover_notifications
    (thn recover_telemetry (thn recover_journal later))))"
  have "keeps reading all" unfolding all_def by (intro readers later)
  moreover from run have eq: "all ?w = (r, v)" by (simp add: read_back_def all_def later_def)
  ultimately have reading: "reading ?w v" by (metis restoring.rel_keeps snd_conv)
  have "w_trace v = w_trace w"
    by (rule silent_trace [OF read_back_frame run])
  moreover have "(rs_safety_invalid (c_store v) \<longrightarrow> c_storage_invalid v)
      \<and> (\<exists>us. unresolved_actions (w_now w) (history_of (c_store w)) = Inr us
        \<and> list_all (quarantined_for v) us)" if "r = Inr x" for x
  proof -
    from eq that obtain u1 u2 u3 u4 y u5 where steps: "recover_pauses ?w = (Inr (), u1)" "recover_faults u1 = (Inr (), u2)"
      "recover_notifications u2 = (Inr (), u3)" "recover_telemetry u3 = (Inr (), u4)"
      "recover_journal u4 = (Inr (), u5)" "later u5 = (Inr x, v)"
      unfolding all_def by (auto dest!: thn_Inr)
    have "reading ?w u4"
      using steps(1-4) readers
      by (metis restoring.rel_trans keepsD recover_pauses_reading recover_faults_reading
          recover_rest_reading(1) recover_telemetry_reading)
    then have "w_now u4 = w_now w" "history_of (c_store u4) = history_of (c_store w)"
      by (simp_all add: reading_def same_keys_def)
    with journal_quarantines [OF steps(5)] obtain us where
      us: "unresolved_actions (w_now w) (history_of (c_store w)) = Inr us" "list_all (quarantined_for u5) us"
      by auto
    have "reading u5 v" using keepsD [OF later steps(6)] .
    moreover have "rs_safety_invalid (c_store v) \<longrightarrow> c_storage_invalid v"
      using steps(6) unfolding later_def by (auto dest!: thn_Inr)
    ultimately show ?thesis using us quarantined_for_reading by (auto simp: list_all_iff)
  qed
  ultimately show ?thesis using reading by (cases r) auto
qed

text \<open>The commitment of the mode.\<close>

definition auto_earned :: "coord \<Rightarrow> bool \<Rightarrow> coord \<Rightarrow> bool" where
  "auto_earned v b w' \<longleftrightarrow> \<not> c_storage_invalid w' \<and> \<not> c_reconfiguration w' \<and> \<not> b
     \<and> \<not> c_storage_invalid v \<and> rs_safety_invalid (c_store w') = rs_safety_invalid (c_store v)
     \<and> dget (rs_data (c_store v)) ''mode'' = PStr ''auto''
     \<and> dget (rs_data (c_store v)) ''execution_mode'' \<noteq> PStr ''observe''"

lemma recovered_mode_run:
  assumes "recovered_mode cfg b v = (r, u)"
  shows "(\<exists>s. u = v\<lparr>c_store := s\<rparr>)
    \<and> rs_safety_invalid (c_store u) = rs_safety_invalid (c_store v)
    \<and> (case r of Inl e \<Rightarrow> resolve_unified_mode cfg (c_store v) = Inl e
       | Inr m \<Rightarrow> m \<in> set MODES \<and> (m = ''auto'' \<longrightarrow> \<not> b \<and> \<not> c_storage_invalid v
           \<and> dget (rs_data (c_store v)) ''mode'' = PStr ''auto''
           \<and> dget (rs_data (c_store v)) ''execution_mode'' \<noteq> PStr ''observe''))"
proof (cases "c_storage_invalid v \<or> b")
  case True
  with assms have "u = v" "r = Inr ''off'' \<or> r = Inr ''observe''"
    by (auto simp: recovered_mode_def split: if_splits)
  then show ?thesis by (intro conjI exI [of _ "c_store v"]) (auto simp: MODES_def)
next
  case False
  show ?thesis
  proof (cases "resolve_unified_mode cfg (c_store v)")
    case (Inl e)
    with False assms have "r = Inl e" "u = v" by (auto simp: recovered_mode_def bnd_def)
    then show ?thesis using Inl by (intro conjI exI [of _ "c_store v"]) simp_all
  next
    case (Inr ms)
    obtain m s where ms: "ms = (m, s)" by force
    from resolved_mode [OF Inr [unfolded ms]] have m: "m \<in> set MODES"
      and earned: "m = ''auto'' \<Longrightarrow> dget (rs_data (c_store v)) ''mode'' = PStr ''auto''
         \<and> dget (rs_data (c_store v)) ''execution_mode'' \<noteq> PStr ''observe''"
      by (simp_all add: MODES_def)
    with False assms Inr ms have "r = Inr m" "u = v\<lparr>c_store := s\<rparr>"
      by (simp_all add: recovered_mode_def bnd_def)
    moreover have "rs_safety_invalid s = rs_safety_invalid (c_store v)"
      using Inr ms by (auto simp: resolve_unified_mode_def rbind_Inr_iff Let_def)
    ultimately show ?thesis
      using m False by (intro conjI exI [of _ s]) (simp_all add: earned)
  qed
qed

definition committed :: "coord \<Rightarrow> bool \<Rightarrow> unit res \<Rightarrow> coord \<Rightarrow> bool" where
  "committed v b r w' \<longleftrightarrow> w_trace w' = w_trace v \<and> c_faults w' = c_faults v \<and> c_model w' = c_model v
     \<and> (c_mode w' = ''auto'' \<longrightarrow> c_mode v \<noteq> ''auto'' \<longrightarrow> auto_earned v b w')
     \<and> (case r of Inr _ \<Rightarrow> c_mode w' \<in> set MODES | Inl _ \<Rightarrow> True)"

lemma commit_failed_fields:
  "c_mode (commit_failed w) = ''observe''" "c_faults (commit_failed w) = c_faults w"
  "c_model (commit_failed w) = c_model w" "w_trace (commit_failed w) = w_trace w"
  by (simp_all add: commit_failed_def)

lemma commit_caught:
  assumes "w_trace u = w_trace v" "c_faults u = c_faults v" "c_model u = c_model v"
  shows "committed v b (Inr ()) (commit_failed u)"
  using assms by (simp add: committed_def commit_failed_fields MODES_def)

lemma commit_run:
  assumes run: "commit_mode cfg b v = (r, w')"
  shows "committed v b r w'"
proof -
  let ?body = "bnd (recovered_mode cfg b) (\<lambda>mode. thn (set_mode_property mode) persist_runtime)"
  obtain q s where m: "recovered_mode cfg b v = (q, s)" by force
  from recovered_mode_run [OF m] obtain st where s: "s = v\<lparr>c_store := st\<rparr>" by blast
  show ?thesis
  proof (cases q)
    case (Inl e)
    then have body: "?body v = (Inl e, s)" using m by (simp add: bnd_def)
    show ?thesis
    proof (cases "is_exception e")
      case True
      with run body have "r = Inr ()" "w' = commit_failed s" by (simp_all add: commit_mode_def try_except_def)
      then show ?thesis using commit_caught [of s v b] s by simp
    next
      case False
      with run body have "r = Inl e" "w' = s" by (simp_all add: commit_mode_def try_except_def)
      then show ?thesis using s by (simp add: committed_def)
    qed
  next
    case (Inr mode)
    from recovered_mode_run [OF m] Inr have mode: "mode \<in> set MODES"
      and safety: "rs_safety_invalid (c_store s) = rs_safety_invalid (c_store v)"
      and earned: "mode = ''auto'' \<Longrightarrow> \<not> b \<and> dget (rs_data (c_store v)) ''mode'' = PStr ''auto''
         \<and> dget (rs_data (c_store v)) ''execution_mode'' \<noteq> PStr ''observe''"
      by auto
    show ?thesis
    proof (cases "mode_allowed s mode")
      case False
      with mode_property_run [of mode s] obtain t where "set_mode_property mode s = (Inl (ValueErr t), s)"
        by (metis prod.collapse snd_conv)
      then have "?body v = (Inl (ValueErr t), s)" using m Inr by (simp add: bnd_def thn_def)
      with run have "r = Inr ()" "w' = commit_failed s"
        by (simp_all add: commit_mode_def try_except_def is_exception_def)
      then show ?thesis using commit_caught [of s v b] s by simp
    next
      case True
      obtain p u where p: "persist_runtime (mode_changed mode s) = (p, u)" by force
      note kept = persist_run [OF p]
      have "set_mode_property mode s = (Inr (), mode_changed mode s)"
        using mode_property_run [of mode s] True by simp
      then have body: "?body v = (p, u)" using m Inr p by (simp add: bnd_def thn_def)
      have u: "w_trace u = w_trace v" "c_faults u = c_faults v" "c_model u = c_model v" "c_mode u = mode"
        using kept s by (simp_all add: trace_simps)
      have auto_ok: "c_mode u = ''auto'' \<Longrightarrow> auto_earned v b u"
        using kept True s earned safety by (simp add: auto_earned_def mode_allowed_def)
      show ?thesis
      proof (cases "\<exists>e. p = Inl e \<and> is_exception e")
        case True
        with run body have "r = Inr ()" "w' = commit_failed u" by (auto simp: commit_mode_def try_except_def)
        then show ?thesis using commit_caught [of u v b] u by simp
      next
        case False
        with run body have "r = p" "w' = u" by (auto simp: commit_mode_def try_except_def split: sum.splits)
        then show ?thesis using u auto_ok mode by (auto simp: committed_def split: sum.split)
      qed
    qed
  qed
qed

text \<open>C7. A restart commands nothing and trusts nothing it should not. Recovery ends in Auto (from a
  controller that was not) only if Auto was the stored mode, no stored execution mode asks to
  observe, the stored safety state was accepted by every reader (the store's own mark of a rejection,
  which no reader takes back, is clear), and no reconfiguration is required;
  when it completes the mode is one of the three, and every configured load that an unfinished
  action of the journal names is both faulted and quarantined.\<close>

theorem recovery_is_cautious:
  "case async_recover data reconfiguration w of (r, w') \<Rightarrow> w_trace w' = w_trace w
     \<and> (if c_mode w' = ''auto'' \<and> c_mode w \<noteq> ''auto''
        then \<not> c_storage_invalid w' \<and> \<not> rs_safety_invalid (c_store w') \<and> \<not> c_reconfiguration w' \<and> \<not> reconfiguration
          \<and> dget (rs_data (c_store w)) ''mode'' = PStr ''auto''
          \<and> dget (rs_data (c_store w)) ''execution_mode'' \<noteq> PStr ''observe''
        else True)
     \<and> (case r of
          Inl _ \<Rightarrow> True
        | Inr _ \<Rightarrow> c_mode w' \<in> set MODES
            \<and> (\<exists>us. unresolved_actions (w_now w) (history_of (c_store w)) = Inr us
                 \<and> list_all (quarantined_for w') us))"
proof -
  obtain q v where rb: "read_back reconfiguration w = (q, v)" by force
  note read = read_back_run [OF rb]
  have mode: "c_mode v = c_mode w" "same_keys (c_store w) (c_store v)"
    using read by (simp_all add: reading_def)
  show ?thesis
  proof (cases q)
    case (Inl e)
    with rb have "async_recover data reconfiguration w = (Inl e, v)"
      by (simp add: async_recover_def thn_def bnd_def)
    with read mode show ?thesis by simp
  next
    case (Inr x)
    obtain r w' where c: "commit_mode (dget data ''execution_mode'') reconfiguration v = (r, w')" by force
    with rb Inr have run: "async_recover data reconfiguration w = (r, w')"
      by (simp add: async_recover_def thn_def bnd_def)
    note com = commit_run [OF c]
    have same: "c_faults w' = c_faults v" "c_model w' = c_model v" using com by (simp_all add: committed_def)
    have "quarantined_for v u \<Longrightarrow> quarantined_for w' u" for u
      by (simp only: quarantined_for_def same)
    moreover obtain us where "unresolved_actions (w_now w) (history_of (c_store w)) = Inr us"
      "list_all (quarantined_for v) us"
      using read Inr by auto
    ultimately have us: "\<exists>us. unresolved_actions (w_now w) (history_of (c_store w)) = Inr us
        \<and> list_all (quarantined_for w') us"
      by (auto simp: list_all_iff)
    have sticky: "rs_safety_invalid (c_store v) \<Longrightarrow> c_storage_invalid v" using read Inr by auto
    show ?thesis
      unfolding run prod.case
      using com read mode us sticky
      by (auto simp: committed_def auto_earned_def same_keys_def split: sum.split)
  qed
qed

end
