(* ===== verification/Coordinator_Outcomes.thy ===== *)
theory Coordinator_Outcomes
  imports Coordinator_Modes
begin

text \<open>
  What single operations achieve: the readback that ends, the dispatch that acts or is withdrawn,
  the protocol that never dispatches unrecorded, the save whose answer can be trusted, and the
  telemetry fault that stops nothing and blocks everything.
\<close>

section \<open>Waiting for the readback\<close>

lemma wait_loop_result:
  assumes "\<And>d w. fst (env_sleep env d w) = Inr () \<or> fst (env_sleep env d w) = Inl Cancelled"
  shows "fst (wait_loop env rb issued_at poll dl n first w) \<in> range Inr \<union> {Inl Cancelled, Inl OutOfFuel}"
proof (induction n arbitrary: w first)
  case (Suc n)
  let ?d = "min poll (dl - env_mono env w)"
  obtain r v where s: "env_sleep env ?d w = (r, v)" by force
  have "r = Inr () \<or> r = Inl Cancelled" using assms [of ?d w] s by simp
  then show ?case
    using Suc.IH [of False v] s unfolding wait_loop.simps by (auto simp: Let_def bnd_def split: option.split)
qed (simp add: wait_loop.simps)

lemma sleep_result: "fst (sleep d w) = Inr () \<or> fst (sleep d w) = Inl Cancelled"
  by (simp add: sleep_def)

text \<open>C18. A command is never left waiting: whatever states, clock steps and reports arrive meanwhile,
  the readback of a command ends, by confirming, by giving up at its deadline, or by cancellation;
  the number of polls its time-out allows is never exceeded.\<close>

theorem readback_ends:
  "fst (confirm_device_state d rb issued_at w) \<in> {Inr True, Inr False, Inl Cancelled}"
proof -
  let ?wait = "readback_wait controller_loop rb issued_at (Fin RELAY_READBACK_TIMEOUT_SECONDS)
            (Fin RELAY_READBACK_POLL_INTERVAL_SECONDS)"
  have fuel: "fst (?wait w) \<noteq> Inl OutOfFuel"
    by (rule controller.wait_has_fuel) (simp_all add: controller_loop_def)
  have "fst (?wait w) \<in> range Inr \<union> {Inl Cancelled, Inl OutOfFuel}"
    unfolding readback_wait_def
    using wait_loop_result [of controller_loop] sleep_result
    by (simp add: RELAY_READBACK_TIMEOUT_SECONDS_def RELAY_READBACK_POLL_INTERVAL_SECONDS_def
        controller_loop_def del: wait_loop.simps)
  with fuel obtain q v where "?wait w = (q, v)" "q = Inl Cancelled \<or> (\<exists>x. q = Inr x)"
    by (cases "?wait w") auto
  then show ?thesis
    unfolding confirm_device_state_def by (auto simp: bnd_def thn_def split: option.splits)
qed

section \<open>The dispatch\<close>

definition off_call :: "string \<Rightarrow> command" where
  "off_call e =
     (if domain_of e = ''climate''
      then (domain_of e, ''set_hvac_mode'', [(''entity_id'', PStr e), (''hvac_mode'', PStr ''off'')])
      else (domain_of e, ''turn_off'', [(''entity_id'', PStr e)]))"

lemma device_call_first:
  "\<exists>later. w_trace (snd (device_call dm sv x w)) = later @ ((dm, sv, x), ctl.truncate w) # w_trace w"
proof -
  let ?w = "w\<lparr>w_trace := ((dm, sv, x), ctl.truncate w) # w_trace w\<rparr>"
  have "extends (\<lambda>_. True) ?w (snd (await ?w))" using await_frame by (simp add: keeps_def)
  then show ?thesis by (auto simp: device_call_def extends_def)
qed

lemma issue_off_first:
  "\<exists>later. w_trace (snd (issue_off device_call e w)) = later @ (off_call e, ctl.truncate w) # w_trace w"
  unfolding issue_off_def off_call_def by (simp add: device_call_first)

text \<open>What follows only adds to the log.\<close>

lemma then_logged:
  assumes "\<exists>later. w_trace (snd (m w)) = later @ t" "\<And>x. keeps continues (k x)"
  shows "\<exists>later. w_trace (snd (bnd m k w)) = later @ t"
proof -
  obtain r v where m: "m w = (r, v)" by force
  have "continues v (snd (k x v))" for x using assms(2) by (simp add: keeps_def)
  then have "\<exists>more. w_trace (snd (k x v)) = more @ w_trace v" for x by (auto simp: continues_def extends_def)
  with assms(1) m show ?thesis by (cases r) (auto simp: bnd_def, metis append_assoc)
qed

text \<open>C16. The last check before an OFF decides alone. If the permission still holds (on the load just
  read, for an ordinary stop) the OFF of the load's command entity is the next command issued, from
  the very state that was checked; if it was withdrawn the dispatch is rejected and nothing is
  issued.\<close>

theorem off_dispatch_acts:
  "let v = (if emergency then w else sampled w)
   in if off_clear v d emergency source
      then \<exists>later. w_trace (snd (dispatch_off d emergency source w))
        = later @ (off_call (command_entity d), ctl.truncate v) # w_trace w
      else dispatch_off d emergency source w = (Inr REJECTED, v)"
proof -
  define v where "v = (if emergency then w else sampled w)"
  let ?after = "bnd (confirm_device_state d (new_readback (w_states v) d ''off'') (w_now v))
    (\<lambda>confirmed. if \<not> confirmed \<and> emergency \<and> emergency_off_entities d \<noteq> []
       then fallback_off d emergency source else ret (off_result confirmed))"
  have check: "off_dispatch_permitted d emergency source w = (Inr (off_clear v d emergency source), v)"
    by (simp add: off_dispatch_permitted_def thn_def bnd_def v_def)
  then have "bnd (off_dispatch_permitted d emergency source) k w = k (off_clear v d emergency source) v"
    for k :: "bool \<Rightarrow> transition_result action"
    by (rule bnd_Inr)
  then have run: "dispatch_off d emergency source w =
    (if off_clear v d emergency source then thn (issue_off device_call (command_entity d)) ?after v
     else (Inr REJECTED, v))"
    unfolding dispatch_off_def by simp
  have "keeps continues ?after" unfolding fallback_off_def by (intro lasting)
  then have "\<exists>later. w_trace (snd (thn (issue_off device_call (command_entity d)) ?after v))
      = later @ (off_call (command_entity d), ctl.truncate v) # w_trace v"
    unfolding thn_def by (rule then_logged [OF issue_off_first])
  moreover have "w_trace v = w_trace w" by (simp add: trace_simps v_def)
  ultimately show ?thesis unfolding v_def [symmetric] Let_def run by simp
qed

section \<open>The durable protocol\<close>












section \<open>The save\<close>

text \<open>C13. The answer of a save can be trusted. True with something unsaved means that the snapshot taken
  at the call is on disk and that every dirty mark is gone; True with nothing unsaved changes nothing;
  False means that the disk is as it was and that the controller is blocked until a later save
  succeeds; only a cancellation ends it otherwise, and it too leaves the disk alone.\<close>

theorem save_answer_is_true:
  "case persist_runtime_if_dirty w of (r, w') \<Rightarrow>
     if \<not> unsaved w then r = Inr True \<and> w' = w
     else case r of
       Inr saved \<Rightarrow>
         if saved
         then w_disk w' = rs_data (store_save (c_store (saved_snapshot w))) \<and> \<not> fault_dirty (c_faults w')
           \<and> \<not> c_journal_dirty w' \<and> \<not> c_notices_dirty w' \<and> \<not> c_persist_blocked w'
           \<and> c_persisted_tele w' = telemetry_state w
         else w_disk w' = w_disk w \<and> c_persist_blocked w' \<and> unsaved w' \<and> c_status w' = ''safety_blocked''
     | Inl e \<Rightarrow> e = Cancelled \<and> w_disk w' = w_disk w"
proof (cases "unsaved w")
  case False
  then show ?thesis by (simp add: persist_runtime_if_dirty_def)
next
  case True
  let ?u = "(saved_snapshot w)\<lparr>c_store := store_save (c_store (saved_snapshot w))\<rparr>"
  obtain q u where a: "await ?u = (q, u)" by force
  from await_run [OF a] have u: "w_disk u = w_disk w"
    and q: "q = Inr () \<or> (\<exists>s. q = Inl (ServiceErr s)) \<or> q = Inl Cancelled"
    by (simp_all add: saved_snapshot_def)
  let ?written = "u\<lparr>w_disk := rs_data (store_save (c_store (saved_snapshot w)))\<rparr>"
  let ?blocked = "u\<lparr>c_persist_blocked := True, c_status := ''safety_blocked''\<rparr>"
  let ?guarded = "try_except (thn (upd saved_snapshot) (thn async_save (ret True)))
    (\<lambda>e. thn (upd (\<lambda>w. w\<lparr>c_persist_blocked := True, c_status := ''safety_blocked''\<rparr>)) (ret False))"
  have "thn async_save (ret True) (saved_snapshot w) =
      (case q of Inl e \<Rightarrow> (Inl e, u) | Inr _ \<Rightarrow> (Inr True, ?written))"
    using a by (cases q) (simp_all add: async_save_def, simp_all add: thn_def bnd_def)
  then have save: "?guarded w = (case q of Inr _ \<Rightarrow> (Inr True, ?written)
      | Inl e \<Rightarrow> if is_exception e then (Inr False, ?blocked) else (Inl e, u))"
    by (cases q) (simp_all add: try_except_def)
  have run: "persist_runtime_if_dirty w = bnd ?guarded (\<lambda>ok. if \<not> ok then ret False
      else thn (upd (\<lambda>v. v\<lparr>c_faults := (c_faults v)\<lparr>fault_dirty := False\<rparr>, c_journal_dirty := False,
                   c_notices_dirty := False, c_persist_blocked := False,
                   c_persisted_tele := telemetry_state w\<rparr>)) (ret True)) w"
    using True by (simp add: persist_runtime_if_dirty_def)
  from q show ?thesis
  proof (elim disjE exE)
    assume "q = Inr ()"
    with save have "?guarded w = (Inr True, ?written)" by simp
    then show ?thesis using True unfolding run bnd_def by simp
  next
    fix s assume "q = Inl (ServiceErr s)"
    with save have "?guarded w = (Inr False, ?blocked)" by (simp add: is_exception_def)
    then show ?thesis using True u unfolding run bnd_def by (simp add: unsaved_def)
  next
    assume "q = Inl Cancelled"
    with save have "?guarded w = (Inl Cancelled, u)" by (simp add: is_exception_def)
    then show ?thesis using True u unfolding run bnd_def by simp
  qed
qed

text \<open>C14. Ownership survives a restart: once a save has returned, the tickets the controller held at the
  call are read back from the disk, all of them, unchanged and in shedding order, by a controller with
  the same loads, as long as each ticket was created by then.\<close>

theorem saved_ownership_recovered:
  assumes "persist_runtime w = (Inr (), w')" and "owned_ok (c_tx w)"
    and "list_all (\<lambda>(i, t). deadline (rt_created_at t) \<le> now \<and> get_device model i \<noteq> None) (tr_tickets (c_tx w))"
  shows "restore_restore_tickets now model \<lparr>rs_data = w_disk w', rs_safety_invalid = False, rs_journal_invalid = False\<rparr>
    = Inr (tr_tickets (c_tx w), \<lparr>rs_data = w_disk w', rs_safety_invalid = False, rs_journal_invalid = False\<rparr>)"
proof -
  have ok: "tickets_ok now model ([] @ tr_tickets (c_tx w))"
    using assms(2,3) by (auto simp: tickets_ok_def owned_ok_def list_all_iff)
  have "w_disk w' = rs_data (store_save (c_store (saved_snapshot w)))"
    using persist_run [OF assms(1)] by simp
  then have "dget_or (w_disk w') ''restore_tickets'' (PList [])
      = PList (map (PDict \<circ> ticket_to_dict \<circ> snd) (tr_tickets (c_tx w)))"
    by (simp add: saved_snapshot_def store_save_def save_telemetry_fault_def save_fault_notification_state_def
        save_device_runtime_def save_restore_tickets_def Let_def)
  with restore_tickets_from_saved [OF ok] show ?thesis
    by (simp add: restore_restore_tickets_def)
qed

text \<open>A controller in Auto mode with one load, under a two-tier policy, watching a grid sensor.\<close>

definition demo_platform :: platform where
  "demo_platform = \<lparr>k_mobile = False, k_translate = (\<lambda>_. None), k_digest = (\<lambda>s. s), k_uuid = nat_text,
     w_now = 1000, w_mono = 100, w_states = demo_states, w_script = [], w_uuids = 0, w_disk = [],
     w_notices = [], w_fired = []\<rparr>"

definition demo_setup :: coordinator_config where
  "demo_setup = \<lparr>cc_load_sensor = ''sensor.load'', cc_averaging_period = 60, cc_pause_period = 300,
     cc_grid_loss_mode = ''grid_loss_sensor'', cc_policy = demo_policy,
     cc_grid_loss_sensor = Some ''binary_sensor.grid'', cc_battery_threshold = None,
     cc_battery_soc_sensor = None, cc_entry_id = ''entry'', cc_integration_version = None\<rparr>"

definition demo_coord :: coord where
  "demo_coord = (new_coordinator demo_platform [(''pump'', demo_load ''pump'' 500)]
       \<lparr>rs_data = [], rs_safety_invalid = False, rs_journal_invalid = False\<rparr> demo_setup)
     \<lparr>c_mode := ''auto'', c_tx := \<lparr>tr_tickets = [(''pump'', demo_ticket)], tr_pending = [''pump'']\<rparr>\<rparr>"

lemma demo_owned: "owned_ok (c_tx demo_coord)"
  using demo_ticket_wf by (simp add: owned_ok_def demo_coord_def demo_ticket_def)

text \<open>Without events and failures every save returns.\<close>

lemma quiet_save: "w_script w = [] \<Longrightarrow> \<exists>w'. persist_runtime w = (Inr (), w')"
  by (simp add: persist_runtime_def async_save_def thn_def bnd_def await_def next_await_def saved_snapshot_def)

lemma saved_ownership_recovered_witness:
  "\<exists>w'. persist_runtime demo_coord = (Inr (), w')
     \<and> (\<exists>s. restore_restore_tickets 2000 [(''pump'', demo_load ''pump'' 500)]
          \<lparr>rs_data = w_disk w', rs_safety_invalid = False, rs_journal_invalid = False\<rparr> = Inr ([(''pump'', demo_ticket)], s))"
proof -
  have "w_script demo_coord = []"
    by (simp add: demo_coord_def new_coordinator_def demo_platform_def platform.defs)
  from quiet_save [OF this] obtain w' where p: "persist_runtime demo_coord = (Inr (), w')" by blast
  have "list_all (\<lambda>(i, t). deadline (rt_created_at t) \<le> 2000
      \<and> get_device [(''pump'', demo_load ''pump'' 500)] i \<noteq> None) (tr_tickets (c_tx demo_coord))"
    by (simp add: demo_coord_def demo_ticket_def deadline_def get_device_def)
  from saved_ownership_recovered [OF p demo_owned this] p show ?thesis
    by (simp add: demo_coord_def)
qed

section \<open>A manual start under overload\<close>

text \<open>C40. The check that decides whether a manual start is stopped again is the policy's own: it asks
  for a stop exactly when the engine would trigger on that load at that instant, although it leaves
  the engine's timers alone.\<close>

theorem reshed_agrees_with_policy:
  assumes "distinct (map tier_id (thresholds (policy e)))"
  shows "overload_enforced e load now = triggered (fst (observe_load e (Fin load) now))"
proof (cases "load < 0")
  case True
  then show ?thesis
    by (simp add: overload_enforced_def observe_load_def invalid_load_def observe_invalid_load_def mk_decision_def Let_def)
next
  case False
  then have valid: "\<not> invalid_load (Fin load)" by (simp add: invalid_load_def)
  have "tier_matured (timers_after e load now) now t \<longleftrightarrow>
      (case tier_since e (tier_id t) of None \<Rightarrow> duration_s t \<le> 0 | Some s \<Rightarrow> duration_s t \<le> now - s)"
    if "t \<in> set (thresholds (policy e))" "limit_w t < load" for t
    using update_timers_lookup [OF assms that(1), of load now "tier_since e"] that(2)
    by (simp add: tier_matured_def timers_after_def split: option.split)
  then have "trigger_tier e load now \<noteq> None \<longleftrightarrow> list_ex (\<lambda>t. limit_w t < load
      \<and> (case tier_since e (tier_id t) of None \<Rightarrow> duration_s t \<le> 0 | Some s \<Rightarrow> duration_s t \<le> now - s))
        (thresholds (policy e))"
    by (auto simp: trigger_tier_def exceeded_tiers_def list_ex_iff filter_empty_conv)
  with False show ?thesis
    unfolding observe_load_fields(1) [OF valid] by (simp add: overload_enforced_def)
qed

lemma reshed_agrees_with_policy_witness:
  "overload_enforced (new_engine demo_policy) 9000 40 = triggered (fst (observe_load (new_engine demo_policy) (Fin 9000) 40))
   \<and> overload_enforced (new_engine demo_policy) 9000 40"
  using reshed_agrees_with_policy [of "new_engine demo_policy" 9000 40]
  by (simp add: demo_policy_def new_engine_def overload_enforced_def)

section \<open>A telemetry fault\<close>

definition stays_latched :: "coord \<Rightarrow> coord \<Rightarrow> bool" where
  "stays_latched w v \<longleftrightarrow>
     (c_tele_latched w \<and> c_status w = ''safety_blocked'' \<longrightarrow> c_tele_latched v \<and> c_status v = ''safety_blocked'')"

interpretation latching: action_relation stays_latched
  by unfold_locales (auto simp: stays_latched_def)

named_theorems latched_rules
declare latching.keeps_rules [latched_rules]

lemma upd_latched [latched_rules]: "(\<And>w. stays_latched w (f w)) \<Longrightarrow> keeps stays_latched (upd f)"
  by (rule latching.keeps_upd)

lemma list_case_latched [latched_rules]:
  "keeps stays_latched m \<Longrightarrow> (\<And>x xs. keeps stays_latched (f x xs)) \<Longrightarrow>
   keeps stays_latched (case l of [] \<Rightarrow> m | x # xs \<Rightarrow> f x xs)"
  by (cases l) simp_all

lemma observe_latched:
  "c_tele_latched w \<Longrightarrow> c_tele_latched (observe_entity_report e st p w)"
  "c_status (observe_entity_report e st p w) = c_status w"
  by (simp_all add: observe_entity_report_def observe_aggregate_report_def observe_safety_report_def
      latch_report_fault_def reset_window_def Let_def)

lemma interfere_latched: "stays_latched w (interfere i w)"
  by (cases i) (simp_all add: stays_latched_def deliver_report_def observe_latched Let_def)

lemma pass_time_latched: "stays_latched w (pass_time st w)"
proof -
  have "stays_latched w (fold interfere evs w)" for evs w
  proof (induction evs arbitrary: w)
    case (Cons i evs)
    show ?case unfolding fold_Cons comp_def by (rule latching.rel_trans [OF interfere_latched Cons.IH])
  qed (simp add: latching.rel_refl)
  moreover have "stays_latched w (w\<lparr>w_script := tl (w_script w)\<rparr>)" by (simp add: stays_latched_def)
  ultimately show ?thesis unfolding pass_time_def by (rule latching.rel_trans [rotated])
qed

lemma await_latched [latched_rules]: "keeps stays_latched await"
  unfolding await_def
  by (intro latched_rules) (simp_all add: pass_time_latched latched_rules split: await_end.split)

lemma fault_steps_latched [latched_rules]:
  "keeps stays_latched (notice_call d s x)" "keeps stays_latched (note_action ev)"
  "keeps stays_latched (new_action_id l)" "keeps stays_latched async_save"
  unfolding notice_call_def note_action_def new_action_id_def async_save_def
  by (intro latched_rules; simp add: stays_latched_def recorded_def)+

lemma fault_lane_latched [latched_rules]:
  "keeps stays_latched persist_runtime_if_dirty" "keeps stays_latched (record_observe_only_action a r i d s x c)"
  "keeps stays_latched (ensure_telemetry_notification r)"
  unfolding persist_runtime_if_dirty_def record_observe_only_action_def ensure_telemetry_notification_def
    telemetry_notification_text_def mobile_notice_def fault_event_def Let_def
  by (intro latched_rules; simp add: stays_latched_def saved_snapshot_def notified_def)+

text \<open>C17. A telemetry fault stops nothing and blocks everything: handling it issues no command, and
  whatever happens meanwhile it leaves the fault latched, the status blocked and every ordinary
  command, ON or OFF, forbidden.\<close>

theorem telemetry_fault_blocks:
  "case handle_telemetry_fault cause w of (r, w') \<Rightarrow>
     w_trace w' = w_trace w \<and> c_tele_latched w' \<and> c_status w' = ''safety_blocked''
     \<and> \<not> physical_commands_allowed w' \<and> \<not> restore_commands_allowed w'"
proof -
  obtain r w' where run: "handle_telemetry_fault cause w = (r, w')" by force
  let ?k = "thn (ensure_telemetry_notification (fault_text w cause))
     (look (\<lambda>v. if c_tele_recorded v then skip
        else thn (upd (\<lambda>v. v\<lparr>c_tele_recorded := True\<rparr>))
          (record_observe_only_action ''telemetry_blocked'' (fault_text w cause) None None ''telemetry_fault'' PNone PNone)))"
  let ?v = "telemetry_blocked (fault_text w cause) w"
  from run have k: "?k ?v = (r, w')" by (simp add: handle_telemetry_fault_def Let_def)
  have "keeps stays_latched ?k" by (intro latched_rules) (simp add: stays_latched_def)
  from keepsD [OF this k] have "c_tele_latched w' \<and> c_status w' = ''safety_blocked''"
    by (simp add: stays_latched_def telemetry_blocked_def Let_def)
  moreover have "w_trace w' = w_trace w" by (rule silent_trace [OF handle_telemetry_frame run])
  ultimately show ?thesis
    unfolding run by (simp add: physical_commands_allowed_def restore_commands_allowed_def)
qed

end
