(* ===== verification/Flow_Thresholds.thy ===== *)
theory Flow_Thresholds
  imports Policy Device_Config
begin

text \<open>
  \<open>flow_thresholds.py\<close> and \<open>flow_helpers.py\<close>: the threshold pairs a person submits in the
  configuration and options flows, one numbered form or one repeatable step at a time, and
  the small helpers on entries the flows share. A collected pair, the dict
  \<open>{"power_limit": l, "duration_s": d}\<close>, is the pair \<open>(l, d)\<close> of its two numbers;
  \<open>pair_value\<close> is its dict. A parser's answer is the tuple (result, error key).
\<close>

section \<open>Form fields\<close>

text \<open>
  The selectors the forms use, with the bounds and options the source gives them, and a form
  field: its key, whether it is required, and the value it starts with.
\<close>

datatype selector =
    EntitySelector "string list" bool
  | NumberSelector rat rat string
  | SelectSelector "string list" bool
  | OrderSelector "string list"
  | ObjectSelector
  | TextSelector
  | BoolSelector

record form_field =
  ff_key :: string
  ff_required :: bool
  ff_default :: "pyval option"
  ff_selector :: selector

definition required_field :: "string \<Rightarrow> pyval \<Rightarrow> selector \<Rightarrow> form_field" where
  "required_field k v s = \<lparr>ff_key = k, ff_required = True, ff_default = Some v, ff_selector = s\<rparr>"

definition optional_field :: "string \<Rightarrow> pyval \<Rightarrow> selector \<Rightarrow> form_field" where
  "optional_field k v s = \<lparr>ff_key = k, ff_required = False, ff_default = Some v, ff_selector = s\<rparr>"

text \<open>\<open>_optional_entity_key\<close>: blank text is not a starting value.\<close>

definition optional_entity_key :: "string \<Rightarrow> pyval \<Rightarrow> selector \<Rightarrow> form_field" where
  "optional_entity_key k v s =
     \<lparr>ff_key = k, ff_required = False,
      ff_default = (case v of PStr t \<Rightarrow> if nonblank t then Some v else None | _ \<Rightarrow> None),
      ff_selector = s\<rparr>"

section \<open>Entries\<close>

record flow_entry =
  e_data :: pydict
  e_options :: pydict

definition entry_current :: "flow_entry \<Rightarrow> string \<Rightarrow> pyval \<Rightarrow> pyval" where
  "entry_current e k v0 =
     (if dhas (e_options e) k then dget (e_options e) k else dget_or (e_data e) k v0)"

definition sensor_entity_id :: "pyval \<Rightarrow> string option" where
  "sensor_entity_id v = entity_id v [''sensor'']"

text \<open>\<open>_friendly\<close>; \<open>names e\<close> is the \<open>friendly_name\<close> attribute of the entity's state (None without
  one, or without a state).\<close>

definition friendly :: "(string \<Rightarrow> pyval) \<Rightarrow> string \<Rightarrow> string" where
  "friendly names e =
     (if e = [] then []
      else case names e of PStr s \<Rightarrow> if nonblank s then py_strip s else e | _ \<Rightarrow> e)"

section \<open>Threshold pairs\<close>

type_synonym threshold_pair = "rat \<times> rat"

definition threshold_field :: "nat \<Rightarrow> string \<Rightarrow> string" where
  "threshold_field index kind = ''threshold_'' @ nat_text index @ ''_'' @ kind"

text \<open>One persisted pair: an entry that is not a mapping of two usable numbers is skipped.\<close>

definition threshold_default :: "pyval \<Rightarrow> threshold_pair option res" where
  "threshold_default raw =
     (case raw of PDict d \<Rightarrow>
        catch_type_value (rbind (raw_limit d) (\<lambda>lmt. rbind (raw_duration d) (\<lambda>dur.
          Inr (if isfinite lmt \<and> isfinite dur \<and> Fin 0 < lmt \<and> Fin 0 \<le> dur
               then Some (fin_val lmt, fin_val dur) else None))))
      | _ \<Rightarrow> Inr None)"

fun threshold_defaults_loop :: "pyval list \<Rightarrow> threshold_pair list res" where
  "threshold_defaults_loop [] = Inr []"
| "threshold_defaults_loop (raw # rest) =
     rbind (threshold_default raw) (\<lambda>p.
     rbind (threshold_defaults_loop rest) (\<lambda>ps.
     Inr (case p of None \<Rightarrow> ps | Some q \<Rightarrow> q # ps)))"

definition threshold_defaults :: "pyval \<Rightarrow> threshold_pair list res" where
  "threshold_defaults v =
     (case v of
        PList xs \<Rightarrow> threshold_defaults_loop (take MAX_CUSTOM_THRESHOLDS xs)
      | PTuple xs \<Rightarrow> threshold_defaults_loop (take MAX_CUSTOM_THRESHOLDS xs)
      | _ \<Rightarrow> Inr [])"

text \<open>
  The count of the numbered form. \<open>int(...)\<close> of text either raises ValueError or gives an
  integer, which differs from the text: both end in \<open>invalid_thresholds\<close> (None here). An
  infinite count raises OverflowError, which is not caught.
\<close>

definition valid_count :: "int \<Rightarrow> nat option" where
  "valid_count i = (if 1 \<le> i \<and> i \<le> int MAX_CUSTOM_THRESHOLDS then Some (nat i) else None)"

definition parse_count :: "pyval \<Rightarrow> nat option res" where
  "parse_count raw =
     (case raw of
        PInt i \<Rightarrow> Inr (valid_count i)
      | PFloat f \<Rightarrow> catch_type_value (rbind (py_trunc f) (\<lambda>i.
                      Inr (if Fin (of_int i) \<noteq> f then None else valid_count i)))
      | _ \<Rightarrow> Inr None)"

text \<open>Two raw numbers that are present, not booleans, and accepted after \<open>previous\<close>.\<close>

definition parse_pair :: "pyval \<Rightarrow> pyval \<Rightarrow> rat \<Rightarrow> threshold_pair option res" where
  "parse_pair watts dur previous =
     (if watts = PNone \<or> dur = PNone \<or> is_bool watts \<or> is_bool dur then Inr None
      else catch_type_value (rbind (py_float watts) (\<lambda>p. rbind (py_float dur) (\<lambda>d.
        rbind (validate_threshold_pair p d previous) (\<lambda>q. Inr (Some q))))))"

fun parse_numbered :: "pydict \<Rightarrow> nat list \<Rightarrow> rat \<Rightarrow> threshold_pair list option res" where
  "parse_numbered ui [] previous = Inr (Some [])"
| "parse_numbered ui (i # is) previous =
     obind (parse_pair (dget ui (threshold_field i ''power'')) (dget ui (threshold_field i ''time'')) previous)
       (\<lambda>q. obind (parse_numbered ui is (fst q)) (\<lambda>qs. Inr (Some (q # qs))))"

definition answered :: "'a option \<Rightarrow> 'a option \<times> string option" where
  "answered r = (r, if r = None then Some ''invalid_thresholds'' else None)"

definition parse_threshold_input ::
  "pydict \<Rightarrow> threshold_pair list option \<Rightarrow> (threshold_pair list option \<times> string option) res" where
  "parse_threshold_input ui defaults =
     (if dget ui ''threshold_count'' = PNone then
        rbind (case defaults of Some d \<Rightarrow> Inr d | None \<Rightarrow> threshold_defaults PNone) (\<lambda>pairs.
        Inr (answered (if pairs = [] then None else Some pairs)))
      else
        rbind (parse_count (dget ui ''threshold_count'')) (\<lambda>c. case c of
          None \<Rightarrow> Inr (answered None)
        | Some n \<Rightarrow> rbind (parse_numbered ui [1 ..< n + 1] 0) (\<lambda>r. Inr (answered r))))"

definition parse_threshold_step ::
  "pydict \<Rightarrow> rat \<Rightarrow> (threshold_pair option \<times> string option) res" where
  "parse_threshold_step ui previous =
     rbind (parse_pair (dget ui ''threshold_power'') (dget ui ''threshold_duration'') previous)
       (\<lambda>r. Inr (answered r))"

definition threshold_step_fields :: "threshold_pair option \<Rightarrow> bool \<Rightarrow> form_field list" where
  "threshold_step_fields dflt add_another =
     (let (watts, dur) = (case dflt of None \<Rightarrow> (1000, 0) | Some p \<Rightarrow> p)
      in [required_field ''threshold_power'' (PFloat (Fin watts)) (NumberSelector 1 MAX_POLICY_POWER_W ''W''),
          required_field ''threshold_duration'' (PFloat (Fin dur)) (NumberSelector 0 86400 ''s''),
          optional_field ''add_threshold'' (PBool add_another) BoolSelector])"

definition next_threshold_default ::
  "threshold_pair list \<Rightarrow> threshold_pair list \<Rightarrow> threshold_pair option" where
  "next_threshold_default collected seed =
     (if length collected < length seed then Some (seed ! length collected)
      else if collected = [] then None
      else Some (min MAX_POLICY_POWER_W (fst (last collected) + 500), snd (last collected)))"

definition threshold_add_allowed :: "threshold_pair list \<Rightarrow> threshold_pair \<Rightarrow> pydict \<Rightarrow> bool" where
  "threshold_add_allowed collected pair ui =
     (if \<not> truthy (dget_or ui ''add_threshold'' (PBool False)) then True
      else fst pair < MAX_POLICY_POWER_W \<and> length collected + 1 < MAX_CUSTOM_THRESHOLDS)"

fun validate_collection :: "pyval list \<Rightarrow> rat \<Rightarrow> threshold_pair list res" where
  "validate_collection [] previous = Inr []"
| "validate_collection (raw # rest) previous =
     (case raw of PDict d \<Rightarrow>
        rbind (catch_type_value (rbind (raw_limit d) (\<lambda>lmt. rbind (raw_duration d) (\<lambda>dur.
                 rbind (validate_threshold_pair lmt dur previous) (\<lambda>q. Inr (Some q))))))
          (\<lambda>r. case r of
             None \<Rightarrow> Inl (ValueErr ''invalid thresholds'')
           | Some q \<Rightarrow> rbind (validate_collection rest (fst q)) (\<lambda>qs. Inr (q # qs)))
      | _ \<Rightarrow> Inl (ValueErr ''invalid thresholds''))"

definition validate_threshold_collection :: "pyval \<Rightarrow> threshold_pair list res" where
  "validate_threshold_collection v =
     (case v of
        PList xs \<Rightarrow> if 1 \<le> length xs \<and> length xs \<le> MAX_CUSTOM_THRESHOLDS then validate_collection xs 0
                   else Inl (ValueErr ''invalid thresholds'')
      | PTuple xs \<Rightarrow> if 1 \<le> length xs \<and> length xs \<le> MAX_CUSTOM_THRESHOLDS then validate_collection xs 0
                    else Inl (ValueErr ''invalid thresholds'')
      | _ \<Rightarrow> Inl (ValueErr ''invalid thresholds''))"

section \<open>What every accepted list of pairs guarantees\<close>

text \<open>\<open>self._thresholds[-1]["power_limit"] if self._thresholds else 0.0\<close>.\<close>

definition previous_limit :: "threshold_pair list \<Rightarrow> rat" where
  "previous_limit ts = (if ts = [] then 0 else fst (last ts))"

definition pairs_ok :: "threshold_pair list \<Rightarrow> bool" where
  "pairs_ok ps \<longleftrightarrow> valid_pairs 0 ps \<and> length ps \<le> MAX_CUSTOM_THRESHOLDS"

definition thresholds_value :: "threshold_pair list \<Rightarrow> pyval" where
  "thresholds_value ps = PList (map pair_value ps)"

definition custom_tiers :: "threshold_pair list \<Rightarrow> threshold_tier list" where
  "custom_tiers ps = map (\<lambda>(i, p). custom_tier i p) (zip [1 ..< 1 + length ps] ps)"

lemma parse_pair_Some:
  "parse_pair watts dur previous = Inr (Some (l, d)) \<Longrightarrow>
     previous < l \<and> l \<le> MAX_POLICY_POWER_W \<and> 0 \<le> d \<and> d \<le> MAX_POLICY_DURATION_S"
  by (auto simp: parse_pair_def rbind_Inr_iff validate_pair_Inr split: if_splits)

lemma parse_numbered_ok:
  "parse_numbered ui is previous = Inr (Some ps) \<Longrightarrow> valid_pairs previous ps \<and> length ps = length is"
  by (induction "is" arbitrary: previous ps)
    (fastforce simp: obind_Some_iff dest: parse_pair_Some)+

lemma valid_count_range: "valid_count i = Some n \<Longrightarrow> 1 \<le> n \<and> n \<le> MAX_CUSTOM_THRESHOLDS"
  by (auto simp: valid_count_def split: if_splits)

lemma parse_count_range: "parse_count raw = Inr (Some n) \<Longrightarrow> 1 \<le> n \<and> n \<le> MAX_CUSTOM_THRESHOLDS"
  by (auto simp: parse_count_def rbind_Inr_iff dest!: valid_count_range split: pyval.splits if_splits)

lemma answered_iff [simp]: "answered r = (Some x, e) \<longleftrightarrow> r = Some x \<and> e = None"
  by (auto simp: answered_def)

lemma answered_error [simp]: "answered r = (x, None) \<longleftrightarrow> r = x \<and> x \<noteq> None"
  by (auto simp: answered_def)

lemma parse_input_ok:
  assumes "parse_threshold_input ui None = Inr (Some ps, e)"
  shows "pairs_ok ps \<and> ps \<noteq> [] \<and> e = None"
proof -
  from assms obtain n where n: "parse_count (dget ui ''threshold_count'') = Inr (Some n)"
    "parse_numbered ui [1 ..< n + 1] 0 = Inr (Some ps)" "e = None"
    by (auto simp: parse_threshold_input_def threshold_defaults_def rbind_Inr_iff
        simp del: upt_Suc split: if_splits option.splits)
  from parse_numbered_ok [OF n(2)] parse_count_range [OF n(1)] n(3) show ?thesis
    by (auto simp: pairs_ok_def)
qed

lemma validate_collection_ok:
  "validate_collection xs previous = Inr ps \<Longrightarrow> valid_pairs previous ps \<and> length ps = length xs"
  by (induction xs arbitrary: previous ps)
    (fastforce simp: rbind_Inr_iff validate_pair_Inr split: pyval.splits option.splits)+

lemma collection_ok: "validate_threshold_collection v = Inr ps \<Longrightarrow> pairs_ok ps \<and> ps \<noteq> []"
  by (auto simp: validate_threshold_collection_def pairs_ok_def
      split: pyval.splits if_splits dest: validate_collection_ok)

lemma valid_pairs_snoc:
  "valid_pairs previous (ps @ [(l, d)]) \<longleftrightarrow>
     valid_pairs previous ps \<and> (if ps = [] then previous else fst (last ps)) < l
     \<and> l \<le> MAX_POLICY_POWER_W \<and> 0 \<le> d \<and> d \<le> MAX_POLICY_DURATION_S"
  by (induction previous ps rule: valid_pairs.induct) auto

lemma valid_pairs_last:
  "valid_pairs previous ps \<Longrightarrow> ps \<noteq> [] \<Longrightarrow>
     fst (last ps) \<le> MAX_POLICY_POWER_W \<and> 0 \<le> snd (last ps) \<and> snd (last ps) \<le> MAX_POLICY_DURATION_S"
  by (induction previous ps rule: valid_pairs.induct) auto

text \<open>One more accepted pair keeps a collection valid.\<close>

lemma parse_step_ok:
  "parse_threshold_step ui (previous_limit ps) = Inr (Some q, e) \<Longrightarrow> pairs_ok ps \<Longrightarrow>
     length ps < MAX_CUSTOM_THRESHOLDS \<Longrightarrow> pairs_ok (ps @ [q])"
  by (cases q)
    (auto simp: parse_threshold_step_def rbind_Inr_iff pairs_ok_def valid_pairs_snoc previous_limit_def
      dest!: parse_pair_Some)

lemma pairs_ok_derive:
  "dget data ''thresholds'' = thresholds_value ps \<Longrightarrow> pairs_ok ps \<Longrightarrow> ps \<noteq> [] \<Longrightarrow>
     derive_thresholds_from_mapping data = Inr (Some (custom_tiers ps))"
  unfolding thresholds_value_def custom_tiers_def pairs_ok_def
  by (rule valid_pairs_derive) (simp_all add: Suc_le_eq)

lemma defaults_loop_range:
  "threshold_defaults_loop xs = Inr ps \<Longrightarrow> length ps \<le> length xs \<and> list_all (\<lambda>(l, d). 0 < l \<and> 0 \<le> d) ps"
  by (induction xs arbitrary: ps)
    (fastforce simp: rbind_Inr_iff threshold_default_def isfinite_iff
      split: option.splits pyval.splits if_splits)+

lemma default_pair_value: "0 < fst p \<Longrightarrow> 0 \<le> snd p \<Longrightarrow> threshold_default (pair_value p) = Inr (Some p)"
  by (cases p) (simp add: threshold_default_def)

lemma defaults_of_pairs:
  "list_all (\<lambda>(l, d). 0 < l \<and> 0 \<le> d) ps \<Longrightarrow> threshold_defaults_loop (map pair_value ps) = Inr ps"
  by (induction ps) (auto simp: default_pair_value simp del: pair_value_simp)

lemma valid_pairs_positive:
  "valid_pairs previous ps \<Longrightarrow> 0 \<le> previous \<Longrightarrow> list_all (\<lambda>(l, d). 0 < l \<and> 0 \<le> d) ps"
  by (induction previous ps rule: valid_pairs.induct) auto

section \<open>Properties\<close>

text \<open>The numbered form and the structured list are accepted only as policies: whatever the
  submission holds, the pairs that either parser accepts, stored under \<open>thresholds\<close> in any
  configuration, are derived at setup as exactly the tiers \<open>custom_1\<close>, \<open>custom_2\<close>, ... with these
  limits and durations; and they are read again unchanged as the starting values of the next
  edit.\<close>

theorem submitted_pairs_become_policy:
  assumes "parse_threshold_input ui None = Inr (Some ps, e) \<or> validate_threshold_collection v = Inr ps"
    and "dget data ''thresholds'' = thresholds_value ps"
  shows "derive_thresholds_from_mapping data = Inr (Some (custom_tiers ps))
    \<and> threshold_defaults (dget data ''thresholds'') = Inr ps"
proof -
  from assms(1) have ok: "pairs_ok ps" "ps \<noteq> []"
    using parse_input_ok collection_ok by blast+
  then have "threshold_defaults_loop (map pair_value ps) = Inr ps"
    by (intro defaults_of_pairs valid_pairs_positive [of 0]) (simp_all add: pairs_ok_def)
  with ok(1) have "threshold_defaults (thresholds_value ps) = Inr ps"
    by (simp add: threshold_defaults_def thresholds_value_def pairs_ok_def)
  with ok assms(2) pairs_ok_derive show ?thesis by simp
qed

definition demo_numbered :: pydict where
  "demo_numbered = [(''threshold_count'', PInt 1), (''threshold_1_power'', PInt 5000), (''threshold_1_time'', PInt 30)]"

lemma nat_text_1: "nat_text (Suc 0) = ''1''"
  by code_simp

lemma demo_numbered_parse: "parse_threshold_input demo_numbered None = Inr (Some [(5000, 30)], None)"
  by (simp add: parse_threshold_input_def demo_numbered_def parse_count_def valid_count_def
      MAX_CUSTOM_THRESHOLDS_def threshold_field_def nat_text_1 parse_pair_def int_to_float_def
      float_overflow_def validate_threshold_pair_def MAX_POLICY_POWER_W_def MAX_POLICY_DURATION_S_def
      catch_type_value_def upt_rec answered_def)

theorem submitted_pairs_become_policy_witness:
  "derive_thresholds_from_mapping [(''thresholds'', thresholds_value [(5000, 30)])] =
     Inr (Some (custom_tiers [(5000, 30)]))"
  using submitted_pairs_become_policy [of demo_numbered "[(5000, 30)]" None PNone
      "[(''thresholds'', thresholds_value [(5000, 30)])]"]
  by (simp add: demo_numbered_parse)

text \<open>The form never leads into a dead end: after an accepted pair for which another one was
  asked for and allowed, the value the next form suggests, once the persisted pairs are used
  up, is strictly higher and passes validation as it stands.\<close>

theorem suggested_pair_accepted:
  assumes "pairs_ok collected"
    and "parse_threshold_step ui (previous_limit collected) = Inr (Some q, e)"
    and "threshold_add_allowed collected q ui" and "truthy (dget_or ui ''add_threshold'' (PBool False))"
    and "length seed \<le> length collected + 1"
  shows "\<exists>p d. next_threshold_default (collected @ [q]) seed = Some (p, d) \<and> fst q < p
    \<and> parse_threshold_step [(''threshold_power'', PFloat (Fin p)), (''threshold_duration'', PFloat (Fin d))]
        (previous_limit (collected @ [q])) = Inr (Some (p, d), None)"
proof -
  obtain l d where q: "q = (l, d)" by (cases q)
  let ?p = "min MAX_POLICY_POWER_W (l + 500)"
  from assms(3,4) q have room: "l < MAX_POLICY_POWER_W" by (simp add: threshold_add_allowed_def)
  from assms(2) q have d: "0 \<le> d \<and> d \<le> MAX_POLICY_DURATION_S"
    by (auto simp: parse_threshold_step_def rbind_Inr_iff dest!: parse_pair_Some)
  have "validate_threshold_pair (Fin ?p) (Fin d) l = Inr (?p, d)"
    using room d by (simp add: validate_pair_Inr)
  with room q assms(5) show ?thesis
    by (intro exI [of _ ?p] exI [of _ d])
      (simp add: next_threshold_default_def previous_limit_def parse_threshold_step_def parse_pair_def
        answered_def)
qed

theorem suggested_pair_accepted_witness:
  "\<exists>p d. next_threshold_default [(5000, 30)] [] = Some (p, d) \<and> 5000 < p"
  using suggested_pair_accepted [of "[]" "[(''threshold_power'', PFloat (Fin 5000)),
      (''threshold_duration'', PFloat (Fin 30)), (''add_threshold'', PBool True)]" "(5000, 30)" None "[]"]
  by (auto simp: pairs_ok_def parse_threshold_step_def parse_pair_def previous_limit_def
      validate_threshold_pair_def MAX_POLICY_POWER_W_def MAX_POLICY_DURATION_S_def answered_def
      threshold_add_allowed_def dget_or_def MAX_CUSTOM_THRESHOLDS_def)

text \<open>An integer too large for a float leaves the form's handler as an exception: only TypeError
  and ValueError are caught.\<close>

lemma huge_step_escapes:
  "parse_threshold_step [(''threshold_power'', PInt (10 ^ 400)), (''threshold_duration'', PInt 0)] 0
     = Inl OverflowErr"
  by (simp add: parse_threshold_step_def parse_pair_def int_to_float_def float_overflow_def
      catch_type_value_def)

end
