(* ===== verification/Flow_Options.thy ===== *)
theory Flow_Options
  imports Flow_Thresholds "HOL-Library.Multiset"
begin

text \<open>
  The functions of \<open>config_flow.py\<close> outside its classes: discovery of inputs from the energy
  preferences, the priority order, and the validation of an options submission into the
  payload that is persisted. A form is the list of its fields; the texts shown with it are
  not modelled.
\<close>

section \<open>Discovery\<close>

definition discovered_source :: "string option \<times> string option \<Rightarrow> pyval \<Rightarrow> string option \<times> string option" where
  "discovered_source r source =
     (case source of PDict d \<Rightarrow>
        (let configured = (case dget_or d ''power_config'' (PDict []) of
                             PDict c \<Rightarrow> dget c ''stat_rate'' | _ \<Rightarrow> PNone);
             r1 = (if dget d ''type'' = PStr ''grid''
                   then (sensor_entity_id (if truthy configured then configured else dget d ''stat_rate''), snd r)
                   else r)
         in if dget d ''type'' = PStr ''battery'' then (fst r1, sensor_entity_id (dget d ''stat_soc'')) else r1)
      | _ \<Rightarrow> r)"

definition discovered_energy_sources :: "pyval \<Rightarrow> string option \<times> string option" where
  "discovered_energy_sources sources =
     (case sources of PList xs \<Rightarrow> foldl discovered_source (None, None) xs | _ \<Rightarrow> (None, None))"

definition discovered_device :: "(string \<Rightarrow> pyval) \<Rightarrow> pyval \<Rightarrow> pydict option" where
  "discovered_device names device =
     (case device of PDict d \<Rightarrow>
        (case sensor_entity_id (dget d ''stat_consumption'') of
           None \<Rightarrow> None
         | Some e \<Rightarrow> Some
             [(''entity_id'', PStr e),
              (''name'', if truthy (dget d ''name'') then dget d ''name'' else PStr (friendly names e)),
              (''power_sensor'', opt_str (sensor_entity_id (dget d ''stat_rate'')))])
      | _ \<Rightarrow> None)"

definition discovered_devices :: "(string \<Rightarrow> pyval) \<Rightarrow> pyval \<Rightarrow> pydict list" where
  "discovered_devices names devices =
     (case devices of PList xs \<Rightarrow> List.map_filter (discovered_device names) xs | _ \<Rightarrow> [])"

text \<open>
  \<open>energy\<close> is the \<open>data\<close> of the energy manager, None where the energy integration is missing or
  fails: discovery then gives nothing.
\<close>

definition discover_inputs :: "(string \<Rightarrow> pyval) \<Rightarrow> pyval option \<Rightarrow> pydict" where
  "discover_inputs names energy =
     (case energy of
        Some (PDict d) \<Rightarrow>
          (let (grid, soc) = discovered_energy_sources (dget_or d ''energy_sources'' (PList []))
           in [(''grid_power'', opt_str grid), (''battery_soc'', opt_str soc),
               (''devices'', PList (map PDict
                  (discovered_devices names (dget_or d ''device_consumption'' (PList [])))))])
      | _ \<Rightarrow> [(''grid_power'', PNone), (''battery_soc'', PNone), (''devices'', PList [])])"

section \<open>The options form\<close>

definition GRID_LOSS_MODE_SENSOR :: string where "GRID_LOSS_MODE_SENSOR = ''grid_loss_sensor''"
definition GRID_LOSS_MODE_THRESHOLD :: string where "GRID_LOSS_MODE_THRESHOLD = ''battery_threshold''"
definition DEFAULT_AVERAGING_PERIOD :: int where "DEFAULT_AVERAGING_PERIOD = 10"
definition DEFAULT_PAUSE_PERIOD :: int where "DEFAULT_PAUSE_PERIOD = 60"

definition options_schema_for_entry :: "flow_entry \<Rightarrow> form_field list res" where
  "options_schema_for_entry e =
     (let raw_devices = entry_current e ''devices'' (PList [])
      in rbind (catch_value (normalize_devices raw_devices True)) (\<lambda>r.
         let control_entities = (case r of None \<Rightarrow> [] | Some ds \<Rightarrow> map c_entity ds)
         in Inr ([required_field ''load_sensor'' (entry_current e ''load_sensor'' (PStr []))
               (EntitySelector [''sensor''] False),
             optional_field ''devices'' raw_devices ObjectSelector,
             required_field ''averaging_period''
               (entry_current e ''averaging_period'' (PInt DEFAULT_AVERAGING_PERIOD)) (NumberSelector 1 300 ''s''),
             required_field ''pause_period''
               (entry_current e ''pause_period'' (PInt DEFAULT_PAUSE_PERIOD)) (NumberSelector 0 86400 ''s''),
             required_field ''grid_loss_mode''
               (entry_current e ''grid_loss_mode'' (PStr GRID_LOSS_MODE_SENSOR))
               (SelectSelector [GRID_LOSS_MODE_SENSOR, GRID_LOSS_MODE_THRESHOLD] False),
             optional_entity_key ''grid_loss_sensor'' (entry_current e ''grid_loss_sensor'' PNone)
               (EntitySelector [''binary_sensor''] False),
             optional_entity_key ''battery_soc'' (entry_current e ''battery_soc'' PNone)
               (EntitySelector [''sensor''] False),
             optional_field ''battery_threshold'' (entry_current e ''battery_threshold'' (PInt 20))
               (NumberSelector 0 100 ''%'')]
           @ (if control_entities \<noteq> []
              then [optional_field ''priority_order'' (str_list control_entities) (OrderSelector control_entities)]
              else []))))"

section \<open>Priority order\<close>

text \<open>
  \<open>len(selected) == len(keys)\<close>, no repeated element and the same elements: \<open>selected\<close> is a
  permutation of the (distinct) texts \<open>keys\<close>. Building the set raises TypeError for an
  unhashable element, once the lengths agree. None is the refusal.
\<close>

definition permutation_of :: "pyval list \<Rightarrow> string list \<Rightarrow> string list option res" where
  "permutation_of selected keys =
     (if length selected \<noteq> length keys then Inr None
      else if \<not> list_all hashable selected then Inl TypeErr
      else if list_all is_str selected \<and> distinct (map the_str selected)
              \<and> set (map the_str selected) = set keys
      then Inr (Some (map the_str selected)) else Inr None)"

definition with_priority :: "nat \<Rightarrow> device_config \<Rightarrow> device_config" where
  "with_priority i c = c\<lparr>c_priority := int i, c_shed_priority := int i\<rparr>"

fun number_from :: "nat \<Rightarrow> device_config list \<Rightarrow> device_config list" where
  "number_from i [] = []"
| "number_from i (c # cs) = with_priority i c # number_from (Suc i) cs"

definition by_entity :: "device_config list \<Rightarrow> string \<Rightarrow> device_config" where
  "by_entity devices e = the (map_of (map (\<lambda>c. (c_entity c, c)) (rev devices)) e)"

definition apply_priority_order :: "device_config list \<Rightarrow> pyval \<Rightarrow> device_config list res" where
  "apply_priority_order devices selected =
     (case (case selected of PStr s \<Rightarrow> PList [PStr s] | v \<Rightarrow> v) of
        PNone \<Rightarrow> Inr devices
      | PList xs \<Rightarrow>
          rbind (permutation_of xs (remdups (map c_entity devices))) (\<lambda>r. case r of
            None \<Rightarrow> Inl (ValueErr ''invalid priority order'')
          | Some es \<Rightarrow> Inr (number_from 1 (map (by_entity devices) es)))
      | _ \<Rightarrow> Inl (ValueErr ''invalid priority order''))"

section \<open>Options submission\<close>

text \<open>The \<open>errors\<close> dict has the key \<open>base\<close> only: assignment replaces it, \<open>setdefault\<close> keeps it.\<close>

type_synonym base_error = "string option"

definition default_error :: "string \<Rightarrow> base_error \<Rightarrow> base_error" where
  "default_error e errors = (if errors = None then Some e else errors)"

text \<open>\<open>float(raw)\<close>, NaN for a boolean and where TypeError or ValueError is raised.\<close>

definition float_or_nan :: "pyval \<Rightarrow> pyfloat res" where
  "float_or_nan raw =
     (if is_bool raw then Inr NaN
      else case py_float raw of Inl TypeErr \<Rightarrow> Inr NaN | Inl (ValueErr m) \<Rightarrow> Inr NaN | r \<Rightarrow> r)"

definition number_value :: "rat \<Rightarrow> pyval" where
  "number_value x = (if x = of_int \<lfloor>x\<rfloor> then PInt \<lfloor>x\<rfloor> else PFloat (Fin x))"

definition numeric_specs :: "pyval \<Rightarrow> (string \<times> int \<times> rat \<times> rat) list" where
  "numeric_specs mode =
     [(''averaging_period'', DEFAULT_AVERAGING_PERIOD, 1, 300),
      (''pause_period'', DEFAULT_PAUSE_PERIOD, 0, 86400)]
     @ (if mode = PStr GRID_LOSS_MODE_THRESHOLD then [(''battery_threshold'', 20, 0, 100)] else [])"

fun numeric_values_loop ::
  "flow_entry \<Rightarrow> pydict \<Rightarrow> (string \<times> int \<times> rat \<times> rat) list \<Rightarrow> pydict \<Rightarrow> base_error
     \<Rightarrow> (pydict \<times> base_error) res" where
  "numeric_values_loop e ui [] vals errors = Inr (vals, errors)"
| "numeric_values_loop e ui ((k, dflt, lo, hi) # specs) vals errors =
     rbind (float_or_nan (dget_or ui k (entry_current e k (PInt dflt)))) (\<lambda>f.
       if \<not> isfinite f \<or> \<not> (Fin lo \<le> f \<and> f \<le> Fin hi)
       then numeric_values_loop e ui specs vals (default_error ''invalid_numeric_setting'' errors)
       else numeric_values_loop e ui specs (AList.update k (number_value (fin_val f)) vals) errors)"

definition options_numeric_values ::
  "flow_entry \<Rightarrow> pydict \<Rightarrow> pyval \<Rightarrow> base_error \<Rightarrow> (pydict \<times> base_error) res" where
  "options_numeric_values e ui mode errors = numeric_values_loop e ui (numeric_specs mode) [] errors"

definition options_thresholds ::
  "pydict \<Rightarrow> base_error \<Rightarrow> (threshold_pair list option \<times> base_error) res" where
  "options_thresholds ui errors =
     (if dhas ui ''threshold_count'' then
        rbind (parse_threshold_input ui None) (\<lambda>(thr, err).
        Inr (thr, case err of None \<Rightarrow> errors | Some m \<Rightarrow> default_error m errors))
      else if \<not> dhas ui ''thresholds'' then Inr (None, errors)
      else
        rbind (catch_value (validate_threshold_collection (dget ui ''thresholds''))) (\<lambda>r. case r of
          Some ps \<Rightarrow> Inr (Some ps, errors)
        | None \<Rightarrow> Inr (None, default_error ''invalid_thresholds'' errors)))"

definition devices_value :: "device_config list \<Rightarrow> pyval" where
  "devices_value ds = PList (map (\<lambda>c. PDict (config_dict c)) ds)"

text \<open>The devices of a submission; an empty list and an error where they are refused.\<close>

definition options_devices :: "flow_entry \<Rightarrow> pydict \<Rightarrow> base_error \<Rightarrow> (device_config list \<times> base_error) res" where
  "options_devices e ui errors =
     rbind (catch_value
       (rbind (normalize_devices (dget_or ui ''devices'' (entry_current e ''devices'' (PList []))) True)
          (\<lambda>ds. apply_priority_order ds (dget ui ''priority_order'')))) (\<lambda>r. case r of
       Some ds \<Rightarrow> Inr (ds, errors)
     | None \<Rightarrow> Inr ([], default_error
         (if dhas ui ''priority_order'' then ''invalid_priority_order'' else ''invalid_devices'') errors))"

text \<open>The errors of the safety sources; each check that fails replaces the error before it.\<close>

definition source_errors ::
  "pyval \<Rightarrow> string option \<Rightarrow> string option \<Rightarrow> device_config list \<Rightarrow> base_error \<Rightarrow> base_error" where
  "source_errors mode grid_sensor battery_soc devices errors =
     (let e1 = (if mode = PStr GRID_LOSS_MODE_SENSOR \<and> grid_sensor = None
                then Some ''missing_grid_loss_sensor'' else errors);
          e2 = (if mode = PStr GRID_LOSS_MODE_THRESHOLD \<and> battery_soc = None
                then Some ''missing_battery_soc_sensor'' else e1)
      in if battery_soc = None \<and> list_ex (\<lambda>c. c_battery_min_soc c \<noteq> None) devices
         then Some ''missing_battery_soc_sensor'' else e2)"

definition options_payload ::
  "string option \<Rightarrow> device_config list \<Rightarrow> pyval \<Rightarrow> pydict \<Rightarrow> string option \<Rightarrow> string option \<Rightarrow> pydict" where
  "options_payload load_sensor devices mode vals grid_sensor battery_soc =
     (let p = dict_merge [(''load_sensor'', opt_str load_sensor), (''devices'', devices_value devices),
                          (''grid_loss_mode'', mode)] vals
      in if mode = PStr GRID_LOSS_MODE_SENSOR then
           (let q = AList.update ''grid_loss_sensor'' (opt_str grid_sensor) p
            in if battery_soc \<noteq> None then AList.update ''battery_soc'' (opt_str battery_soc) q else q)
         else AList.update ''battery_threshold'' (dget vals ''battery_threshold'')
                (AList.update ''battery_soc'' (opt_str battery_soc) p))"

definition prepare_options_submission ::
  "flow_entry \<Rightarrow> pydict \<Rightarrow> (pydict option \<times> threshold_pair list option \<times> base_error) res" where
  "prepare_options_submission e ui =
     (let load_sensor = sensor_entity_id (dget_or ui ''load_sensor'' (entry_current e ''load_sensor'' (PStr [])));
          e1 = (if load_sensor = None then Some ''invalid_load_sensor'' else None);
          mode = dget_or ui ''grid_loss_mode''
                   (entry_current e ''grid_loss_mode'' (PStr GRID_LOSS_MODE_SENSOR));
          e2 = (if mode \<noteq> PStr GRID_LOSS_MODE_SENSOR \<and> mode \<noteq> PStr GRID_LOSS_MODE_THRESHOLD
                then Some ''invalid_grid_loss_mode'' else e1)
      in rbind (options_devices e ui e2) (\<lambda>(devices, e3).
         let grid_sensor = entity_id (dget_or ui ''grid_loss_sensor''
               (entry_current e ''grid_loss_sensor'' (PStr []))) [''binary_sensor''];
             battery_soc = sensor_entity_id (dget_or ui ''battery_soc''
               (entry_current e ''battery_soc'' (PStr [])));
             e4 = source_errors mode grid_sensor battery_soc devices e3
         in rbind (options_numeric_values e ui mode e4) (\<lambda>(vals, e5).
            rbind (options_thresholds ui e5) (\<lambda>(thr, e6).
            Inr (if e6 \<noteq> None then (None, thr, e6)
                 else (Some (options_payload load_sensor devices mode vals grid_sensor battery_soc),
                       thr, None))))))"


section \<open>The order is a permutation\<close>

definition devices_ok :: "device_config list \<Rightarrow> bool" where
  "devices_ok ds \<longleftrightarrow> distinct (map c_device_id ds) \<and> distinct (concat (map config_members ds))
     \<and> list_all config_wf ds"

lemma normalized_devices_ok: "normalize_devices v strict = Inr ds \<Longrightarrow> devices_ok ds"
  using normalize_ok by (fastforce simp: devices_ok_def)

lemma distinct_entities: "distinct (concat (map config_members ds)) \<Longrightarrow> distinct (map c_entity ds)"
  by (induction ds) (auto simp: config_members_def)

lemma with_priority_fields [simp]:
  "c_device_id (with_priority i c) = c_device_id c" "c_entity (with_priority i c) = c_entity c"
  "c_priority (with_priority i c) = int i" "c_shed_priority (with_priority i c) = int i"
  "c_battery_min_soc (with_priority i c) = c_battery_min_soc c"
  "config_members (with_priority i c) = config_members c"
  "with_priority j (with_priority i c) = with_priority j c"
  by (simp_all add: with_priority_def config_members_def)

lemma with_priority_wf: "config_wf c \<Longrightarrow> 1 \<le> i \<Longrightarrow> config_wf (with_priority i c)"
  by (simp add: config_wf_def with_priority_def)

lemma number_from_fields [simp]:
  "map c_device_id (number_from i ds) = map c_device_id ds"
  "map c_entity (number_from i ds) = map c_entity ds"
  "map config_members (number_from i ds) = map config_members ds"
  "map c_battery_min_soc (number_from i ds) = map c_battery_min_soc ds"
  "map (with_priority j) (number_from i ds) = map (with_priority j) ds"
  "length (number_from i ds) = length ds"
  by (induction i ds rule: number_from.induct) simp_all

lemma number_from_priorities:
  "map c_priority (number_from i ds) = map int [i ..< i + length ds]"
  "map c_shed_priority (number_from i ds) = map int [i ..< i + length ds]"
  by (induction i ds rule: number_from.induct) (simp_all add: upt_conv_Cons del: upt_Suc)

lemma number_from_wf: "list_all config_wf ds \<Longrightarrow> 1 \<le> i \<Longrightarrow> list_all config_wf (number_from i ds)"
  by (induction i ds rule: number_from.induct) (simp_all add: with_priority_wf)

lemma by_entity_self: "distinct (map c_entity ds) \<Longrightarrow> map (by_entity ds) (map c_entity ds) = ds"
proof (rule nth_equalityI)
  fix i assume d: "distinct (map c_entity ds)" and i: "i < length (map (by_entity ds) (map c_entity ds))"
  have "distinct (map fst (map (\<lambda>c. (c_entity c, c)) (rev ds)))"
    using d by (simp add: o_def distinct_map)
  moreover have "(c_entity (ds ! i), ds ! i) \<in> set (map (\<lambda>c. (c_entity c, c)) (rev ds))"
    using i by simp
  ultimately have "map_of (map (\<lambda>c. (c_entity c, c)) (rev ds)) (c_entity (ds ! i)) = Some (ds ! i)"
    by (rule map_of_is_SomeI)
  with i show "map (by_entity ds) (map c_entity ds) ! i = ds ! i" by (simp add: by_entity_def)
qed simp

lemma reorder_mset:
  assumes "distinct (map c_entity ds)" and "distinct es" and "set es = set (map c_entity ds)"
  shows "mset (map (by_entity ds) es) = mset ds \<and> map c_entity (map (by_entity ds) es) = es"
proof
  have "mset es = mset (map c_entity ds)"
    using assms(3) unfolding set_eq_iff_mset_eq_distinct [OF assms(2,1)] .
  then have "mset (map (by_entity ds) es) = mset (map (by_entity ds) (map c_entity ds))"
    by (simp only: mset_map)
  then show "mset (map (by_entity ds) es) = mset ds" by (simp only: by_entity_self [OF assms(1)])
  have "c_entity (by_entity ds e) = e" if "e \<in> set (map c_entity ds)" for e
  proof -
    from that obtain i where i: "i < length ds" "e = c_entity (ds ! i)" by (auto simp: in_set_conv_nth)
    have "map (by_entity ds) (map c_entity ds) ! i = ds ! i" by (simp only: by_entity_self [OF assms(1)])
    with i show ?thesis by simp
  qed
  with assms(3) show "map c_entity (map (by_entity ds) es) = es"
    unfolding map_map by (intro map_idI) simp
qed

lemma permutation_of_Some:
  "permutation_of selected keys = Inr (Some es) \<Longrightarrow>
     selected = map PStr es \<and> distinct es \<and> set es = set keys"
proof -
  assume "permutation_of selected keys = Inr (Some es)"
  then have "list_all is_str selected" "es = map the_str selected" "distinct es" "set es = set keys"
    by (auto simp: permutation_of_def split: if_splits)
  moreover from this(1) have "map PStr (map the_str selected) = selected"
    by (induction selected) (auto elim: is_str.elims)
  ultimately show ?thesis by simp
qed

lemma permutation_of_texts:
  "distinct keys \<Longrightarrow> permutation_of (map PStr es) keys =
     Inr (if distinct es \<and> set es = set keys then Some es else None)"
proof -
  assume "distinct keys"
  have [simp]: "map the_str (map PStr es) = es" "list_all is_str (map PStr es)" "list_all hashable (map PStr es)"
    by (induction es) simp_all
  show ?thesis
    using \<open>distinct keys\<close> distinct_card [of es] distinct_card [of keys]
    by (auto simp: permutation_of_def simp del: map_map list.map_comp)
qed

lemma mset_map_eq: "mset xs = mset ys \<Longrightarrow> mset (map f xs) = mset (map f ys)"
  by (simp only: mset_map)

lemma mset_concat_map: "mset (concat (map f xs)) = sum_mset (image_mset (\<lambda>x. mset (f x)) (mset xs))"
  by (induction xs) simp_all

lemma devices_ok_mset:
  assumes m: "mset xs = mset ys" and ok: "devices_ok xs"
  shows "devices_ok ys"
proof -
  have "mset (concat (map config_members xs)) = mset (concat (map config_members ys))"
    by (simp only: mset_concat_map m)
  moreover have "mset (map c_device_id xs) = mset (map c_device_id ys)" using m by (rule mset_map_eq)
  moreover have "set xs = set ys" using m by (rule mset_eq_setD)
  ultimately show ?thesis
    using ok mset_eq_imp_distinct_iff unfolding devices_ok_def list_all_iff by metis
qed

lemma number_from_ok: "devices_ok ds \<Longrightarrow> devices_ok (number_from 1 ds)"
  by (simp add: devices_ok_def number_from_wf)

lemma priority_order_ok:
  assumes "apply_priority_order ds v = Inr out" and "devices_ok ds"
  shows "devices_ok out"
proof (cases "\<exists>xs. (case v of PStr s \<Rightarrow> PList [PStr s] | v \<Rightarrow> v) = PList xs")
  case True
  with assms(1) obtain xs es where es: "permutation_of xs (remdups (map c_entity ds)) = Inr (Some es)"
    "out = number_from 1 (map (by_entity ds) es)"
    by (auto simp: apply_priority_order_def rbind_Inr_iff split: option.splits)
  have d: "distinct (map c_entity ds)" using assms(2) distinct_entities by (auto simp: devices_ok_def)
  from permutation_of_Some [OF es(1)] reorder_mset [OF d, of es]
  have "mset ds = mset (map (by_entity ds) es)" by simp
  then have "devices_ok (map (by_entity ds) es)" using assms(2) by (rule devices_ok_mset)
  then show ?thesis unfolding es(2) by (rule number_from_ok)
next
  case False
  with assms show ?thesis by (auto simp: apply_priority_order_def split: pyval.splits)
qed

text \<open>C28. The order a person drags the loads into is applied exactly: an order of the control
  entities is accepted if and only if it names each configured load once; then the loads come
  in that order with priorities and shed priorities 1, 2, ..., n, and nothing else about any of
  them changes. Every other order is refused before a priority is touched.\<close>

theorem priority_order_exact:
  assumes "normalize_devices value strict = Inr ds"
  shows "if distinct es \<and> set es = set (map c_entity ds)
    then \<exists>out. apply_priority_order ds (str_list es) = Inr out \<and> map c_entity out = es
      \<and> map c_priority out = map int [1 ..< length ds + 1]
      \<and> map c_shed_priority out = map int [1 ..< length ds + 1]
      \<and> mset (map (with_priority 0) out) = mset (map (with_priority 0) ds)
    else apply_priority_order ds (str_list es) = Inl (ValueErr ''invalid priority order'')"
proof -
  have d: "distinct (map c_entity ds)"
    using normalized_devices_ok [OF assms] distinct_entities by (auto simp: devices_ok_def)
  then have perm: "permutation_of (map PStr es) (remdups (map c_entity ds)) =
      Inr (if distinct es \<and> set es = set (map c_entity ds) then Some es else None)"
    by (simp add: permutation_of_texts distinct_remdups_id)
  show ?thesis
  proof (cases "distinct es \<and> set es = set (map c_entity ds)")
    case True
    let ?sel = "map (by_entity ds) es" and ?out = "number_from 1 (map (by_entity ds) es)"
    have m: "mset ?sel = mset ds" "map c_entity ?sel = es" using reorder_mset [OF d, of es] True by simp_all
    have len: "length ?sel = length ds" using m(1) by (rule mset_eq_length)
    have "apply_priority_order ds (str_list es) = Inr ?out"
      using perm True by (simp add: apply_priority_order_def str_list_def)
    moreover have "map c_entity ?out = es" unfolding number_from_fields by (rule m(2))
    moreover have "map c_priority ?out = map int [1 ..< length ds + 1]"
      "map c_shed_priority ?out = map int [1 ..< length ds + 1]"
      unfolding number_from_priorities len by (simp_all only: add.commute)
    moreover have "mset (map (with_priority 0) ?out) = mset (map (with_priority 0) ds)"
      unfolding number_from_fields using m(1) by (rule mset_map_eq)
    ultimately show ?thesis using True by (simp only: if_True simp_thms) blast
  next
    case False
    with perm show ?thesis by (auto simp: apply_priority_order_def str_list_def)
  qed
qed

theorem priority_order_exact_witness:
  "\<exists>out. apply_priority_order [demo_config] (str_list [''switch.boiler'']) = Inr out
     \<and> map c_entity out = [''switch.boiler''] \<and> map c_priority out = [1]"
  using priority_order_exact [OF demo_normalize, of "[''switch.boiler'']"]
  by (auto simp: demo_config_def)

section \<open>What a prepared payload guarantees\<close>

text \<open>A number of a configuration whose value lies in a range.\<close>

definition number_in :: "pyval \<Rightarrow> rat \<Rightarrow> rat \<Rightarrow> bool" where
  "number_in v lo hi \<longleftrightarrow> is_number v \<and> \<not> is_bool v \<and> Fin lo \<le> num_val v \<and> num_val v \<le> Fin hi"

definition entity_in :: "pyval \<Rightarrow> string list \<Rightarrow> bool" where
  "entity_in v domains \<longleftrightarrow> is_str v \<and> valid_entity domains (the_str v)"

definition safety_source_ok :: "pydict \<Rightarrow> bool" where
  "safety_source_ok p \<longleftrightarrow>
     (dget p ''grid_loss_mode'' = PStr GRID_LOSS_MODE_SENSOR
        \<and> entity_in (dget p ''grid_loss_sensor'') [''binary_sensor''])
     \<or> (dget p ''grid_loss_mode'' = PStr GRID_LOSS_MODE_THRESHOLD
        \<and> entity_in (dget p ''battery_soc'') [''sensor''])"

definition payload_ok :: "pydict \<Rightarrow> bool" where
  "payload_ok p \<longleftrightarrow>
     entity_in (dget p ''load_sensor'') [''sensor'']
     \<and> (\<exists>ds. dget p ''devices'' = devices_value ds \<and> devices_ok ds
          \<and> (list_ex (\<lambda>c. c_battery_min_soc c \<noteq> None) ds \<longrightarrow> entity_in (dget p ''battery_soc'') [''sensor'']))
     \<and> number_in (dget p ''averaging_period'') 1 300 \<and> number_in (dget p ''pause_period'') 0 86400
     \<and> safety_source_ok p
     \<and> (dget p ''grid_loss_mode'' = PStr GRID_LOSS_MODE_THRESHOLD
          \<longrightarrow> number_in (dget p ''battery_threshold'') 0 100)"

lemma number_value_in [simp]: "number_in (number_value x) lo hi \<longleftrightarrow> lo \<le> x \<and> x \<le> hi"
proof (cases "x = of_int \<lfloor>x\<rfloor>")
  case True
  then have "(of_int \<lfloor>x\<rfloor> :: rat) = x" by (rule sym)
  then show ?thesis by (simp add: number_in_def number_value_def)
next
  case False
  then show ?thesis by (simp add: number_in_def number_value_def)
qed

lemma entity_in_opt: "entity_in (opt_str v) domains \<longleftrightarrow> (\<exists>e. v = Some e \<and> valid_entity domains e)"
  by (auto simp: entity_in_def opt_str_def split: option.splits)

lemma default_error_None [simp]: "default_error e errors \<noteq> None" "default_error e errors = None \<longleftrightarrow> False"
  by (auto simp: default_error_def)

text \<open>An error, once there, stays an error.\<close>

lemma numeric_loop_None:
  "numeric_values_loop e ui specs vals errors = Inr (vs, None) \<Longrightarrow>
     errors = None
     \<and> (\<exists>xs. length xs = length specs \<and> list_all2 (\<lambda>(k, d, lo, hi) x. lo \<le> x \<and> x \<le> hi) specs xs
          \<and> vs = fold (\<lambda>(k, v) d. AList.update k v d) (zip (map fst specs) (map number_value xs)) vals)"
proof (induction e ui specs vals errors rule: numeric_values_loop.induct)
  case (1 e ui vals errors)
  then show ?case by simp
next
  case (2 e ui k dflt lo hi specs vals errors)
  from 2(3) obtain f where f: "float_or_nan (dget_or ui k (entry_current e k (PInt dflt))) = Inr f"
    by (auto simp: rbind_Inr_iff)
  show ?case
  proof (cases "\<not> isfinite f \<or> \<not> (Fin lo \<le> f \<and> f \<le> Fin hi)")
    case True
    with 2(1) [OF True] 2(3) f show ?thesis by simp
  next
    case False
    with 2(2) [OF False] 2(3) f obtain x xs where "f = Fin x" "lo \<le> x \<and> x \<le> hi" "errors = None"
      "length xs = length specs" "list_all2 (\<lambda>(k, d, lo, hi) x. lo \<le> x \<and> x \<le> hi) specs xs"
      "vs = fold (\<lambda>(k, v) d. AList.update k v d) (zip (map fst specs) (map number_value xs))
              (AList.update k (number_value x) vals)"
      by (auto simp: isfinite_iff)
    then show ?thesis by (intro conjI exI [of _ "x # xs"]) simp_all
  qed
qed

lemma options_numeric_None:
  assumes "options_numeric_values e ui mode errors = Inr (vs, None)"
  shows "errors = None \<and> (\<exists>a b c. 1 \<le> a \<and> a \<le> 300 \<and> 0 \<le> b \<and> b \<le> 86400 \<and> 0 \<le> c \<and> c \<le> 100
    \<and> vs = [(''averaging_period'', number_value a), (''pause_period'', number_value b)]
         @ (if mode = PStr GRID_LOSS_MODE_THRESHOLD then [(''battery_threshold'', number_value c)] else []))"
proof -
  from numeric_loop_None [OF assms [unfolded options_numeric_values_def]] obtain xs where
    e: "errors = None" and len: "length xs = length (numeric_specs mode)"
    and all: "list_all2 (\<lambda>(k, d, lo, hi) x. lo \<le> x \<and> x \<le> hi) (numeric_specs mode) xs"
    and vs: "vs = fold (\<lambda>(k, v) d. AList.update k v d)
        (zip (map fst (numeric_specs mode)) (map number_value xs)) []"
    by blast
  show ?thesis
  proof (cases "mode = PStr GRID_LOSS_MODE_THRESHOLD")
    case True
    with all obtain a b c where "xs = [a, b, c]" "1 \<le> a" "a \<le> 300" "0 \<le> b" "b \<le> 86400" "0 \<le> c" "c \<le> 100"
      by (auto simp: numeric_specs_def list_all2_Cons1)
    with e vs True show ?thesis by (simp add: numeric_specs_def) blast
  next
    case False
    with all obtain a b where "xs = [a, b]" "1 \<le> a" "a \<le> 300" "0 \<le> b" "b \<le> 86400"
      by (auto simp: numeric_specs_def list_all2_Cons1)
    with e vs False show ?thesis
      by (intro conjI exI [of _ a] exI [of _ b] exI [of _ 0]) (simp_all add: numeric_specs_def)
  qed
qed

lemma options_thresholds_None:
  "options_thresholds ui errors = Inr (thr, None) \<Longrightarrow>
     errors = None \<and> (\<forall>ps. thr = Some ps \<longrightarrow> pairs_ok ps \<and> ps \<noteq> [])"
  by (auto simp: options_thresholds_def rbind_Inr_iff
      dest: parse_input_ok collection_ok split: if_splits option.splits)

lemma options_devices_None:
  "options_devices e ui errors = Inr (ds, None) \<Longrightarrow> errors = None \<and> devices_ok ds"
  by (auto simp: options_devices_def rbind_Inr_iff split: option.splits
      dest: priority_order_ok normalized_devices_ok)

lemma source_errors_None:
  "source_errors mode g b ds errors = None \<longleftrightarrow>
     errors = None \<and> (mode = PStr GRID_LOSS_MODE_SENSOR \<longrightarrow> g \<noteq> None)
     \<and> (mode = PStr GRID_LOSS_MODE_THRESHOLD \<longrightarrow> b \<noteq> None)
     \<and> (list_ex (\<lambda>c. c_battery_min_soc c \<noteq> None) ds \<longrightarrow> b \<noteq> None)"
  by (auto simp: source_errors_def Let_def)

lemma payload_of_parts:
  assumes "load = Some l" "valid_entity [''sensor''] l" "devices_ok ds"
    and "mode = PStr GRID_LOSS_MODE_SENSOR \<or> mode = PStr GRID_LOSS_MODE_THRESHOLD"
    and "source_errors mode g b ds None = None"
    and "\<And>e. g = Some e \<Longrightarrow> valid_entity [''binary_sensor''] e" "\<And>e. b = Some e \<Longrightarrow> valid_entity [''sensor''] e"
    and "1 \<le> x" "x \<le> 300" "0 \<le> y" "y \<le> 86400" "0 \<le> z" "z \<le> 100"
    and "vals = [(''averaging_period'', number_value x), (''pause_period'', number_value y)]
         @ (if mode = PStr GRID_LOSS_MODE_THRESHOLD then [(''battery_threshold'', number_value z)] else [])"
  shows "payload_ok (options_payload load ds mode vals g b)
    \<and> dget (options_payload load ds mode vals g b) ''thresholds'' = PNone"
  using assms(4)
proof
  assume mode: "mode = PStr GRID_LOSS_MODE_SENSOR"
  then have ne: "mode \<noteq> PStr GRID_LOSS_MODE_THRESHOLD"
    by (simp add: GRID_LOSS_MODE_SENSOR_def GRID_LOSS_MODE_THRESHOLD_def)
  from mode assms(5) obtain ge where "g = Some ge" by (auto simp: source_errors_None)
  with assms mode ne show ?thesis
    by (auto simp: options_payload_def dict_merge_def payload_ok_def safety_source_ok_def entity_in_opt
        source_errors_None Let_def)
next
  assume mode: "mode = PStr GRID_LOSS_MODE_THRESHOLD"
  then have ne: "mode \<noteq> PStr GRID_LOSS_MODE_SENSOR"
    by (simp add: GRID_LOSS_MODE_SENSOR_def GRID_LOSS_MODE_THRESHOLD_def)
  from mode assms(5) obtain be where "b = Some be" by (auto simp: source_errors_None)
  with assms mode ne show ?thesis
    by (auto simp: options_payload_def dict_merge_def payload_ok_def safety_source_ok_def entity_in_opt
        source_errors_None Let_def)
qed

lemma submission_ok:
  assumes "prepare_options_submission e ui = Inr (Some p, thr, err)"
  shows "payload_ok p \<and> dget p ''thresholds'' = PNone \<and> err = None
    \<and> (\<forall>ps. thr = Some ps \<longrightarrow> pairs_ok ps \<and> ps \<noteq> [])"
proof -
  define load where "load = sensor_entity_id (dget_or ui ''load_sensor'' (entry_current e ''load_sensor'' (PStr [])))"
  define mode where "mode = dget_or ui ''grid_loss_mode''
      (entry_current e ''grid_loss_mode'' (PStr GRID_LOSS_MODE_SENSOR))"
  define g where "g = entity_id (dget_or ui ''grid_loss_sensor''
      (entry_current e ''grid_loss_sensor'' (PStr []))) [''binary_sensor'']"
  define b where "b = sensor_entity_id (dget_or ui ''battery_soc'' (entry_current e ''battery_soc'' (PStr [])))"
  define e2 where "e2 = (if mode \<noteq> PStr GRID_LOSS_MODE_SENSOR \<and> mode \<noteq> PStr GRID_LOSS_MODE_THRESHOLD
      then Some ''invalid_grid_loss_mode'' else if load = None then Some ''invalid_load_sensor'' else None)"
  note defs = load_def [symmetric] mode_def [symmetric] g_def [symmetric] b_def [symmetric]
  from assms obtain ds e3 vals e5 where
    d: "options_devices e ui e2 = Inr (ds, e3)"
    and n: "options_numeric_values e ui mode (source_errors mode g b ds e3) = Inr (vals, e5)"
    and t: "options_thresholds ui e5 = Inr (thr, None)" and err: "err = None"
    and p: "p = options_payload load ds mode vals g b"
    unfolding prepare_options_submission_def Let_def defs e2_def [symmetric]
    by (auto simp: rbind_Inr_iff split: if_splits)
  from options_thresholds_None [OF t] n
  have "options_numeric_values e ui mode (source_errors mode g b ds e3) = Inr (vals, None)" by simp
  from options_numeric_None [OF this] obtain x y z where
    s: "source_errors mode g b ds e3 = None" and v: "1 \<le> x" "x \<le> 300" "0 \<le> y" "y \<le> 86400" "0 \<le> z" "z \<le> 100"
      "vals = [(''averaging_period'', number_value x), (''pause_period'', number_value y)]
         @ (if mode = PStr GRID_LOSS_MODE_THRESHOLD then [(''battery_threshold'', number_value z)] else [])"
    by blast
  then have e3: "e3 = None" by (simp add: source_errors_None)
  with options_devices_None d have dev: "devices_ok ds" "e2 = None" by blast+
  then obtain l where l: "load = Some l"
    and m: "mode = PStr GRID_LOSS_MODE_SENSOR \<or> mode = PStr GRID_LOSS_MODE_THRESHOLD"
    by (auto simp: e2_def split: if_splits)
  have valid: "valid_entity [''sensor''] l" "\<And>e. g = Some e \<Longrightarrow> valid_entity [''binary_sensor''] e"
    "\<And>e. b = Some e \<Longrightarrow> valid_entity [''sensor''] e"
    using l by (auto simp: load_def g_def b_def sensor_entity_id_def dest: entity_id_valid)
  show ?thesis
    unfolding p using payload_of_parts [OF l valid(1) dev(1) m _ valid(2,3) v] s e3
      options_thresholds_None [OF t] err by simp
qed

lemma distinct_dict_merge: "distinct (map fst a) \<Longrightarrow> distinct (map fst (dict_merge a b))"
  unfolding dict_merge_def by (induction b arbitrary: a) (auto simp: distinct_update)

lemma payload_keys: "distinct (map fst (options_payload load ds mode vals g b))"
proof -
  define p0 where "p0 = dict_merge [(''load_sensor'', opt_str load), (''devices'', devices_value ds),
      (''grid_loss_mode'', mode)] vals"
  have "distinct (map fst p0)" unfolding p0_def by (rule distinct_dict_merge) simp
  then show ?thesis
    unfolding options_payload_def Let_def p0_def [symmetric] by (auto intro: distinct_update)
qed

lemma submission_keys: "prepare_options_submission e ui = Inr (Some p, thr, err) \<Longrightarrow> distinct (map fst p)"
  by (auto simp: prepare_options_submission_def rbind_Inr_iff Let_def payload_keys split: if_split_asm)

lemma devices_reload:
  assumes "devices_ok ds" and "\<forall>c \<in> set ds. c_priority c \<le> 100000 \<and> c_shed_priority c \<le> 100000"
  shows "normalize_devices (devices_value ds) False = Inr ds"
  using assms by (simp add: normalize_devices_def devices_value_def devices_ok_def normalize_loop_fix)

end
