(* ===== verification/Config_Flow.thy ===== *)
theory Config_Flow
  imports Flow_Options
begin

text \<open>
  The classes of \<open>config_flow.py\<close>: the onboarding wizard with its reconfiguration branch, and
  the options flow. A flow object is a record of its attributes; every step takes the
  environment, the object and the optional submission, and returns the object as the step
  leaves it together with its answer or the exception that escapes.

  Before a step runs, Home Assistant has validated the submission against the schema of the
  form; nothing here relies on it, except that the device name is text (the form's text
  field): a name that is not text counts as not given.
\<close>

section \<open>The environment and the answers\<close>

text \<open>
  What a step reads outside the flow object: whether an entry exists already, the data of the
  energy manager, the friendly names, the entry under reconfiguration, the next generated
  id, and \<open>str(...)\<close> of a value that is not text.
\<close>

record flow_env =
  fe_has_entries :: bool
  fe_energy :: "pyval option"
  fe_names :: "string \<Rightarrow> pyval"
  fe_reconfigure :: "flow_entry option"
  fe_new_id :: string
  fe_render :: "pyval \<Rightarrow> string"

text \<open>
  \<open>async_show_form\<close> (step, fields, error), \<open>async_abort\<close>, \<open>async_create_entry\<close> (title, data) and
  \<open>async_update_and_abort\<close> (data, reason; the options become empty).
\<close>

datatype flow_result =
    ShowForm string "form_field list" base_error
  | Abort string
  | CreateEntry string pydict
  | UpdateEntry pydict string

text \<open>A wizard device: the adapter's dict, and its priority once the order is fixed.\<close>

type_synonym wizard_load = "logical_config \<times> nat option"

datatype devices_phase = Selection | Discovered | Custom

record wizard =
  z_discovered :: pydict
  z_devices :: "wizard_load list"
  z_phase :: devices_phase
  z_pending :: "pydict list"
  z_index :: nat
  z_add_custom :: bool
  z_pause :: pyval
  z_thresholds :: "threshold_pair list"
  z_seed :: "threshold_pair list"
  z_mode :: "string option"
  z_reconf_entry :: "flow_entry option"
  z_reconf_pending :: "pydict option"

type_synonym answer = "wizard \<times> flow_result res"

definition new_wizard :: wizard where
  "new_wizard = \<lparr>z_discovered = [], z_devices = [], z_phase = Selection, z_pending = [], z_index = 0,
     z_add_custom = False, z_pause = PInt DEFAULT_PAUSE_PERIOD, z_thresholds = [], z_seed = [],
     z_mode = None, z_reconf_entry = None, z_reconf_pending = None\<rparr>"

definition found :: "wizard \<Rightarrow> string \<Rightarrow> pyval" where
  "found z k = dget (z_discovered z) k"

definition set_found :: "string \<Rightarrow> pyval \<Rightarrow> wizard \<Rightarrow> wizard" where
  "set_found k v z = z\<lparr>z_discovered := AList.update k v (z_discovered z)\<rparr>"

section \<open>Thresholds\<close>

definition threshold_form :: "wizard \<Rightarrow> base_error \<Rightarrow> flow_result" where
  "threshold_form z err =
     ShowForm ''thresholds''
       (threshold_step_fields (next_threshold_default (z_thresholds z) (z_seed z))
          (length (z_thresholds z) + 1 < length (z_seed z))) err"

text \<open>
  One submitted pair against the collected ones: the refusal, or the pair to append. The
  wizard, the reconfiguration and the options flow share it.
\<close>

definition accept_pair :: "threshold_pair list \<Rightarrow> pydict \<Rightarrow> (threshold_pair option \<times> base_error) res" where
  "accept_pair collected ui =
     rbind (parse_threshold_step ui (previous_limit collected)) (\<lambda>(pair, error). case pair of
       None \<Rightarrow> Inr (None, Some (case error of Some m \<Rightarrow> m | None \<Rightarrow> ''invalid_thresholds''))
     | Some p \<Rightarrow>
         if error \<noteq> None then Inr (None, error)
         else if MAX_CUSTOM_THRESHOLDS \<le> length collected \<or> \<not> threshold_add_allowed collected p ui
         then Inr (None, Some ''invalid_thresholds'')
         else Inr (Some p, None))"

definition more_wanted :: "pydict \<Rightarrow> bool" where
  "more_wanted ui \<longleftrightarrow> truthy (dget_or ui ''add_threshold'' (PBool False))"

definition append_pair :: "threshold_pair \<Rightarrow> wizard \<Rightarrow> wizard" where
  "append_pair p z = z\<lparr>z_thresholds := z_thresholds z @ [p]\<rparr>"

text \<open>\<open>async_step_reconfigure_thresholds\<close>.\<close>

definition reconfigure_thresholds :: "wizard \<Rightarrow> pydict option \<Rightarrow> answer" where
  "reconfigure_thresholds z uio =
     (case (z_reconf_entry z, z_reconf_pending z) of
        (Some e, Some pending) \<Rightarrow>
          (case uio of
             None \<Rightarrow> (z, Inr (threshold_form z None))
           | Some ui \<Rightarrow>
               (case accept_pair (z_thresholds z) ui of
                  Inl x \<Rightarrow> (z, Inl x)
                | Inr (None, err) \<Rightarrow> (z, Inr (threshold_form z err))
                | Inr (Some p, _) \<Rightarrow>
                    (let z1 = append_pair p z
                     in if more_wanted ui then (z1, Inr (threshold_form z1 None))
                        else
                          (let data = AList.delete ''reconfiguration_required''
                             (AList.update ''thresholds'' (thresholds_value (z_thresholds z1)) pending)
                           in (z1\<lparr>z_reconf_pending := Some data\<rparr>,
                               Inr (UpdateEntry data ''reconfigure_successful''))))))
      | _ \<Rightarrow> (z, Inr (Abort ''entry_not_loaded'')))"

section \<open>Devices\<close>

definition as_text :: "flow_env \<Rightarrow> pyval \<Rightarrow> string" where
  "as_text env v = (case v of PStr s \<Rightarrow> s | _ \<Rightarrow> fe_render env v)"

definition device_name :: "flow_env \<Rightarrow> pydict \<Rightarrow> string" where
  "device_name env candidate =
     (if truthy (dget candidate ''name'') then as_text env (dget candidate ''name'')
      else friendly (fe_names env)
             (if truthy (dget candidate ''entity_id'') then as_text env (dget candidate ''entity_id'') else []))"

definition found_devices :: "wizard \<Rightarrow> pydict list" where
  "found_devices z =
     (case dget_or (z_discovered z) ''devices'' (PList []) of
        PList xs \<Rightarrow> map the_dict (filter (\<lambda>v. is_dict v \<and> truthy (dget (the_dict v) ''entity_id'')) xs)
      | _ \<Rightarrow> [])"

definition device_selection_form :: "wizard \<Rightarrow> base_error \<Rightarrow> flow_result" where
  "device_selection_form z err =
     ShowForm ''devices''
       [optional_field ''discovered_devices'' (PList [])
          (SelectSelector (map (\<lambda>d. the_str (dget d ''entity_id'')) (found_devices z)) True),
        optional_field ''add_custom_device'' (PBool False) BoolSelector] err"

definition control_selector :: "bool \<Rightarrow> selector" where
  "control_selector multiple =
     EntitySelector [''switch'', ''light'', ''input_boolean'', ''climate'', ''humidifier''] multiple"

text \<open>\<open>list(candidate.get(key, ()) or ())\<close>; a discovered candidate has none of these keys.\<close>

definition listed :: "pydict \<Rightarrow> string \<Rightarrow> pyval" where
  "listed candidate k =
     (case dget candidate k of PTuple xs \<Rightarrow> PList xs | PList xs \<Rightarrow> PList xs | _ \<Rightarrow> PList [])"

definition device_config_form :: "flow_env \<Rightarrow> pydict \<Rightarrow> base_error \<Rightarrow> flow_result" where
  "device_config_form env candidate err =
     (let name = (if candidate \<noteq> [] then device_name env candidate else []);
          sensor = (case sensor_entity_id (dget candidate ''power_sensor'') of Some s \<Rightarrow> s | None \<Rightarrow> [])
      in ShowForm ''devices''
        ([optional_field ''device_id'' (PStr (as_text env (dget_or candidate ''device_id'' (PStr [])))) TextSelector,
          \<lparr>ff_key = ''entity'', ff_required = True, ff_default = None, ff_selector = control_selector False\<rparr>,
          optional_field ''name'' (PStr name) TextSelector,
          required_field ''expected_power'' (dget_or candidate ''expected_power'' (PInt 2000))
            (NumberSelector 1 50000 ''W''),
          optional_entity_key ''power_sensor'' (PStr sensor) (EntitySelector [''sensor''] False),
          optional_field ''actuators'' (listed candidate ''actuators'') (control_selector True),
          optional_entity_key ''command_entity'' (dget candidate ''command_entity'') (control_selector False),
          optional_field ''readback_entities'' (listed candidate ''readback_entities'') (control_selector True),
          optional_field ''emergency_off_entities'' (listed candidate ''emergency_off_entities'')
            (control_selector True)]
         @ (if candidate = [] then [optional_field ''add_another'' (PBool False) BoolSelector] else [])) err)"

definition build_device :: "flow_env \<Rightarrow> pydict \<Rightarrow> pydict \<Rightarrow> logical_config res" where
  "build_device env ui candidate =
     (case entity_id (dget ui ''entity'') CONTROL_DOMAINS of
        None \<Rightarrow> Inl (ValueErr ''control entity must be valid'')
      | Some entity \<Rightarrow>
          (let given_name = (case dget ui ''name'' of PStr s \<Rightarrow> s | _ \<Rightarrow> []);
               name = (if given_name \<noteq> [] then given_name
                       else if candidate \<noteq> [] then device_name env candidate
                       else friendly (fe_names env) entity);
               sensor = (if dhas ui ''power_sensor'' then sensor_entity_id (dget ui ''power_sensor'')
                         else sensor_entity_id (dget candidate ''power_sensor''));
               identity = (if truthy (dget ui ''device_id'') then as_text env (dget ui ''device_id'')
                           else fe_new_id env)
           in wizard_device ui identity (if name \<noteq> [] then name else entity) (opt_str sensor)))"

section \<open>Priority order and grid loss\<close>

text \<open>The dict of a wizard device.\<close>

definition wizard_dict :: "wizard_load \<Rightarrow> pydict" where
  "wizard_dict d =
     (case d of (c, p) \<Rightarrow>
        [(''device_id'', PStr (c_device_id c)), (''name'', PStr (c_name c)),
         (''entity'', PStr (c_entity c)), (''expected_power'', PInt (c_expected_power c)),
         (''power_sensor'', opt_str (c_power_sensor c)), (''actuators'', str_list (c_actuators c)),
         (''command_entity'', PStr (c_command_entity c)),
         (''readback_entities'', str_list (c_readback_entities c)),
         (''emergency_off_entities'', str_list (c_emergency_off_entities c))]
        @ (case p of None \<Rightarrow> []
           | Some i \<Rightarrow> [(''priority'', PInt (int i)), (''shed_priority'', PInt (int i))]))"

definition priority_form :: "wizard \<Rightarrow> base_error \<Rightarrow> flow_result" where
  "priority_form z err =
     (let control_entities = map (\<lambda>(c, _). c_entity c) (z_devices z)
      in ShowForm ''priority''
           ((if control_entities \<noteq> []
             then [required_field ''priority_order'' (str_list control_entities) (OrderSelector control_entities)]
             else [])
            @ [optional_field ''pause_period'' (PInt DEFAULT_PAUSE_PERIOD) (NumberSelector 0 86400 ''s'')]) err)"

definition priority_field :: "nat \<Rightarrow> string" where
  "priority_field index = ''priority_'' @ nat_text (index + 1)"

text \<open>The submitted keys, None where they are not a list, and the key of a device.\<close>

definition priority_candidates ::
  "wizard \<Rightarrow> pydict \<Rightarrow> pyval list option \<times> (logical_config \<Rightarrow> string)" where
  "priority_candidates z ui =
     (case dget ui ''priority_order'' of
        PNone \<Rightarrow> (Some (map (\<lambda>i. dget ui (priority_field i)) [0 ..< length (z_devices z)]), c_device_id)
      | PStr s \<Rightarrow> (Some [PStr s], c_entity)
      | PList xs \<Rightarrow> (Some xs, c_entity)
      | _ \<Rightarrow> (None, c_entity))"

definition by_key :: "(logical_config \<Rightarrow> string) \<Rightarrow> wizard_load list \<Rightarrow> string \<Rightarrow> wizard_load" where
  "by_key key devices k = the (map_of (map (\<lambda>d. (key (fst d), d)) (rev devices)) k)"

definition ordered_priority_devices :: "wizard \<Rightarrow> pydict \<Rightarrow> wizard_load list option res" where
  "ordered_priority_devices z ui =
     (case priority_candidates z ui of
        (None, _) \<Rightarrow> Inr None
      | (Some selected, key) \<Rightarrow>
          obind (permutation_of selected (remdups (map (key \<circ> fst) (z_devices z))))
            (\<lambda>ks. Inr (Some (map (by_key key (z_devices z)) ks))))"

fun number_loads :: "nat \<Rightarrow> wizard_load list \<Rightarrow> wizard_load list" where
  "number_loads i [] = []"
| "number_loads i ((c, p) # ds) = (c, Some i) # number_loads (Suc i) ds"

definition mode_text :: "wizard \<Rightarrow> string" where
  "mode_text z = (case z_mode z of None \<Rightarrow> GRID_LOSS_MODE_SENSOR
                  | Some m \<Rightarrow> if m = [] then GRID_LOSS_MODE_SENSOR else m)"

definition grid_loss_form :: "wizard \<Rightarrow> base_error \<Rightarrow> flow_result" where
  "grid_loss_form z err =
     ShowForm ''grid_loss''
       [required_field ''grid_loss_mode'' (PStr (mode_text z))
          (SelectSelector [GRID_LOSS_MODE_SENSOR, GRID_LOSS_MODE_THRESHOLD] False)] err"

definition grid_loss_source_form :: "wizard \<Rightarrow> string \<Rightarrow> base_error \<Rightarrow> flow_result" where
  "grid_loss_source_form z mode err =
     ShowForm ''grid_loss_source''
       (if mode = GRID_LOSS_MODE_SENSOR
        then [\<lparr>ff_key = ''grid_loss_sensor'', ff_required = True, ff_default = None,
               ff_selector = EntitySelector [''binary_sensor''] False\<rparr>]
        else [\<lparr>ff_key = ''battery_soc'', ff_required = True,
               ff_default = (if truthy (found z ''battery_soc'') then Some (found z ''battery_soc'') else None),
               ff_selector = EntitySelector [''sensor''] False\<rparr>,
              required_field ''battery_threshold'' (PInt 20) (NumberSelector 0 100 ''%'')]) err"

definition create_grid_loss_entry :: "wizard \<Rightarrow> pydict \<Rightarrow> string \<Rightarrow> flow_result" where
  "create_grid_loss_entry z ui mode =
     (let grid_sensor = entity_id (dget ui ''grid_loss_sensor'') [''binary_sensor''];
          battery_soc = sensor_entity_id
            (if truthy (dget ui ''battery_soc'') then dget ui ''battery_soc'' else found z ''battery_soc'')
      in if mode = GRID_LOSS_MODE_SENSOR \<and> grid_sensor = None
         then grid_loss_source_form z mode (Some ''missing_grid_loss_sensor'')
         else if mode = GRID_LOSS_MODE_THRESHOLD \<and> battery_soc = None
         then grid_loss_source_form z mode (Some ''missing_battery_soc_sensor'')
         else if \<not> is_list (found z ''thresholds'') \<or> \<not> truthy (found z ''thresholds'')
         then grid_loss_source_form z mode (Some ''invalid_thresholds'')
         else CreateEntry ''Power Orchestrator''
           ([(''load_sensor'', found z ''grid_power''),
             (''averaging_period'',
                dget_or (z_discovered z) ''averaging_period'' (PInt DEFAULT_AVERAGING_PERIOD)),
             (''thresholds'', found z ''thresholds''),
             (''devices'', PList (map (\<lambda>d. PDict (wizard_dict d)) (z_devices z))),
             (''pause_period'', z_pause z), (''grid_loss_mode'', PStr mode)]
            @ (if mode = GRID_LOSS_MODE_SENSOR then [(''grid_loss_sensor'', opt_str grid_sensor)]
               else [(''battery_soc'', opt_str battery_soc),
                     (''battery_threshold'', dget_or ui ''battery_threshold'' (PInt 20))])))"

section \<open>Steps\<close>

definition open_devices :: "flow_env \<Rightarrow> wizard \<Rightarrow> answer" where
  "open_devices env z =
     (z, case z_phase z of
           Selection \<Rightarrow> Inr (device_selection_form z None)
         | Discovered \<Rightarrow>
             (if z_index z < length (z_pending z)
              then Inr (device_config_form env (z_pending z ! z_index z) None) else Inl IndexErr)
         | Custom \<Rightarrow> Inr (device_config_form env [] None))"

text \<open>\<open>candidates[item]\<close> for the selected items, in order; None when one is not a candidate.\<close>

fun select_candidates :: "pydict list \<Rightarrow> pyval list \<Rightarrow> pydict list option res" where
  "select_candidates candidates [] = Inr (Some [])"
| "select_candidates candidates (v # vs) =
     (if \<not> hashable v then Inl TypeErr
      else case find (\<lambda>d. dget d ''entity_id'' = v) (rev candidates) of
             None \<Rightarrow> Inr None
           | Some d \<Rightarrow> obind (select_candidates candidates vs) (\<lambda>ds. Inr (Some (d # ds))))"

definition selected_items :: "pyval \<Rightarrow> pyval list res" where
  "selected_items v =
     (if \<not> truthy v then Inr []
      else case v of
             PStr s \<Rightarrow> Inr [PStr s]
           | PList xs \<Rightarrow> Inr xs
           | PTuple xs \<Rightarrow> Inr xs
           | PDict d \<Rightarrow> Inr (map (\<lambda>kv. PStr (fst kv)) d)
           | _ \<Rightarrow> Inl TypeErr)"

text \<open>Where the device steps go on: the custom form if wanted, else the priorities.\<close>

definition after_discovered :: "flow_env \<Rightarrow> wizard \<Rightarrow> answer" where
  "after_discovered env z =
     (if z_add_custom z then open_devices env (z\<lparr>z_phase := Custom\<rparr>)
      else (z, Inr (priority_form z None)))"

definition devices_selection_step :: "flow_env \<Rightarrow> wizard \<Rightarrow> pydict \<Rightarrow> answer" where
  "devices_selection_step env z ui =
     (case rbind (selected_items (dget_or ui ''discovered_devices'' (PList [])))
             (select_candidates (found_devices z)) of
        Inl x \<Rightarrow> (z, Inl x)
      | Inr None \<Rightarrow> (z, Inr (device_selection_form z (Some ''invalid_discovered_devices'')))
      | Inr (Some ds) \<Rightarrow>
          (let z1 = z\<lparr>z_pending := ds, z_index := 0,
                      z_add_custom := truthy (dget_or ui ''add_custom_device'' (PBool False))\<rparr>
           in if ds \<noteq> [] then open_devices env (z1\<lparr>z_phase := Discovered\<rparr>)
              else after_discovered env z1))"

definition devices_discovered_step :: "flow_env \<Rightarrow> wizard \<Rightarrow> pydict \<Rightarrow> answer" where
  "devices_discovered_step env z ui =
     (if \<not> z_index z < length (z_pending z) then (z, Inl IndexErr)
      else
        (let candidate = z_pending z ! z_index z
         in case catch_value (build_device env ui candidate) of
              Inl x \<Rightarrow> (z, Inl x)
            | Inr None \<Rightarrow> (z, Inr (device_config_form env candidate (Some ''invalid_devices'')))
            | Inr (Some c) \<Rightarrow>
                (let z1 = z\<lparr>z_devices := z_devices z @ [(c, None)], z_index := z_index z + 1\<rparr>
                 in if z_index z1 < length (z_pending z1) then open_devices env z1
                    else after_discovered env z1)))"

definition devices_custom_step :: "flow_env \<Rightarrow> wizard \<Rightarrow> pydict \<Rightarrow> answer" where
  "devices_custom_step env z ui =
     (case catch_value (build_device env ui []) of
        Inl x \<Rightarrow> (z, Inl x)
      | Inr None \<Rightarrow> (z, Inr (device_config_form env [] (Some ''invalid_devices'')))
      | Inr (Some c) \<Rightarrow>
          (let z1 = z\<lparr>z_devices := z_devices z @ [(c, None)]\<rparr>
           in if truthy (dget_or ui ''add_another'' (PBool False)) then open_devices env z1
              else (z1, Inr (priority_form z1 None))))"

definition step_devices :: "flow_env \<Rightarrow> wizard \<Rightarrow> pydict option \<Rightarrow> answer" where
  "step_devices env z uio =
     (case uio of
        None \<Rightarrow> open_devices env z
      | Some ui \<Rightarrow>
          (case z_phase z of
             Selection \<Rightarrow> devices_selection_step env z ui
           | Discovered \<Rightarrow> devices_discovered_step env z ui
           | Custom \<Rightarrow> devices_custom_step env z ui))"

definition step_thresholds :: "flow_env \<Rightarrow> wizard \<Rightarrow> pydict option \<Rightarrow> answer" where
  "step_thresholds env z uio =
     (if z_reconf_pending z \<noteq> None then reconfigure_thresholds z uio
      else case uio of
        None \<Rightarrow> (z, Inr (threshold_form z None))
      | Some ui \<Rightarrow>
          (case accept_pair (z_thresholds z) ui of
             Inl x \<Rightarrow> (z, Inl x)
           | Inr (None, err) \<Rightarrow> (z, Inr (threshold_form z err))
           | Inr (Some p, _) \<Rightarrow>
               (let z1 = append_pair p z
                in if more_wanted ui then (z1, Inr (threshold_form z1 None))
                   else open_devices env
                          (set_found ''thresholds'' (thresholds_value (z_thresholds z1)) z1))))"

definition load_monitoring_form :: "wizard \<Rightarrow> base_error \<Rightarrow> flow_result" where
  "load_monitoring_form z err =
     ShowForm ''load_monitoring''
       [required_field ''load_sensor''
          (if truthy (found z ''grid_power'') then found z ''grid_power'' else PStr [])
          (EntitySelector [''sensor''] False),
        required_field ''averaging_period'' (PInt DEFAULT_AVERAGING_PERIOD) (NumberSelector 1 300 ''s'')] err"

definition step_load_monitoring :: "flow_env \<Rightarrow> wizard \<Rightarrow> pydict option \<Rightarrow> answer" where
  "step_load_monitoring env z uio =
     (case uio of
        None \<Rightarrow> (z, Inr (load_monitoring_form z None))
      | Some ui \<Rightarrow>
          (let z1 = set_found ''averaging_period''
                      (dget_or ui ''averaging_period'' (PInt DEFAULT_AVERAGING_PERIOD))
                      (set_found ''grid_power'' (dget ui ''load_sensor'') z)
           in if dhas ui ''threshold_count'' then
                (case parse_threshold_input ui None of
                   Inl x \<Rightarrow> (z1, Inl x)
                 | Inr (Some ps, None) \<Rightarrow>
                     open_devices env (set_found ''thresholds'' (thresholds_value ps) z1)
                 | Inr (_, err) \<Rightarrow>
                     (z1, Inr (load_monitoring_form z1
                        (Some (case err of Some m \<Rightarrow> m | None \<Rightarrow> ''invalid_thresholds'')))))
              else step_thresholds env (z1\<lparr>z_thresholds := [], z_seed := []\<rparr>) None))"

definition step_user :: "flow_env \<Rightarrow> wizard \<Rightarrow> pydict option \<Rightarrow> answer" where
  "step_user env z uio =
     (case uio of
        None \<Rightarrow>
          if fe_has_entries env then (z, Inr (Abort ''single_instance''))
          else
            (let z1 = z\<lparr>z_discovered := discover_inputs (fe_names env) (fe_energy env)\<rparr>
             in (z1, Inr (ShowForm ''user''
                  [optional_entity_key ''grid_power'' (found z1 ''grid_power'') (EntitySelector [''sensor''] False),
                   optional_entity_key ''battery_soc'' (found z1 ''battery_soc'') (EntitySelector [''sensor''] False)]
                  None)))
      | Some ui \<Rightarrow>
          step_load_monitoring env
            (set_found ''battery_soc'' (opt_str (sensor_entity_id (dget ui ''battery_soc'')))
              (set_found ''grid_power'' (opt_str (sensor_entity_id (dget ui ''grid_power''))) z)) None)"

definition step_priority :: "flow_env \<Rightarrow> wizard \<Rightarrow> pydict option \<Rightarrow> answer" where
  "step_priority env z uio =
     (case uio of
        None \<Rightarrow> (z, Inr (priority_form z None))
      | Some ui \<Rightarrow>
          (let pause = dget_or ui ''pause_period'' (PInt DEFAULT_PAUSE_PERIOD)
           in if z_devices z = [] then
                (let z1 = z\<lparr>z_pause := pause\<rparr> in (z1, Inr (grid_loss_form z1 None)))
              else
                (case ordered_priority_devices z ui of
                   Inl x \<Rightarrow> (z, Inl x)
                 | Inr None \<Rightarrow> (z, Inr (priority_form z (Some ''invalid_priority_order'')))
                 | Inr (Some ds) \<Rightarrow>
                     (let z1 = z\<lparr>z_devices := number_loads 1 ds, z_pause := pause\<rparr>
                      in (z1, Inr (grid_loss_form z1 None))))))"

definition step_grid_loss :: "flow_env \<Rightarrow> wizard \<Rightarrow> pydict option \<Rightarrow> answer" where
  "step_grid_loss env z uio =
     (case uio of
        None \<Rightarrow> (z, Inr (grid_loss_form z None))
      | Some ui \<Rightarrow>
          (let mode = dget_or ui ''grid_loss_mode'' (PStr GRID_LOSS_MODE_SENSOR)
           in if mode \<noteq> PStr GRID_LOSS_MODE_SENSOR \<and> mode \<noteq> PStr GRID_LOSS_MODE_THRESHOLD
              then (z, Inr (grid_loss_form z (Some ''invalid_grid_loss_mode'')))
              else
                (let z1 = z\<lparr>z_mode := Some (the_str mode)\<rparr>
                 in (z1, Inr (if dhas ui ''grid_loss_sensor'' \<or> dhas ui ''battery_soc''
                              then create_grid_loss_entry z1 ui (the_str mode)
                              else grid_loss_source_form z1 (the_str mode) None)))))"

definition step_grid_loss_source :: "flow_env \<Rightarrow> wizard \<Rightarrow> pydict option \<Rightarrow> answer" where
  "step_grid_loss_source env z uio =
     (z, Inr (case uio of
                None \<Rightarrow> grid_loss_source_form z (mode_text z) None
              | Some ui \<Rightarrow> create_grid_loss_entry z ui (mode_text z)))"

definition step_reconfigure :: "flow_env \<Rightarrow> wizard \<Rightarrow> pydict option \<Rightarrow> answer" where
  "step_reconfigure env z uio =
     (case fe_reconfigure env of
        None \<Rightarrow> (z, Inr (Abort ''entry_not_loaded''))
      | Some e \<Rightarrow>
          (case (options_schema_for_entry e, uio) of
             (Inl x, _) \<Rightarrow> (z, Inl x)
           | (Inr schema, None) \<Rightarrow> (z, Inr (ShowForm ''reconfigure'' schema None))
           | (Inr schema, Some ui) \<Rightarrow>
               (case prepare_options_submission e ui of
                  Inl x \<Rightarrow> (z, Inl x)
                | Inr (None, _, errors) \<Rightarrow> (z, Inr (ShowForm ''reconfigure'' schema errors))
                | Inr (Some prepared, submitted, errors) \<Rightarrow>
                    if errors \<noteq> None then (z, Inr (ShowForm ''reconfigure'' schema errors))
                    else
                      (let z1 = z\<lparr>z_reconf_entry := Some e\<rparr>
                       in case submitted of
                            Some ps \<Rightarrow>
                              (z1, Inr (UpdateEntry (AList.delete ''reconfiguration_required''
                                 (AList.update ''thresholds'' (thresholds_value ps) prepared))
                                 ''reconfigure_successful''))
                          | None \<Rightarrow>
                              (let z2 = z1\<lparr>z_reconf_pending := Some prepared, z_thresholds := []\<rparr>
                               in case threshold_defaults (entry_current e ''thresholds'' PNone) of
                                    Inl x \<Rightarrow> (z2, Inl x)
                                  | Inr seed \<Rightarrow>
                                      (let z3 = z2\<lparr>z_seed := seed\<rparr> in (z3, Inr (threshold_form z3 None))))))))"

text \<open>
  The flow manager calls the step whose form it shows, but nothing stops a caller from naming
  another one: the guarantees below hold for every sequence of steps.
\<close>

datatype step_name =
    User | Load_Monitoring | Thresholds | Devices | Priority | Grid_Loss | Grid_Loss_Source | Reconfigure

definition run_step :: "flow_env \<Rightarrow> step_name \<Rightarrow> wizard \<Rightarrow> pydict option \<Rightarrow> answer" where
  "run_step env n z uio =
     (case n of
        User \<Rightarrow> step_user env z uio
      | Load_Monitoring \<Rightarrow> step_load_monitoring env z uio
      | Thresholds \<Rightarrow> step_thresholds env z uio
      | Devices \<Rightarrow> step_devices env z uio
      | Priority \<Rightarrow> step_priority env z uio
      | Grid_Loss \<Rightarrow> step_grid_loss env z uio
      | Grid_Loss_Source \<Rightarrow> step_grid_loss_source env z uio
      | Reconfigure \<Rightarrow> step_reconfigure env z uio)"

section \<open>The options flow\<close>

record options_flow =
  o_pending :: "pydict option"
  o_thresholds :: "threshold_pair list"
  o_seed :: "threshold_pair list"

type_synonym options_answer = "options_flow \<times> flow_result res"

definition new_options_flow :: options_flow where
  "new_options_flow = \<lparr>o_pending = None, o_thresholds = [], o_seed = []\<rparr>"

definition options_threshold_form :: "options_flow \<Rightarrow> base_error \<Rightarrow> flow_result" where
  "options_threshold_form f err =
     ShowForm ''thresholds''
       (threshold_step_fields (next_threshold_default (o_thresholds f) (o_seed f))
          (length (o_thresholds f) + 1 < length (o_seed f))) err"

definition finish :: "options_flow \<Rightarrow> options_answer" where
  "finish f =
     (case o_pending f of
        None \<Rightarrow> (f, Inr (Abort ''invalid_options_state''))
      | Some pending \<Rightarrow>
          if o_thresholds f = [] then (f, Inr (options_threshold_form f (Some ''invalid_thresholds'')))
          else
            (let data = AList.delete ''reconfiguration_required''
                          (AList.update ''thresholds'' (thresholds_value (o_thresholds f)) pending)
             in (f\<lparr>o_pending := Some data\<rparr>, Inr (CreateEntry [] data))))"

definition options_init :: "flow_entry \<Rightarrow> options_flow \<Rightarrow> pydict option \<Rightarrow> options_answer" where
  "options_init e f uio =
     (case uio of
        None \<Rightarrow> (f, rbind (options_schema_for_entry e) (\<lambda>schema. Inr (ShowForm ''init'' schema None)))
      | Some ui \<Rightarrow>
          (case prepare_options_submission e ui of
             Inl x \<Rightarrow> (f, Inl x)
           | Inr (None, _, errors) \<Rightarrow>
               (f, rbind (options_schema_for_entry e) (\<lambda>schema. Inr (ShowForm ''init'' schema errors)))
           | Inr (Some prepared, submitted, errors) \<Rightarrow>
               if errors \<noteq> None
               then (f, rbind (options_schema_for_entry e) (\<lambda>schema. Inr (ShowForm ''init'' schema errors)))
               else case submitted of
                 Some ps \<Rightarrow>
                   (f, Inr (CreateEntry [] (AList.delete ''reconfiguration_required''
                      (AList.update ''thresholds'' (thresholds_value ps) prepared))))
               | None \<Rightarrow>
                   (let f1 = f\<lparr>o_pending := Some prepared, o_thresholds := []\<rparr>
                    in case threshold_defaults (entry_current e ''thresholds'' PNone) of
                         Inl x \<Rightarrow> (f1, Inl x)
                       | Inr seed \<Rightarrow>
                           (let f2 = f1\<lparr>o_seed := seed\<rparr> in (f2, Inr (options_threshold_form f2 None))))))"

definition options_step_thresholds :: "options_flow \<Rightarrow> pydict option \<Rightarrow> options_answer" where
  "options_step_thresholds f uio =
     (if o_pending f = None then (f, Inr (Abort ''invalid_options_state''))
      else case uio of
        None \<Rightarrow> (f, Inr (options_threshold_form f None))
      | Some ui \<Rightarrow>
          (case accept_pair (o_thresholds f) ui of
             Inl x \<Rightarrow> (f, Inl x)
           | Inr (None, err) \<Rightarrow> (f, Inr (options_threshold_form f err))
           | Inr (Some p, _) \<Rightarrow>
               (let f1 = f\<lparr>o_thresholds := o_thresholds f @ [p]\<rparr>
                in if more_wanted ui then (f1, Inr (options_threshold_form f1 None)) else finish f1)))"

section \<open>Invariants of the wizard\<close>

definition logical_wf :: "logical_config \<Rightarrow> bool" where
  "logical_wf c \<longleftrightarrow>
     py_strip (c_device_id c) = c_device_id c \<and> c_name c \<noteq> []
     \<and> valid_entity CONTROL_DOMAINS (c_entity c)
     \<and> 1 \<le> c_expected_power c \<and> c_expected_power c \<le> 50000
     \<and> (\<forall>s. c_power_sensor c = Some s \<longrightarrow> valid_entity sensor_domain s)
     \<and> list_all (valid_entity CONTROL_DOMAINS) (c_actuators c)
     \<and> distinct (c_entity c # c_actuators c)
     \<and> roles_wf (c_entity c) (c_actuators c) (c_command_entity c) (c_readback_entities c)
         (c_emergency_off_entities c)"

definition wizard_ok :: "wizard \<Rightarrow> bool" where
  "wizard_ok z \<longleftrightarrow>
     pairs_ok (z_thresholds z)
     \<and> (found z ''thresholds'' = PNone
        \<or> (\<exists>ps. found z ''thresholds'' = thresholds_value ps \<and> pairs_ok ps \<and> ps \<noteq> []))
     \<and> list_all logical_wf (map fst (z_devices z))
     \<and> (\<forall>m. z_mode z = Some m \<longrightarrow> m = GRID_LOSS_MODE_SENSOR \<or> m = GRID_LOSS_MODE_THRESHOLD)
     \<and> (\<forall>p. z_reconf_pending z = Some p \<longrightarrow> payload_ok p \<and> distinct (map fst p))"

text \<open>What the data of a created entry and of an updated one always satisfy.\<close>

definition entry_ok :: "pydict \<Rightarrow> bool" where
  "entry_ok d \<longleftrightarrow>
     (\<exists>ps. dget d ''thresholds'' = thresholds_value ps \<and> pairs_ok ps \<and> ps \<noteq> [])
     \<and> safety_source_ok d
     \<and> (\<exists>ls. dget d ''devices'' = PList (map (\<lambda>l. PDict (wizard_dict l)) ls)
          \<and> list_all logical_wf (map fst ls))"

definition update_ok :: "pydict \<Rightarrow> bool" where
  "update_ok d \<longleftrightarrow> payload_ok d \<and> distinct (map fst d)
     \<and> (\<exists>ps. dget d ''thresholds'' = thresholds_value ps \<and> pairs_ok ps \<and> ps \<noteq> [])"

fun result_ok :: "flow_result res \<Rightarrow> bool" where
  "result_ok (Inr (CreateEntry t d)) = entry_ok d"
| "result_ok (Inr (UpdateEntry d r)) = update_ok d"
| "result_ok _ = True"

definition answer_ok :: "answer \<Rightarrow> bool" where
  "answer_ok a \<longleftrightarrow> wizard_ok (fst a) \<and> result_ok (snd a)"

lemma forms_ok [simp]:
  "result_ok (Inr (threshold_form z e))" "result_ok (Inr (device_selection_form z e))"
  "result_ok (Inr (device_config_form env c e))" "result_ok (Inr (priority_form z e))"
  "result_ok (Inr (grid_loss_form z e))" "result_ok (Inr (grid_loss_source_form z m e))"
  "result_ok (Inr (load_monitoring_form z e))"
  by (simp_all add: threshold_form_def device_selection_form_def device_config_form_def priority_form_def
      grid_loss_form_def grid_loss_source_form_def load_monitoring_form_def Let_def)

lemma answer_ok_pair [simp]: "answer_ok (z, r) \<longleftrightarrow> wizard_ok z \<and> result_ok r"
  by (simp add: answer_ok_def)

lemma wizard_ok_frame:
  "wizard_ok z \<Longrightarrow> z_thresholds z' = z_thresholds z \<Longrightarrow> found z' ''thresholds'' = found z ''thresholds'' \<Longrightarrow>
   z_devices z' = z_devices z \<Longrightarrow> z_mode z' = z_mode z \<Longrightarrow> z_reconf_pending z' = z_reconf_pending z \<Longrightarrow> wizard_ok z'"
  by (simp add: wizard_ok_def)

lemma found_frames [simp]:
  "found (set_found k v z) k' = (if k' = k then v else found z k')"
  "found (z\<lparr>z_devices := a\<rparr>) k = found z k" "found (z\<lparr>z_phase := b\<rparr>) k = found z k"
  "found (z\<lparr>z_pending := c\<rparr>) k = found z k" "found (z\<lparr>z_index := d\<rparr>) k = found z k"
  "found (z\<lparr>z_add_custom := e\<rparr>) k = found z k" "found (z\<lparr>z_pause := f\<rparr>) k = found z k"
  "found (z\<lparr>z_thresholds := g\<rparr>) k = found z k" "found (z\<lparr>z_seed := g\<rparr>) k = found z k"
  "found (z\<lparr>z_mode := h\<rparr>) k = found z k" "found (z\<lparr>z_reconf_entry := i\<rparr>) k = found z k"
  "found (z\<lparr>z_reconf_pending := j\<rparr>) k = found z k" "found (append_pair q z) k = found z k"
  by (simp_all add: found_def set_found_def append_pair_def)

lemma set_found_fields [simp]:
  "z_thresholds (set_found k v z) = z_thresholds z" "z_devices (set_found k v z) = z_devices z"
  "z_mode (set_found k v z) = z_mode z" "z_reconf_pending (set_found k v z) = z_reconf_pending z"
  "z_phase (set_found k v z) = z_phase z" "z_index (set_found k v z) = z_index z"
  "z_pending (set_found k v z) = z_pending z" "z_reconf_entry (set_found k v z) = z_reconf_entry z"
  by (simp_all add: set_found_def)

lemma wizard_ok_updates [simp]:
  "k \<noteq> ''thresholds'' \<Longrightarrow> wizard_ok (set_found k v z) = wizard_ok z"
  "wizard_ok (z\<lparr>z_phase := b\<rparr>) = wizard_ok z" "wizard_ok (z\<lparr>z_pending := c\<rparr>) = wizard_ok z"
  "wizard_ok (z\<lparr>z_index := d\<rparr>) = wizard_ok z" "wizard_ok (z\<lparr>z_add_custom := e\<rparr>) = wizard_ok z"
  "wizard_ok (z\<lparr>z_pause := f\<rparr>) = wizard_ok z" "wizard_ok (z\<lparr>z_seed := g\<rparr>) = wizard_ok z"
  "wizard_ok (z\<lparr>z_reconf_entry := i\<rparr>) = wizard_ok z"
  by (simp_all add: wizard_ok_def)

lemma new_wizard_ok [simp]: "wizard_ok new_wizard"
  by (simp add: wizard_ok_def new_wizard_def found_def pairs_ok_def)

subsection \<open>Thresholds and devices\<close>

lemma accept_pair_ok:
  assumes "accept_pair ts ui = Inr (Some p, err)" and "pairs_ok ts"
  shows "pairs_ok (ts @ [p])"
proof -
  from assms(1) obtain pair error where step: "parse_threshold_step ui (previous_limit ts) = Inr (pair, error)"
    by (auto simp: accept_pair_def rbind_Inr_iff)
  with assms(1) have "parse_threshold_step ui (previous_limit ts) = Inr (Some p, error)"
    "length ts < MAX_CUSTOM_THRESHOLDS"
    by (cases pair; simp add: accept_pair_def split: if_split_asm)+
  from this(1) assms(2) this(2) show ?thesis by (rule parse_step_ok)
qed

lemma append_pair_ok:
  "accept_pair (z_thresholds z) ui = Inr (Some p, err) \<Longrightarrow> wizard_ok z \<Longrightarrow> wizard_ok (append_pair p z)"
  using accept_pair_ok [of "z_thresholds z" ui p err] by (simp add: wizard_ok_def append_pair_def found_def)

lemma payload_update [simp]:
  "payload_ok (AList.update ''thresholds'' v p) = payload_ok p"
  "payload_ok (AList.delete ''reconfiguration_required'' p) = payload_ok p"
  by (simp_all add: payload_ok_def safety_source_ok_def)

lemma thresholds_stored:
  assumes "payload_ok p" "distinct (map fst p)" "pairs_ok ps" "ps \<noteq> []"
  shows "update_ok (AList.delete ''reconfiguration_required'' (AList.update ''thresholds'' (thresholds_value ps) p))"
  unfolding update_ok_def using assms
  by (intro conjI distinct_delete distinct_update exI [of _ ps]) simp_all

lemma reconfigure_thresholds_ok: "wizard_ok z \<Longrightarrow> answer_ok (reconfigure_thresholds z uio)"
proof (cases "\<exists>e p ui q err. z_reconf_entry z = Some e \<and> z_reconf_pending z = Some p \<and> uio = Some ui
    \<and> accept_pair (z_thresholds z) ui = Inr (Some q, err)")
  case False
  moreover assume "wizard_ok z"
  ultimately show ?thesis
    by (auto simp: reconfigure_thresholds_def split: option.splits sum.splits prod.splits)
next
  case True
  assume ok: "wizard_ok z"
  from True obtain e p ui q err where c: "z_reconf_entry z = Some e" "z_reconf_pending z = Some p"
    "uio = Some ui" "accept_pair (z_thresholds z) ui = Inr (Some q, err)" by blast
  let ?data = "AList.delete ''reconfiguration_required''
      (AList.update ''thresholds'' (thresholds_value (z_thresholds z @ [q])) p)"
  have z1: "wizard_ok (append_pair q z)" using c(4) ok by (rule append_pair_ok)
  have "update_ok ?data"
    using ok c accept_pair_ok [OF c(4)] by (intro thresholds_stored) (auto simp: wizard_ok_def)
  with z1 c show ?thesis
    by (simp add: reconfigure_thresholds_def Let_def wizard_ok_def append_pair_def update_ok_def found_def)
qed

lemma wizard_device_ok:
  "wizard_device raw i n s = Inr c \<Longrightarrow> logical_wf c"
proof -
  assume a: "wizard_device raw i n s = Inr c"
  then obtain entity acts power as command readbacks emergency where d:
    "entity_id (dget raw ''entity'') CONTROL_DOMAINS = Some entity"
    "\<exists>v. acts = [] \<or> entities v False [entity] = Inr acts"
    "expected_power_of (dget_or raw ''expected_power'' (PInt 2000)) True = Inr power"
    "roles raw entity acts True = Inr (as, command, readbacks, emergency)"
    and c: "c = \<lparr>c_device_id = py_strip i, c_name = (if n \<noteq> [] then n else entity),
               c_entity = entity, c_expected_power = power,
               c_power_sensor = entity_id s sensor_domain, c_actuators = as,
               c_command_entity = command, c_readback_entities = readbacks,
               c_emergency_off_entities = emergency\<rparr>"
    by (auto simp: wizard_device_def rbind_Inr_iff split: option.splits pyval.splits) blast+
  have e: "valid_entity CONTROL_DOMAINS entity" using d(1) by (rule entity_id_valid)
  have acts: "distinct (entity # acts) \<and> list_all (valid_entity CONTROL_DOMAINS) acts"
    using d(2) entities_ok by fastforce
  then have r: "as = acts \<and> roles_wf entity acts command readbacks emergency"
    using roles_ok [OF d(4) e] by simp
  show ?thesis
    using e acts r expected_power_range [OF d(3)] valid_entity_text [OF e] nonblank_not_Nil
    by (auto simp: c logical_wf_def dest: entity_id_valid)
qed

lemma build_device_ok: "build_device env ui candidate = Inr c \<Longrightarrow> logical_wf c"
  by (auto simp: build_device_def Let_def simp del: not_None_eq split: option.splits dest: wizard_device_ok)

lemma open_devices_ok: "wizard_ok z \<Longrightarrow> answer_ok (open_devices env z)"
  by (simp add: open_devices_def split: devices_phase.split)

lemma after_discovered_ok: "wizard_ok z \<Longrightarrow> answer_ok (after_discovered env z)"
  by (simp add: after_discovered_def open_devices_ok)

lemma add_device_ok: "wizard_ok z \<Longrightarrow> logical_wf c \<Longrightarrow> wizard_ok (z\<lparr>z_devices := z_devices z @ [(c, p)]\<rparr>)"
  by (simp add: wizard_ok_def)

lemma selection_ok: "wizard_ok z \<Longrightarrow> answer_ok (devices_selection_step env z ui)"
proof -
  assume ok: "wizard_ok z"
  define r where "r = rbind (selected_items (dget_or ui ''discovered_devices'' (PList [])))
             (select_candidates (found_devices z))"
  consider (raised) x where "r = Inl x" | (refused) "r = Inr None" | (picked) ds where "r = Inr (Some ds)"
    by (cases r; simp) (metis option.exhaust sum.exhaust)
  then show ?thesis
    using ok unfolding devices_selection_step_def r_def [symmetric]
    by cases (simp_all add: open_devices_ok after_discovered_ok Let_def del: answer_ok_pair,
              simp_all add: answer_ok_pair)
qed

lemma built_cases:
  obtains (raised) x where "catch_value (build_device env ui candidate) = Inl x"
    | (refused) "catch_value (build_device env ui candidate) = Inr None"
    | (built) c where "catch_value (build_device env ui candidate) = Inr (Some c)" "logical_wf c"
proof (cases "catch_value (build_device env ui candidate)")
  case (Inl x)
  then show thesis by (rule raised)
next
  case (Inr r)
  then show thesis
    by (cases r) (auto intro: refused built dest: build_device_ok)
qed

lemma discovered_step_ok: "wizard_ok z \<Longrightarrow> answer_ok (devices_discovered_step env z ui)"
  by (rule built_cases [of env ui "z_pending z ! z_index z"])
    (simp_all add: devices_discovered_step_def open_devices_ok after_discovered_ok add_device_ok Let_def)

lemma custom_step_ok: "wizard_ok z \<Longrightarrow> answer_ok (devices_custom_step env z ui)"
  by (rule built_cases [of env ui "[]"])
    (simp_all add: devices_custom_step_def open_devices_ok add_device_ok Let_def)

lemma step_devices_ok: "wizard_ok z \<Longrightarrow> answer_ok (step_devices env z uio)"
  by (simp add: step_devices_def open_devices_ok selection_ok discovered_step_ok custom_step_ok
      split: option.split devices_phase.split)

lemma thresholds_found_ok:
  "wizard_ok z \<Longrightarrow> pairs_ok ps \<Longrightarrow> ps \<noteq> [] \<Longrightarrow> wizard_ok (set_found ''thresholds'' (thresholds_value ps) z)"
  by (auto simp: wizard_ok_def)

lemma step_thresholds_ok: "wizard_ok z \<Longrightarrow> answer_ok (step_thresholds env z uio)"
proof (cases "\<exists>ui q err. z_reconf_pending z = None \<and> uio = Some ui
    \<and> accept_pair (z_thresholds z) ui = Inr (Some q, err)")
  case False
  moreover assume "wizard_ok z"
  ultimately show ?thesis
    by (auto simp: step_thresholds_def reconfigure_thresholds_ok split: option.splits sum.splits prod.splits)
next
  case True
  assume ok: "wizard_ok z"
  from True obtain ui q err where c: "z_reconf_pending z = None" "uio = Some ui"
    "accept_pair (z_thresholds z) ui = Inr (Some q, err)" by blast
  have "wizard_ok (append_pair q z)" using c(3) ok by (rule append_pair_ok)
  moreover from this have "wizard_ok (set_found ''thresholds''
      (thresholds_value (z_thresholds (append_pair q z))) (append_pair q z))"
    by (intro thresholds_found_ok) (simp_all add: wizard_ok_def append_pair_def)
  ultimately show ?thesis using c by (simp add: step_thresholds_def Let_def open_devices_ok)
qed

lemma wizard_ok_cleared [simp]: "wizard_ok z \<Longrightarrow> wizard_ok (z\<lparr>z_thresholds := []\<rparr>)"
  by (simp add: wizard_ok_def pairs_ok_def)

lemma wizard_ok_reset: "wizard_ok z \<Longrightarrow> wizard_ok (z\<lparr>z_thresholds := [], z_seed := []\<rparr>)"
  by simp

lemma step_load_monitoring_ok: "wizard_ok z \<Longrightarrow> answer_ok (step_load_monitoring env z uio)"
proof (cases uio)
  case None
  moreover assume "wizard_ok z"
  ultimately show ?thesis by (simp add: step_load_monitoring_def)
next
  case (Some ui)
  assume ok: "wizard_ok z"
  define z1 where "z1 = set_found ''averaging_period''
      (dget_or ui ''averaging_period'' (PInt DEFAULT_AVERAGING_PERIOD)) (set_found ''grid_power'' (dget ui ''load_sensor'') z)"
  have z1: "wizard_ok z1" using ok by (simp add: z1_def)
  show ?thesis
  proof (cases "\<exists>ps. parse_threshold_input ui None = Inr (Some ps, None)")
    case True
    then obtain ps where ps: "parse_threshold_input ui None = Inr (Some ps, None)" by blast
    with z1 parse_input_ok [OF ps] show ?thesis
      by (simp add: step_load_monitoring_def Some Let_def flip: z1_def)
        (simp add: open_devices_ok thresholds_found_ok step_thresholds_ok wizard_ok_reset)
  next
    case False
    then show ?thesis
      using z1 step_thresholds_ok [OF wizard_ok_reset [OF z1], of env None]
      by (auto simp: step_load_monitoring_def Some Let_def simp flip: z1_def
          simp del: answer_ok_pair split: sum.splits option.splits)
        (simp_all add: answer_ok_pair)
  qed
qed

lemma step_user_ok: "wizard_ok z \<Longrightarrow> answer_ok (step_user env z uio)"
proof (cases uio)
  case None
  assume ok: "wizard_ok z"
  have "dget (discover_inputs (fe_names env) (fe_energy env)) ''thresholds'' = PNone"
    by (simp add: discover_inputs_def Let_def split: option.split pyval.split prod.split)
  with ok None show ?thesis
    by (simp add: step_user_def Let_def wizard_ok_def found_def)
next
  case (Some ui)
  moreover assume "wizard_ok z"
  ultimately show ?thesis by (simp add: step_user_def step_load_monitoring_ok del: answer_ok_pair)
qed

lemma by_key_in:
  assumes "k \<in> set (map (key \<circ> fst) ds)"
  shows "by_key key ds k \<in> set ds" and "key (fst (by_key key ds k)) = k"
proof -
  let ?al = "map (\<lambda>d. (key (fst d), d)) (rev ds)"
  from assms obtain d0 where "d0 \<in> set ds" "k = key (fst d0)" by auto
  then have "(k, d0) \<in> set ?al" by simp
  then obtain d where d: "map_of ?al k = Some d" by (meson weak_map_of_SomeI)
  then have "(k, d) \<in> set ?al" by (rule map_of_SomeD)
  then show "by_key key ds k \<in> set ds" "key (fst (by_key key ds k)) = k" by (auto simp: by_key_def d)
qed

lemma number_loads_fst [simp]: "map fst (number_loads i ds) = map fst ds"
  by (induction i ds rule: number_loads.induct) simp_all

lemma number_loads_snd [simp]: "map snd (number_loads i ds) = map Some [i ..< i + length ds]"
  by (induction i ds rule: number_loads.induct) (simp_all add: upt_conv_Cons del: upt_Suc)

lemma ordered_Some:
  assumes "ordered_priority_devices z ui = Inr (Some ds)"
  obtains key where "key = c_device_id \<or> key = c_entity"
    and "distinct (map (key \<circ> fst) ds)" and "set (map (key \<circ> fst) ds) = set (map (key \<circ> fst) (z_devices z))"
    and "set ds \<subseteq> set (z_devices z)"
proof -
  from assms obtain sel key ks where c: "priority_candidates z ui = (Some sel, key)"
    "permutation_of sel (remdups (map (key \<circ> fst) (z_devices z))) = Inr (Some ks)"
    "ds = map (by_key key (z_devices z)) ks"
    by (auto simp: ordered_priority_devices_def obind_Some_iff split: prod.splits option.splits)
  from permutation_of_Some [OF c(2)] have ks: "distinct ks" "set ks = set (map (key \<circ> fst) (z_devices z))"
    by simp_all
  then have "map (key \<circ> fst) ds = ks"
    unfolding c(3) map_map by (intro map_idI) (simp add: by_key_in(2) del: set_map)
  moreover have "set ds \<subseteq> set (z_devices z)"
  proof
    fix d assume "d \<in> set ds"
    then obtain k where "k \<in> set (map (key \<circ> fst) (z_devices z))" "d = by_key key (z_devices z) k"
      unfolding c(3) set_map [of "by_key key (z_devices z)"] ks(2) by (rule imageE)
    then show "d \<in> set (z_devices z)" using by_key_in(1) by metis
  qed
  moreover have "key = c_device_id \<or> key = c_entity"
    using c(1) by (auto simp: priority_candidates_def split: pyval.splits)
  ultimately show thesis using ks by (intro that [of key]) (simp_all only:)
qed

lemma step_priority_ok: "wizard_ok z \<Longrightarrow> answer_ok (step_priority env z uio)"
proof (cases "\<exists>ui ds. uio = Some ui \<and> z_devices z \<noteq> [] \<and> ordered_priority_devices z ui = Inr (Some ds)")
  case False
  moreover assume "wizard_ok z"
  ultimately show ?thesis
    by (auto simp: step_priority_def Let_def split: option.splits sum.splits)
next
  case True
  assume ok: "wizard_ok z"
  from True obtain ui ds where c: "uio = Some ui" "z_devices z \<noteq> []"
    "ordered_priority_devices z ui = Inr (Some ds)" by blast
  from ordered_Some [OF c(3)] have "set ds \<subseteq> set (z_devices z)" by metis
  with ok have "list_all logical_wf (map fst ds)" by (auto simp: wizard_ok_def list_all_iff)
  with ok c show ?thesis by (simp add: step_priority_def Let_def wizard_ok_def)
qed

lemma create_entry_ok:
  assumes "wizard_ok z" and "mode = GRID_LOSS_MODE_SENSOR \<or> mode = GRID_LOSS_MODE_THRESHOLD"
  shows "result_ok (Inr (create_grid_loss_entry z ui mode))"
proof -
  define g where "g = entity_id (dget ui ''grid_loss_sensor'') [''binary_sensor'']"
  define b where "b = sensor_entity_id
      (if truthy (dget ui ''battery_soc'') then dget ui ''battery_soc'' else found z ''battery_soc'')"
  have valid: "\<And>e. g = Some e \<Longrightarrow> valid_entity [''binary_sensor''] e" "\<And>e. b = Some e \<Longrightarrow> valid_entity [''sensor''] e"
    by (auto simp: g_def b_def sensor_entity_id_def simp del: if_split dest: entity_id_valid)
  have ne: "GRID_LOSS_MODE_SENSOR \<noteq> GRID_LOSS_MODE_THRESHOLD"
    by (simp add: GRID_LOSS_MODE_SENSOR_def GRID_LOSS_MODE_THRESHOLD_def)
  show ?thesis
    unfolding create_grid_loss_entry_def Let_def g_def [symmetric] b_def [symmetric]
    using assms valid ne
    by (auto simp: entry_ok_def safety_source_ok_def wizard_ok_def entity_in_opt)
qed

lemma mode_text_cases: "wizard_ok z \<Longrightarrow> mode_text z = GRID_LOSS_MODE_SENSOR \<or> mode_text z = GRID_LOSS_MODE_THRESHOLD"
  by (auto simp: wizard_ok_def mode_text_def split: option.splits)

lemma step_grid_loss_ok: "wizard_ok z \<Longrightarrow> answer_ok (step_grid_loss env z uio)"
proof -
  assume ok: "wizard_ok z"
  have "wizard_ok (z\<lparr>z_mode := Some m\<rparr>)" if "m = GRID_LOSS_MODE_SENSOR \<or> m = GRID_LOSS_MODE_THRESHOLD" for m
    using ok that by (auto simp: wizard_ok_def)
  with ok create_entry_ok show ?thesis
    by (auto simp: step_grid_loss_def Let_def split: option.splits)
qed

lemma step_grid_loss_source_ok: "wizard_ok z \<Longrightarrow> answer_ok (step_grid_loss_source env z uio)"
  by (simp add: step_grid_loss_source_def create_entry_ok mode_text_cases split: option.split)

lemma step_reconfigure_ok: "wizard_ok z \<Longrightarrow> answer_ok (step_reconfigure env z uio)"
proof (cases "\<exists>e schema ui p thr. fe_reconfigure env = Some e \<and> options_schema_for_entry e = Inr schema
    \<and> uio = Some ui \<and> prepare_options_submission e ui = Inr (Some p, thr, None)")
  case False
  moreover assume "wizard_ok z"
  ultimately show ?thesis
    by (auto simp: step_reconfigure_def split: option.splits sum.splits prod.splits)
next
  case True
  assume ok: "wizard_ok z"
  from True obtain e schema ui p thr where c: "fe_reconfigure env = Some e"
    "options_schema_for_entry e = Inr schema" "uio = Some ui"
    "prepare_options_submission e ui = Inr (Some p, thr, None)" by blast
  from submission_ok [OF c(4)] submission_keys [OF c(4)] have p: "payload_ok p" "distinct (map fst p)"
    "\<And>ps. thr = Some ps \<Longrightarrow> pairs_ok ps \<and> ps \<noteq> []" by blast+
  have "wizard_ok (z\<lparr>z_reconf_entry := Some e, z_reconf_pending := Some p, z_thresholds := []\<rparr>)"
    using ok p(1,2) by (simp add: wizard_ok_def pairs_ok_def found_def)
  then show ?thesis
    using ok p c thresholds_stored [OF p(1,2)]
    by (auto simp: step_reconfigure_def Let_def split: option.split sum.split)
qed

lemma run_step_ok: "wizard_ok z \<Longrightarrow> answer_ok (run_step env n z uio)"
  by (cases n) (simp_all add: run_step_def step_user_ok step_load_monitoring_ok step_thresholds_ok
      step_devices_ok step_priority_ok step_grid_loss_ok step_grid_loss_source_ok step_reconfigure_ok
      del: answer_ok_pair)

section \<open>Managed runs\<close>

text \<open>
  A run under the flow manager: it starts at \<open>user\<close> or \<open>reconfigure\<close> without a submission,
  every call (with or without a submission) goes to the step whose form was shown last, the
  environment may differ at every call, and a call that raises leaves the form in place.
\<close>

definition form_steps :: "(string \<times> step_name) list" where
  "form_steps = [(''user'', User), (''load_monitoring'', Load_Monitoring), (''thresholds'', Thresholds),
     (''devices'', Devices), (''priority'', Priority), (''grid_loss'', Grid_Loss),
     (''grid_loss_source'', Grid_Loss_Source), (''reconfigure'', Reconfigure)]"

definition form_step :: "string \<Rightarrow> step_name option" where
  "form_step s = map_of form_steps s"

inductive managed :: "wizard \<Rightarrow> step_name \<Rightarrow> bool" where
  started: "n = User \<or> n = Reconfigure \<Longrightarrow> run_step env n new_wizard None = (z, Inr (ShowForm s fs e)) \<Longrightarrow>
     form_step s = Some c \<Longrightarrow> managed z c"
| answered: "managed z c \<Longrightarrow> run_step env c z uio = (z', Inr (ShowForm s fs e)) \<Longrightarrow>
     form_step s = Some c' \<Longrightarrow> managed z' c'"
| raised: "managed z c \<Longrightarrow> run_step env c z uio = (z', Inl x) \<Longrightarrow> managed z' c"

definition numbered :: "wizard_load list \<Rightarrow> bool" where
  "numbered ds \<longleftrightarrow> map snd ds = map Some [1 ..< length ds + 1]
     \<and> (distinct (map (c_device_id \<circ> fst) ds) \<or> distinct (map (c_entity \<circ> fst) ds))"

fun place_ok :: "wizard \<Rightarrow> step_name \<Rightarrow> bool" where
  "place_ok z Devices = (z_phase z = Discovered \<longrightarrow> z_index z < length (z_pending z))"
| "place_ok z Priority = True"
| "place_ok z Grid_Loss = numbered (z_devices z)"
| "place_ok z Grid_Loss_Source = numbered (z_devices z)"
| "place_ok z n = (z_phase z = Selection)"

fun leads :: "step_name \<Rightarrow> wizard \<times> flow_result res \<Rightarrow> bool" where
  "leads c (z, Inl x) = place_ok z c"
| "leads c (z, Inr (ShowForm s fs e)) = (case form_step s of None \<Rightarrow> False | Some c' \<Rightarrow> place_ok z c')"
| "leads c (z, Inr r) = True"

lemma leads_forms [simp]:
  "leads c (z, Inr (threshold_form w e)) \<longleftrightarrow> z_phase z = Selection"
  "leads c (z, Inr (device_selection_form w e)) \<longleftrightarrow> place_ok z Devices"
  "leads c (z, Inr (device_config_form env d e)) \<longleftrightarrow> place_ok z Devices"
  "leads c (z, Inr (priority_form w e))"
  "leads c (z, Inr (grid_loss_form w e)) \<longleftrightarrow> numbered (z_devices z)"
  "leads c (z, Inr (grid_loss_source_form w m e)) \<longleftrightarrow> numbered (z_devices z)"
  "leads c (z, Inr (load_monitoring_form w e)) \<longleftrightarrow> z_phase z = Selection"
  by (simp_all add: threshold_form_def device_selection_form_def device_config_form_def priority_form_def
      grid_loss_form_def grid_loss_source_form_def load_monitoring_form_def form_step_def form_steps_def Let_def)

lemma numbered_Nil [simp]: "numbered []"
  by (simp add: numbered_def)

lemma open_devices_leads: "place_ok z Devices \<Longrightarrow> leads c (open_devices env z)"
  by (cases "z_phase z") (simp_all add: open_devices_def)

lemma after_discovered_leads: "leads c (after_discovered env z)"
  by (simp add: after_discovered_def open_devices_leads)

lemma append_pair_phase [simp]: "z_phase (append_pair p z) = z_phase z"
  by (simp add: append_pair_def)

lemma reconfigure_thresholds_leads:
  "z_phase z = Selection \<Longrightarrow> leads Thresholds (reconfigure_thresholds z uio)"
  by (simp add: reconfigure_thresholds_def Let_def split: option.split sum.split prod.split)

lemma step_thresholds_leads: "z_phase z = Selection \<Longrightarrow> leads Thresholds (step_thresholds env z uio)"
  by (simp add: step_thresholds_def reconfigure_thresholds_leads Let_def open_devices_leads
      split: option.split sum.split prod.split)

lemma open_thresholds_leads: "z_phase z = Selection \<Longrightarrow> leads c (step_thresholds env z None)"
  by (simp add: step_thresholds_def reconfigure_thresholds_def split: option.split)

lemma step_load_monitoring_leads:
  "z_phase z = Selection \<Longrightarrow> leads Load_Monitoring (step_load_monitoring env z uio)"
  by (simp add: step_load_monitoring_def Let_def open_devices_leads open_thresholds_leads
      split: option.split sum.split prod.split)

lemma step_user_leads: "z_phase z = Selection \<Longrightarrow> leads User (step_user env z uio)"
  by (simp add: step_user_def step_load_monitoring_def Let_def form_step_def form_steps_def split: option.split)

lemma selection_leads: "z_phase z = Selection \<Longrightarrow> leads Devices (devices_selection_step env z ui)"
  by (simp add: devices_selection_step_def Let_def open_devices_leads after_discovered_leads
      split: option.split sum.split)

lemma discovered_leads:
  "place_ok z Devices \<Longrightarrow> leads Devices (devices_discovered_step env z ui)"
  by (auto simp: devices_discovered_step_def Let_def open_devices_leads after_discovered_leads
      split: option.split sum.split)

lemma custom_leads: "z_phase z = Custom \<Longrightarrow> leads Devices (devices_custom_step env z ui)"
  by (simp add: devices_custom_step_def Let_def open_devices_leads split: option.split sum.split)

lemma step_devices_leads: "place_ok z Devices \<Longrightarrow> leads Devices (step_devices env z uio)"
  by (simp add: step_devices_def open_devices_leads selection_leads discovered_leads custom_leads
      split: option.split devices_phase.split)

lemma number_loads_numbered:
  assumes "ordered_priority_devices z ui = Inr (Some ds)"
  shows "numbered (number_loads 1 ds)"
proof -
  obtain key where key: "key = c_device_id \<or> key = c_entity" and d: "distinct (map (key \<circ> fst) ds)"
    using ordered_Some [OF assms] by metis
  have eq: "map (key \<circ> fst) (number_loads 1 ds) = map (key \<circ> fst) ds"
    using number_loads_fst [of 1 ds] by (metis map_map)
  have "length (number_loads 1 ds) = length ds" using number_loads_fst by (metis length_map)
  with key d eq show ?thesis unfolding numbered_def number_loads_snd by (auto simp: add.commute)
qed

lemma step_priority_leads: "leads Priority (step_priority env z uio)"
  by (simp add: step_priority_def Let_def number_loads_numbered [unfolded One_nat_def]
      split: option.split sum.split)

lemma create_entry_leads: "numbered (z_devices z) \<Longrightarrow> leads c (z, Inr (create_grid_loss_entry z ui mode))"
  by (simp add: create_grid_loss_entry_def Let_def)

lemma step_grid_loss_leads: "numbered (z_devices z) \<Longrightarrow> leads Grid_Loss (step_grid_loss env z uio)"
  by (simp add: step_grid_loss_def Let_def create_entry_leads split: option.split)

lemma step_grid_loss_source_leads:
  "numbered (z_devices z) \<Longrightarrow> leads Grid_Loss_Source (step_grid_loss_source env z uio)"
  by (simp add: step_grid_loss_source_def create_entry_leads split: option.split)

lemma step_reconfigure_leads: "z_phase z = Selection \<Longrightarrow> leads Reconfigure (step_reconfigure env z uio)"
  by (auto simp: step_reconfigure_def Let_def form_step_def form_steps_def split: option.split sum.split prod.split)

lemma run_step_leads: "place_ok z c \<Longrightarrow> leads c (run_step env c z uio)"
  by (cases c) (simp_all add: run_step_def step_user_leads step_load_monitoring_leads step_thresholds_leads
      step_devices_leads step_priority_leads step_grid_loss_leads step_grid_loss_source_leads
      step_reconfigure_leads del: place_ok.simps(1))

lemma managed_ok: "managed z c \<Longrightarrow> wizard_ok z \<and> place_ok z c"
proof (induction rule: managed.induct)
  case (started n env z s fs e c)
  have "place_ok new_wizard n" using started(1) by (auto simp: new_wizard_def)
  from run_step_leads [OF this, of env None] run_step_ok [of new_wizard env n None] started(2,3)
  show ?case by simp
next
  case (answered z c env uio z' s fs e c')
  with run_step_leads [of z c env uio] run_step_ok [of z env c uio] show ?case by simp
next
  case (raised z c env uio z' x)
  with run_step_leads [of z c env uio] run_step_ok [of z env c uio] show ?case by simp
qed

section \<open>The options flow\<close>

definition options_ok :: "options_flow \<Rightarrow> bool" where
  "options_ok f \<longleftrightarrow> pairs_ok (o_thresholds f)
     \<and> (\<forall>p. o_pending f = Some p \<longrightarrow> payload_ok p \<and> distinct (map fst p))"

fun options_result_ok :: "flow_result res \<Rightarrow> bool" where
  "options_result_ok (Inr (CreateEntry t d)) = update_ok d"
| "options_result_ok (Inr (UpdateEntry d r)) = False"
| "options_result_ok _ = True"

definition run_options :: "flow_entry \<Rightarrow> bool \<Rightarrow> options_flow \<Rightarrow> pydict option \<Rightarrow> options_answer" where
  "run_options e thresholds_step f uio =
     (if thresholds_step then options_step_thresholds f uio else options_init e f uio)"

text \<open>Any sequence of the two steps.\<close>

inductive options_run :: "flow_entry \<Rightarrow> options_flow \<Rightarrow> bool" for e where
  opened: "options_run e new_options_flow"
| stepped: "options_run e f \<Longrightarrow> options_run e (fst (run_options e b f uio))"

lemma options_form_ok [simp]: "options_result_ok (Inr (options_threshold_form f err))"
  by (simp add: options_threshold_form_def)

lemma options_schema_result [simp]:
  "options_result_ok (rbind (options_schema_for_entry e) (\<lambda>schema. Inr (ShowForm s schema err)))"
  by (cases "options_schema_for_entry e") simp_all

lemma options_init_ok:
  assumes "options_ok f"
  shows "options_ok (fst (options_init e f uio)) \<and> options_result_ok (snd (options_init e f uio))"
proof (cases "\<exists>ui p thr. uio = Some ui \<and> prepare_options_submission e ui = Inr (Some p, thr, None)")
  case False
  with assms show ?thesis by (auto simp: options_init_def split: option.splits sum.splits prod.splits)
next
  case True
  then obtain ui p thr where c: "uio = Some ui" "prepare_options_submission e ui = Inr (Some p, thr, None)"
    by blast
  from submission_ok [OF c(2)] submission_keys [OF c(2)] have p: "payload_ok p" "distinct (map fst p)"
    "\<And>ps. thr = Some ps \<Longrightarrow> pairs_ok ps \<and> ps \<noteq> []" by blast+
  then show ?thesis
    using assms c thresholds_stored [OF p(1,2)]
    by (auto simp: options_init_def options_ok_def pairs_ok_def Let_def split: option.split sum.split)
qed

lemma finish_ok: "options_ok f \<Longrightarrow> options_ok (fst (finish f)) \<and> options_result_ok (snd (finish f))"
proof (cases "\<exists>p. o_pending f = Some p \<and> o_thresholds f \<noteq> []")
  case False
  moreover assume "options_ok f"
  ultimately show ?thesis by (auto simp: finish_def split: option.splits)
next
  case True
  assume ok: "options_ok f"
  from True obtain p where p: "o_pending f = Some p" "o_thresholds f \<noteq> []" by blast
  have "update_ok (AList.delete ''reconfiguration_required''
      (AList.update ''thresholds'' (thresholds_value (o_thresholds f)) p))"
    using ok p by (intro thresholds_stored) (auto simp: options_ok_def)
  with ok p show ?thesis by (simp add: finish_def options_ok_def Let_def update_ok_def)
qed

lemma options_thresholds_ok:
  assumes "options_ok f"
  shows "options_ok (fst (options_step_thresholds f uio)) \<and> options_result_ok (snd (options_step_thresholds f uio))"
proof (cases "\<exists>ui q err. o_pending f \<noteq> None \<and> uio = Some ui \<and> accept_pair (o_thresholds f) ui = Inr (Some q, err)")
  case False
  with assms show ?thesis
    by (auto simp: options_step_thresholds_def split: option.splits sum.splits prod.splits)
next
  case True
  then obtain ui q err where c: "o_pending f \<noteq> None" "uio = Some ui"
    "accept_pair (o_thresholds f) ui = Inr (Some q, err)" by blast
  have "options_ok (f\<lparr>o_thresholds := o_thresholds f @ [q]\<rparr>)"
    using assms accept_pair_ok [OF c(3)] by (simp add: options_ok_def)
  with c assms finish_ok show ?thesis by (simp add: options_step_thresholds_def Let_def)
qed

lemma run_options_ok:
  "options_ok f \<Longrightarrow> options_ok (fst (run_options e b f uio)) \<and> options_result_ok (snd (run_options e b f uio))"
  by (simp add: run_options_def options_init_ok options_thresholds_ok)

lemma options_run_ok: "options_run e f \<Longrightarrow> options_ok f"
proof (induction rule: options_run.induct)
  case opened
  then show ?case by (simp add: new_options_flow_def options_ok_def pairs_ok_def)
next
  case (stepped f b uio)
  with run_options_ok show ?case by blast
qed

text \<open>What an edit stores, over whatever the entry held before.\<close>

lemma update_in_force:
  assumes "update_ok d"
  obtains ps where "dget d ''thresholds'' = thresholds_value ps" and "pairs_ok ps" and "ps \<noteq> []"
    and "derive_thresholds_from_mapping (dict_merge base d) = Inr (Some (custom_tiers ps))"
proof -
  from assms obtain ps where ps: "dget d ''thresholds'' = thresholds_value ps" "pairs_ok ps" "ps \<noteq> []"
    and dist: "distinct (map fst d)" by (auto simp: update_ok_def)
  have "dhas d ''thresholds''" by (rule dhas_present) (simp add: ps(1) thresholds_value_def)
  then have "dget (dict_merge base d) ''thresholds'' = thresholds_value ps"
    by (simp add: dget_merge [OF dist] ps(1))
  from pairs_ok_derive [OF this ps(2,3)] show thesis using that ps by blast
qed

section \<open>Which exceptions can escape\<close>

definition value_only :: "'a res \<Rightarrow> bool" where
  "value_only r \<longleftrightarrow> (\<forall>x. r = Inl x \<longrightarrow> (\<exists>m. x = ValueErr m))"

definition tame :: "'a res \<Rightarrow> bool" where
  "tame r \<longleftrightarrow> (\<forall>x. r = Inl x \<longrightarrow> x = TypeErr \<or> x = OverflowErr)"

definition number_only :: "'a res \<Rightarrow> bool" where
  "number_only r \<longleftrightarrow> (\<forall>x. r = Inl x \<longrightarrow> x = TypeErr \<or> x = OverflowErr \<or> (\<exists>m. x = ValueErr m))"

lemma raises_simps [simp]:
  "value_only (Inr a)" "tame (Inr a)" "number_only (Inr a)" "value_only (Inl (ValueErr m))"
  "number_only (Inl (ValueErr m))" "number_only (Inl TypeErr)" "number_only (Inl OverflowErr)"
  "tame (Inl TypeErr)" "tame (Inl OverflowErr)" "\<not> tame (Inl IndexErr)" "\<not> tame (Inl (ValueErr m))"
  by (simp_all add: value_only_def tame_def number_only_def)

lemma rbind_raises:
  "value_only m \<Longrightarrow> (\<And>x. m = Inr x \<Longrightarrow> value_only (f x)) \<Longrightarrow> value_only (rbind m f)"
  "tame m \<Longrightarrow> (\<And>x. m = Inr x \<Longrightarrow> tame (f x)) \<Longrightarrow> tame (rbind m f)"
  "number_only m \<Longrightarrow> (\<And>x. m = Inr x \<Longrightarrow> number_only (f x)) \<Longrightarrow> number_only (rbind m f)"
  by (cases m; simp add: value_only_def tame_def number_only_def)+

lemma obind_tame: "tame m \<Longrightarrow> (\<And>x. tame (f x)) \<Longrightarrow> tame (obind m f)"
  unfolding obind_def by (rule rbind_raises(2)) (simp_all split: option.split)

lemma catch_tame: "number_only m \<Longrightarrow> tame (catch_type_value m)"
  by (auto simp: number_only_def tame_def catch_type_value_def split: sum.splits exn.splits)

lemma catch_value_tame:
  "value_only m \<Longrightarrow> tame (catch_value m)" "number_only m \<Longrightarrow> tame (catch_value m)"
  by (auto simp: value_only_def number_only_def tame_def catch_value_def split: sum.splits exn.splits)

lemma value_number: "value_only m \<Longrightarrow> number_only m"
  by (auto simp: value_only_def number_only_def)

lemma tame_number: "tame m \<Longrightarrow> number_only m"
  by (auto simp: tame_def number_only_def)

lemma catch_number: "number_only m \<Longrightarrow> number_only (catch_type_value m)"
  by (simp add: tame_number catch_tame)

lemma py_float_raises: "number_only (py_float v)"
  by (cases v) (auto simp: number_only_def int_to_float_def split: if_splits option.splits)

lemma validate_raises: "number_only (validate_threshold_pair p d q)"
  by (simp add: validate_threshold_pair_def)

lemma py_trunc_raises: "number_only (py_trunc f)"
  by (cases f) (simp_all add: py_trunc_def)

lemma parse_pair_tame: "tame (parse_pair p d q)"
  unfolding parse_pair_def
  by (auto intro!: catch_tame rbind_raises(3) py_float_raises validate_raises)

lemma accept_pair_tame: "tame (accept_pair ts ui)"
  unfolding accept_pair_def parse_threshold_step_def
  by (intro rbind_raises(2) parse_pair_tame) (auto split: option.split)

lemma parse_count_tame: "tame (parse_count v)"
  unfolding parse_count_def
  by (auto intro!: catch_tame rbind_raises(3) py_trunc_raises split: pyval.split)

lemma parse_numbered_tame: "tame (parse_numbered ui is q)"
  by (induction "is" arbitrary: q) (simp_all add: obind_tame parse_pair_tame)

lemma parse_input_tame: "tame (parse_threshold_input ui None)"
  unfolding parse_threshold_input_def
  by (auto intro!: rbind_raises(2) parse_count_tame parse_numbered_tame
      simp: threshold_defaults_def simp del: upt_Suc split: option.split)

lemma raw_numbers_raise: "number_only (raw_limit d)" "number_only (raw_duration d)"
  by (simp_all add: raw_limit_def raw_duration_def py_float_raises)

lemma threshold_default_tame: "tame (threshold_default raw)"
  unfolding threshold_default_def
  by (auto intro!: catch_tame rbind_raises(3) raw_numbers_raise split: pyval.split)

lemma defaults_loop_tame: "tame (threshold_defaults_loop xs)"
  by (induction xs) (simp_all add: rbind_raises(2) threshold_default_tame)

lemma threshold_defaults_tame: "tame (threshold_defaults v)"
  by (simp add: threshold_defaults_def defaults_loop_tame split: pyval.split)

lemma validate_collection_raises: "number_only (validate_collection xs q)"
proof (induction xs arbitrary: q)
  case (Cons x xs)
  then show ?case
    by (auto intro!: rbind_raises(3) catch_number raw_numbers_raise validate_raises
        split: pyval.split option.split)
qed simp

lemma collection_raises: "number_only (validate_threshold_collection v)"
  by (simp add: validate_threshold_collection_def validate_collection_raises split: pyval.split)

lemma options_thresholds_tame: "tame (options_thresholds ui errors)"
  unfolding options_thresholds_def
  by (auto intro!: rbind_raises(2) parse_input_tame catch_value_tame(2) collection_raises split: option.split)

lemma entities_loop_value: "value_only (entities_loop strict ex r xs)"
  by (induction strict ex r xs rule: entities_loop.induct) (auto split: option.split)

lemma entities_value: "value_only (entities v strict ex)"
  by (simp add: entities_def entities_loop_value del: entities_loop.simps split: pyval.split)

lemma expected_power_value: "value_only (expected_power_of v strict)"
  by (simp add: expected_power_of_def split: sum.split)

lemma positive_integer_value: "value_only (positive_integer v d l)"
  by (simp add: positive_integer_def split: sum.split)

lemma priorities_value: "value_only (priorities_of raw i strict)"
  by (simp add: priorities_of_def Let_def rbind_raises(1) positive_integer_value)

lemma roles_value: "value_only (roles raw e as strict)"
  by (simp add: roles_def Let_def rbind_raises(1) entities_value)

lemma device_record_value: "value_only (device_record raw i ents strict)"
  unfolding device_record_def Let_def
  by (auto intro!: rbind_raises(1) entities_value priorities_value expected_power_value roles_value
      split: pyval.split option.split prod.split)

lemma normalize_loop_value: "value_only (normalize_loop strict i ids ents prios xs)"
proof (induction xs arbitrary: i ids ents prios)
  case (Cons x xs)
  then show ?case
    by (auto intro!: rbind_raises(1) device_record_value split: pyval.split option.split)
qed simp

lemma normalize_devices_value: "value_only (normalize_devices v strict)"
  by (simp add: normalize_devices_def normalize_loop_value split: pyval.split)

lemma wizard_device_value: "value_only (wizard_device raw i n s)"
  unfolding wizard_device_def
  by (auto intro!: rbind_raises(1) entities_value expected_power_value roles_value
      split: option.split pyval.split prod.split)

lemma build_device_tame: "tame (catch_value (build_device env ui c))"
  by (rule catch_value_tame(1)) (simp add: build_device_def Let_def wizard_device_value split: option.split)

lemma permutation_of_tame: "tame (permutation_of xs keys)"
  by (simp add: permutation_of_def)

lemma options_schema_tame: "tame (options_schema_for_entry e)"
  by (simp add: options_schema_for_entry_def Let_def rbind_raises(2) catch_value_tame(1) normalize_devices_value)

lemma priority_order_raises: "number_only (apply_priority_order ds v)"
proof (cases "\<exists>xs. (case v of PStr s \<Rightarrow> PList [PStr s] | v \<Rightarrow> v) = PList xs")
  case True
  then show ?thesis
    unfolding apply_priority_order_def
    by (auto intro!: rbind_raises(3) tame_number [OF permutation_of_tame] split: option.split)
next
  case False
  then show ?thesis by (auto simp: apply_priority_order_def split: pyval.splits)
qed

lemma options_devices_tame: "tame (options_devices e ui errors)"
  unfolding options_devices_def
  by (intro rbind_raises(2) catch_value_tame(2) rbind_raises(3) value_number [OF normalize_devices_value]
      priority_order_raises) (simp split: option.split)

lemma float_or_nan_tame: "tame (float_or_nan v)"
  using py_float_raises [of v] by (auto simp: float_or_nan_def number_only_def split: sum.split exn.split)

lemma numeric_loop_tame: "tame (numeric_values_loop e ui specs vals errors)"
  by (induction e ui specs vals errors rule: numeric_values_loop.induct)
    (auto intro!: rbind_raises(2) float_or_nan_tame)

lemma prepare_tame: "tame (prepare_options_submission e ui)"
  unfolding prepare_options_submission_def Let_def options_numeric_values_def
  by (auto intro!: rbind_raises(2) options_devices_tame numeric_loop_tame options_thresholds_tame
      split: prod.split)

lemma select_candidates_tame: "tame (select_candidates cs vs)"
  by (induction vs) (simp_all add: obind_tame split: option.split)

lemma selected_items_tame: "tame (selected_items v)"
  by (simp add: selected_items_def split: pyval.split)

lemma ordered_devices_tame: "tame (ordered_priority_devices z ui)"
  by (auto intro!: obind_tame simp: ordered_priority_devices_def permutation_of_tame split: prod.split option.split)

lemma tame_from: "tame m \<Longrightarrow> m = Inl x \<Longrightarrow> tame (Inl x)"
  by (simp add: tame_def)

lemmas flow_tame = accept_pair_tame [THEN tame_from] parse_input_tame [THEN tame_from]
  threshold_defaults_tame [THEN tame_from] build_device_tame [THEN tame_from]
  options_schema_tame [THEN tame_from] prepare_tame [THEN tame_from] ordered_devices_tame [THEN tame_from]

lemma open_devices_tame: "place_ok z Devices \<Longrightarrow> tame (snd (open_devices env z))"
  by (cases "z_phase z") (simp_all add: open_devices_def)

lemma after_discovered_tame: "tame (snd (after_discovered env z))"
  by (simp add: after_discovered_def open_devices_tame)

lemma reconfigure_thresholds_tame: "tame (snd (reconfigure_thresholds z uio))"
  by (auto simp: reconfigure_thresholds_def Let_def intro: flow_tame split: option.split sum.split)

lemma step_thresholds_tame: "z_phase z = Selection \<Longrightarrow> tame (snd (step_thresholds env z uio))"
  by (auto simp: step_thresholds_def reconfigure_thresholds_tame Let_def open_devices_tame
      intro: flow_tame split: option.split sum.split)

lemma step_load_monitoring_tame: "z_phase z = Selection \<Longrightarrow> tame (snd (step_load_monitoring env z uio))"
  by (auto simp: step_load_monitoring_def Let_def open_devices_tame step_thresholds_tame
      intro: flow_tame split: option.split sum.split)

lemma step_user_tame: "z_phase z = Selection \<Longrightarrow> tame (snd (step_user env z uio))"
  by (simp add: step_user_def step_load_monitoring_tame Let_def split: option.split)

lemma selection_tame: "tame (snd (devices_selection_step env z ui))"
proof -
  have "tame (rbind (selected_items (dget_or ui ''discovered_devices'' (PList [])))
      (select_candidates (found_devices z)))"
    by (intro rbind_raises(2) selected_items_tame select_candidates_tame)
  then show ?thesis
    by (auto simp: devices_selection_step_def Let_def open_devices_tame after_discovered_tame
        intro: tame_from split: option.split sum.split)
qed

lemma step_devices_tame: "place_ok z Devices \<Longrightarrow> tame (snd (step_devices env z uio))"
  by (auto simp: step_devices_def open_devices_tame selection_tame devices_discovered_step_def
      devices_custom_step_def after_discovered_tame Let_def intro: flow_tame
      split: option.split sum.split devices_phase.split)

lemma step_priority_tame: "tame (snd (step_priority env z uio))"
  by (auto simp: step_priority_def Let_def intro: flow_tame split: option.split sum.split)

lemma step_reconfigure_tame: "tame (snd (step_reconfigure env z uio))"
  by (auto simp: step_reconfigure_def Let_def intro: flow_tame split: option.split sum.split)

lemma run_step_tame: "place_ok z c \<Longrightarrow> tame (snd (run_step env c z uio))"
  by (cases c)
    (simp_all add: run_step_def step_user_tame step_load_monitoring_tame step_thresholds_tame
      step_devices_tame step_priority_tame step_reconfigure_tame step_grid_loss_def
      step_grid_loss_source_def Let_def del: place_ok.simps(1) split: option.split)

section \<open>Where entries are created\<close>

fun created :: "flow_result res \<Rightarrow> pydict option" where
  "created (Inr (CreateEntry t d)) = Some d"
| "created _ = None"

lemma created_forms [simp]:
  "created (Inr (threshold_form z e)) = None" "created (Inr (device_selection_form z e)) = None"
  "created (Inr (device_config_form env c e)) = None" "created (Inr (priority_form z e)) = None"
  "created (Inr (grid_loss_form z e)) = None" "created (Inr (grid_loss_source_form z m e)) = None"
  "created (Inr (load_monitoring_form z e)) = None"
  by (simp_all add: threshold_form_def device_selection_form_def device_config_form_def priority_form_def
      grid_loss_form_def grid_loss_source_form_def load_monitoring_form_def Let_def)

lemma open_devices_created: "created (snd (open_devices env z)) = None"
  by (simp add: open_devices_def split: devices_phase.split)

lemma after_discovered_created: "created (snd (after_discovered env z)) = None"
  by (simp add: after_discovered_def open_devices_created)

lemma step_thresholds_created: "created (snd (step_thresholds env z uio)) = None"
  by (simp add: step_thresholds_def reconfigure_thresholds_def open_devices_created Let_def
      split: option.split sum.split)

lemma step_load_monitoring_created: "created (snd (step_load_monitoring env z uio)) = None"
  by (simp add: step_load_monitoring_def step_thresholds_created open_devices_created Let_def
      split: option.split sum.split)

lemma step_devices_created: "created (snd (step_devices env z uio)) = None"
  by (simp add: step_devices_def devices_selection_step_def devices_discovered_step_def
      devices_custom_step_def open_devices_created after_discovered_created Let_def
      split: option.split sum.split devices_phase.split)

lemma step_user_created: "created (snd (step_user env z uio)) = None"
  by (simp add: step_user_def step_load_monitoring_created Let_def split: option.split)

lemma step_priority_created: "created (snd (step_priority env z uio)) = None"
  by (simp add: step_priority_def Let_def split: option.split sum.split)

lemma step_reconfigure_created: "created (snd (step_reconfigure env z uio)) = None"
  by (simp add: step_reconfigure_def Let_def split: option.split sum.split)

lemma create_devices:
  "created (Inr (create_grid_loss_entry z ui mode)) = Some d \<Longrightarrow>
     dget d ''devices'' = PList (map (\<lambda>l. PDict (wizard_dict l)) (z_devices z))"
  by (auto simp: create_grid_loss_entry_def Let_def split: if_split_asm)

lemma run_step_created:
  "created (snd (run_step env c z uio)) = Some d \<Longrightarrow>
     (c = Grid_Loss \<or> c = Grid_Loss_Source)
     \<and> dget d ''devices'' = PList (map (\<lambda>l. PDict (wizard_dict l)) (z_devices z))"
  by (cases c)
    (auto simp: run_step_def step_user_created step_load_monitoring_created step_thresholds_created
      step_devices_created step_priority_created step_reconfigure_created step_grid_loss_def
      step_grid_loss_source_def Let_def dest: create_devices split: option.split_asm if_split_asm)

section \<open>A run of the wizard\<close>

fun next_step :: "flow_result res \<Rightarrow> step_name option" where
  "next_step (Inr (ShowForm s fs e)) = form_step s"
| "next_step _ = None"

lemma next_step_Some: "next_step r = Some c \<Longrightarrow> \<exists>s fs e. r = Inr (ShowForm s fs e) \<and> form_step s = Some c"
  by (cases r rule: next_step.cases) simp_all

lemma managed_next:
  assumes "managed z c" and "run_step env c z uio = (z', r)" and "next_step r = Some c'"
  shows "managed z' c'"
  using next_step_Some [OF assms(3)] assms(1,2) by (auto intro: managed.answered)

lemma next_forms [simp]:
  "next_step (Inr (threshold_form z e)) = Some Thresholds"
  "next_step (Inr (device_selection_form z e)) = Some Devices"
  "next_step (Inr (device_config_form env d e)) = Some Devices"
  "next_step (Inr (priority_form z e)) = Some Priority"
  "next_step (Inr (grid_loss_form z e)) = Some Grid_Loss"
  "next_step (Inr (grid_loss_source_form z m e)) = Some Grid_Loss_Source"
  "next_step (Inr (load_monitoring_form z e)) = Some Load_Monitoring"
  by (simp_all add: threshold_form_def device_selection_form_def device_config_form_def priority_form_def
      grid_loss_form_def grid_loss_source_form_def load_monitoring_form_def form_step_def form_steps_def Let_def)

definition demo_env :: flow_env where
  "demo_env = \<lparr>fe_has_entries = False, fe_energy = None, fe_names = (\<lambda>e. PNone), fe_reconfigure = None,
     fe_new_id = ''a1'', fe_render = (\<lambda>v. [])\<rparr>"

definition demo_found :: "pyval \<Rightarrow> pydict" where
  "demo_found load = [(''grid_power'', load), (''battery_soc'', PNone), (''devices'', PList []),
     (''averaging_period'', PInt 10), (''thresholds'', thresholds_value [(5000, 30)])]"

definition demo_load :: logical_config where
  "demo_load = \<lparr>c_device_id = ''boiler'', c_name = ''Boiler'', c_entity = ''switch.boiler'',
     c_expected_power = 2000, c_power_sensor = None, c_actuators = [],
     c_command_entity = ''switch.boiler'', c_readback_entities = [''switch.boiler''],
     c_emergency_off_entities = []\<rparr>"

text \<open>The wizard after: the start, the sources, the load sensor, one threshold, the choice to add a
  device, that device, and the priority order.\<close>

definition demo_wizards :: "wizard list" where
  "demo_wizards =
     (let z0 = new_wizard\<lparr>z_discovered := take 3 (demo_found PNone)\<rparr>;
          z2 = new_wizard\<lparr>z_discovered := take 4 (demo_found (PStr ''sensor.load''))\<rparr>;
          z3 = new_wizard\<lparr>z_discovered := demo_found (PStr ''sensor.load''), z_thresholds := [(5000, 30)]\<rparr>;
          z4 = z3\<lparr>z_phase := Custom, z_add_custom := True\<rparr>;
          z5 = z4\<lparr>z_devices := [(demo_load, None)]\<rparr>
      in [z0, z0, z2, z3, z4, z5, z5\<lparr>z_devices := [(demo_load, Some 1)]\<rparr>])"

lemmas demo_defs = demo_env_def demo_found_def demo_wizards_def run_step_def set_found_def found_def
  append_pair_def new_wizard_def Let_def

lemma demo_started: "managed (demo_wizards ! 0) User"
proof (rule managed.started [of User])
  show "run_step demo_env User new_wizard None = (demo_wizards ! 0, Inr (ShowForm ''user''
      [optional_entity_key ''grid_power'' PNone (EntitySelector [''sensor''] False),
       optional_entity_key ''battery_soc'' PNone (EntitySelector [''sensor''] False)] None))"
    by (simp add: demo_defs step_user_def discover_inputs_def)
qed (simp_all add: form_step_def form_steps_def)

lemma demo_1: "managed (demo_wizards ! 1) Load_Monitoring"
  by (rule managed_next [OF demo_started, of demo_env "Some []"])
    (simp add: demo_defs step_user_def step_load_monitoring_def sensor_entity_id_def opt_str_def, simp)

lemma demo_2: "managed (demo_wizards ! 2) Thresholds"
  by (rule managed_next [OF demo_1, of demo_env "Some [(''load_sensor'', PStr ''sensor.load'')]"])
    (simp add: demo_defs step_load_monitoring_def step_thresholds_def dhas_def dget_or_def
      DEFAULT_AVERAGING_PERIOD_def, simp)

definition demo_pair :: pydict where
  "demo_pair = [(''threshold_power'', PInt 5000), (''threshold_duration'', PInt 30)]"

lemma demo_accept: "accept_pair [] demo_pair = Inr (Some (5000, 30), None)" "\<not> more_wanted demo_pair"
  by (simp_all add: accept_pair_def parse_threshold_step_def parse_pair_def demo_pair_def previous_limit_def
      int_to_float_def float_overflow_def validate_threshold_pair_def MAX_POLICY_POWER_W_def
      MAX_POLICY_DURATION_S_def answered_def MAX_CUSTOM_THRESHOLDS_def threshold_add_allowed_def dget_or_def
      more_wanted_def)

lemma demo_3: "managed (demo_wizards ! 3) Devices"
  by (rule managed_next [OF demo_2, of demo_env "Some demo_pair"])
    (simp add: demo_defs step_thresholds_def demo_accept open_devices_def, simp)

lemma demo_4: "managed (demo_wizards ! 4) Devices"
  by (rule managed_next [OF demo_3, of demo_env "Some [(''add_custom_device'', PBool True)]"])
    (simp add: demo_defs step_devices_def devices_selection_step_def selected_items_def dget_or_def
      after_discovered_def open_devices_def, simp)

definition demo_device :: pydict where
  "demo_device = [(''entity'', PStr ''switch.boiler''), (''device_id'', PStr ''boiler''), (''name'', PStr ''Boiler'')]"

lemma demo_build: "build_device demo_env demo_device [] = Inr demo_load"
  by (simp add: build_device_def demo_device_def demo_load_def entity_id_def py_strip_def is_space_def
      domain_of_def CONTROL_DOMAINS_def dhas_def sensor_entity_id_def opt_str_def as_text_def
      wizard_device_def expected_power_of_def dget_or_def int_to_float_def float_overflow_def roles_def
      entities_def startswith_def Let_def)

lemma demo_once: "dget_or demo_device ''add_another'' (PBool False) = PBool False"
  by (simp add: demo_device_def dget_or_def)

lemma demo_5: "managed (demo_wizards ! 5) Priority"
  by (rule managed_next [OF demo_4, of demo_env "Some demo_device"])
    (simp add: demo_defs step_devices_def devices_custom_step_def
      demo_build [unfolded demo_env_def] demo_once, simp)

lemma demo_6: "managed (demo_wizards ! 6) Grid_Loss"
  by (rule managed_next [OF demo_5, of demo_env "Some [(''priority_order'', PStr ''switch.boiler'')]"])
    (simp add: demo_defs step_priority_def ordered_priority_devices_def priority_candidates_def
      permutation_of_def by_key_def demo_load_def dget_or_def DEFAULT_PAUSE_PERIOD_def, simp)

definition demo_last :: pydict where
  "demo_last = [(''grid_loss_sensor'', PStr ''binary_sensor.grid'')]"

definition demo_entry :: pydict where
  "demo_entry =
     [(''load_sensor'', PStr ''sensor.load''), (''averaging_period'', PInt 10),
      (''thresholds'', thresholds_value [(5000, 30)]),
      (''devices'', PList [PDict (wizard_dict (demo_load, Some 1))]), (''pause_period'', PInt 60),
      (''grid_loss_mode'', PStr GRID_LOSS_MODE_SENSOR), (''grid_loss_sensor'', PStr ''binary_sensor.grid'')]"

lemma demo_created:
  "snd (run_step demo_env Grid_Loss (demo_wizards ! 6) (Some demo_last)) =
     Inr (CreateEntry ''Power Orchestrator'' demo_entry)"
  by (simp add: demo_defs step_grid_loss_def demo_last_def create_grid_loss_entry_def entity_id_def py_strip_def
      is_space_def domain_of_def dhas_def opt_str_def GRID_LOSS_MODE_SENSOR_def dget_or_def
      GRID_LOSS_MODE_THRESHOLD_def thresholds_value_def demo_entry_def DEFAULT_PAUSE_PERIOD_def)

section \<open>Properties\<close>

text \<open>C27. Whatever is submitted, in whatever changing environment, the wizard creates an entry
  only with a policy and a safety source: the data hold a non-empty list of valid thresholds
  that setup derives as exactly the tiers collected, the grid-loss sensor or the battery sensor
  of the mode, and the devices collected, each with valid entities and an expected power in
  [1, 50000], in the order chosen and numbered 1 to n without a gap, with distinct ids or
  distinct control entities.\<close>

theorem wizard_entry_sound:
  assumes "managed z c" and "snd (run_step env c z uio) = Inr (CreateEntry t d)"
  shows "\<exists>ps ls. dget d ''thresholds'' = thresholds_value ps \<and> ps \<noteq> []
    \<and> derive_thresholds_from_mapping d = Inr (Some (custom_tiers ps))
    \<and> safety_source_ok d
    \<and> dget d ''devices'' = PList (map (\<lambda>l. PDict (wizard_dict l)) ls)
    \<and> list_all logical_wf (map fst ls) \<and> map snd ls = map Some [1 ..< length ls + 1]
    \<and> (distinct (map (c_device_id \<circ> fst) ls) \<or> distinct (map (c_entity \<circ> fst) ls))"
proof -
  from managed_ok [OF assms(1)] have z: "wizard_ok z" "place_ok z c" by simp_all
  from run_step_ok [OF z(1), of env c uio] assms(2) have d: "entry_ok d"
    by (metis answer_ok_def result_ok.simps(1))
  then obtain ps where ps: "dget d ''thresholds'' = thresholds_value ps" "pairs_ok ps" "ps \<noteq> []"
    and src: "safety_source_ok d" by (auto simp: entry_ok_def)
  from run_step_created [of env c z uio d] assms(2) have c: "c = Grid_Loss \<or> c = Grid_Loss_Source"
    and dev: "dget d ''devices'' = PList (map (\<lambda>l. PDict (wizard_dict l)) (z_devices z))" by simp_all
  from z c have "numbered (z_devices z)" "list_all logical_wf (map fst (z_devices z))"
    by (auto simp: wizard_ok_def)
  with ps src dev pairs_ok_derive [OF ps] show ?thesis
    unfolding numbered_def by (intro exI [of _ ps] exI [of _ "z_devices z"]) blast
qed

lemma thresholds_value_inj: "thresholds_value ps = thresholds_value qs \<Longrightarrow> ps = qs"
  unfolding thresholds_value_def
  by (erule pyval.inject(5) [THEN iffD1, THEN map_injective]) (auto simp: inj_def pair_value_def prod_eq_iff)

theorem wizard_entry_sound_witness:
  "derive_thresholds_from_mapping demo_entry = Inr (Some (custom_tiers [(5000, 30)]))
     \<and> safety_source_ok demo_entry"
proof -
  from wizard_entry_sound [OF demo_6 demo_created] obtain ps where
    "dget demo_entry ''thresholds'' = thresholds_value ps"
    "derive_thresholds_from_mapping demo_entry = Inr (Some (custom_tiers ps))" "safety_source_ok demo_entry"
    by blast
  moreover have "dget demo_entry ''thresholds'' = thresholds_value [(5000, 30)]"
    by (simp add: demo_entry_def)
  ultimately show ?thesis using thresholds_value_inj by metis
qed

text \<open>No submission breaks a managed flow: the wizard never loses its place among the
  discovered devices and never looks up a key that is not there; the only exceptions that can
  leave a step are the TypeError and the OverflowError of a malformed submission.\<close>

theorem wizard_escapes:
  assumes "managed z c" and "snd (run_step env c z uio) = Inl x"
  shows "x = TypeErr \<or> x = OverflowErr"
  using run_step_tame [of z c env uio] managed_ok [OF assms(1)] assms(2) by (simp add: tame_def)

theorem wizard_escapes_witness:
  "snd (run_step demo_env Thresholds (demo_wizards ! 2)
     (Some [(''threshold_power'', PInt (10 ^ 400)), (''threshold_duration'', PInt 0)])) = Inl OverflowErr
   \<and> (OverflowErr = TypeErr \<or> OverflowErr = OverflowErr)"
proof -
  have "snd (run_step demo_env Thresholds (demo_wizards ! 2)
     (Some [(''threshold_power'', PInt (10 ^ 400)), (''threshold_duration'', PInt 0)])) = Inl OverflowErr"
    by (simp add: demo_defs step_thresholds_def accept_pair_def previous_limit_def parse_threshold_step_def
        parse_pair_def int_to_float_def float_overflow_def catch_type_value_def)
  with wizard_escapes [OF demo_2 this] show ?thesis by blast
qed

text \<open>C26. A reconfiguration and an options edit end only in configuration that setup accepts as it
  stands: whatever steps were taken with whatever submissions, the stored payload has a load
  sensor, numbers in their ranges, the safety source of its mode and, where a load has a
  battery minimum, the battery sensor; over any earlier data of the entry it puts exactly the
  collected thresholds in force; and the devices load again as the same records, as long as
  no priority exceeds 100000.\<close>

theorem edit_in_force:
  assumes "(managed z c \<and> snd (run_step env c z uio) = Inr (UpdateEntry d r))
      \<or> (options_run e f \<and> snd (run_options e b f uio) = Inr (CreateEntry t d))"
  shows "payload_ok d
    \<and> (\<exists>ps. dget d ''thresholds'' = thresholds_value ps \<and> ps \<noteq> []
        \<and> derive_thresholds_from_mapping (dict_merge base d) = Inr (Some (custom_tiers ps)))
    \<and> (\<exists>ds. dget d ''devices'' = devices_value ds
        \<and> (list_all (\<lambda>c. c_priority c \<le> 100000 \<and> c_shed_priority c \<le> 100000) ds
             \<longrightarrow> normalize_devices (dget d ''devices'') False = Inr ds))"
proof -
  from assms have d: "update_ok d"
  proof
    assume a: "managed z c \<and> snd (run_step env c z uio) = Inr (UpdateEntry d r)"
    with run_step_ok [of z env c uio] managed_ok [of z c] show ?thesis
      by (metis answer_ok_def result_ok.simps(2))
  next
    assume a: "options_run e f \<and> snd (run_options e b f uio) = Inr (CreateEntry t d)"
    with run_options_ok [of f e b uio] options_run_ok [of e f] show ?thesis
      by (metis options_result_ok.simps(1))
  qed
  then obtain ds where "dget d ''devices'' = devices_value ds" "devices_ok ds"
    by (auto simp: update_ok_def payload_ok_def)
  moreover have "payload_ok d" using d by (simp add: update_ok_def)
  moreover obtain ps where "dget d ''thresholds'' = thresholds_value ps" "ps \<noteq> []"
    "derive_thresholds_from_mapping (dict_merge base d) = Inr (Some (custom_tiers ps))"
    using update_in_force [OF d] by metis
  ultimately show ?thesis using devices_reload [of ds] by (auto simp: list_all_iff)
qed

definition demo_edit :: flow_entry where
  "demo_edit = \<lparr>e_data = demo_entry, e_options = []\<rparr>"

definition demo_submission :: pydict where
  "demo_submission = [(''devices'', PList []), (''threshold_count'', PInt 1),
     (''threshold_1_power'', PInt 6000), (''threshold_1_time'', PInt 0)]"

definition demo_prepared :: pydict where
  "demo_prepared = [(''load_sensor'', PStr ''sensor.load''), (''devices'', PList []),
     (''grid_loss_mode'', PStr GRID_LOSS_MODE_SENSOR), (''averaging_period'', PInt 10), (''pause_period'', PInt 60),
     (''grid_loss_sensor'', PStr ''binary_sensor.grid'')]"

lemma demo_prepare:
  "prepare_options_submission demo_edit demo_submission = Inr (Some demo_prepared, Some [(6000, 0)], None)"
proof -
  have parse: "parse_threshold_input demo_submission None = Inr (Some [(6000, 0)], None)"
    by (simp add: parse_threshold_input_def demo_submission_def parse_count_def valid_count_def
        MAX_CUSTOM_THRESHOLDS_def threshold_field_def nat_text_1 parse_pair_def int_to_float_def
        float_overflow_def validate_threshold_pair_def MAX_POLICY_POWER_W_def MAX_POLICY_DURATION_S_def
        catch_type_value_def upt_rec answered_def)
  have numbers: "float_or_nan (PInt 10) = Inr (Fin 10)" "float_or_nan (PInt 60) = Inr (Fin 60)"
    by (simp_all add: float_or_nan_def int_to_float_def float_overflow_def)
  have entities: "entity_id (PStr ''sensor.load'') [''sensor''] = Some ''sensor.load''"
    "entity_id (PStr ''binary_sensor.grid'') [''binary_sensor''] = Some ''binary_sensor.grid''"
    "entity_id (PStr []) [''sensor''] = None"
    by (simp_all add: entity_id_def py_strip_def is_space_def domain_of_def)
  have ne: "GRID_LOSS_MODE_SENSOR \<noteq> GRID_LOSS_MODE_THRESHOLD"
    by (simp add: GRID_LOSS_MODE_SENSOR_def GRID_LOSS_MODE_THRESHOLD_def)
  have current: "entry_current demo_edit ''load_sensor'' v = PStr ''sensor.load''"
    "entry_current demo_edit ''grid_loss_mode'' v = PStr GRID_LOSS_MODE_SENSOR"
    "entry_current demo_edit ''grid_loss_sensor'' v = PStr ''binary_sensor.grid''"
    "entry_current demo_edit ''battery_soc'' v = v"
    "entry_current demo_edit ''averaging_period'' v = PInt 10"
    "entry_current demo_edit ''pause_period'' v = PInt 60" for v
    by (simp_all add: entry_current_def demo_edit_def demo_entry_def dhas_def dget_or_def)
  have submitted: "dget_or demo_submission ''devices'' v = PList []"
    "dget_or demo_submission ''load_sensor'' v = v" "dget_or demo_submission ''grid_loss_mode'' v = v"
    "dget_or demo_submission ''grid_loss_sensor'' v = v" "dget_or demo_submission ''battery_soc'' v = v"
    "dget_or demo_submission ''averaging_period'' v = v" "dget_or demo_submission ''pause_period'' v = v"
    "dget demo_submission ''priority_order'' = PNone" "dhas demo_submission ''threshold_count''" for v
    by (simp_all add: demo_submission_def dget_or_def dhas_def)
  have devices: "options_devices demo_edit demo_submission None = Inr ([], None)"
    by (simp add: options_devices_def submitted normalize_devices_def apply_priority_order_def)
  show ?thesis
    by (simp add: prepare_options_submission_def submitted current devices entities sensor_entity_id_def ne
        source_errors_def options_numeric_values_def numeric_specs_def numbers options_thresholds_def parse
        options_payload_def dict_merge_def demo_prepared_def number_value_def opt_str_def devices_value_def
        DEFAULT_AVERAGING_PERIOD_def DEFAULT_PAUSE_PERIOD_def Let_def)
qed

theorem edit_in_force_witness:
  "payload_ok (AList.update ''thresholds'' (thresholds_value [(6000, 0)]) demo_prepared)"
proof -
  let ?d = "AList.delete ''reconfiguration_required''
      (AList.update ''thresholds'' (thresholds_value [(6000, 0)]) demo_prepared)"
  have "snd (run_options demo_edit False new_options_flow (Some demo_submission)) = Inr (CreateEntry [] ?d)"
    by (simp add: run_options_def options_init_def demo_prepare)
  from edit_in_force [OF disjI2, OF conjI, OF options_run.opened this] show ?thesis by simp
qed

end
