(* ===== verification/Entry_Lifecycle.thy ===== *)
theory Entry_Lifecycle
  imports Prelude "HOL-Library.AList"
begin

text \<open>
  The lifecycle of config entries in \<open>__init__.py\<close>: setups and unloads of entries run as concurrent
  tasks that interleave at their awaits. Home Assistant's data holds the runtimes by entry id;
  a lock-protected set of reservations keeps the setups apart. What a runtime is does not matter
  here. The lock is never held across an await, so a section under it is one step.
\<close>

section \<open>The integration's data\<close>

record 'r hass =
  h_runtimes :: "(string \<times> 'r) list"
  h_attached :: "string set"
  h_reserved :: "string set"
  h_services :: bool

definition loaded_runtimes :: "('r, 'z) hass_scheme \<Rightarrow> 'r list" where
  "loaded_runtimes h = map snd (h_runtimes h)"

definition setup_refused :: "('r, 'z) hass_scheme \<Rightarrow> string \<Rightarrow> bool" where
  "setup_refused h e \<longleftrightarrow> loaded_runtimes h \<noteq> [] \<or> e \<in> h_attached h \<or> e \<in> h_reserved h"

definition reserve :: "string \<Rightarrow> ('r, 'z) hass_scheme \<Rightarrow> ('r, 'z) hass_scheme" where
  "reserve e h = h\<lparr>h_reserved := insert e (h_reserved h)\<rparr>"

definition release :: "string \<Rightarrow> ('r, 'z) hass_scheme \<Rightarrow> ('r, 'z) hass_scheme" where
  "release e h = h\<lparr>h_reserved := h_reserved h - {e}\<rparr>"

definition register_services :: "('r, 'z) hass_scheme \<Rightarrow> ('r, 'z) hass_scheme" where
  "register_services h = (if h_services h then h else h\<lparr>h_services := True\<rparr>)"

definition publish_runtime :: "string \<Rightarrow> 'r \<Rightarrow> ('r, 'z) hass_scheme \<Rightarrow> ('r, 'z) hass_scheme" where
  "publish_runtime e r h = register_services
     (h\<lparr>h_attached := insert e (h_attached h), h_runtimes := AList.update e r (h_runtimes h)\<rparr>)"

definition withdraw_runtime :: "string \<Rightarrow> ('r, 'z) hass_scheme \<Rightarrow> ('r, 'z) hass_scheme" where
  "withdraw_runtime e h =
     h\<lparr>h_runtimes := AList.delete e (h_runtimes h), h_attached := h_attached h - {e}\<rparr>"

text \<open>The end of an unload whose platforms could be unloaded.\<close>

definition unload_runtime :: "string \<Rightarrow> ('r, 'z) hass_scheme \<Rightarrow> ('r, 'z) hass_scheme" where
  "unload_runtime e h =
     (let h1 = withdraw_runtime e h
      in if loaded_runtimes h1 = [] then h1\<lparr>h_services := False\<rparr> else h1)"

section \<open>Tasks\<close>

text \<open>
  Where a setup or an unload stands between two of its steps: asked for and not yet under the
  lock, holding its reservation, its runtime published, its exception handled and the reservation
  still held, unloading, or ended with its answer.
\<close>

datatype phase = Asked | Holding | Running | Failing | Unloading | Ended bool

definition busy :: "phase \<Rightarrow> bool" where
  "busy p \<longleftrightarrow> p = Holding \<or> p = Running \<or> p = Failing"

record 'r site = "'r hass" +
  s_tasks :: "nat \<rightharpoonup> string \<times> phase"

definition go :: "nat \<Rightarrow> string \<Rightarrow> phase \<Rightarrow> 'r site \<Rightarrow> 'r site" where
  "go t e p s = s\<lparr>s_tasks := (s_tasks s)(t \<mapsto> (e, p))\<rparr>"

text \<open>A cancellation passes both handlers: the runtime stays, only the reservation is given back.\<close>

inductive entry_step :: "'r site \<Rightarrow> 'r site \<Rightarrow> bool" where
  ask: "s_tasks s t = None \<Longrightarrow> entry_step s (go t e Asked s)"
| refuse: "s_tasks s t = Some (e, Asked) \<Longrightarrow> setup_refused s e \<Longrightarrow> entry_step s (go t e (Ended False) s)"
| enter: "s_tasks s t = Some (e, Asked) \<Longrightarrow> \<not> setup_refused s e \<Longrightarrow> entry_step s (go t e Holding (reserve e s))"
| fail_early: "s_tasks s t = Some (e, Holding) \<Longrightarrow> entry_step s (go t e Failing (withdraw_runtime e s))"
| publish: "s_tasks s t = Some (e, Holding) \<Longrightarrow> entry_step s (go t e Running (publish_runtime e r s))"
| fail_late: "s_tasks s t = Some (e, Running) \<Longrightarrow> entry_step s (go t e Failing (withdraw_runtime e s))"
| complete: "s_tasks s t = Some (e, Running) \<Longrightarrow> entry_step s (go t e (Ended True) (release e s))"
| failed: "s_tasks s t = Some (e, Failing) \<Longrightarrow> entry_step s (go t e (Ended False) (release e s))"
| cancelled: "s_tasks s t = Some (e, p) \<Longrightarrow> p = Holding \<or> p = Running \<Longrightarrow>
    entry_step s (go t e (Ended False) (release e s))"
| ask_unload: "s_tasks s t = None \<Longrightarrow> e \<in> h_attached s \<Longrightarrow> entry_step s (go t e Unloading s)"
| kept: "s_tasks s t = Some (e, Unloading) \<Longrightarrow> entry_step s (go t e (Ended False) s)"
| unloaded: "s_tasks s t = Some (e, Unloading) \<Longrightarrow> entry_step s (go t e (Ended True) (unload_runtime e s))"

definition empty_site :: "'r site" where
  "empty_site = \<lparr>h_runtimes = [], h_attached = {}, h_reserved = {}, h_services = False, s_tasks = Map.empty\<rparr>"

inductive entry_run :: "'r site \<Rightarrow> bool" where
  start: "entry_run empty_site"
| step: "entry_run s \<Longrightarrow> entry_step s s' \<Longrightarrow> entry_run s'"

section \<open>Invariant\<close>

definition data_ok :: "'r site \<Rightarrow> bool" where
  "data_ok s \<longleftrightarrow> fst ` set (h_runtimes s) = h_attached s \<and> distinct (map fst (h_runtimes s))
     \<and> (h_attached s \<noteq> {} \<longrightarrow> h_services s)"

definition claims_ok :: "'r site \<Rightarrow> bool" where
  "claims_ok s \<longleftrightarrow> (\<forall>e. e \<in> h_reserved s \<longleftrightarrow> (\<exists>t p. s_tasks s t = Some (e, p) \<and> busy p))
     \<and> (\<forall>t u e p q. s_tasks s t = Some (e, p) \<longrightarrow> s_tasks s u = Some (e, q) \<longrightarrow> busy p \<longrightarrow> busy q \<longrightarrow> t = u)
     \<and> (\<forall>t e p. s_tasks s t = Some (e, p) \<longrightarrow> p = Holding \<or> p = Failing \<longrightarrow> e \<notin> h_attached s)"

definition site_ok :: "'r site \<Rightarrow> bool" where
  "site_ok s \<longleftrightarrow> data_ok s \<and> claims_ok s"

lemma busy_simps [simp]:
  "busy Holding" "busy Running" "busy Failing" "\<not> busy Asked" "\<not> busy Unloading" "\<not> busy (Ended b)"
  by (simp_all add: busy_def)

lemma hass_fields [simp]:
  "h_runtimes (go t e p s) = h_runtimes s" "h_attached (go t e p s) = h_attached s"
  "h_reserved (go t e p s) = h_reserved s" "h_services (go t e p s) = h_services s"
  "s_tasks (go t e p s) = (s_tasks s)(t \<mapsto> (e, p))"
  "s_tasks (reserve e s) = s_tasks s" "s_tasks (release e s) = s_tasks s"
  "s_tasks (withdraw_runtime e s) = s_tasks s" "s_tasks (publish_runtime e r s) = s_tasks s"
  "s_tasks (unload_runtime e s) = s_tasks s"
  "h_reserved (reserve e h) = insert e (h_reserved h)" "h_reserved (release e h) = h_reserved h - {e}"
  "h_reserved (withdraw_runtime e h) = h_reserved h" "h_reserved (publish_runtime e r h) = h_reserved h"
  "h_reserved (unload_runtime e h) = h_reserved h"
  "h_attached (reserve e h) = h_attached h" "h_attached (release e h) = h_attached h"
  "h_attached (withdraw_runtime e h) = h_attached h - {e}"
  "h_attached (publish_runtime e r h) = insert e (h_attached h)"
  "h_attached (unload_runtime e h) = h_attached h - {e}"
  by (simp_all add: go_def reserve_def release_def withdraw_runtime_def publish_runtime_def
      register_services_def unload_runtime_def Let_def)

lemma data_simps [simp]:
  "data_ok (go t e p s) = data_ok s" "data_ok (reserve e s) = data_ok s" "data_ok (release e s) = data_ok s"
  by (simp_all add: data_ok_def go_def reserve_def release_def)

lemma fst_delete: "fst ` set (AList.delete k d) = fst ` set d - {k}"
  unfolding set_map [symmetric] delete_keys by simp

lemma data_withdraw: "data_ok s \<Longrightarrow> data_ok (withdraw_runtime e s)"
  by (auto simp: data_ok_def withdraw_runtime_def fst_delete distinct_delete)

lemma data_publish: "data_ok s \<Longrightarrow> data_ok (publish_runtime e r s)"
  by (auto simp: data_ok_def publish_runtime_def register_services_def distinct_update dom_update)

lemma data_unload: "data_ok s \<Longrightarrow> data_ok (unload_runtime e s)"
  using data_withdraw [of s e]
  by (auto simp: data_ok_def unload_runtime_def loaded_runtimes_def Let_def)

text \<open>A step of one task, seen from the claims: what it holds and which entries are attached.\<close>

lemma claims_step:
  assumes "claims_ok s" and "s_tasks s t = None \<or> (\<exists>q. s_tasks s t = Some (e, q))"
    and "s_tasks s' = (s_tasks s)(t \<mapsto> (e, p))"
    and "busy p \<Longrightarrow> e \<notin> h_reserved s \<or> (\<exists>q. s_tasks s t = Some (e, q) \<and> busy q)"
    and "h_reserved s' = (if busy p then insert e (h_reserved s)
           else if \<exists>q. s_tasks s t = Some (e, q) \<and> busy q then h_reserved s - {e} else h_reserved s)"
    and "h_attached s' \<subseteq> insert e (h_attached s)" and "e \<in> h_attached s' \<Longrightarrow> e \<notin> h_attached s \<Longrightarrow> p = Running"
    and "p = Holding \<or> p = Failing \<Longrightarrow> e \<notin> h_attached s'"
  shows "claims_ok s'"
proof -
  have reserved: "e' \<in> h_reserved s \<longleftrightarrow> (\<exists>t p. s_tasks s t = Some (e', p) \<and> busy p)" for e'
    using assms(1) by (simp add: claims_ok_def)
  have alone: "s_tasks s t = Some (e', p) \<Longrightarrow> s_tasks s u = Some (e', q) \<Longrightarrow> busy p \<Longrightarrow> busy q \<Longrightarrow> t = u" for t u e' p q
    using assms(1) unfolding claims_ok_def by blast
  have absent: "s_tasks s t = Some (e', p) \<Longrightarrow> p = Holding \<or> p = Failing \<Longrightarrow> e' \<notin> h_attached s" for t e' p
    using assms(1) unfolding claims_ok_def by blast
  have own: "u = t" if "busy p" "s_tasks s u = Some (e, q)" "busy q" for u q
    using assms(4) [OF that(1)] that reserved alone by blast
  have others: "(\<exists>u q. s_tasks s' u = Some (e', q) \<and> busy q) \<longleftrightarrow>
      (e' = e \<and> busy p) \<or> (\<exists>u q. u \<noteq> t \<and> s_tasks s u = Some (e', q) \<and> busy q)" for e'
    unfolding assms(3) by auto
  have "e' \<in> h_reserved s' \<longleftrightarrow> (\<exists>u q. s_tasks s' u = Some (e', q) \<and> busy q)" for e'
  proof (cases "e' = e")
    case False
    then have "e' \<in> h_reserved s' \<longleftrightarrow> e' \<in> h_reserved s" using assms(5) by auto
    moreover have "s_tasks s t \<noteq> Some (e', q)" for q using assms(2) False by auto
    ultimately show ?thesis using False others reserved by metis
  next
    case True
    show ?thesis
    proof (cases "busy p \<or> (\<exists>q. s_tasks s t = Some (e, q) \<and> busy q)")
      case True
      then show ?thesis using \<open>e' = e\<close> assms(5) alone unfolding others by auto
    next
      case False
      then have "e' \<in> h_reserved s' \<longleftrightarrow> e' \<in> h_reserved s" using assms(5) by auto
      then show ?thesis using \<open>e' = e\<close> False others reserved by metis
    qed
  qed
  moreover have "u = v" if "s_tasks s' u = Some (e', q)" "s_tasks s' v = Some (e', r)" "busy q" "busy r" for u v e' q r
    using that alone own unfolding assms(3) by (auto split: if_splits)
  moreover have "e' \<notin> h_attached s'" if "s_tasks s' u = Some (e', q)" "q = Holding \<or> q = Failing" for u e' q
  proof (cases "u = t")
    case True
    with that show ?thesis using assms(3,8) by auto
  next
    case False
    with that(1) have u: "s_tasks s u = Some (e', q)" using assms(3) by simp
    have "e' \<notin> h_attached s" by (rule absent [OF u that(2)])
    moreover have "p \<noteq> Running" if "e' = e" using own [OF _ u [unfolded that]] False \<open>q = Holding \<or> q = Failing\<close> by auto
    ultimately show ?thesis using assms(6,7) by blast
  qed
  ultimately show ?thesis unfolding claims_ok_def by blast
qed

lemma entry_step_ok: "entry_step s s' \<Longrightarrow> site_ok s \<Longrightarrow> site_ok s'"
proof (induction rule: entry_step.induct)
  case (ask s t e)
  then have "claims_ok (go t e Asked s)" by - (rule claims_step [of s t e _ Asked], auto simp: site_ok_def)
  with ask show ?case by (simp add: site_ok_def)
next
  case (refuse s t e)
  then have "claims_ok (go t e (Ended False) s)"
    by - (rule claims_step [of s t e _ "Ended False"], auto simp: site_ok_def)
  with refuse show ?case by (simp add: site_ok_def)
next
  case (enter s t e)
  then have "claims_ok (go t e Holding (reserve e s))"
    by - (rule claims_step [of s t e _ Holding], auto simp: site_ok_def setup_refused_def)
  with enter show ?case by (simp add: site_ok_def)
next
  case (fail_early s t e)
  then have "e \<in> h_reserved s" "claims_ok s" unfolding site_ok_def claims_ok_def by (blast intro: busy_simps)+
  with fail_early have "claims_ok (go t e Failing (withdraw_runtime e s))"
    by - (rule claims_step [of s t e _ Failing], auto)
  with fail_early show ?case by (simp add: site_ok_def data_withdraw)
next
  case (publish s t e r)
  then have "e \<in> h_reserved s" "claims_ok s" unfolding site_ok_def claims_ok_def by (blast intro: busy_simps)+
  with publish have "claims_ok (go t e Running (publish_runtime e r s))"
    by - (rule claims_step [of s t e _ Running], auto)
  with publish show ?case by (simp add: site_ok_def data_publish)
next
  case (fail_late s t e)
  then have "e \<in> h_reserved s" "claims_ok s" unfolding site_ok_def claims_ok_def by (blast intro: busy_simps)+
  with fail_late have "claims_ok (go t e Failing (withdraw_runtime e s))"
    by - (rule claims_step [of s t e _ Failing], auto)
  with fail_late show ?case by (simp add: site_ok_def data_withdraw)
next
  case (complete s t e)
  then have "claims_ok (go t e (Ended True) (release e s))"
    by - (rule claims_step [of s t e _ "Ended True"], auto simp: site_ok_def)
  with complete show ?case by (simp add: site_ok_def)
next
  case (failed s t e)
  then have "claims_ok (go t e (Ended False) (release e s))"
    by - (rule claims_step [of s t e _ "Ended False"], auto simp: site_ok_def)
  with failed show ?case by (simp add: site_ok_def)
next
  case (cancelled s t e p)
  then have "claims_ok (go t e (Ended False) (release e s))"
    by - (rule claims_step [of s t e _ "Ended False"], auto simp: site_ok_def)
  with cancelled show ?case by (simp add: site_ok_def)
next
  case (ask_unload s t e)
  then have "claims_ok (go t e Unloading s)" by - (rule claims_step [of s t e _ Unloading], auto simp: site_ok_def)
  with ask_unload show ?case by (simp add: site_ok_def)
next
  case (kept s t e)
  then have "claims_ok (go t e (Ended False) s)"
    by - (rule claims_step [of s t e _ "Ended False"], auto simp: site_ok_def)
  with kept show ?case by (simp add: site_ok_def)
next
  case (unloaded s t e)
  then have "claims_ok (go t e (Ended True) (unload_runtime e s))"
    by - (rule claims_step [of s t e _ "Ended True"], auto simp: site_ok_def)
  with unloaded show ?case by (simp add: site_ok_def data_unload)
qed

lemma entry_run_ok: "entry_run s \<Longrightarrow> site_ok s"
proof (induction rule: entry_run.induct)
  case start
  show ?case by (simp add: site_ok_def data_ok_def claims_ok_def empty_site_def)
qed (rule entry_step_ok)

text \<open>Only entries somebody asked for are ever attached.\<close>

definition asked_for :: "'r site \<Rightarrow> string set" where
  "asked_for s = {e. \<exists>t p. s_tasks s t = Some (e, p)}"

lemma asked_for_go:
  assumes "s_tasks s t = None \<or> (\<exists>q. s_tasks s t = Some (e, q))"
  shows "asked_for (go t e p s) = insert e (asked_for s)"
proof
  show "asked_for (go t e p s) \<subseteq> insert e (asked_for s)" by (auto simp: asked_for_def split: if_splits)
  have "x \<in> asked_for (go t e p s)" if "s_tasks s u = Some (x, q)" for x u q
  proof (cases "u = t")
    case True
    with that assms show ?thesis by (auto simp: asked_for_def)
  next
    case False
    with that show ?thesis by (auto simp: asked_for_def)
  qed
  moreover have "e \<in> asked_for (go t e p s)" by (auto simp: asked_for_def)
  ultimately show "insert e (asked_for s) \<subseteq> asked_for (go t e p s)" by (auto simp: asked_for_def [of s])
qed

lemma asked_for_simps [simp]:
  "asked_for (reserve e s) = asked_for s" "asked_for (release e s) = asked_for s"
  "asked_for (withdraw_runtime e s) = asked_for s" "asked_for (publish_runtime e r s) = asked_for s"
  "asked_for (unload_runtime e s) = asked_for s"
  by (simp_all add: asked_for_def)

lemma entry_step_asked: "entry_step s s' \<Longrightarrow> h_attached s \<subseteq> asked_for s \<Longrightarrow> h_attached s' \<subseteq> asked_for s'"
  by (induction rule: entry_step.induct) (auto simp: asked_for_go)

lemma entry_run_asked: "entry_run s \<Longrightarrow> h_attached s \<subseteq> asked_for s"
  by (induction rule: entry_run.induct) (simp add: empty_site_def, rule entry_step_asked)

section \<open>Properties\<close>

text \<open>C33. However the setups and unloads of entries interleave, fail and are cancelled: the services
  are registered whenever a runtime is loaded; the runtimes are those of the entries that carry
  one; two setups of the same entry never run at the same time; a setup that fails takes away only
  what it put there itself, and the entry carries no runtime afterwards; and as long as setups
  and unloads are asked for a single entry only, at most one runtime is ever loaded.\<close>

theorem setups_kept_apart:
  assumes "entry_run s"
  shows "(if loaded_runtimes s = [] then True else h_services s)
    \<and> set (map fst (h_runtimes s)) = h_attached s \<and> distinct (map fst (h_runtimes s))
    \<and> (\<forall>t u e p q. s_tasks s t = Some (e, p) \<and> s_tasks s u = Some (e, q) \<and> busy p \<and> busy q \<longrightarrow> t = u)
    \<and> (\<forall>t e. s_tasks s t = Some (e, Holding) \<or> s_tasks s t = Some (e, Failing) \<longrightarrow> e \<notin> h_attached s)
    \<and> ((\<forall>t e p. s_tasks s t = Some (e, p) \<longrightarrow> e = sole) \<longrightarrow> length (loaded_runtimes s) \<le> 1)"
proof -
  have ok: "data_ok s" "claims_ok s" using entry_run_ok [OF assms] by (simp_all add: site_ok_def)
  have sole: "length (loaded_runtimes s) \<le> 1" if "\<forall>t e p. s_tasks s t = Some (e, p) \<longrightarrow> e = sole"
  proof -
    have "asked_for s \<subseteq> {sole}" using that by (auto simp: asked_for_def)
    with entry_run_asked [OF assms] have "set (map fst (h_runtimes s)) \<subseteq> {sole}" using ok(1) by (auto simp: data_ok_def)
    then have "card (set (map fst (h_runtimes s))) \<le> card {sole}" by (intro card_mono) simp_all
    moreover have "card (set (map fst (h_runtimes s))) = length (map fst (h_runtimes s))"
      using ok(1) by (intro distinct_card) (simp add: data_ok_def)
    ultimately show ?thesis by (simp only: loaded_runtimes_def length_map) simp
  qed
  have "if loaded_runtimes s = [] then True else h_services s"
    using ok(1) by (auto simp: data_ok_def loaded_runtimes_def)
  with ok sole show ?thesis unfolding data_ok_def claims_ok_def by auto
qed

text \<open>The guard keeps apart setups of one entry, not of two: both may be past it before either is
  loaded.\<close>

definition reserved_site :: "unit site" where
  "reserved_site = go 1 ''b'' Holding (reserve ''b'' (go 1 ''b'' Asked (go 0 ''a'' Holding (reserve ''a'' (go 0 ''a'' Asked empty_site)))))"

lemma reserved_reachable: "entry_run reserved_site"
  unfolding reserved_site_def
  by (intro entry_run.step [OF _ entry_step.enter] entry_run.step [OF _ entry_step.ask] entry_run.start)
    (simp_all add: setup_refused_def loaded_runtimes_def empty_site_def go_def reserve_def)

lemma two_entries_load: "\<exists>s :: unit site. entry_run s \<and> length (loaded_runtimes s) = 2"
proof -
  let ?s = "go 1 ''b'' Running (publish_runtime ''b'' () (go 0 ''a'' Running (publish_runtime ''a'' () reserved_site)))"
  have "entry_run ?s"
    by (intro entry_run.step [OF _ entry_step.publish] reserved_reachable) (simp_all add: reserved_site_def)
  moreover have "length (loaded_runtimes ?s) = 2"
    by (simp add: loaded_runtimes_def publish_runtime_def register_services_def reserved_site_def go_def reserve_def
        empty_site_def)
  ultimately show ?thesis by blast
qed

text \<open>A setup cancelled after its runtime was published leaves it behind, and with it every later
  setup is refused, although no task is at work.\<close>

lemma cancelled_setup_blocks:
  "\<exists>s :: unit site. entry_run s \<and> (\<forall>t e p. s_tasks s t = Some (e, p) \<longrightarrow> p = Ended False) \<and> (\<forall>e. setup_refused s e)"
proof -
  let ?mid = "go 0 ''a'' Running (publish_runtime ''a'' () (go 0 ''a'' Holding (reserve ''a'' (go 0 ''a'' Asked empty_site))))"
  let ?s = "go 0 ''a'' (Ended False) (release ''a'' ?mid)"
  have "entry_run ?mid"
    by (intro entry_run.step [OF _ entry_step.publish] entry_run.step [OF _ entry_step.enter]
        entry_run.step [OF _ entry_step.ask] entry_run.start)
      (simp_all add: setup_refused_def loaded_runtimes_def empty_site_def)
  moreover have "entry_step ?mid ?s" by (rule entry_step.cancelled [of _ 0 _ Running]) simp_all
  ultimately have "entry_run ?s" by (rule entry_run.step)
  moreover have "s_tasks ?s t = Some (e, p) \<Longrightarrow> p = Ended False" for t e p
    by (simp add: empty_site_def split: if_splits)
  moreover have "setup_refused ?s e" for e
    by (simp add: setup_refused_def loaded_runtimes_def publish_runtime_def register_services_def go_def
        reserve_def release_def empty_site_def)
  ultimately show ?thesis by blast
qed

theorem setups_kept_apart_witness:
  "(if loaded_runtimes reserved_site = [] then True else h_services reserved_site)
    \<and> s_tasks reserved_site 0 = Some (''a'', Holding) \<and> ''a'' \<notin> h_attached reserved_site"
proof -
  note * = setups_kept_apart [OF reserved_reachable]
  have t: "s_tasks reserved_site 0 = Some (''a'', Holding)" by (simp add: reserved_site_def)
  have "''a'' \<notin> h_attached reserved_site"
    using * [THEN conjunct2, THEN conjunct2, THEN conjunct2, THEN conjunct2, THEN conjunct1] t by blast
  with t * [THEN conjunct1] show ?thesis by simp
qed

end
