(* ===== verification/Repair_Issues.thy ===== *)
theory Repair_Issues
  imports Prelude "HOL-Library.List_Lexorder" "HOL-Library.AList"
begin

text \<open>
  The repair issues of \<open>__init__.py\<close>: one persistent issue per quarantined or faulted load in the
  issue registry of Home Assistant, and one for a required reconfiguration. The registry keeps the
  issue ids of the integration; the digest behind an id is a parameter. Any call of the registry
  may raise, after which the rest of the synchronization is abandoned.
\<close>

section \<open>State\<close>

record issue_book =
  b_issues :: "string set"
  b_previous :: "(string \<times> string set) list"

definition repair_issue_id :: "(string \<Rightarrow> string) \<Rightarrow> string \<Rightarrow> string \<Rightarrow> string" where
  "repair_issue_id digest entry device_id = ''quarantine_'' @ take 20 (digest (entry @ '':'' @ device_id))"

text \<open>
  The loads an issue is due for: those the published data lists, or, where it lists none, those
  the registry of faults holds.
\<close>

definition listed_ids :: "pydict \<Rightarrow> string \<Rightarrow> string set" where
  "listed_ids data key =
     (case dget data key of
        PList xs \<Rightarrow> {s. PStr s \<in> set xs \<and> s \<noteq> []}
      | PTuple xs \<Rightarrow> {s. PStr s \<in> set xs \<and> s \<noteq> []}
      | _ \<Rightarrow> {})"

definition repair_device_ids :: "pydict option \<Rightarrow> string set \<Rightarrow> string set \<Rightarrow> string set" where
  "repair_device_ids data faulted_ids quarantined_ids =
     (let listed = (case data of None \<Rightarrow> {}
                    | Some d \<Rightarrow> listed_ids d ''faulted_devices'' \<union> listed_ids d ''quarantined_devices'')
      in if listed \<noteq> {} then listed else faulted_ids \<union> quarantined_ids)"

definition registered_quarantine_ids :: "string set \<Rightarrow> string set" where
  "registered_quarantine_ids issues = {i \<in> issues. startswith i ''quarantine_''}"

section \<open>Synchronization\<close>

datatype issue_call = Create string | Delete string

primrec perform_call :: "issue_call \<Rightarrow> string set \<Rightarrow> string set" where
  "perform_call (Create i) issues = insert i issues"
| "perform_call (Delete i) issues = issues - {i}"

definition desired_ids :: "(string \<Rightarrow> string) \<Rightarrow> string \<Rightarrow> string set \<Rightarrow> string set" where
  "desired_ids digest entry active = repair_issue_id digest entry ` active"

definition sync_calls :: "(string \<Rightarrow> string) \<Rightarrow> string \<Rightarrow> string set \<Rightarrow> issue_book \<Rightarrow> issue_call list" where
  "sync_calls digest entry active b =
     (let desired = desired_ids digest entry active;
          previous = (case map_of (b_previous b) entry of Some s \<Rightarrow> s | None \<Rightarrow> {})
      in map (\<lambda>d. Create (repair_issue_id digest entry d)) (sorted_list_of_set active)
         @ map Delete (sorted_list_of_set ((previous \<union> registered_quarantine_ids (b_issues b)) - desired)))"

definition sync_reconfiguration_issue :: "bool \<Rightarrow> issue_book \<Rightarrow> issue_book" where
  "sync_reconfiguration_issue required b =
     b\<lparr>b_issues := perform_call ((if required then Create else Delete) ''reconfiguration_required'') (b_issues b)\<rparr>"

text \<open>
  \<open>fails\<close> tells which call of the registry raises: the zeroth is its inspection, then come the
  creations and deletions in turn, and last the issue of the reconfiguration; a larger number
  counts as the last.
\<close>

definition sync_repair_issues ::
  "(string \<Rightarrow> string) \<Rightarrow> string \<Rightarrow> string set \<Rightarrow> bool \<Rightarrow> nat option \<Rightarrow> issue_book \<Rightarrow> issue_book" where
  "sync_repair_issues digest entry active required fails b =
     (let calls = sync_calls digest entry active b
      in case fails of
           Some 0 \<Rightarrow> b
         | Some (Suc n) \<Rightarrow>
             if n < length calls then b\<lparr>b_issues := fold perform_call (take n calls) (b_issues b)\<rparr>
             else b\<lparr>b_issues := fold perform_call calls (b_issues b),
                     b_previous := AList.update entry (desired_ids digest entry active) (b_previous b)\<rparr>
         | None \<Rightarrow> sync_reconfiguration_issue required
             (b\<lparr>b_issues := fold perform_call calls (b_issues b),
                 b_previous := AList.update entry (desired_ids digest entry active) (b_previous b)\<rparr>))"

section \<open>What a synchronization leaves\<close>

lemma fold_create: "fold perform_call (map (\<lambda>d. Create (f d)) ds) s = s \<union> f ` set ds"
  by (induction ds arbitrary: s) auto

lemma fold_delete: "fold perform_call (map Delete is) s = s - set is"
  by (induction "is" arbitrary: s) auto

lemma issue_id_quarantine: "startswith (repair_issue_id digest entry d) ''quarantine_''"
  by (simp add: repair_issue_id_def startswith_def)

definition stale_ids :: "(string \<Rightarrow> string) \<Rightarrow> string \<Rightarrow> string set \<Rightarrow> issue_book \<Rightarrow> string set" where
  "stale_ids digest entry active b =
     ((case map_of (b_previous b) entry of Some s \<Rightarrow> s | None \<Rightarrow> {}) \<union> registered_quarantine_ids (b_issues b))
       - desired_ids digest entry active"

lemma sync_calls_split:
  "sync_calls digest entry active b =
     map (\<lambda>d. Create (repair_issue_id digest entry d)) (sorted_list_of_set active)
       @ map Delete (sorted_list_of_set (stale_ids digest entry active b))"
  by (simp add: sync_calls_def stale_ids_def Let_def)

definition book_ok :: "issue_book \<Rightarrow> bool" where
  "book_ok b \<longleftrightarrow> finite (b_issues b)
     \<and> (\<forall>e s. map_of (b_previous b) e = Some s \<longrightarrow> finite s \<and> (\<forall>i \<in> s. startswith i ''quarantine_''))"

lemma stale_finite:
  assumes "book_ok b"
  shows "finite (stale_ids digest entry active b)"
  using assms by (auto simp: stale_ids_def book_ok_def registered_quarantine_ids_def split: option.split)

lemma stale_quarantine: "book_ok b \<Longrightarrow> i \<in> stale_ids digest entry active b \<Longrightarrow> startswith i ''quarantine_''"
  by (auto simp: stale_ids_def book_ok_def registered_quarantine_ids_def split: option.splits)

lemma all_calls:
  assumes "book_ok b" "finite active"
  shows "fold perform_call (sync_calls digest entry active b) (b_issues b) =
    (b_issues b \<union> desired_ids digest entry active) - stale_ids digest entry active b"
  using assms stale_finite [OF assms(1), of digest entry active]
  by (simp add: sync_calls_split fold_create fold_delete desired_ids_def)

lemma some_calls:
  assumes "book_ok b" "finite active"
  shows "\<exists>new gone. fold perform_call (take n (sync_calls digest entry active b)) (b_issues b) = (b_issues b \<union> new) - gone
    \<and> new \<subseteq> desired_ids digest entry active \<and> gone \<subseteq> stale_ids digest entry active b"
proof -
  let ?cs = "take n (sorted_list_of_set active)"
  let ?ds = "take (n - card active) (sorted_list_of_set (stale_ids digest entry active b))"
  have "fold perform_call (take n (sync_calls digest entry active b)) (b_issues b) =
      (b_issues b \<union> repair_issue_id digest entry ` set ?cs) - set ?ds"
    by (simp add: sync_calls_split take_map fold_create fold_delete)
  moreover have "repair_issue_id digest entry ` set ?cs \<subseteq> desired_ids digest entry active"
    using set_take_subset [of n "sorted_list_of_set active"] assms(2) by (auto simp: desired_ids_def)
  moreover have "set ?ds \<subseteq> stale_ids digest entry active b"
    using set_take_subset [of "n - card active" "sorted_list_of_set (stale_ids digest entry active b)"]
      stale_finite [OF assms(1), of digest entry active] by auto
  ultimately show ?thesis by blast
qed

lemma reconfiguration_other [simp]: "\<not> startswith ''reconfiguration_required'' ''quarantine_''"
  by (simp add: startswith_def)

lemma desired_quarantine: "i \<in> desired_ids digest entry active \<Longrightarrow> startswith i ''quarantine_''"
  using issue_id_quarantine by (auto simp: desired_ids_def)

lemma reconfiguration_not_desired [simp]: "''reconfiguration_required'' \<notin> desired_ids digest entry active"
  using desired_quarantine reconfiguration_other by blast

text \<open>C34. The repair issues mirror the quarantine. Whatever calls of the registry fail, a
  synchronization never removes the issue of a load that is due one, creates issues only for
  such loads and for a required reconfiguration, and leaves issues of other kinds alone; one that
  completes leaves exactly the issues that are due, however many earlier ones were cut short.\<close>

theorem repair_issues_exact:
  assumes "book_ok b" and "finite active"
    and "b' = sync_repair_issues digest entry active required fails b"
  shows "desired_ids digest entry active \<inter> b_issues b \<subseteq> b_issues b'
    \<and> b_issues b' - b_issues b \<subseteq> insert ''reconfiguration_required'' (desired_ids digest entry active)
    \<and> (\<forall>i. \<not> startswith i ''quarantine_'' \<and> i \<noteq> ''reconfiguration_required'' \<longrightarrow> (i \<in> b_issues b' \<longleftrightarrow> i \<in> b_issues b))
    \<and> (fails = None \<longrightarrow> registered_quarantine_ids (b_issues b') = desired_ids digest entry active
         \<and> (''reconfiguration_required'' \<in> b_issues b' \<longleftrightarrow> required))
    \<and> book_ok b'"
proof -
  let ?d = "desired_ids digest entry active" and ?s = "stale_ids digest entry active b"
  note all = all_calls [OF assms(1,2), of digest entry]
  have apart: "?s \<inter> ?d = {}" by (auto simp: stale_ids_def)
  have stale: "registered_quarantine_ids (b_issues b) - ?d \<subseteq> ?s" by (auto simp: stale_ids_def)
  have due: "\<forall>i \<in> ?d. startswith i ''quarantine_'' \<and> i \<noteq> ''reconfiguration_required''"
    using desired_quarantine [of _ digest entry active] reconfiguration_other by blast
  have old: "\<forall>i \<in> ?s. startswith i ''quarantine_'' \<and> i \<noteq> ''reconfiguration_required''"
    using stale_quarantine [OF assms(1), of _ digest entry active] reconfiguration_other by blast
  have fin: "finite ?d" using assms(2) by (simp add: desired_ids_def)
  have book: "book_ok (b\<lparr>b_issues := I, b_previous := AList.update entry ?d (b_previous b)\<rparr>)" if "finite I" for I
    using assms(1) that fin desired_quarantine by (auto simp: book_ok_def update_conv' split: if_splits)
  have finI: "finite (b_issues b)" using assms(1) by (simp add: book_ok_def)
  show ?thesis
  proof (cases fails)
    case None
    let ?I = "(b_issues b \<union> ?d) - ?s"
    have b': "b' = sync_reconfiguration_issue required
        (b\<lparr>b_issues := ?I, b_previous := AList.update entry ?d (b_previous b)\<rparr>)"
      using None assms(3) by (simp add: sync_repair_issues_def all Let_def)
    have I: "b_issues b' = (if required then insert ''reconfiguration_required'' ?I else ?I - {''reconfiguration_required''})"
      by (simp add: b' sync_reconfiguration_issue_def)
    have "registered_quarantine_ids (b_issues b') = ?d"
      using stale apart due unfolding I registered_quarantine_ids_def by (auto split: if_splits)
    moreover have "book_ok b'"
    proof -
      have "finite (b_issues b')" unfolding I using finI fin by simp
      from book [OF this] show ?thesis by (simp add: b' sync_reconfiguration_issue_def book_ok_def)
    qed
    ultimately show ?thesis
      using apart due old unfolding I None by (auto split: if_splits)
  next
    case (Some k)
    show ?thesis
    proof (cases k)
      case 0
      then show ?thesis using Some assms(1,3) by (auto simp: sync_repair_issues_def Let_def)
    next
      case (Suc n)
      from some_calls [OF assms(1,2), of n digest entry] obtain new gone where
        part: "fold perform_call (take n (sync_calls digest entry active b)) (b_issues b) = (b_issues b \<union> new) - gone"
        "new \<subseteq> ?d" "gone \<subseteq> ?s" by blast
      have "\<exists>new gone. b_issues b' = (b_issues b \<union> new) - gone \<and> new \<subseteq> ?d \<and> gone \<subseteq> ?s"
        using Some Suc assms(3) part by (auto simp: sync_repair_issues_def all Let_def)
      then obtain new gone where I: "b_issues b' = (b_issues b \<union> new) - gone" "new \<subseteq> ?d" "gone \<subseteq> ?s" by blast
      have "finite (b_issues b')" unfolding I(1) using finI finite_subset [OF I(2) fin] by simp
      moreover have "b_previous b' = b_previous b \<or> b_previous b' = AList.update entry ?d (b_previous b)"
        unfolding assms(3) sync_repair_issues_def Some Suc by (simp add: Let_def)
      ultimately have "book_ok b'"
        using assms(1) book [of "b_issues b'"] by (auto simp: book_ok_def)
      then show ?thesis
        using apart I due old Some by (auto; blast)
    qed
  qed
qed

theorem repair_issues_exact_witness:
  "registered_quarantine_ids (b_issues (sync_repair_issues id ''e'' {''pump''} False None
     \<lparr>b_issues = {''quarantine_old'', ''other''}, b_previous = []\<rparr>)) = {''quarantine_e:pump''}"
proof -
  have "book_ok \<lparr>b_issues = {''quarantine_old'', ''other''}, b_previous = []\<rparr>" by (simp add: book_ok_def)
  from repair_issues_exact [OF this _ refl, of "{''pump''}" id "''e''" False None]
  show ?thesis by (simp add: desired_ids_def repair_issue_id_def)
qed

end
