(* ===== verification/Entry_Services.thy ===== *)
theory Entry_Services
  imports Coordinator_Outcomes Entry_Lifecycle Repair_Issues
begin

text \<open>
  The service handlers of \<open>__init__.py\<close>: what a call carries, how it is validated, which operation of
  the one loaded controller it becomes, how failures are reported, and the repair issues brought
  up to date afterwards. The schemas that Home Assistant applies before a handler runs are not
  part of the model; a handler reads a text or a flag where the schema has made it one. The parser of
  \<open>cv.datetime\<close> is a parameter: it answers whether the value carries a time zone and its timestamp.
  A handler is one step: an unload while it awaits is not interleaved with it.
\<close>

section \<open>State and parameters\<close>

record service_site = "coord hass" +
  s_book :: issue_book

record service_env =
  v_digest :: "string \<Rightarrow> string"
  v_datetime :: "pyval \<Rightarrow> (bool \<times> rat) res"
  v_published :: "coord \<Rightarrow> pydict option"
  v_fails :: "nat option"

record service_call =
  sc_data :: pydict
  sc_user :: pyval
  sc_context :: pyval

type_synonym handler = "(service_site, unit) act"

definition translated_error :: "string \<Rightarrow> exn" where
  "translated_error key = ServiceErr key"

section \<open>The runtime of a call\<close>

text \<open>\<open>_service_runtime\<close>, and an operation on the controller it finds.\<close>

definition service_runtime :: "unit action \<Rightarrow> handler" where
  "service_runtime m h =
     (case h_runtimes h of
        [(e, c)] \<Rightarrow> (case m c of (r, c') \<Rightarrow> (r, h\<lparr>h_runtimes := [(e, c')]\<rparr>))
      | _ \<Rightarrow> (Inl (translated_error ''entry_not_unique''), h))"

definition sync_repair_issues_for_runtime :: "service_env \<Rightarrow> handler" where
  "sync_repair_issues_for_runtime env = upd (\<lambda>h.
     case h_runtimes h of
       [(e, c)] \<Rightarrow> h\<lparr>s_book := sync_repair_issues (v_digest env) e
           (repair_device_ids (v_published env c) (faulted (c_faults c)) (quarantined (c_faults c)))
           (c_reconfiguration c) (v_fails env) (s_book h)\<rparr>
     | _ \<Rightarrow> h)"

text \<open>\<open>except Exception as exc: raise _translated_error(...) from exc\<close>.\<close>

definition reported :: "string \<Rightarrow> unit action \<Rightarrow> unit action" where
  "reported key m = try_except m (\<lambda>e. raise (translated_error key))"

section \<open>Validation\<close>

definition service_source :: "service_call \<Rightarrow> (string \<times> pyval \<times> pyval) res" where
  "service_source call =
     (case dget_or (sc_data call) ''source'' (PStr ''service'') of
        PStr s \<Rightarrow> if nonblank s then Inr (py_strip s, sc_user call, sc_context call)
                  else Inl (translated_error ''invalid_service_source'')
      | _ \<Rightarrow> Inl (translated_error ''invalid_service_source''))"

definition service_device_id :: "service_call \<Rightarrow> string res" where
  "service_device_id call =
     (case dget (sc_data call) ''device_id'' of
        PStr s \<Rightarrow> if nonblank s then Inr (py_strip s) else Inl (translated_error ''missing_device_id'')
      | _ \<Rightarrow> Inl (translated_error ''missing_device_id''))"

text \<open>\<open>data[key]\<close>.\<close>

definition item_of :: "pydict \<Rightarrow> string \<Rightarrow> pyval res" where
  "item_of d k = (if dhas d k then Inr (dget d k) else Inl KeyErr)"

definition aware_timestamp :: "service_env \<Rightarrow> pyval \<Rightarrow> rat res" where
  "aware_timestamp env value =
     rbind (v_datetime env value) (\<lambda>(aware, t).
       if \<not> aware then Inl (translated_error ''expires_at must include a timezone'') else Inr t)"

definition absolute_intent_deadline :: "service_env \<Rightarrow> pyval \<Rightarrow> pyfloat res" where
  "absolute_intent_deadline env value =
     (if is_number value
      then rbind (if is_bool value then Inr False else py_isfinite value) (\<lambda>finite.
             if \<not> finite then Inl (translated_error ''expires_at must be a finite UTC timestamp'')
             else py_float value)
      else rbind (aware_timestamp env value) (\<lambda>t. Inr (Fin t)))"

text \<open>Adding to a finite clock, and \<open>min(a, b)\<close>.\<close>

definition add_time :: "rat \<Rightarrow> pyfloat \<Rightarrow> pyfloat" where
  "add_time now f = (case f of Fin x \<Rightarrow> Fin (now + x) | _ \<Rightarrow> f)"

definition py_min :: "pyfloat \<Rightarrow> pyfloat \<Rightarrow> pyfloat" where
  "py_min a b = (if b < a then b else a)"

definition restore_intent_deadline :: "service_env \<Rightarrow> rat \<Rightarrow> pydict \<Rightarrow> pyfloat res" where
  "restore_intent_deadline env now data =
     rbind (py_float (dget_or data ''ttl'' (PInt 86400))) (\<lambda>ttl.
       if \<not> dhas data ''expires_at'' then Inr (add_time now ttl)
       else rbind (absolute_intent_deadline env (dget data ''expires_at'')) (\<lambda>absolute.
              Inr (py_min (add_time now ttl) absolute)))"

section \<open>Handlers\<close>

definition service_force_evaluate :: "service_env \<Rightarrow> service_call \<Rightarrow> handler" where
  "service_force_evaluate env call =
     thn (service_runtime (reported ''evaluation_failed'' async_force_evaluate))
       (sync_repair_issues_for_runtime env)"

definition service_set_mode :: "service_env \<Rightarrow> service_call \<Rightarrow> handler" where
  "service_set_mode env call =
     (let mode = dget (sc_data call) ''mode''
      in bnd (lift (in_modes mode)) (\<lambda>known.
           if \<not> known then raise (translated_error ''invalid_service_mode'')
           else thn (service_runtime (reported ''mode_change_failed'' (async_set_mode (the_str mode))))
                  (sync_repair_issues_for_runtime env)))"

definition service_request_stop :: "service_env \<Rightarrow> service_call \<Rightarrow> handler" where
  "service_request_stop env call =
     bnd (lift (service_source call)) (\<lambda>(source, actor, context).
       thn (service_runtime (reported ''stop_request_failed''
              (bnd (lift (service_device_id call)) (\<lambda>i. thn (async_request_stop i source actor context) skip))))
         (sync_repair_issues_for_runtime env))"

definition service_set_request :: "service_env \<Rightarrow> service_call \<Rightarrow> handler" where
  "service_set_request env call =
     (let data = sc_data call in
      bnd (lift (service_source call)) (\<lambda>(source, actor, context).
      bnd (lift (item_of data ''expires_at'')) (\<lambda>v.
      bnd (lift (aware_timestamp env v)) (\<lambda>t.
        service_runtime
          (bnd (lift (item_of data ''device_id'')) (\<lambda>i.
           bnd (lift (item_of data ''active'')) (\<lambda>active.
           bnd (lift (item_of data ''permit_entity'')) (\<lambda>permit.
             async_set_request (the_str i) source (active = PBool True) (PFloat (Fin t)) permit))))))))"

definition expected_intent :: "pydict \<Rightarrow> pydict option" where
  "expected_intent data = (case dget data ''expected_intent'' of PDict d \<Rightarrow> Some d | _ \<Rightarrow> None)"

definition service_set_restore_intent :: "service_env \<Rightarrow> service_call \<Rightarrow> handler" where
  "service_set_restore_intent env call =
     (let data = sc_data call in
      bnd (lift (service_source call)) (\<lambda>(source, actor, context).
        service_runtime (look (\<lambda>w.
          bnd (lift (item_of data ''device_id'')) (\<lambda>i.
          bnd (lift (item_of data ''active'')) (\<lambda>active.
          bnd (lift (restore_intent_deadline env (w_now w) data)) (\<lambda>deadline.
            async_set_restore_intent (the_str i) source (active = PBool True) (PFloat deadline)
              (dget data ''permit_entity'') (dget data ''request_entity'') (dget data ''request_data'')
              (expected_intent data))))))))"

definition service_cancel_restore :: "service_env \<Rightarrow> service_call \<Rightarrow> handler" where
  "service_cancel_restore env call =
     service_runtime (bnd (lift (service_device_id call)) (\<lambda>i. thn (async_cancel_restore i) skip))"

definition service_clear_fault :: "service_env \<Rightarrow> service_call \<Rightarrow> handler" where
  "service_clear_fault env call =
     service_runtime (bnd async_clear_fault (\<lambda>cleared.
       if cleared then skip else raise (translated_error ''fault_clear_failed'')))"

definition service_clear_quarantine :: "service_env \<Rightarrow> service_call \<Rightarrow> handler" where
  "service_clear_quarantine env call =
     bnd (lift (service_source call)) (\<lambda>(source, actor, context).
       thn (service_runtime (reported ''quarantine_clear_failed''
              (bnd (lift (service_device_id call)) (\<lambda>i. thn (async_clear_quarantine i source actor context) skip))))
         (sync_repair_issues_for_runtime env))"

definition service_handlers :: "(string \<times> (service_env \<Rightarrow> service_call \<Rightarrow> handler)) list" where
  "service_handlers =
     [(''set_request'', service_set_request), (''set_restore_intent'', service_set_restore_intent),
      (''cancel_restore'', service_cancel_restore), (''clear_fault'', service_clear_fault),
      (''force_evaluate'', service_force_evaluate), (''set_mode'', service_set_mode),
      (''request_stop'', service_request_stop), (''clear_quarantine'', service_clear_quarantine)]"

section \<open>Calls are requests\<close>

definition as_request :: "unit action \<Rightarrow> bool" where
  "as_request m \<longleftrightarrow> (\<forall>c. \<exists>rs. length rs \<le> 1 \<and> list_all no_recovery rs \<and> final m c = run_requests rs c)"

lemma one_request: "no_recovery r \<Longrightarrow> (\<And>c. final m c = perform r c) \<Longrightarrow> as_request m"
  unfolding as_request_def by (intro allI, rule exI [of _ "[r]"]) (simp add: run_requests_def)

lemma as_request_raise: "as_request (raise e)"
  unfolding as_request_def by (intro allI, rule exI [of _ "[]"]) (simp add: final_def run_requests_def)

lemma as_request_lift: "(\<And>x. as_request (f x)) \<Longrightarrow> as_request (bnd (lift r) f)"
  using as_request_raise by (cases r) (simp_all add: bnd_def as_request_def final_def)

lemma as_request_look: "(\<And>w. as_request (f w)) \<Longrightarrow> as_request (look f)"
  by (simp add: as_request_def final_def)

lemma final_reported [simp]: "final (reported key m) c = final m c"
  by (cases "m c"; cases "fst (m c)") (simp_all add: final_def reported_def try_except_def)

lemma as_request_reported: "as_request m \<Longrightarrow> as_request (reported key m)"
  by (simp add: as_request_def)

lemma final_then_skip [simp]: "final (thn m skip) c = final m c"
  by (cases "m c"; cases "fst (m c)") (simp_all add: final_def thn_def bnd_def)

lemma final_cleared: "final (bnd m (\<lambda>b. if b then skip else raise e)) c = final m c"
  by (cases "m c"; cases "fst (m c)") (simp_all add: final_def bnd_def)

named_theorems service_rules

lemma operations_are_requests [service_rules]:
  "as_request async_force_evaluate" "as_request (async_set_mode v)"
  "as_request (thn (async_request_stop i s a x) skip)" "as_request (thn (async_clear_quarantine i s a x) skip)"
  "as_request (thn (async_cancel_restore i) skip)" "as_request (async_set_restore_intent i s b d p e y z)"
  "as_request (async_set_request i s b d p)"
  "as_request (bnd async_clear_fault (\<lambda>b. if b then skip else raise err))"
  by (rule one_request [of ForceEvaluate] one_request [of "SetMode v"] one_request [of "RequestStop i s a x"]
      one_request [of "ClearQuarantine i s a x"] one_request [of "CancelRestore i"]
      one_request [of "SetIntent i s b d p e y z"] one_request [of "SetIntent i s b d p PNone PNone None"]
      one_request [of ClearFault]; simp add: async_set_request_def final_cleared)+

text \<open>What a call may do to the one loaded runtime, and to a site without exactly one.\<close>

definition serves :: "handler \<Rightarrow> bool" where
  "serves m \<longleftrightarrow> (\<forall>h.
     h_attached (snd (m h)) = h_attached h \<and> h_reserved (snd (m h)) = h_reserved h
     \<and> h_services (snd (m h)) = h_services h
     \<and> (\<forall>e c. h_runtimes h = [(e, c)] \<longrightarrow>
          (\<exists>rs. length rs \<le> 1 \<and> list_all no_recovery rs \<and> h_runtimes (snd (m h)) = [(e, run_requests rs c)]))
     \<and> (length (h_runtimes h) \<noteq> 1 \<longrightarrow> snd (m h) = h \<and> (\<exists>x. fst (m h) = Inl x)))"

lemma service_runtime_sole:
  "h_runtimes h = [(e, c)] \<Longrightarrow> service_runtime m h = (fst (m c), h\<lparr>h_runtimes := [(e, final m c)]\<rparr>)"
  by (simp add: service_runtime_def final_def split: prod.split)

lemma service_runtime_none: "length (h_runtimes h) \<noteq> 1 \<Longrightarrow> service_runtime m h = (Inl (translated_error ''entry_not_unique''), h)"
  by (auto simp: service_runtime_def split: list.split)

lemma serves_runtime: "as_request m \<Longrightarrow> serves (service_runtime m)"
  unfolding serves_def
proof (intro allI)
  fix h
  assume m: "as_request m"
  show "h_attached (snd (service_runtime m h)) = h_attached h \<and> h_reserved (snd (service_runtime m h)) = h_reserved h
     \<and> h_services (snd (service_runtime m h)) = h_services h
     \<and> (\<forall>e c. h_runtimes h = [(e, c)] \<longrightarrow> (\<exists>rs. length rs \<le> 1 \<and> list_all no_recovery rs
          \<and> h_runtimes (snd (service_runtime m h)) = [(e, run_requests rs c)]))
     \<and> (length (h_runtimes h) \<noteq> 1 \<longrightarrow> snd (service_runtime m h) = h \<and> (\<exists>x. fst (service_runtime m h) = Inl x))"
  proof (cases "length (h_runtimes h) = 1")
    case True
    then obtain e c where sole: "h_runtimes h = [(e, c)]" by (auto simp: length_Suc_conv)
    from m obtain rs where "length rs \<le> 1" "list_all no_recovery rs" "final m c = run_requests rs c"
      unfolding as_request_def by blast
    with sole show ?thesis by (auto simp: service_runtime_sole)
  next
    case False
    then show ?thesis by (auto simp: service_runtime_none)
  qed
qed

lemma serves_sync:
  assumes "serves m"
  shows "serves (thn m (sync_repair_issues_for_runtime env))"
proof -
  let ?k = "sync_repair_issues_for_runtime env"
  have k: "h_runtimes (snd (?k h)) = h_runtimes h" "h_attached (snd (?k h)) = h_attached h"
    "h_reserved (snd (?k h)) = h_reserved h" "h_services (snd (?k h)) = h_services h" for h
    by (auto simp: sync_repair_issues_for_runtime_def split: list.split)
  have run: "thn m ?k h = (case m h of (Inl e, h') \<Rightarrow> (Inl e, h') | (Inr x, h') \<Rightarrow> ?k h')" for h
    by (simp add: thn_def bnd_def)
  show ?thesis
    unfolding serves_def
  proof (intro allI)
    fix h
    obtain r h' where m: "m h = (r, h')" by force
    with assms have "h_attached h' = h_attached h" "h_reserved h' = h_reserved h" "h_services h' = h_services h"
      "\<forall>e c. h_runtimes h = [(e, c)] \<longrightarrow>
          (\<exists>rs. length rs \<le> 1 \<and> list_all no_recovery rs \<and> h_runtimes h' = [(e, run_requests rs c)])"
      "length (h_runtimes h) \<noteq> 1 \<longrightarrow> h' = h \<and> (\<exists>x. r = Inl x)"
      unfolding serves_def by (metis fst_conv snd_conv)+
    then show "h_attached (snd (thn m ?k h)) = h_attached h \<and> h_reserved (snd (thn m ?k h)) = h_reserved h
     \<and> h_services (snd (thn m ?k h)) = h_services h
     \<and> (\<forall>e c. h_runtimes h = [(e, c)] \<longrightarrow> (\<exists>rs. length rs \<le> 1 \<and> list_all no_recovery rs
          \<and> h_runtimes (snd (thn m ?k h)) = [(e, run_requests rs c)]))
     \<and> (length (h_runtimes h) \<noteq> 1 \<longrightarrow> snd (thn m ?k h) = h \<and> (\<exists>x. fst (thn m ?k h) = Inl x))"
      using m k by (cases r) (auto simp: run)
  qed
qed

lemma serves_raise: "serves (raise e)"
  unfolding serves_def by (intro allI conjI impI) (auto intro: exI [of _ "[]"] simp: run_requests_def)

lemma serves_lift: "(\<And>x. serves (f x)) \<Longrightarrow> serves (bnd (lift r) f)"
  using serves_raise by (cases r) (simp_all add: bnd_def serves_def)

lemma serves_prod: "(\<And>x y. serves (f x y)) \<Longrightarrow> serves (case p of (x, y) \<Rightarrow> f x y)"
  by (cases p) simp

lemma serves_if: "serves m \<Longrightarrow> serves k \<Longrightarrow> serves (if b then m else k)"
  by simp

lemmas serve_rules = serves_lift serves_sync serves_runtime serves_raise serves_prod serves_if
  as_request_reported as_request_lift as_request_look

lemma handlers_serve: "(name, handler) \<in> set service_handlers \<Longrightarrow> serves (handler env call)"
proof -
  have "serves (service_force_evaluate env call)" "serves (service_set_mode env call)"
    "serves (service_request_stop env call)" "serves (service_set_request env call)"
    "serves (service_set_restore_intent env call)" "serves (service_cancel_restore env call)"
    "serves (service_clear_fault env call)" "serves (service_clear_quarantine env call)"
    unfolding service_force_evaluate_def service_set_mode_def service_request_stop_def service_set_request_def
      service_set_restore_intent_def service_cancel_restore_def service_clear_fault_def
      service_clear_quarantine_def Let_def
    by (intro serve_rules service_rules)+
  then show "(name, handler) \<in> set service_handlers \<Longrightarrow> ?thesis"
    by (auto simp: service_handlers_def)
qed

text \<open>C32. The services are the controller's operations and nothing more: whichever handler runs with
  whatever call, fails or not, the one loaded controller ends in the state some single request of
  the controller leaves (or is untouched), which is never a recovery; lifecycle data do not change;
  and unless exactly one controller is loaded the call fails and changes nothing. So whatever
  holds along runs of requests holds along service calls.\<close>

theorem services_are_requests:
  assumes "(name, handler) \<in> set service_handlers" and "handler env call h = (r, h')"
  shows "h_attached h' = h_attached h \<and> h_reserved h' = h_reserved h \<and> h_services h' = h_services h
    \<and> (\<forall>e c. h_runtimes h = [(e, c)] \<longrightarrow>
         (\<exists>rs. length rs \<le> 1 \<and> list_all no_recovery rs \<and> h_runtimes h' = [(e, run_requests rs c)]))
    \<and> (length (h_runtimes h) \<noteq> 1 \<longrightarrow> h' = h \<and> (\<exists>x. r = Inl x))"
  using handlers_serve [OF assms(1), of env call] assms(2) unfolding serves_def by (metis fst_conv snd_conv)

section \<open>Deadlines\<close>

lemma absolute_deadline_finite:
  assumes "absolute_intent_deadline env v = Inr f"
  shows "\<exists>x. f = Fin x"
proof (cases "is_number v")
  case True
  with assms have "py_isfinite v = Inr True" "py_float v = Inr f"
    by (auto simp: absolute_intent_deadline_def rbind_Inr_iff split: if_splits)
  with True show ?thesis
    by (cases v; cases f) (auto simp: py_isfinite_def rbind_Inr_iff)
next
  case False
  with assms show ?thesis by (auto simp: absolute_intent_deadline_def rbind_Inr_iff)
qed

text \<open>An absolute expiry may shorten, never extend, the bounded time to live: the deadline of an
  intent is the time to live from now, or the absolute expiry where that is earlier, and always a
  finite time.\<close>

theorem restore_deadline_exact:
  assumes "restore_intent_deadline env now data = Inr d"
    and "py_float (dget_or data ''ttl'' (PInt 86400)) = Inr (Fin ttl)"
  shows "\<exists>x. d = Fin x \<and> x \<le> now + ttl
    \<and> (if dhas data ''expires_at''
       then \<exists>a. absolute_intent_deadline env (dget data ''expires_at'') = Inr (Fin a) \<and> x = min (now + ttl) a
       else x = now + ttl)"
proof (cases "dhas data ''expires_at''")
  case True
  with assms obtain f where f: "absolute_intent_deadline env (dget data ''expires_at'') = Inr f"
    "d = py_min (Fin (now + ttl)) f"
    by (auto simp: restore_intent_deadline_def add_time_def rbind_Inr_iff)
  obtain a where "f = Fin a" using absolute_deadline_finite [OF f(1)] by blast
  with f True show ?thesis by (auto simp: py_min_def min_def)
next
  case False
  with assms show ?thesis by (simp add: restore_intent_deadline_def add_time_def)
qed

definition demo_service_env :: service_env where
  "demo_service_env = \<lparr>v_digest = id, v_datetime = (\<lambda>v. Inr (True, 5000)), v_published = (\<lambda>c. None), v_fails = None\<rparr>"

definition demo_site :: service_site where
  "demo_site = \<lparr>h_runtimes = [(''entry'', demo_coord)], h_attached = {''entry''}, h_reserved = {}, h_services = True,
     s_book = \<lparr>b_issues = {}, b_previous = []\<rparr>\<rparr>"

theorem services_are_requests_witness:
  "\<exists>rs. length rs \<le> 1 \<and> list_all no_recovery rs
     \<and> h_runtimes (snd (service_set_mode demo_service_env
           \<lparr>sc_data = [(''mode'', PStr ''off'')], sc_user = PNone, sc_context = PNone\<rparr> demo_site))
       = [(''entry'', run_requests rs demo_coord)]"
proof -
  let ?call = "\<lparr>sc_data = [(''mode'', PStr ''off'')], sc_user = PNone, sc_context = PNone\<rparr>"
  obtain r h' where run: "service_set_mode demo_service_env ?call demo_site = (r, h')" by force
  have "(''set_mode'', service_set_mode) \<in> set service_handlers" by (simp add: service_handlers_def)
  from services_are_requests [OF this run] run show ?thesis by (simp add: demo_site_def)
qed

theorem restore_deadline_exact_witness:
  "restore_intent_deadline demo_service_env 1000 [(''ttl'', PInt 86400), (''expires_at'', PInt 3000)] = Inr (Fin 3000)"
proof -
  let ?d = "[(''ttl'', PInt 86400), (''expires_at'', PInt 3000)]"
  have f: "py_float (PInt 3000) = Inr (Fin 3000)" "py_float (PInt 86400) = Inr (Fin 86400)"
    by (simp_all add: int_to_float_def float_overflow_def)
  have a: "absolute_intent_deadline demo_service_env (PInt 3000) = Inr (Fin 3000)"
    using f(1) by (simp add: absolute_intent_deadline_def py_isfinite_def del: py_float.simps)
  then obtain d where d: "restore_intent_deadline demo_service_env 1000 ?d = Inr d"
    using f(2) by (simp add: restore_intent_deadline_def dget_def dget_or_def dhas_def del: py_float.simps)
  moreover have "py_float (dget_or ?d ''ttl'' (PInt 86400)) = Inr (Fin 86400)"
    using f(2) by (simp add: dget_or_def del: py_float.simps)
  ultimately show ?thesis
    using restore_deadline_exact [OF d, of 86400] a by (auto simp: dhas_def dget_def)
qed

end
