(* ===== verification/Migration.thy ===== *)
theory Migration
  imports Flow_Options
begin

text \<open>
  \<open>async_migrate_entry\<close> of \<open>__init__.py\<close>: a stored entry is brought to the current schema. Thresholds
  are derived from whatever keys the data and options hold and written back as a list; fields
  and device keys the schema does not know are removed.
\<close>

section \<open>Equality of configuration values\<close>

text \<open>
  \<open>==\<close> of Python on the values of a configuration: numbers compare across types, dicts without
  regard to order. A NaN is the same object on both sides wherever migration compares it, and
  the same object counts as equal inside a container.
\<close>

fun py_eq :: "pyval \<Rightarrow> pyval \<Rightarrow> bool" where
  "py_eq (PList xs) (PList ys) = list_all2 py_eq xs ys"
| "py_eq (PTuple xs) (PTuple ys) = list_all2 py_eq xs ys"
| "py_eq (PDict d) (PDict e) =
     (length d = length e
      \<and> list_all (\<lambda>kv. case map_of e (fst kv) of None \<Rightarrow> False | Some w \<Rightarrow> py_eq (snd kv) w) d)"
| "py_eq PNone PNone = True"
| "py_eq (PStr s) (PStr t) = (s = t)"
| "py_eq v w = (is_number v \<and> is_number w \<and> num_val v = num_val w)"

section \<open>Cleaning\<close>

definition migration_allowed_keys :: "string list" where
  "migration_allowed_keys =
     [''averaging_period'', ''battery_soc'', ''battery_threshold'', ''devices'', ''grid_loss_mode'',
      ''grid_loss_sensor'', ''load_sensor'', ''pause_period'', ''thresholds'',
      ''reconfiguration_required'', ''policy_version'']"

definition migration_allowed_device_keys :: "string list" where
  "migration_allowed_device_keys =
     [''device_id'', ''name'', ''entity'', ''expected_power'', ''power_sensor'', ''actuators'',
      ''command_entity'', ''readback_entities'', ''emergency_off_entities'', ''battery_min_soc'',
      ''priority'', ''shed_priority'']"

definition only_keys :: "string list \<Rightarrow> pydict \<Rightarrow> pydict" where
  "only_keys allowed d = filter (\<lambda>kv. fst kv \<in> set allowed) d"

definition tier_pair :: "threshold_tier \<Rightarrow> threshold_pair" where
  "tier_pair t = (limit_w t, duration_s t)"

definition migrated_thresholds ::
  "pydict \<Rightarrow> pydict \<Rightarrow> threshold_tier list option \<Rightarrow> pydict \<times> pydict" where
  "migrated_thresholds data options tiers =
     (case tiers of
        None \<Rightarrow> (AList.update ''reconfiguration_required'' (PBool True) data, options)
      | Some ts \<Rightarrow> (AList.update ''thresholds'' (thresholds_value (map tier_pair ts)) data,
                    AList.delete ''thresholds'' options))"

definition clean_migration_payload :: "pydict \<Rightarrow> bool \<Rightarrow> pydict" where
  "clean_migration_payload payload keep_reconfigure =
     (let cleaned = only_keys migration_allowed_keys
                      (strip_legacy_policy_fields (only_keys migration_allowed_keys payload))
      in if keep_reconfigure then cleaned
         else AList.delete ''reconfiguration_required'' (AList.delete ''thresholds'' cleaned))"

definition clean_migration_devices :: "pydict \<Rightarrow> pydict" where
  "clean_migration_devices payload =
     (case dget payload ''devices'' of
        PList xs \<Rightarrow>
          AList.update ''devices'' (PList (map (\<lambda>v. PDict (only_keys migration_allowed_device_keys (the_dict v)))
              (filter is_dict xs))) payload
      | _ \<Rightarrow> payload)"

section \<open>Migration\<close>

text \<open>
  A stored entry: data, options and schema version, None where the attributes are missing. The
  updater of Home Assistant stores what it is given.
\<close>

record stored_entry = flow_entry +
  e_version :: "(int \<times> int) option"

definition merged :: "'a flow_entry_scheme \<Rightarrow> pydict" where
  "merged e = dict_merge (e_data e) (e_options e)"

definition set_required :: "bool \<Rightarrow> pydict \<Rightarrow> pydict" where
  "set_required required data =
     (if required then AList.update ''reconfiguration_required'' (PBool True) data
      else AList.delete ''reconfiguration_required'' data)"

definition migrated :: "stored_entry \<Rightarrow> threshold_tier list option \<Rightarrow> stored_entry" where
  "migrated e tiers =
     (case migrated_thresholds (e_data e) (e_options e) tiers of
        (data, options) \<Rightarrow>
          \<lparr>e_data = clean_migration_devices
             (set_required (tiers = None) (clean_migration_payload data True)),
           e_options = clean_migration_devices (clean_migration_payload options False),
           e_version = Some (2, 4)\<rparr>)"

definition async_migrate_entry :: "stored_entry \<Rightarrow> stored_entry res" where
  "async_migrate_entry e =
     rbind (derive_thresholds_from_mapping (merged e)) (\<lambda>tiers.
       let m = migrated e tiers
       in Inr (if \<not> py_eq (PDict (e_data m)) (PDict (e_data e))
                  \<or> \<not> py_eq (PDict (e_options m)) (PDict (e_options e))
                  \<or> e_version e \<noteq> Some (2, 4)
               then m else e))"

section \<open>Cleaned payloads\<close>

lemma map_of_only_keys: "map_of (only_keys ks d) k = (if k \<in> set ks then map_of d k else None)"
  unfolding only_keys_def by (induction d) auto

lemma dget_only_keys [simp]: "dget (only_keys ks d) k = (if k \<in> set ks then dget d k else PNone)"
  by (simp add: dget_def map_of_only_keys)

lemma dget_or_only_keys [simp]: "k \<in> set ks \<Longrightarrow> dget_or (only_keys ks d) k v = dget_or d k v"
  by (simp add: dget_or_def map_of_only_keys)

lemma keys_only_keys [simp]: "set (map fst (only_keys ks d)) = set (map fst d) \<inter> set ks"
  by (auto simp: only_keys_def)

lemma fst_only_keys [simp]: "fst ` set (only_keys ks d) = fst ` set d \<inter> set ks"
  by (auto simp: only_keys_def image_iff)

lemma only_keys_idem [simp]: "only_keys ks (only_keys ks d) = only_keys ks d"
  by (simp add: only_keys_def)

lemma only_keys_id: "set (map fst d) \<subseteq> set ks \<Longrightarrow> only_keys ks d = d"
  unfolding only_keys_def by (intro filter_True) auto

lemma distinct_only_keys [simp]: "distinct (map fst d) \<Longrightarrow> distinct (map fst (only_keys ks d))"
  unfolding only_keys_def by (induction d) auto

lemma strip_allowed: "strip_legacy_policy_fields (only_keys migration_allowed_keys d) = only_keys migration_allowed_keys d"
  unfolding strip_legacy_policy_fields_def
  by (intro filter_True)
    (auto simp: only_keys_def migration_allowed_keys_def legacy_policy_fields_def)

lemma clean_payload:
  "clean_migration_payload p True = only_keys migration_allowed_keys p"
  "clean_migration_payload p False =
     AList.delete ''reconfiguration_required'' (AList.delete ''thresholds'' (only_keys migration_allowed_keys p))"
  by (simp_all add: clean_migration_payload_def strip_allowed Let_def)

lemma update_same: "map_of d k = Some v \<Longrightarrow> AList.update k v d = d"
  by (induction d) (auto split: if_splits)

lemma update_same_dget: "dget d k = v \<Longrightarrow> dhas d k \<Longrightarrow> AList.update k v d = d"
  by (rule update_same) (auto simp: dget_def dhas_iff split: option.splits)

lemma delete_absent: "k \<notin> set (map fst d) \<Longrightarrow> AList.delete k d = d"
  by (induction d) auto

lemma keys_delete: "set (map fst (AList.delete k d)) = set (map fst d) - {k}"
  by (auto simp: map_fst_delete)

definition device_clean :: "pyval \<Rightarrow> bool" where
  "device_clean v \<longleftrightarrow> is_dict v \<and> set (map fst (the_dict v)) \<subseteq> set migration_allowed_device_keys"

definition devices_clean :: "pyval \<Rightarrow> bool" where
  "devices_clean v \<longleftrightarrow> (case v of PList xs \<Rightarrow> list_all device_clean xs | _ \<Rightarrow> True)"

definition clean_devices_value :: "pyval \<Rightarrow> pyval" where
  "clean_devices_value v =
     (case v of
        PList xs \<Rightarrow> PList (map (\<lambda>v. PDict (only_keys migration_allowed_device_keys (the_dict v))) (filter is_dict xs))
      | _ \<Rightarrow> v)"

lemma is_dict_the [simp]: "is_dict v \<Longrightarrow> PDict (the_dict v) = v"
  by (cases v) simp_all

lemma clean_devices_clean [simp]: "devices_clean (clean_devices_value v)"
  by (cases v) (simp_all add: devices_clean_def clean_devices_value_def device_clean_def list_all_iff)

lemma clean_devices_fix: "devices_clean v \<Longrightarrow> clean_devices_value v = v"
proof (cases v)
  case (PList xs)
  assume "devices_clean v"
  with PList have all: "list_all device_clean xs" by (simp add: devices_clean_def)
  then have "filter is_dict xs = xs" by (auto simp: filter_id_conv list_all_iff device_clean_def)
  moreover have "map (\<lambda>v. PDict (only_keys migration_allowed_device_keys (the_dict v))) xs = xs"
    using all by (intro map_idI) (auto simp: list_all_iff device_clean_def only_keys_id)
  ultimately show ?thesis by (simp add: PList clean_devices_value_def)
qed (simp_all add: clean_devices_value_def)

lemma clean_devices_dget:
  "dget (clean_migration_devices p) k = (if k = ''devices'' then clean_devices_value (dget p k) else dget p k)"
  by (simp add: clean_migration_devices_def clean_devices_value_def split: pyval.split)

lemma clean_devices_keys [simp]: "map fst (clean_migration_devices p) = map fst p"
  using dhas_present [of p "''devices''"]
  by (auto simp: clean_migration_devices_def map_fst_update dhas_def split: pyval.split)

lemma clean_devices_id:
  assumes "devices_clean (dget p ''devices'')"
  shows "clean_migration_devices p = p"
proof (cases "dget p ''devices''")
  case (PList xs)
  then have "dhas p ''devices''" by (intro dhas_present) simp
  moreover have "dget p ''devices'' = clean_devices_value (dget p ''devices'')"
    using assms by (simp add: clean_devices_fix)
  ultimately show ?thesis
    using PList by (simp add: clean_migration_devices_def clean_devices_value_def update_same_dget)
qed (simp_all add: clean_migration_devices_def)

section \<open>What a migrated entry holds\<close>

definition pairs_of :: "threshold_tier list \<Rightarrow> threshold_pair list" where
  "pairs_of ts = map tier_pair ts"

lemma tiers_pairs: "strictly_increasing_from a ts \<Longrightarrow> list_all tier_ok ts \<Longrightarrow> valid_pairs a (pairs_of ts)"
  by (induction a ts rule: strictly_increasing_from.induct)
    (auto simp: pairs_of_def tier_pair_def tier_ok_def split: if_splits)

lemma pairs_custom: "pairs_of (custom_tiers ps) = ps"
proof -
  have "tier_pair (custom_tier i p) = p" for i p by (simp add: tier_pair_def custom_tier_def)
  then have "pairs_of (custom_tiers ps) = map snd (zip [1 ..< 1 + length ps] ps)"
    by (simp add: pairs_of_def custom_tiers_def case_prod_beta o_def)
  then show ?thesis by (simp del: upt_Suc)
qed

lemma derive_length:
  assumes "derive_thresholds_from_mapping data = Inr (Some ts)"
  shows "length ts \<le> MAX_CUSTOM_THRESHOLDS"
proof -
  from assms consider xs where "submitted_thresholds xs = Inr (Some ts)"
    | "legacy_named_thresholds data = Inr (Some ts)" | t where "ts = [t]"
    by (auto simp: derive_thresholds_from_mapping_def or_else_Some_iff obind_Some_iff rbind_Inr_iff
        split: pyval.split_asm)
  then show ?thesis
  proof cases
    case 1
    then show ?thesis using submitted_thresholds_ok [of xs ts]
      by (auto simp: submitted_thresholds_def split: if_splits)
  next
    case 2
    then have "legacy_tiers_from data 0 legacy_keys = Inr (Some ts)"
      by (auto simp: legacy_named_thresholds_def obind_Some_iff split: if_splits)
    from legacy_tiers_from_ok [OF this]
    have "length (map tier_id ts) \<le> length (map (\<lambda>(_, _, tid, _). tid) legacy_keys)"
      by (blast dest: list_emb_length)
    then show ?thesis by (simp add: legacy_keys_def MAX_CUSTOM_THRESHOLDS_def)
  next
    case 3
    then show ?thesis by (simp add: MAX_CUSTOM_THRESHOLDS_def)
  qed
qed

lemma derived_pairs_ok:
  "derive_thresholds_from_mapping data = Inr (Some ts) \<Longrightarrow> pairs_ok (pairs_of ts) \<and> pairs_of ts \<noteq> []"
  using derive_thresholds_ok [of data ts] derive_length [of data ts] tiers_pairs [of 0 ts]
  by (auto simp: tiers_ok_def pairs_ok_def pairs_of_def)

text \<open>The data and options of an entry are dicts.\<close>

definition entry_dicts :: "'a flow_entry_scheme \<Rightarrow> bool" where
  "entry_dicts e \<longleftrightarrow> distinct (map fst (e_data e)) \<and> distinct (map fst (e_options e))"

lemma migrated_data:
  "e_data (migrated e tiers) = clean_migration_devices (set_required (tiers = None)
     (only_keys migration_allowed_keys (fst (migrated_thresholds (e_data e) (e_options e) tiers))))"
  "e_options (migrated e tiers) = clean_migration_devices (AList.delete ''reconfiguration_required''
     (AList.delete ''thresholds'' (only_keys migration_allowed_keys
        (snd (migrated_thresholds (e_data e) (e_options e) tiers)))))"
  "e_version (migrated e tiers) = Some (2, 4)"
  by (simp_all add: migrated_def clean_payload split: prod.split)

definition cleaned :: "string \<Rightarrow> pyval \<Rightarrow> pyval" where
  "cleaned k v = (if k = ''devices'' then clean_devices_value v else v)"

lemma cleaned_None [simp]: "cleaned k PNone = PNone"
  by (simp add: cleaned_def clean_devices_value_def)

lemma clean_devices_None [simp]: "clean_devices_value PNone = PNone"
  by (simp add: clean_devices_value_def)

lemma required_allowed: "''reconfiguration_required'' \<in> set migration_allowed_keys"
  "''thresholds'' \<in> set migration_allowed_keys" "''devices'' \<in> set migration_allowed_keys"
  by (simp_all add: migration_allowed_keys_def)

lemma migrated_data_get:
  "dget (e_data (migrated e tiers)) k =
     (if k = ''reconfiguration_required'' then (if tiers = None then PBool True else PNone)
      else if k \<notin> set migration_allowed_keys then PNone
      else case tiers of
             Some ts \<Rightarrow> if k = ''thresholds'' then thresholds_value (pairs_of ts) else cleaned k (dget (e_data e) k)
           | None \<Rightarrow> cleaned k (dget (e_data e) k))"
  by (auto simp: migrated_data clean_devices_dget set_required_def migrated_thresholds_def cleaned_def
      required_allowed pairs_of_def split: option.split)

lemma migrated_options_get:
  "dget (e_options (migrated e tiers)) k =
     (if k = ''reconfiguration_required'' \<or> k = ''thresholds'' \<or> k \<notin> set migration_allowed_keys then PNone
      else cleaned k (dget (e_options e) k))"
  by (simp add: migrated_data clean_devices_dget migrated_thresholds_def cleaned_def required_allowed
      split: option.split)

lemma migrated_options_has:
  "dhas (e_options (migrated e tiers)) k \<longleftrightarrow>
     dhas (e_options e) k \<and> k \<in> set migration_allowed_keys \<and> k \<noteq> ''thresholds'' \<and> k \<noteq> ''reconfiguration_required''"
  by (auto simp: migrated_data dhas_def migrated_thresholds_def keys_delete simp del: set_map split: option.split)

lemma migrated_data_has:
  "dhas (e_data (migrated e tiers)) k \<Longrightarrow>
     k \<in> set migration_allowed_keys \<and> (k = ''reconfiguration_required'' \<longrightarrow> tiers = None)"
  by (auto simp: migrated_data dhas_def migrated_thresholds_def set_required_def keys_delete map_fst_update
      required_allowed simp del: set_map split: option.split_asm if_split_asm)

lemma migrated_dicts: "entry_dicts e \<Longrightarrow> entry_dicts (migrated e tiers)"
  by (auto simp: entry_dicts_def migrated_data migrated_thresholds_def set_required_def
      intro!: distinct_delete distinct_update distinct_only_keys split: option.split)

lemma merged_get:
  "entry_dicts e \<Longrightarrow> dget (merged e) k = (if dhas (e_options e) k then dget (e_options e) k else dget (e_data e) k)"
  by (simp add: merged_def entry_dicts_def dget_merge)

lemma merged_migrated_get:
  assumes "entry_dicts e" "k \<in> set migration_allowed_keys" "k \<noteq> ''thresholds''" "k \<noteq> ''reconfiguration_required''"
  shows "dget (merged (migrated e tiers)) k = cleaned k (dget (merged e) k)"
  using assms
  by (simp add: merged_get migrated_dicts migrated_options_has migrated_options_get migrated_data_get
      split: option.split)

lemma merged_migrated_absent:
  "k \<notin> set migration_allowed_keys \<Longrightarrow> \<not> dhas (merged (migrated e tiers)) k"
  using migrated_data_has [of e tiers k] by (auto simp: merged_def dhas_merge migrated_options_has)

lemma dget_absent: "\<not> dhas d k \<Longrightarrow> dget d k = PNone"
  using dhas_present by blast

text \<open>Only the list of thresholds is left to derive from.\<close>

lemma no_legacy_derive:
  assumes "\<And>k. k \<notin> set migration_allowed_keys \<Longrightarrow> \<not> dhas d k"
  shows "derive_thresholds_from_mapping d =
    (case dget d ''thresholds'' of PList xs \<Rightarrow> submitted_thresholds xs
     | PTuple xs \<Rightarrow> submitted_thresholds xs | _ \<Rightarrow> Inr None)"
proof -
  have "\<not> list_ex (\<lambda>(lk, _). dhas d lk) legacy_keys"
    by (simp add: legacy_keys_def assms migration_allowed_keys_def)
  then have "legacy_named_thresholds d = Inr None" by (simp add: legacy_named_thresholds_def)
  moreover have "finite_number (dget d ''max_load'') 1 MAX_POLICY_POWER_W = Inr None"
    using assms [of "''max_load''"]
    by (simp add: dget_absent finite_number_def catch_type_value_def migration_allowed_keys_def)
  moreover have "or_else m (Inr None) = m" for m :: "threshold_tier list option res"
    by (auto simp: or_else_def rbind_def split: sum.split option.split)
  ultimately show ?thesis by (simp add: derive_thresholds_from_mapping_def)
qed

lemma derive_None_submitted:
  "derive_thresholds_from_mapping d = Inr None \<Longrightarrow>
    (case dget d ''thresholds'' of PList xs \<Rightarrow> submitted_thresholds xs
     | PTuple xs \<Rightarrow> submitted_thresholds xs | _ \<Rightarrow> Inr None) = Inr None"
  by (auto simp: derive_thresholds_from_mapping_def or_else_def rbind_def
      split: sum.split_asm option.split_asm)

lemma derive_migrated_Some:
  assumes "entry_dicts e" and "derive_thresholds_from_mapping (merged e) = Inr (Some ts)"
  shows "derive_thresholds_from_mapping (merged (migrated e (Some ts))) = Inr (Some (custom_tiers (pairs_of ts)))"
  using derived_pairs_ok [OF assms(2)]
  by (intro pairs_ok_derive)
    (simp_all add: merged_get migrated_dicts assms(1) migrated_options_has migrated_data_get required_allowed)

lemma derive_migrated_None:
  assumes "entry_dicts e" and "derive_thresholds_from_mapping (merged e) = Inr None"
    and "\<not> dhas (e_options e) ''thresholds''"
  shows "derive_thresholds_from_mapping (merged (migrated e None)) = Inr None"
proof -
  have "dget (merged (migrated e None)) ''thresholds'' = dget (merged e) ''thresholds''"
    using assms(1,3)
    by (simp add: merged_get migrated_dicts migrated_options_has migrated_data_get required_allowed cleaned_def)
  then show ?thesis
    using no_legacy_derive [OF merged_migrated_absent] derive_None_submitted [OF assms(2)] by simp
qed

text \<open>A second pass over a migrated entry rebuilds it.\<close>

lemma clean_devices_again:
  "k \<noteq> ''devices'' \<Longrightarrow> devices_clean (dget (clean_migration_devices p) ''devices'')"
  by (simp add: clean_devices_dget)

lemma migrated_again:
  assumes "tiers = None \<longleftrightarrow> tiers' = None"
    and "\<And>ts ts'. tiers = Some ts \<Longrightarrow> tiers' = Some ts' \<Longrightarrow> pairs_of ts' = pairs_of ts"
  shows "migrated (migrated e tiers) tiers' = migrated e tiers"
proof (rule stored_entry.equality)
  let ?m = "migrated e tiers"
  let ?d = "e_data ?m" and ?o = "e_options ?m"
  have keys: "set (map fst ?d) \<subseteq> set migration_allowed_keys" "set (map fst ?o) \<subseteq> set migration_allowed_keys"
    using migrated_data_has [of e tiers] migrated_options_has [of e tiers] by (auto simp: dhas_def simp del: set_map)
  have clean: "devices_clean (dget ?d ''devices'')" "devices_clean (dget ?o ''devices'')"
    by (simp_all add: migrated_data clean_devices_dget)
  have o: "''thresholds'' \<notin> set (map fst ?o)" "''reconfiguration_required'' \<notin> set (map fst ?o)"
    using migrated_options_has [of e tiers] by (auto simp: dhas_def simp del: set_map)
  have thr: "fst (migrated_thresholds ?d ?o tiers') = ?d" "snd (migrated_thresholds ?d ?o tiers') = ?o"
  proof -
    have "AList.update ''thresholds'' (thresholds_value (pairs_of ts)) ?d = ?d" if "tiers = Some ts" for ts
    proof (rule update_same_dget)
      show *: "dget ?d ''thresholds'' = thresholds_value (pairs_of ts)"
        using that by (simp add: migrated_data_get required_allowed)
      show "dhas ?d ''thresholds''" by (rule dhas_present) (simp add: * thresholds_value_def)
    qed
    moreover have "AList.update ''reconfiguration_required'' (PBool True) ?d = ?d" if "tiers = None"
    proof (rule update_same_dget)
      show *: "dget ?d ''reconfiguration_required'' = PBool True" using that by (simp add: migrated_data_get)
      show "dhas ?d ''reconfiguration_required''" by (rule dhas_present) (simp add: *)
    qed
    note data = calculation this
    have "migrated_thresholds ?d ?o tiers' = (?d, ?o)"
    proof (cases tiers)
      case None
      with assms(1) data(2) show ?thesis by (simp add: migrated_thresholds_def)
    next
      case (Some ts)
      with assms(1) obtain ts' where ts': "tiers' = Some ts'" by auto
      have "pairs_of ts' = pairs_of ts" using assms(2) [OF Some ts'] .
      then have "AList.update ''thresholds'' (thresholds_value (map tier_pair ts')) ?d = ?d"
        using data(1) [OF Some] by (simp only: pairs_of_def)
      with ts' delete_absent [OF o(1)] show ?thesis by (simp only: migrated_thresholds_def option.case)
    qed
    then show "fst (migrated_thresholds ?d ?o tiers') = ?d" "snd (migrated_thresholds ?d ?o tiers') = ?o"
      by simp_all
  qed
  have req: "set_required (tiers' = None) ?d = ?d"
  proof (cases "tiers = None")
    case True
    then have *: "dget ?d ''reconfiguration_required'' = PBool True" by (simp add: migrated_data_get)
    then have "dhas ?d ''reconfiguration_required''" by (intro dhas_present) simp
    with * True assms(1) show ?thesis by (simp add: set_required_def update_same_dget)
  next
    case False
    then have absent: "''reconfiguration_required'' \<notin> set (map fst ?d)"
      using migrated_data_has [of e tiers "''reconfiguration_required''"] by (auto simp: dhas_def simp del: set_map)
    from False assms(1) have "(tiers' = None) = False" by simp
    then show ?thesis by (simp only: set_required_def if_False delete_absent [OF absent])
  qed
  show "e_data (migrated ?m tiers') = ?d"
    unfolding migrated_data(1) [of ?m tiers'] thr(1) only_keys_id [OF keys(1)] req
    by (rule clean_devices_id [OF clean(1)])
  show "e_options (migrated ?m tiers') = ?o"
    unfolding migrated_data(2) [of ?m tiers'] thr(2) only_keys_id [OF keys(2)] delete_absent [OF o(1)]
      delete_absent [OF o(2)]
    by (rule clean_devices_id [OF clean(2)])
  show "e_version (migrated ?m tiers') = e_version ?m" by (simp only: migrated_data(3))
  show "stored_entry.more (migrated ?m tiers') = stored_entry.more ?m" by (metis unit_eq)
qed

section \<open>Devices\<close>

lemma device_record_allowed:
  "device_record (only_keys migration_allowed_device_keys d) index ents strict = device_record d index ents strict"
proof -
  let ?o = "only_keys migration_allowed_device_keys d"
  have get: "dget ?o ''device_id'' = dget d ''device_id''" "dget ?o ''entity'' = dget d ''entity''"
    "dget ?o ''actuators'' = dget d ''actuators''" "dget ?o ''power_sensor'' = dget d ''power_sensor''"
    "dget ?o ''battery_min_soc'' = dget d ''battery_min_soc''" "dget ?o ''name'' = dget d ''name''"
    "dget ?o ''expected_power'' = dget d ''expected_power''"
    "dget ?o ''command_entity'' = dget d ''command_entity''"
    "dget ?o ''readback_entities'' = dget d ''readback_entities''"
    "dget ?o ''emergency_off_entities'' = dget d ''emergency_off_entities''"
    "dget ?o ''priority'' = dget d ''priority''" "dget ?o ''shed_priority'' = dget d ''shed_priority''"
    "dget_or ?o ''priority'' v = dget_or d ''priority'' v"
    "dget_or ?o ''shed_priority'' v = dget_or d ''shed_priority'' v" for v
    by (simp_all add: migration_allowed_device_keys_def)
  show ?thesis unfolding device_record_def roles_def priorities_of_def get ..
qed

lemma normalize_allowed:
  "list_all is_dict xs \<Longrightarrow>
   normalize_loop strict index ids ents prios
     (map (\<lambda>v. PDict (only_keys migration_allowed_device_keys (the_dict v))) xs) =
   normalize_loop strict index ids ents prios xs"
proof (induction xs arbitrary: index ids ents prios)
  case (Cons x xs)
  then obtain d where d: "x = PDict d" by (cases x) auto
  have "normalize_loop strict i is es ps
      (map (\<lambda>v. PDict (only_keys migration_allowed_device_keys (the_dict v))) xs) = normalize_loop strict i is es ps xs"
    for i "is" es ps using Cons by simp
  then show ?case
    unfolding d list.map the_dict.simps normalize_loop.simps pyval.case device_record_allowed by (simp only:)
qed simp

lemma normalize_cleaned:
  assumes "\<And>xs. v = PList xs \<Longrightarrow> list_all is_dict xs"
  shows "normalize_devices (clean_devices_value v) strict = normalize_devices v strict"
proof (cases v)
  case (PList xs)
  with assms have all: "list_all is_dict xs" by simp
  then have "filter is_dict xs = xs" by (auto simp: filter_id_conv list_all_iff)
  with all PList show ?thesis by (simp add: normalize_devices_def clean_devices_value_def normalize_allowed)
qed (simp_all add: clean_devices_value_def normalize_devices_def)

section \<open>Properties\<close>

definition setup_keys :: "string list" where
  "setup_keys = [''load_sensor'', ''averaging_period'', ''pause_period'', ''grid_loss_mode'', ''grid_loss_sensor'',
     ''battery_soc'', ''battery_threshold'']"

lemma migrate_cases:
  assumes "async_migrate_entry e = Inr e'"
  obtains tiers where "derive_thresholds_from_mapping (merged e) = Inr tiers"
    and "e' = migrated e tiers \<or> e' = e"
  using assms by (auto simp: async_migrate_entry_def rbind_Inr_iff Let_def split: if_split_asm)

text \<open>C31. Migration keeps the household's configuration: where thresholds can be derived from the
  old entry, whatever keys hold them, setup derives from the migrated entry a policy with the same
  limits and dwell times in the same order; it reads the same load sensor, periods and safety
  source; and, as long as the stored list holds device records only, it loads exactly the same
  devices.\<close>

theorem migration_keeps_configuration:
  assumes "entry_dicts e" and "async_migrate_entry e = Inr e'"
    and "derive_thresholds_from_mapping (merged e) = Inr (Some ts)"
  shows "(\<exists>us. derive_thresholds_from_mapping (merged e') = Inr (Some us) \<and> pairs_of us = pairs_of ts)
    \<and> list_all (\<lambda>k. dget (merged e') k = dget (merged e) k) setup_keys
    \<and> ((case dget (merged e) ''devices'' of PList xs \<Rightarrow> list_all is_dict xs | _ \<Rightarrow> True)
        \<longrightarrow> normalize_devices (dget (merged e') ''devices'') strict =
            normalize_devices (dget (merged e) ''devices'') strict)"
proof -
  from migrate_cases [OF assms(2)] assms(3) have "e' = migrated e (Some ts) \<or> e' = e" by auto
  then show ?thesis
  proof
    assume e': "e' = migrated e (Some ts)"
    have "derive_thresholds_from_mapping (merged e') = Inr (Some (custom_tiers (pairs_of ts)))"
      unfolding e' by (rule derive_migrated_Some [OF assms(1,3)])
    moreover have "list_all (\<lambda>k. dget (merged e') k = dget (merged e) k) setup_keys"
      unfolding e' by (simp add: setup_keys_def merged_migrated_get assms(1) migration_allowed_keys_def cleaned_def)
    moreover have "dget (merged e') ''devices'' = clean_devices_value (dget (merged e) ''devices'')"
      unfolding e' by (simp add: merged_migrated_get assms(1) migration_allowed_keys_def cleaned_def)
    ultimately show ?thesis using normalize_cleaned [of "dget (merged e) ''devices''" strict] pairs_custom
      by (auto split: pyval.splits)
  next
    assume "e' = e"
    with assms(3) show ?thesis by (simp add: list_all_iff)
  qed
qed

definition demo_old :: stored_entry where
  "demo_old = \<lparr>e_data = [(''max_load'', PInt 5000), (''load_sensor'', PStr ''sensor.load'')], e_options = [],
     e_version = Some (1, 1)\<rparr>"

lemma demo_old_derive:
  "derive_thresholds_from_mapping (merged demo_old) =
     Inr (Some [\<lparr>tier_id = ''user_max_load'', limit_w = 5000, duration_s = 0, tier_reason = SHED_CUSTOM_THRESHOLD\<rparr>])"
  by (simp add: demo_old_def merged_def dict_merge_def derive_thresholds_from_mapping_def dhas_def
      legacy_named_thresholds_def legacy_keys_def finite_number_def int_to_float_def float_overflow_def
      MAX_POLICY_POWER_W_def mk_tier_def)

lemma demo_old_migrates: "\<exists>e'. async_migrate_entry demo_old = Inr e'"
  by (simp add: async_migrate_entry_def demo_old_derive Let_def)

theorem migration_keeps_configuration_witness:
  "\<exists>e' us. async_migrate_entry demo_old = Inr e'
     \<and> derive_thresholds_from_mapping (merged e') = Inr (Some us) \<and> pairs_of us = [(5000, 0)]"
proof -
  obtain e' where e': "async_migrate_entry demo_old = Inr e'" using demo_old_migrates by blast
  have "entry_dicts demo_old" by (simp add: entry_dicts_def demo_old_def)
  from migration_keeps_configuration [OF this e' demo_old_derive] e' show ?thesis
    by (auto simp: pairs_of_def tier_pair_def)
qed

text \<open>Migration is idempotent: migrating a migrated entry changes nothing, unless the entry had
  unusable thresholds in its options, which migration removes.\<close>

theorem migration_idempotent:
  assumes "entry_dicts e" and "async_migrate_entry e = Inr e'"
    and "derive_thresholds_from_mapping (merged e) = Inr None \<longrightarrow> \<not> dhas (e_options e) ''thresholds''"
  shows "async_migrate_entry e' = Inr e'"
proof -
  from assms(2) obtain tiers where t: "derive_thresholds_from_mapping (merged e) = Inr tiers"
    "e' = migrated e tiers \<or> e' = e" by (rule migrate_cases)
  from t(2) show ?thesis
  proof
    assume e': "e' = migrated e tiers"
    have "\<exists>tiers'. derive_thresholds_from_mapping (merged e') = Inr tiers' \<and> migrated e' tiers' = e'"
    proof (cases tiers)
      case None
      with derive_migrated_None [OF assms(1)] t(1) assms(3) e'
      have "derive_thresholds_from_mapping (merged e') = Inr None" by simp
      then show ?thesis unfolding e' using migrated_again [of tiers None e] None by auto
    next
      case (Some ts)
      with derive_migrated_Some [OF assms(1)] t(1) e'
      have "derive_thresholds_from_mapping (merged e') = Inr (Some (custom_tiers (pairs_of ts)))" by simp
      then show ?thesis unfolding e'
        using migrated_again [of tiers "Some (custom_tiers (pairs_of ts))" e] Some pairs_custom by auto
    qed
    then show ?thesis by (auto simp: async_migrate_entry_def Let_def)
  next
    assume "e' = e"
    with assms(2) show ?thesis by simp
  qed
qed

theorem migration_idempotent_witness:
  "\<exists>e'. async_migrate_entry demo_old = Inr e' \<and> async_migrate_entry e' = Inr e'"
proof -
  obtain e' where e': "async_migrate_entry demo_old = Inr e'" using demo_old_migrates by blast
  have "entry_dicts demo_old" by (simp add: entry_dicts_def demo_old_def)
  from migration_idempotent [OF this e'] e' demo_old_derive show ?thesis by auto
qed

text \<open>
  In that excluded case the entry asks for reconfiguration, but the thresholds of its data, which
  the options had replaced, come into force at the next setup, and the next migration takes the
  request away.
\<close>

definition shadowed_entry :: stored_entry where
  "shadowed_entry = \<lparr>e_data = [(''thresholds'', thresholds_value [(5000, 0)])],
     e_options = [(''thresholds'', PList [])], e_version = Some (2, 3)\<rparr>"

lemma stale_thresholds_revive:
  "derive_thresholds_from_mapping (merged shadowed_entry) = Inr None"
  "derive_thresholds_from_mapping (merged (migrated shadowed_entry None)) = Inr (Some (custom_tiers [(5000, 0)]))"
proof -
  show "derive_thresholds_from_mapping (merged shadowed_entry) = Inr None"
    by (simp add: shadowed_entry_def merged_def dict_merge_def derive_thresholds_from_mapping_def dhas_def
        submitted_thresholds_def legacy_named_thresholds_def legacy_keys_def finite_number_def catch_type_value_def)
  have "entry_dicts shadowed_entry" by (simp add: entry_dicts_def shadowed_entry_def)
  then have "dget (merged (migrated shadowed_entry None)) ''thresholds'' = thresholds_value [(5000, 0)]"
    by (simp add: merged_get migrated_dicts migrated_options_has migrated_data_get required_allowed cleaned_def)
      (simp add: shadowed_entry_def)
  then show "derive_thresholds_from_mapping (merged (migrated shadowed_entry None)) = Inr (Some (custom_tiers [(5000, 0)]))"
    by (rule pairs_ok_derive) (simp_all add: pairs_ok_def MAX_POLICY_POWER_W_def MAX_POLICY_DURATION_S_def
        MAX_CUSTOM_THRESHOLDS_def)
qed

end
