(* ===== verification/Entry_Setup.thy ===== *)
theory Entry_Setup
  imports Coordinator_Outcomes Migration
begin

text \<open>
  What \<open>_async_setup_entry_impl\<close> of \<open>__init__.py\<close> builds from a stored entry: the table of loads, the
  store, the policy, the controller, the entities whose reports it follows; and the recovery and
  first evaluation it runs. The values handed to the constructor of the controller are read at
  the types the constructor declares; where the entry holds a value of another type, a text
  field is read as empty or absent and the battery threshold as absent.
\<close>

section \<open>The table of loads\<close>

fun add_devices :: "power_model \<Rightarrow> device_config list \<Rightarrow> power_model res" where
  "add_devices m [] = Inr m"
| "add_devices m (c # cs) =
     rbind (device_from_dict (config_dict c)) (\<lambda>d. add_devices (add_device m d) cs)"

definition build_model :: "pydict \<Rightarrow> power_model res" where
  "build_model data =
     rbind (normalize_devices (dget_or data ''devices'' (PList [])) False) (add_devices [])"

section \<open>The controller\<close>

definition unconfigured_policy :: "policy_config res" where
  "unconfigured_policy =
     rbind (mk_tier ''unconfigured'' (Fin 1) (Fin 0) CONFIGURATION_INVALID)
       (\<lambda>t. mk_policy [t] DEFAULT_POLICY_VERSION)"

definition text_value :: "pyval \<Rightarrow> string" where
  "text_value v = (case v of PStr s \<Rightarrow> s | _ \<Rightarrow> [])"

definition threshold_value :: "pyval \<Rightarrow> rat option" where
  "threshold_value v =
     (if is_number v then (case num_val v of Fin x \<Rightarrow> Some x | _ \<Rightarrow> None) else None)"

definition setup_config :: "pydict \<Rightarrow> string \<Rightarrow> string option \<Rightarrow> policy_config \<Rightarrow> coordinator_config" where
  "setup_config data entry version pol =
     \<lparr>cc_load_sensor = text_value (dget_or data ''load_sensor'' (PStr '''')),
      cc_averaging_period = safe_number (dget data ''averaging_period'') 10 1 300,
      cc_pause_period = safe_number (dget data ''pause_period'') 60 0 MAX_RUNTIME_PAUSE_SECONDS,
      cc_grid_loss_mode = text_value (dget_or data ''grid_loss_mode'' (PStr ''grid_loss_sensor'')),
      cc_policy = pol,
      cc_grid_loss_sensor = str_opt (dget data ''grid_loss_sensor''),
      cc_battery_threshold = threshold_value (dget data ''battery_threshold''),
      cc_battery_soc_sensor = str_opt (dget data ''battery_soc''),
      cc_entry_id = entry, cc_integration_version = version\<rparr>"

text \<open>
  The controller before its recovery, from the world at that moment and what the store holds, and
  whether a reconfiguration is required.
\<close>

definition entry_controller ::
  "platform \<Rightarrow> string \<Rightarrow> string option \<Rightarrow> pyval \<Rightarrow> pydict \<Rightarrow> (bool \<times> coord) res" where
  "entry_controller p entry version raw data =
     rbind (build_model data) (\<lambda>model.
     rbind (store_load (w_now p) raw) (\<lambda>store.
     rbind (policy_from_mapping data) (\<lambda>found.
     rbind (case found of None \<Rightarrow> unconfigured_policy | Some pol \<Rightarrow> Inr pol) (\<lambda>pol.
     Inr (found = None, new_coordinator p model store (setup_config data entry version pol))))))"

section \<open>Tracked entities\<close>

definition device_entities :: "managed_device \<Rightarrow> string list" where
  "device_entities d =
     command_entity d # readback_entities d @ emergency_off_entities d
       @ (case d_power_sensor_id d of None \<Rightarrow> [] | Some s \<Rightarrow> [s])"

text \<open>The set literal needs hashable values.\<close>

definition tracked_entity_ids :: "pydict \<Rightarrow> power_model \<Rightarrow> string list res" where
  "tracked_entity_ids data m =
     (let vs = [dget data ''load_sensor'', dget data ''grid_loss_sensor'', dget data ''battery_soc'']
      in if \<not> list_all hashable vs then Inl TypeErr
         else Inr (sorted_list_of_set (set (filter (\<lambda>e. e \<noteq> [])
                (map the_str (filter is_str vs) @ concat (map device_entities (all_devices m)))))))"

section \<open>Recovery and first evaluation\<close>

text \<open>
  The first refresh is the controller's own update; whatever it raises ends the setup. Forwarding
  the entry to the platforms is the last await.
\<close>

definition start_entry :: "pydict \<Rightarrow> bool \<Rightarrow> unit action" where
  "start_entry data required =
     thn (async_recover data required)
       (thn (look (\<lambda>w. lift (tracked_entity_ids data (c_model w))))
         (thn async_config_entry_first_refresh await))"

section \<open>Facts\<close>

text \<open>A device record of the configuration as a managed load that has not been observed.\<close>

definition managed :: "device_config \<Rightarrow> managed_device" where
  "managed c = \<lparr>d_device_id = c_device_id c, d_name = c_name c, d_entity_id = c_entity c,
     d_expected_power = c_expected_power c, d_power_sensor_id = c_power_sensor c,
     d_priority = c_priority c, d_shed_priority = Some (c_shed_priority c),
     d_actuator_entity_ids = c_actuators c, d_command_entity_id = Some (c_command_entity c),
     d_readback_entity_ids = c_readback_entities c, d_emergency_off_entity_ids = c_emergency_off_entities c,
     d_battery_min_soc = c_battery_min_soc c, d_is_on = None, d_measured_power = 0,
     d_measured_power_valid = False, d_measured_power_reason = ''not_sampled'',
     d_pause_until = None, d_last_turn_off_time = None\<rparr>"

definition small_priorities :: "device_config \<Rightarrow> bool" where
  "small_priorities c \<longleftrightarrow> c_priority c \<le> 100000 \<and> c_shed_priority c \<le> 100000"

lemma legacy_integer_fix: "lo \<le> i \<Longrightarrow> 0 \<le> i \<Longrightarrow> i \<le> 100000 \<Longrightarrow> legacy_integer (PInt i) lo d = Some i"
  using small_int_float [of i] by (simp add: legacy_integer_def py_trunc_def)

lemma legacy_members_fix:
  assumes "list_all (valid_entity ds) es"
  shows "legacy_members (str_list es) = es"
proof -
  have "e \<noteq> []" if "valid_entity ds e" for e
    using valid_entity_text [OF that] by (auto simp: nonblank_def py_strip_def)
  with assms have "list_all (\<lambda>e. e \<noteq> []) es" by (auto simp: list_all_iff)
  then show ?thesis
    by (simp add: legacy_members_def str_list_def) (induction es, auto)
qed

lemma config_dict_or:
  "dget_or (config_dict c) ''expected_power'' v = PInt (c_expected_power c)"
  "dget_or (config_dict c) ''actuators'' v = str_list (c_actuators c)"
  "dget_or (config_dict c) ''readback_entities'' v = str_list (c_readback_entities c)"
  "dget_or (config_dict c) ''emergency_off_entities'' v = str_list (c_emergency_off_entities c)"
  "dget (config_dict c) ''pause_until'' = PNone"
  by (simp_all add: config_dict_def dget_def dget_or_def map_add_def split: option.split)

lemma managed_from_config:
  assumes wf: "config_wf c" and small: "small_priorities c"
  shows "device_from_dict (config_dict c) = Inr (managed c)"
proof -
  have texts: "c_device_id c \<noteq> []" "c_name c \<noteq> []" "c_entity c \<noteq> []"
    using wf valid_entity_text [of CONTROL_DOMAINS "c_entity c"]
    by (auto simp: config_wf_def nonblank_def py_strip_def)
  have lists: "legacy_members (str_list (c_actuators c)) = c_actuators c"
    "legacy_members (str_list (c_readback_entities c)) = c_readback_entities c"
    "legacy_members (str_list (c_emergency_off_entities c)) = c_emergency_off_entities c"
    using wf legacy_members_fix by (auto simp: config_wf_def roles_wf_def)
  have numbers: "legacy_integer (PInt (c_expected_power c)) 0 (Some 0) = Some (c_expected_power c)"
    "legacy_integer (PInt (c_priority c)) 1 (Some 1) = Some (c_priority c)"
    "legacy_integer (PInt (c_shed_priority c)) 1 None = Some (c_shed_priority c)"
    using wf small by (simp_all add: config_wf_def small_priorities_def legacy_integer_fix)
  have soc: "parse_battery_min_soc (opt_num (c_battery_min_soc c)) = c_battery_min_soc c"
    using wf battery_fix by (cases "c_battery_min_soc c") (auto simp: config_wf_def opt_num_def parse_battery_min_soc_def)
  have sensor: "str_opt (opt_str (c_power_sensor c)) = c_power_sensor c"
    by (simp add: str_opt_def opt_str_def split: option.split)
  have command: "str_opt (PStr e) = Some e" for e by (simp add: str_opt_def)
  have "model_configuration (config_dict c) = Inr
     \<lparr>m_device_id = c_device_id c, m_name = c_name c, m_entity_id = c_entity c,
      m_expected_power = c_expected_power c, m_power_sensor_id = c_power_sensor c,
      m_priority = c_priority c, m_shed_priority = Some (c_shed_priority c),
      m_actuator_entity_ids = c_actuators c, m_command_entity_id = Some (c_command_entity c),
      m_readback_entity_ids = c_readback_entities c, m_emergency_off_entity_ids = c_emergency_off_entities c,
      m_battery_min_soc = c_battery_min_soc c\<rparr>"
    using wf texts unfolding model_configuration_def
    by (simp add: config_dget config_dict_or nonempty_str_def lists numbers soc sensor command int_or_def config_wf_def)
  then show ?thesis
    by (simp add: device_from_dict_def config_dict_or finite_timestamp_def managed_def)
qed

definition load_table :: "device_config list \<Rightarrow> power_model" where
  "load_table cs = map (\<lambda>c. (c_device_id c, managed c)) cs"

lemma add_devices_table:
  "list_all config_wf cs \<Longrightarrow> list_all small_priorities cs \<Longrightarrow>
   distinct (map fst m @ map c_device_id cs) \<Longrightarrow> add_devices m cs = Inr (m @ load_table cs)"
proof (induction cs arbitrary: m)
  case (Cons c cs)
  have "c_device_id c \<notin> set (map fst m)" using Cons.prems(3) by auto
  then have "add_device m (managed c) = m @ [(c_device_id c, managed c)]"
    by (simp add: add_device_def update_new_key managed_def)
  with Cons show ?case by (simp add: managed_from_config load_table_def)
qed (simp add: load_table_def)

lemma build_model_table:
  assumes "normalize_devices (dget_or data ''devices'' (PList [])) False = Inr cs"
    and "list_all small_priorities cs"
  shows "build_model data = Inr (load_table cs)"
proof -
  have "devices_ok cs" using normalized_devices_ok [OF assms(1)] .
  with assms show ?thesis by (simp add: build_model_def devices_ok_def add_devices_table)
qed

section \<open>A valid entry comes into force\<close>

lemma unconfigured_policy_value:
  "unconfigured_policy = Inr \<lparr>thresholds = [\<lparr>tier_id = ''unconfigured'', limit_w = 1, duration_s = 0,
     tier_reason = CONFIGURATION_INVALID\<rparr>], policy_version = DEFAULT_POLICY_VERSION\<rparr>"
  by (simp add: unconfigured_policy_def mk_tier_def mk_policy_def)

lemma policy_from_pairs:
  assumes "dget data ''thresholds'' = thresholds_value ps" "pairs_ok ps" "ps \<noteq> []"
  shows "policy_from_mapping data = Inr (Some \<lparr>thresholds = custom_tiers ps,
           policy_version = py_strip (config_version data)\<rparr>)"
proof -
  have d: "derive_thresholds_from_mapping data = Inr (Some (custom_tiers ps))"
    using assms by (rule pairs_ok_derive)
  then have "tiers_ok (custom_tiers ps)" by (rule derive_thresholds_ok)
  with d show ?thesis
    by (simp add: policy_from_mapping_def mk_policy_def tiers_ok_def catch_value_def obind_def)
qed

lemma safe_number_in:
  assumes "number_in v lo hi" "0 \<le> lo" "hi \<le> 100000"
  shows "Fin (safe_number v d lo hi) = num_val v"
proof (cases v)
  case (PInt i)
  then have "lo \<le> of_int i" "of_int i \<le> hi" using assms(1) by (simp_all add: number_in_def)
  moreover from this have "(0 :: rat) \<le> of_int i" "(of_int i :: rat) \<le> of_int 100000" using assms by simp_all
  then have "0 \<le> i" "i \<le> 100000" by (simp_all only: of_int_0_le_iff of_int_le_iff)
  then have "py_float (PInt i) = Inr (Fin (of_int i))" by (rule small_int_float)
  ultimately show ?thesis using PInt by (simp add: safe_number_def)
next
  case (PFloat f)
  with assms(1) show ?thesis by (cases f) (simp_all add: number_in_def safe_number_def less_eq_pyfloat_def)
qed (use assms(1) in \<open>simp_all add: number_in_def\<close>)

lemma safe_number_kept:
  assumes "number_in v lo hi" "0 \<le> lo" "hi \<le> 100000"
  shows "Fin (safe_number v d lo hi) = num_val v" "lo \<le> safe_number v d lo hi"
proof -
  show f: "Fin (safe_number v d lo hi) = num_val v" using assms by (rule safe_number_in)
  have "Fin lo \<le> num_val v" using assms(1) by (simp add: number_in_def)
  then show "lo \<le> safe_number v d lo hi" unfolding f [symmetric] by simp
qed

lemma config_dict_inject:
  assumes e: "config_dict c = config_dict c'"
  shows "c = c'"
proof -
  have inj: "opt_str s = opt_str s' \<Longrightarrow> s = s'" "opt_num x = opt_num x' \<Longrightarrow> x = x'"
    "str_list es = str_list es' \<Longrightarrow> es = es'" for s s' x x' es es'
    by (auto simp: opt_str_def opt_num_def str_list_def inj_map_eq_map inj_def split: option.splits)
  have d: "dget (config_dict c) k = dget (config_dict c') k" for k using e by simp
  show ?thesis
    using d [of "''device_id''"] d [of "''name''"] d [of "''entity''"] d [of "''expected_power''"] d [of "''power_sensor''"]
      d [of "''priority''"] d [of "''shed_priority''"] d [of "''actuators''"] d [of "''command_entity''"]
      d [of "''readback_entities''"] d [of "''emergency_off_entities''"] d [of "''battery_min_soc''"] inj
    by (intro device_config.equality) (simp_all add: config_dget)
qed

lemma devices_value_inject: "devices_value ds = devices_value ds' \<Longrightarrow> ds = ds'"
  unfolding devices_value_def by (simp add: inj_map_eq_map inj_def config_dict_inject)

lemma new_coordinator_fields:
  "policy (c_engine (new_coordinator p m s (setup_config data e v pol))) = pol"
  "c_model (new_coordinator p m s cfg) = m" "c_store (new_coordinator p m s cfg) = s"
  "w_trace (new_coordinator p m s cfg) = []" "c_mode (new_coordinator p m s cfg) = ''observe''"
  "k_load_sensor (new_coordinator p m s cfg) = cc_load_sensor cfg"
  "k_averaging_period (new_coordinator p m s cfg) = max 1 (cc_averaging_period cfg)"
  "k_pause_period (new_coordinator p m s cfg) = max 0 (cc_pause_period cfg)"
  "k_source (new_coordinator p m s cfg) = \<lparr>ss_mode = cc_grid_loss_mode cfg, ss_grid_sensor = cc_grid_loss_sensor cfg,
     ss_battery_soc_sensor = cc_battery_soc_sensor cfg, ss_battery_threshold = cc_battery_threshold cfg\<rparr>"
  by (simp_all add: new_coordinator_def platform.defs setup_config_def new_engine_def)

lemma managed_entities:
  assumes "config_wf c"
  shows "c_command_entity c \<in> set (device_entities (managed c))"
    "set (c_readback_entities c) \<subseteq> set (device_entities (managed c))"
    "set (c_emergency_off_entities c) \<subseteq> set (device_entities (managed c))"
proof -
  have "c_command_entity c \<noteq> []"
    using assms valid_entity_text [of CONTROL_DOMAINS "c_command_entity c"]
    by (auto simp: config_wf_def roles_wf_def nonblank_def py_strip_def)
  then have "command_entity (managed c) = c_command_entity c"
    by (simp add: command_entity_def managed_def split: list.split)
  then show "c_command_entity c \<in> set (device_entities (managed c))" by (simp add: device_entities_def)
  have "c_readback_entities c \<noteq> []" using assms by (simp add: config_wf_def roles_wf_def)
  then show "set (c_readback_entities c) \<subseteq> set (device_entities (managed c))"
    by (auto simp: device_entities_def readback_entities_def managed_def)
  show "set (c_emergency_off_entities c) \<subseteq> set (device_entities (managed c))"
    by (auto simp: device_entities_def emergency_off_entities_def managed_def)
qed

lemma texts_of: "the_str ` {v \<in> V. is_str v} = {e. PStr e \<in> V}"
proof -
  have "v = PStr (the_str v)" if "is_str v" for v using that by (cases v) simp_all
  then show ?thesis by (auto simp: image_iff) (metis is_str.simps(1) the_str.simps(1))+
qed

lemma tracked_members:
  assumes "tracked_entity_ids data m = Inr es"
  shows "set es = {e. e \<noteq> [] \<and> (PStr e \<in> {dget data ''load_sensor'', dget data ''grid_loss_sensor'', dget data ''battery_soc''}
     \<or> (\<exists>d \<in> set (all_devices m). e \<in> set (device_entities d)))}"
proof -
  let ?vs = "[dget data ''load_sensor'', dget data ''grid_loss_sensor'', dget data ''battery_soc'']"
  from assms have "es = sorted_list_of_set (set (filter (\<lambda>e. e \<noteq> [])
      (map the_str (filter is_str ?vs) @ concat (map device_entities (all_devices m)))))"
    unfolding tracked_entity_ids_def Let_def
    by (cases "list_all hashable ?vs")
      (simp_all only: if_True if_False not_True_eq_False not_False_eq_True sum.inject sum.distinct)
  then have "set es = set (filter (\<lambda>e. e \<noteq> []) (map the_str (filter is_str ?vs) @ concat (map device_entities (all_devices m))))"
    by (simp only: set_sorted_list_of_set finite_set)
  also have "\<dots> = {e. e \<noteq> [] \<and> (e \<in> the_str ` {v \<in> set ?vs. is_str v} \<or> (\<exists>d \<in> set (all_devices m). e \<in> set (device_entities d)))}"
    by (simp only: set_filter set_append set_map set_concat) blast
  finally show ?thesis unfolding texts_of by simp
qed

text \<open>The safety source and the sensor of a valid payload.\<close>

lemma dget_or_there: "dget d k \<noteq> PNone \<Longrightarrow> dget_or d k v = dget d k"
  by (auto simp: dget_def dget_or_def split: option.splits)

lemma entity_nonempty: "valid_entity ds e \<Longrightarrow> e \<noteq> []"
  using valid_entity_text [of ds e] by (auto simp: nonblank_def py_strip_def)

lemma no_empty_entity: "\<not> valid_entity ds []"
  using entity_nonempty by blast

lemma entity_inE:
  assumes "entity_in v ds"
  obtains e where "v = PStr e" "e \<noteq> []"
  using assms by (cases v) (auto simp: entity_in_def entity_nonempty)

lemma setup_source:
  assumes "payload_ok data"
  obtains e where "source_entity_id (k_source (new_coordinator p m s (setup_config data entry version pol))) = Some e"
    and "e \<noteq> []"
    and "PStr e = dget data ''grid_loss_sensor'' \<or> PStr e = dget data ''battery_soc''
       \<and> map_option Fin (threshold_value (dget data ''battery_threshold'')) = Some (num_val (dget data ''battery_threshold''))"
proof -
  note fields = new_coordinator_fields setup_config_def source_entity_id_def source_configured_def source_sensor_id_def
    truthy_str_def str_opt_def text_value_def dget_or_there GRID_LOSS_MODE_SENSOR_def GRID_LOSS_MODE_THRESHOLD_def
  have safe: "safety_source_ok data" using assms by (simp add: payload_ok_def)
  show thesis
  proof (cases "dget data ''grid_loss_mode'' = PStr GRID_LOSS_MODE_SENSOR")
    case True
    with safe obtain e where "dget data ''grid_loss_sensor'' = PStr e" "e \<noteq> []"
      by (auto simp: safety_source_ok_def fields elim: entity_inE)
    with True that [of e] show thesis by (simp add: fields)
  next
    case False
    with safe have mode: "dget data ''grid_loss_mode'' = PStr GRID_LOSS_MODE_THRESHOLD"
      and "entity_in (dget data ''battery_soc'') [''sensor'']" by (auto simp: safety_source_ok_def)
    then obtain e where e: "dget data ''battery_soc'' = PStr e" "e \<noteq> []" by (auto elim: entity_inE)
    have "number_in (dget data ''battery_threshold'') 0 100" using assms mode by (simp add: payload_ok_def)
    then obtain x where "threshold_value (dget data ''battery_threshold'') = Some x" "num_val (dget data ''battery_threshold'') = Fin x"
      by (cases "num_val (dget data ''battery_threshold'')")
        (auto simp: number_in_def threshold_value_def less_eq_pyfloat_def)
    with mode e that [of e] show thesis by (simp add: fields)
  qed
qed

lemma setup_sensor:
  assumes "entity_in (dget data ''load_sensor'') ds"
  shows "PStr (text_value (dget_or data ''load_sensor'' v)) = dget data ''load_sensor''"
    "text_value (dget_or data ''load_sensor'' v) \<noteq> []"
proof -
  obtain e where "dget data ''load_sensor'' = PStr e" "e \<noteq> []" using assms by (rule entity_inE)
  then show "PStr (text_value (dget_or data ''load_sensor'' v)) = dget data ''load_sensor''"
    "text_value (dget_or data ''load_sensor'' v) \<noteq> []" by (simp_all add: dget_or_there text_value_def)
qed

text \<open>C29. A valid entry comes into force as it is stored. Whatever the store holds that can be loaded,
  setup builds a controller that requires no reconfiguration, whose policy has exactly the stored
  thresholds, whose loads are exactly the stored devices, and whose load sensor, averaging and
  pause periods and safety source are the stored ones; and it follows the reports of the load
  sensor, of the safety source and of every entity that commands a load or reads one back.\<close>

theorem valid_entry_in_force:
  assumes "payload_ok data" and "dget data ''thresholds'' = thresholds_value ps" "pairs_ok ps" "ps \<noteq> []"
    and "dget data ''devices'' = devices_value ds" "list_all small_priorities ds"
    and "store_load (w_now p) raw = Inr s"
  shows "\<exists>w. entry_controller p entry version raw data = Inr (False, w)
    \<and> thresholds (policy (c_engine w)) = custom_tiers ps \<and> c_model w = load_table ds \<and> c_store w = s
    \<and> PStr (k_load_sensor w) = dget data ''load_sensor''
    \<and> Fin (k_averaging_period w) = num_val (dget data ''averaging_period'')
    \<and> Fin (k_pause_period w) = num_val (dget data ''pause_period'')
    \<and> (\<exists>e. source_entity_id (k_source w) = Some e
         \<and> (PStr e = dget data ''grid_loss_sensor'' \<or> PStr e = dget data ''battery_soc''
              \<and> map_option Fin (ss_battery_threshold (k_source w)) = Some (num_val (dget data ''battery_threshold'')))
         \<and> (case tracked_entity_ids data (c_model w) of
              Inl _ \<Rightarrow> \<not> hashable (dget data ''grid_loss_sensor'') \<or> \<not> hashable (dget data ''battery_soc'')
            | Inr es \<Rightarrow> k_load_sensor w \<in> set es \<and> e \<in> set es
                \<and> (\<forall>c \<in> set ds. c_command_entity c \<in> set es \<and> set (c_readback_entities c) \<subseteq> set es
                     \<and> set (c_emergency_off_entities c) \<subseteq> set es)))"
proof -
  let ?cfg = "setup_config data entry version \<lparr>thresholds = custom_tiers ps, policy_version = py_strip (config_version data)\<rparr>"
  let ?w = "new_coordinator p (load_table ds) s ?cfg"
  obtain ds' where ds': "dget data ''devices'' = devices_value ds'" "devices_ok ds'"
    using assms(1) by (auto simp: payload_ok_def)
  then have ok: "devices_ok ds" using assms(5) devices_value_inject by metis
  have "dget_or data ''devices'' (PList []) = devices_value ds"
    using assms(5) by (auto simp: dget_def dget_or_def devices_value_def split: option.splits)
  moreover have "normalize_devices (devices_value ds) False = Inr ds"
    using assms(6) by (intro devices_reload [OF ok]) (simp add: list_all_iff small_priorities_def)
  ultimately have model: "build_model data = Inr (load_table ds)"
    using assms(6) by (intro build_model_table) simp_all
  have run: "entry_controller p entry version raw data = Inr (False, ?w)"
    using model assms(7) policy_from_pairs [OF assms(2-4)] by (simp add: entry_controller_def)
  have load: "entity_in (dget data ''load_sensor'') [''sensor'']" using assms(1) by (simp add: payload_ok_def)
  note sensor = setup_sensor [OF load]
  obtain e where e: "source_entity_id (k_source ?w) = Some e" "e \<noteq> []"
    "PStr e = dget data ''grid_loss_sensor'' \<or> PStr e = dget data ''battery_soc''
       \<and> map_option Fin (threshold_value (dget data ''battery_threshold'')) = Some (num_val (dget data ''battery_threshold''))"
    by (rule setup_source [OF assms(1)])
  have numbers: "Fin (k_averaging_period ?w) = num_val (dget data ''averaging_period'')"
    "Fin (k_pause_period ?w) = num_val (dget data ''pause_period'')"
    using assms(1) safe_number_kept [of "dget data ''averaging_period''" 1 300 10]
      safe_number_kept [of "dget data ''pause_period''" 0 86400 60]
    by (simp_all add: payload_ok_def new_coordinator_fields setup_config_def MAX_RUNTIME_PAUSE_SECONDS_def max_absorb2)
  have tracked: "case tracked_entity_ids data (load_table ds) of
        Inl _ \<Rightarrow> \<not> hashable (dget data ''grid_loss_sensor'') \<or> \<not> hashable (dget data ''battery_soc'')
      | Inr es \<Rightarrow> k_load_sensor ?w \<in> set es \<and> e \<in> set es
          \<and> (\<forall>c \<in> set ds. c_command_entity c \<in> set es \<and> set (c_readback_entities c) \<subseteq> set es
               \<and> set (c_emergency_off_entities c) \<subseteq> set es)"
  proof (cases "tracked_entity_ids data (load_table ds)")
    case (Inl x)
    then show ?thesis using sensor(1) by (auto simp: tracked_entity_ids_def Let_def split: if_splits) (metis hashable.simps(5))
  next
    case (Inr es)
    note members = tracked_members [OF Inr]
    have "k_load_sensor ?w \<in> set es" using sensor by (simp add: members new_coordinator_fields setup_config_def)
    moreover have "e \<in> set es" using e by (auto simp: members)
    moreover have "c_command_entity c \<in> set es \<and> set (c_readback_entities c) \<subseteq> set es
        \<and> set (c_emergency_off_entities c) \<subseteq> set es" if c: "c \<in> set ds" for c
    proof -
      have wf: "config_wf c" using ok c by (simp add: devices_ok_def list_all_iff)
      then have "[] \<notin> set (c_command_entity c # c_readback_entities c @ c_emergency_off_entities c)"
        using no_empty_entity by (auto simp: config_wf_def roles_wf_def list_all_iff)
      moreover have "managed c \<in> set (all_devices (load_table ds))"
        using c by (auto simp: all_devices_def load_table_def)
      ultimately show ?thesis using managed_entities [OF wf] by (auto simp: members)
    qed
    ultimately show ?thesis using Inr by simp
  qed
  have fields: "thresholds (policy (c_engine ?w)) = custom_tiers ps" "c_model ?w = load_table ds" "c_store ?w = s"
    "PStr (k_load_sensor ?w) = dget data ''load_sensor''"
    "ss_battery_threshold (k_source ?w) = threshold_value (dget data ''battery_threshold'')"
    using sensor(1) by (simp_all add: new_coordinator_fields) (simp_all add: setup_config_def)
  show ?thesis
    by (rule exI [of _ ?w], intro conjI exI [of _ e])
      (rule run fields(1-4) numbers e(1) | simp only: fields(2,5) e(3) tracked)+
qed

definition demo_entry_data :: pydict where
  "demo_entry_data = [(''load_sensor'', PStr ''sensor.load''), (''devices'', devices_value [demo_config]),
     (''grid_loss_mode'', PStr GRID_LOSS_MODE_SENSOR), (''averaging_period'', PInt 10), (''pause_period'', PInt 60),
     (''grid_loss_sensor'', PStr ''binary_sensor.grid''), (''thresholds'', thresholds_value [(6000, 30)])]"

lemma demo_entry_valid: "payload_ok demo_entry_data"
proof -
  have "entity_in (PStr ''sensor.load'') [''sensor'']" "entity_in (PStr ''binary_sensor.grid'') [''binary_sensor'']"
    by (simp_all add: entity_in_def valid_entity_def entity_id_def py_strip_def is_space_def domain_of_def)
  moreover have "number_in (PInt 10) 1 300" "number_in (PInt 60) 0 86400"
    by (simp_all add: number_in_def)
  moreover have "devices_ok [demo_config]" by (rule normalized_devices_ok [OF demo_normalize])
  moreover have "c_battery_min_soc demo_config = None" by (simp add: demo_config_def)
  ultimately show ?thesis
    by (simp add: payload_ok_def safety_source_ok_def demo_entry_data_def dget_def GRID_LOSS_MODE_SENSOR_def
        GRID_LOSS_MODE_THRESHOLD_def) (intro exI [of _ "[demo_config]"], simp)
qed

lemma valid_entry_in_force_witness:
  "\<exists>w. entry_controller demo_platform ''entry'' None PNone demo_entry_data = Inr (False, w)
     \<and> c_model w = load_table [demo_config] \<and> Fin (k_averaging_period w) = Fin 10"
proof -
  have d: "dget demo_entry_data ''thresholds'' = thresholds_value [(6000, 30)]"
    "dget demo_entry_data ''devices'' = devices_value [demo_config]"
    "dget demo_entry_data ''averaging_period'' = PInt 10"
    by (simp_all add: demo_entry_data_def dget_def)
  have ps: "pairs_ok [(6000, 30)]"
    by (simp add: pairs_ok_def MAX_POLICY_POWER_W_def MAX_POLICY_DURATION_S_def MAX_CUSTOM_THRESHOLDS_def)
  have small: "list_all small_priorities [demo_config]" by (simp add: small_priorities_def demo_config_def)
  have load: "store_load (w_now demo_platform) PNone
      = Inr \<lparr>rs_data = [], rs_safety_invalid = False, rs_journal_invalid = False\<rparr>"
    by (simp add: store_load_def)
  have ne: "[(6000, 30)] \<noteq> ([] :: threshold_pair list)" by simp
  from valid_entry_in_force [OF demo_entry_valid d(1) ps ne d(2) small load, of "''entry''" None] obtain w
    where "entry_controller demo_platform ''entry'' None PNone demo_entry_data = Inr (False, w)"
      "c_model w = load_table [demo_config]"
      "Fin (k_averaging_period w) = num_val (dget demo_entry_data ''averaging_period'')" by (elim exE conjE)
  then show ?thesis using d(3) by (intro exI [of _ w]) simp
qed

section \<open>An entry without thresholds\<close>

lemma commit_lasting: "keeps continues (commit_mode cfg b)"
  unfolding commit_mode_def recovered_mode_def
  by (intro lasting; (rule succeeding | simp add: trace_simps succeeds_defs))+

lemma recovery_requires: "c_reconfiguration (final (async_recover data b) w) = b"
proof -
  obtain r v where rb: "read_back b w = (r, v)" by force
  have v: "c_reconfiguration v = b" using read_back_run [OF rb] by (simp add: reading_def)
  show ?thesis
  proof (cases r)
    case (Inl e)
    with rb v show ?thesis by (simp add: final_def async_recover_def thn_def bnd_def)
  next
    case (Inr u)
    with rb have "final (async_recover data b) w = final (commit_mode (dget data ''execution_mode'') b) v"
      by (simp add: final_def async_recover_def thn_def bnd_def)
    moreover have "continues v (final (commit_mode (dget data ''execution_mode'') b) v)"
      using commit_lasting by (rule final_keeps)
    ultimately show ?thesis using v by (simp add: continues_def succeeds_def)
  qed
qed

lemma recovery_silent: "w_trace (final (async_recover data b) w) = w_trace w"
  by (rule silent_trace [OF recover_frame, where r = "fst (async_recover data b w)"]) (simp add: final_def)

text \<open>As long as a reconfiguration is required, no request makes the controller act.\<close>

lemma unconfigured_silent:
  assumes "c_reconfiguration w" and "list_all no_recovery rs"
  shows "w_trace (run_requests rs w) = w_trace w"
proof -
  obtain new where new: "w_trace (run_requests rs w) = new @ w_trace w" "list_all (justified (load_plan (c_model w))) new"
    using run_justified [of w rs] by (auto simp: extends_def)
  have "list_all (\<lambda>(c, s). succeeds w s) new"
    using run_continues [OF assms(2), of w] new(1) by (auto simp: continues_def extends_def)
  then have "(c, s) \<in> set new \<Longrightarrow> c_reconfiguration s" for c s
    using assms(1) by (auto simp: list_all_iff succeeds_def)
  moreover have "(c, s) \<in> set new \<Longrightarrow> \<not> c_reconfiguration s" for c s
    using new(2) justified_allowed by (fastforce simp: list_all_iff emergency_commands_allowed_def)
  ultimately have "new = []" by (cases new) auto
  with new(1) show ?thesis by simp
qed

text \<open>C30. An entry whose thresholds cannot be used is loaded, but it can do nothing: if no thresholds
  derive from it, setup puts a placeholder policy in force and requires a reconfiguration; and
  from its recovery on, whatever the store holds and whatever is requested, reported or fails, the
  controller never commands a device.\<close>

theorem unconfigured_entry_never_acts:
  assumes "entry_controller p entry version raw data = Inr (required, w)"
    and "derive_thresholds_from_mapping data = Inr None" and "list_all no_recovery rs"
  shows "required \<and> map tier_reason (thresholds (policy (c_engine w))) = [CONFIGURATION_INVALID]
    \<and> w_trace (run_requests (Recover data required # rs) w) = []"
proof -
  have "policy_from_mapping data = Inr None" using assms(2) by (simp add: policy_from_mapping_def obind_def)
  with assms(1) obtain m s pol where w: "required" "unconfigured_policy = Inr pol"
    "w = new_coordinator p m s (setup_config data entry version pol)"
    by (auto simp: entry_controller_def rbind_Inr_iff)
  then have "map tier_reason (thresholds (policy (c_engine w))) = [CONFIGURATION_INVALID]"
    by (auto simp: new_coordinator_fields unconfigured_policy_value)
  moreover have "w_trace (run_requests rs (final (async_recover data True) w)) = []"
    using unconfigured_silent [OF _ assms(3)] recovery_requires [of data True] recovery_silent [of data True] w
    by (simp add: new_coordinator_fields)
  ultimately show ?thesis using w(1) by (simp add: run_requests_def)
qed

lemma unconfigured_entry_never_acts_witness:
  "\<exists>w. entry_controller demo_platform ''entry'' None PNone [] = Inr (True, w)
     \<and> w_trace (run_requests [Recover [] True, SetMode ''auto'', ForceEvaluate] w) = []"
proof -
  have none: "derive_thresholds_from_mapping [] = Inr None"
    by (simp add: derive_thresholds_from_mapping_def legacy_named_thresholds_def legacy_keys_def
        finite_number_def catch_type_value_def dhas_def)
  have "\<exists>w. entry_controller demo_platform ''entry'' None PNone [] = Inr (True, w)"
    by (simp add: entry_controller_def build_model_def normalize_devices_def store_load_def policy_from_mapping_def
        dget_or_def none obind_def unconfigured_policy_value)
  then obtain w where w: "entry_controller demo_platform ''entry'' None PNone [] = Inr (True, w)" by blast
  with unconfigured_entry_never_acts [OF w none, of "[SetMode ''auto'', ForceEvaluate]"] show ?thesis by simp
qed

end
