(* ===== verification/Grid_Incident.thy ===== *)
theory Grid_Incident
  imports Coordinator_Outcomes
begin

text \<open>
  How the controller remembers a grid loss it has handled. The incident is marked as handled before
  the mode is looked at, so one first seen outside Auto is not acted on once Auto is selected.
\<close>

definition incident_kept :: "coord \<Rightarrow> coord \<Rightarrow> bool" where
  "incident_kept w v \<longleftrightarrow> c_incident v = c_incident w \<and> c_deferred_off v = c_deferred_off w"

interpretation incident: action_relation incident_kept
  by unfold_locales (auto simp: incident_kept_def)

named_theorems incident_rules
declare incident.keeps_rules [incident_rules]

lemma upd_incident [incident_rules]: "(\<And>w. incident_kept w (f w)) \<Longrightarrow> keeps incident_kept (upd f)"
  by (rule incident.keeps_upd)

lemma observe_incident: "incident_kept w (observe_entity_report e st p w)"
  by (simp add: incident_kept_def observe_entity_report_def observe_aggregate_report_def observe_safety_report_def
      latch_report_fault_def reset_window_def Let_def)

lemma interfere_incident: "incident_kept w (interfere i w)"
proof (cases i)
  case (Reported e new)
  have "incident_kept w v \<Longrightarrow> incident_kept w (observe_entity_report e st p v)" for v st p
    using incident.rel_trans observe_incident by blast
  then show ?thesis using Reported by (simp add: deliver_report_def Let_def) (simp add: incident_kept_def)
qed (simp_all add: incident_kept_def)

lemma pass_time_incident: "incident_kept w (pass_time st w)"
proof -
  have "incident_kept w (fold interfere evs w)" for evs w
  proof (induction evs arbitrary: w)
    case (Cons i evs)
    show ?case unfolding fold_Cons comp_def by (rule incident.rel_trans [OF interfere_incident Cons.IH])
  qed (simp add: incident.rel_refl)
  moreover have "incident_kept w (w\<lparr>w_script := tl (w_script w)\<rparr>)" by (simp add: incident_kept_def)
  ultimately show ?thesis unfolding pass_time_def by (rule incident.rel_trans [rotated])
qed

lemma await_incident [incident_rules]: "keeps incident_kept await"
  unfolding await_def
  by (intro incident_rules) (simp_all add: pass_time_incident incident_rules split: await_end.split)

lemma steps_incident [incident_rules]:
  "keeps incident_kept (note_action ev)" "keeps incident_kept (new_action_id l)" "keeps incident_kept async_save"
  "keeps incident_kept (say s)" "keeps incident_kept (set_status s)"
  unfolding note_action_def new_action_id_def async_save_def say_def set_status_def
  by (intro incident_rules; simp add: incident_kept_def recorded_def)+

lemma list_case_incident [incident_rules]:
  "keeps incident_kept m \<Longrightarrow> (\<And>x xs. keeps incident_kept (f x xs)) \<Longrightarrow>
   keeps incident_kept (case l of [] \<Rightarrow> m | x # xs \<Rightarrow> f x xs)"
  by (cases l) simp_all

lemma persist_incident [incident_rules]:
  "keeps incident_kept persist_runtime_if_dirty" "keeps incident_kept persist_runtime"
  unfolding persist_runtime_if_dirty_def persist_runtime_def
  by (intro incident_rules; simp add: incident_kept_def saved_snapshot_def)+

lemma lanes_incident [incident_rules]:
  "keeps incident_kept persist" "keeps incident_kept (record_observe_only_action a r i d s x c)"
  unfolding persist_def record_observe_only_action_def Let_def
  by (intro incident_rules; simp add: incident_kept_def)+

lemma observed_incident [incident_rules]: "keeps incident_kept (grid_loss_observed rc label)"
  unfolding grid_loss_observed_def by (intro incident_rules)

text \<open>Selecting a mode forgets nothing either.\<close>

lemma mode_incident: "keeps incident_kept (change_mode m)"
proof -
  have "incident_kept w (mode_changed m w)" "incident_kept w (reset_window w)" "incident_kept w (mode_rolled_back k t w)" for w k t
    by (simp_all add: incident_kept_def mode_changed_def reset_window_def mode_rolled_back_def Let_def)
  note steps = this
  show ?thesis
    unfolding change_mode_def set_mode_property_def reset_restore_def
    by (intro incident_rules steps)
qed

section \<open>Seen outside Auto, ignored in Auto\<close>

text \<open>Outside Auto the loss is marked as handled, whatever fails while it is recorded.\<close>

lemma loss_marked:
  assumes "c_mode w \<noteq> ''auto''" and "c_incident w \<noteq> Some incident"
    and "handle_grid_loss rc label incident w = (r, v)"
  shows "c_incident v = Some incident \<and> c_deferred_off v = {}"
proof -
  let ?u = "w\<lparr>c_deferred_off := {}, c_incident := Some incident\<rparr>"
  from assms have "grid_loss_observed rc label ?u = (r, v)"
    by (simp add: handle_grid_loss_def look_def thn_def bnd_def upd_def Let_def)
  from keepsD [OF observed_incident this] show ?thesis by (simp add: incident_kept_def)
qed

lemma no_battery_stop:
  assumes "\<forall>d \<in> set (all_devices (c_model w)). d_battery_min_soc d = None"
  shows "enforce_battery_minimum w = (if c_mode w \<noteq> ''auto'' then skip w else persist w)"
proof -
  let ?stop = "\<lambda>d. look (\<lambda>w. if \<not> battery_policy_active w d \<or> battery_permits w d \<or> is_flagged (c_faults w) (d_device_id d)
               \<or> logical_device_confirmed_off (w_states w) d
            then skip
            else bnd (stop_on_low_battery d) (\<lambda>stopped.
              whenever stopped (say (''Grid loss'' @ dash @ d_name d @ '' stopped below its battery minimum''))))"
  have "set (get_shed_devices (c_model w)) = set (all_devices (c_model w))" by (simp add: get_shed_devices_def)
  moreover have "for_each ds ?stop w = (Inr (), w)" if "\<forall>d \<in> set ds. d_battery_min_soc d = None" for ds
    using that by (induction ds) (simp_all add: look_def thn_def bnd_def skip_def ret_def battery_policy_active_def)
  ultimately have "for_each (get_shed_devices (c_model w)) ?stop w = (Inr (), w)" using assms by blast
  then show ?thesis
    by (simp add: enforce_battery_minimum_def look_def thn_def bnd_def)
qed

text \<open>A grid loss first seen outside Auto is never acted on. Whatever happens while it is recorded, after
  Auto is selected the handling of the same loss issues no command to any load (none has a battery
  policy) and the loss stays marked as handled, so that the next handling does nothing either.\<close>

theorem observed_loss_not_acted:
  assumes "c_mode w \<noteq> ''auto''" "c_incident w \<noteq> Some incident" "handle_grid_loss rc label incident w = (r1, w1)"
    and "change_mode ''auto'' w1 = (r2, w2)"
    and "\<forall>d \<in> set (all_devices (c_model w2)). d_battery_min_soc d = None"
    and "handle_grid_loss rc' label' incident w2 = (r3, w3)"
  shows "w_trace w3 = w_trace w2 \<and> c_incident w3 = Some incident \<and> c_deferred_off w3 = {}"
proof -
  have marked: "c_incident w2 = Some incident" "c_deferred_off w2 = {}"
    using loss_marked [OF assms(1-3)] keepsD [OF mode_incident assms(4)] by (simp_all add: incident_kept_def)
  let ?first = "\<lambda>w. if c_mode w \<noteq> ''auto'' then skip w else persist w"
  let ?after = "look (\<lambda>w. if c_deferred_off w = {} then say (label' @ dash @ ''emergency action already handled'')
      else thn (upd (\<lambda>w. w\<lparr>c_incident := Some incident\<rparr>))
                 (look (\<lambda>w. if c_mode w \<noteq> ''auto'' then grid_loss_observed rc' label' else grid_loss_stop True rc' label')))"
  have "handle_grid_loss rc' label' incident w2 = thn enforce_battery_minimum ?after w2"
    unfolding handle_grid_loss_def Let_def look_def [of _ w2] marked(1) by (simp only: simp_thms if_True)
  then have run: "handle_grid_loss rc' label' incident w2 = thn ?first ?after w2"
    unfolding thn_def bnd_def no_battery_stop [OF assms(5)] .
  obtain a u where first: "?first w2 = (a, u)" by (cases "?first w2") simp
  have first_frame: "keeps incident_kept ?first" "keeps (extends (\<lambda>_. False)) ?first"
    using lanes_incident(1) stage_frames(3) [where P = "\<lambda>_. False"]
    by (auto simp: keeps_def skip_def ret_def incident.rel_refl extends_def)
  have u: "incident_kept w2 u" "w_trace u = w_trace w2"
    using keepsD [OF first_frame(1) first] silent_trace [OF first_frame(2) first] by simp_all
  have after: "?after u = say (label' @ dash @ ''emergency action already handled'') u"
    using u(1) marked by (simp add: look_def incident_kept_def)
  have "(r3, w3) = (case a of Inl e \<Rightarrow> (Inl e, u) | Inr _ \<Rightarrow> ?after u)"
    using assms(6) unfolding run thn_def bnd_def [of ?first] first by (auto split: sum.splits)
  then have "w3 = (case a of Inl e \<Rightarrow> u | Inr _ \<Rightarrow> snd (say (label' @ dash @ ''emergency action already handled'') u))"
    unfolding after by (cases a) (simp_all, metis snd_conv)
  moreover have "w_trace (snd (say s u)) = w_trace u" "c_incident (snd (say s u)) = c_incident u"
    "c_deferred_off (snd (say s u)) = c_deferred_off u" for s
    by (simp_all add: say_def upd_def)
  ultimately show ?thesis using u marked by (auto simp: incident_kept_def split: sum.splits)
qed

end
