(* ===== verification/Report_Events.thy ===== *)
theory Report_Events
  imports Entry_Setup
begin

text \<open>
  \<open>report_events.py\<close>: the listeners that hand the reports of entities to the controller, and their
  removal. A handler hands its event to \<open>observe_entity_report\<close> and schedules a refresh, which is an
  action of its own later; here it is counted. Home Assistant fires the events: \<open>fired\<close> states its
  documented behaviour, a change event for a new state or new attributes, a report event for a
  report that changes neither.
\<close>

section \<open>Channels and handlers\<close>

datatype state_event =
  State_Changed string "ha_state option" "ha_state option"
| State_Reported string rat "ha_state option"

datatype channel = Load_Changed string | Load_Reported string | Others_Changed "string list"

definition track_reports :: "string list \<Rightarrow> string \<Rightarrow> channel list" where
  "track_reports entity_ids load_sensor =
     (let tracked = remdups entity_ids;
          remaining = removeAll load_sensor tracked
      in (if load_sensor \<in> set tracked then [Load_Changed load_sensor, Load_Reported load_sensor] else [])
         @ (if remaining \<noteq> [] then [Others_Changed remaining] else []))"

fun heard :: "state_event \<Rightarrow> channel \<Rightarrow> bool" where
  "heard (State_Changed e _ _) (Load_Changed l) \<longleftrightarrow> e = l"
| "heard (State_Changed e _ _) (Others_Changed es) \<longleftrightarrow> e \<in> set es"
| "heard (State_Reported e _ _) (Load_Reported l) \<longleftrightarrow> e = l"
| "heard _ _ \<longleftrightarrow> False"

text \<open>\<open>load_changed\<close>, \<open>load_reported\<close> and \<open>other_changed\<close>.\<close>

fun handle_event :: "state_event \<Rightarrow> coord \<Rightarrow> coord" where
  "handle_event (State_Changed e old new) w = observe_entity_report e new (state_reported_timestamp old) w"
| "handle_event (State_Reported e old_last_reported new) w = observe_entity_report e new (Some old_last_reported) w"

text \<open>Every channel that hears an event calls its handler and schedules one refresh.\<close>

definition dispatch_event :: "channel list \<Rightarrow> state_event \<Rightarrow> coord \<times> nat \<Rightarrow> coord \<times> nat" where
  "dispatch_event channels ev s =
     fold (\<lambda>c (w, refreshes). if heard ev c then (handle_event ev w, Suc refreshes) else (w, refreshes)) channels s"

section \<open>Removal\<close>

record listener =
  l_active :: bool
  l_channels :: "channel list"

definition listen :: "string list \<Rightarrow> string \<Rightarrow> listener" where
  "listen entity_ids load_sensor = \<lparr>l_active = True, l_channels = track_reports entity_ids load_sensor\<rparr>"

definition remove_listener :: "listener \<Rightarrow> listener" where
  "remove_listener l = (if \<not> l_active l then l else l\<lparr>l_active := False, l_channels := []\<rparr>)"

text \<open>\<open>_idempotent_remover\<close> of \<open>__init__.py\<close>, around any remover.\<close>

definition idempotent_remover :: "('s \<Rightarrow> 's) \<Rightarrow> bool \<times> 's \<Rightarrow> bool \<times> 's" where
  "idempotent_remover remove s = (case s of (active, x) \<Rightarrow> if \<not> active then (active, x) else (False, remove x))"

lemma removed_once: "(idempotent_remover remove ^^ Suc n) (True, x) = (False, remove x)"
  by (induction n) (simp_all add: idempotent_remover_def)

lemma removed_silent: "dispatch_event (l_channels (remove_listener (listen es l))) ev s = s"
  by (simp add: listen_def remove_listener_def dispatch_event_def)

section \<open>The events of a report\<close>

definition visible :: "ha_state option \<Rightarrow> (string \<times> pydict) option" where
  "visible s = map_option (\<lambda>s. (st_state s, st_attributes s)) s"

definition reported_wall :: "ha_state \<Rightarrow> rat" where
  "reported_wall s = (case st_last_reported s of Datetime wall (Some z) \<Rightarrow> wall - z | _ \<Rightarrow> 0)"

definition fired :: "string \<Rightarrow> ha_state option \<Rightarrow> ha_state option \<Rightarrow> state_event option" where
  "fired e old new =
     (if visible old \<noteq> visible new then Some (State_Changed e old new)
      else case old of None \<Rightarrow> None | Some s \<Rightarrow> Some (State_Reported e (reported_wall s) new))"

definition aware :: "ha_state \<Rightarrow> bool" where
  "aware s \<longleftrightarrow> (case st_last_reported s of Datetime _ (Some _) \<Rightarrow> True | _ \<Rightarrow> False)"

lemma aware_timestamp: "aware s \<Longrightarrow> state_reported_timestamp (Some s) = Some (reported_wall s)"
  by (auto simp: aware_def state_reported_timestamp_def reported_wall_def split: stamp.splits option.splits)

lemma dispatch_unheard: "\<forall>c \<in> set cs. \<not> heard ev c \<Longrightarrow> dispatch_event cs ev s = s"
  unfolding dispatch_event_def by (induction cs) auto

lemma dispatch_append: "dispatch_event (cs @ ds) ev s = dispatch_event ds ev (dispatch_event cs ev s)"
  by (simp add: dispatch_event_def)

lemma dispatch_load:
  assumes "load \<in> set es"
  shows "dispatch_event (track_reports es load) (State_Changed load old new) (w, n) = (handle_event (State_Changed load old new) w, Suc n)"
    "dispatch_event (track_reports es load) (State_Reported load t new) (w, n) = (handle_event (State_Reported load t new) w, Suc n)"
  using assms by (simp_all add: track_reports_def Let_def dispatch_event_def)

lemma dispatch_other:
  assumes "e \<noteq> load"
  shows "dispatch_event (track_reports es load) (State_Changed e old new) (w, n)
      = (if e \<in> set es then (handle_event (State_Changed e old new) w, Suc n) else (w, n))"
    "dispatch_event (track_reports es load) (State_Reported e t new) (w, n) = (w, n)"
proof -
  have "removeAll load (remdups es) \<noteq> []" if "e \<in> set es"
  proof -
    have "e \<in> set (removeAll load (remdups es))" using that assms by simp
    then show ?thesis by (rule length_pos_if_in_set [THEN length_greater_0_conv [THEN iffD1]])
  qed
  then show "dispatch_event (track_reports es load) (State_Changed e old new) (w, n)
      = (if e \<in> set es then (handle_event (State_Changed e old new) w, Suc n) else (w, n))"
    using assms by (auto simp: track_reports_def Let_def dispatch_event_def)
qed (use assms in \<open>simp add: track_reports_def Let_def dispatch_event_def\<close>)

text \<open>An entity the controller does not listen to is not observed.\<close>

lemma unfollowed: "e \<noteq> k_load_sensor w \<Longrightarrow> Some e \<noteq> source_entity_id (k_source w) \<Longrightarrow> observe_entity_report e s t w = w"
  by (simp add: observe_entity_report_def)

text \<open>A controller that sees every entity on.\<close>

definition demo_reported :: coord where
  "demo_reported = demo_coord\<lparr>w_states := \<lambda>_. Some \<lparr>st_state = ''on'', st_attributes = [], st_last_reported = Datetime 0 (Some 0)\<rparr>\<rparr>"

text \<open>C19. The listeners deliver to the controller exactly what the model of its runs lets reach it between
  two steps: with the load sensor and the entity of the safety source among the tracked entities,
  the events Home Assistant fires for a report, handled by the listeners, change the controller as
  the interference \<open>Reported\<close> of the runs does, and schedule exactly one refresh when a tracked
  entity changed or the load sensor reported, none otherwise.\<close>

theorem listeners_deliver_reports:
  assumes "k_load_sensor w \<in> set es" and "\<forall>e. source_entity_id (k_source w) = Some e \<longrightarrow> e \<in> set es"
    and "\<forall>s. w_states w e = Some s \<longrightarrow> aware s" "w_states w e \<noteq> None \<or> new \<noteq> None"
  shows "\<exists>ev. fired e (w_states w e) new = Some ev
    \<and> dispatch_event (track_reports es (k_load_sensor w)) ev (w\<lparr>w_states := (w_states w)(e := new)\<rparr>, n)
      = (interfere (Reported e new) w,
         if e = k_load_sensor w \<or> e \<in> set es \<and> visible (w_states w e) \<noteq> visible new then Suc n else n)"
proof -
  let ?w = "w\<lparr>w_states := (w_states w)(e := new)\<rparr>" and ?old = "w_states w e"
  let ?observed = "observe_entity_report e new (state_reported_timestamp ?old) ?w"
  have run: "interfere (Reported e new) w = (if e = k_load_sensor w \<or> visible ?old \<noteq> visible new then ?observed else ?w)"
    by (simp add: deliver_report_def report_listened_def Let_def visible_def)
  show ?thesis
  proof (cases "visible ?old = visible new")
    case True
    then obtain s where s: "?old = Some s" using assms(4) by (auto simp: visible_def)
    with True have ev: "fired e ?old new = Some (State_Reported e (reported_wall s) new)" by (simp add: fired_def)
    have "state_reported_timestamp ?old = Some (reported_wall s)" using s assms(3) aware_timestamp by simp
    with True run ev show ?thesis
      using dispatch_load(2) [OF assms(1)] dispatch_other(2) [of e "k_load_sensor w" es] by auto
  next
    case changed: False
    then have ev: "fired e ?old new = Some (State_Changed e ?old new)" by (simp add: fired_def)
    have "?observed = ?w" if "e \<notin> set es" "e \<noteq> k_load_sensor w"
      using that assms(2) by (intro unfollowed) auto
    note quiet = this
    show ?thesis
    proof (cases "e = k_load_sensor w")
      case True
      with run ev dispatch_load(1) [OF assms(1)] show ?thesis by simp
    next
      case False
      with changed quiet run ev show ?thesis by (cases "e \<in> set es") (simp_all add: dispatch_other(1))
    qed
  qed
qed

lemma listeners_deliver_reports_witness:
  "\<exists>ev. fired ''binary_sensor.grid'' (w_states demo_reported ''binary_sensor.grid'') None = Some ev
    \<and> dispatch_event (track_reports [''binary_sensor.grid'', ''sensor.load''] ''sensor.load'') ev
        (demo_reported\<lparr>w_states := (w_states demo_reported)(''binary_sensor.grid'' := None)\<rparr>, 0)
      = (interfere (Reported ''binary_sensor.grid'' None) demo_reported, 1)"
proof -
  have sensor: "k_load_sensor demo_reported = ''sensor.load''"
    by (simp add: demo_reported_def demo_coord_def new_coordinator_def demo_setup_def demo_platform_def platform.defs)
  have source: "source_entity_id (k_source demo_reported) = Some ''binary_sensor.grid''"
    by (simp add: demo_reported_def demo_coord_def new_coordinator_def demo_setup_def demo_platform_def platform.defs
        source_entity_id_def source_configured_def source_sensor_id_def truthy_str_def)
  have states: "w_states demo_reported e = Some \<lparr>st_state = ''on'', st_attributes = [], st_last_reported = Datetime 0 (Some 0)\<rparr>" for e
    by (simp add: demo_reported_def)
  show ?thesis
    using listeners_deliver_reports [of demo_reported "[''binary_sensor.grid'', ''sensor.load'']" "''binary_sensor.grid''" None 0]
    by (simp add: sensor source states aware_def visible_def)
qed

end
