(* ===== verification/Entities.thy ===== *)
theory Entities
  imports Entry_Services
begin

text \<open>
  The entities and diagnostics: \<open>sensor.py\<close>, \<open>binary_sensor.py\<close>, \<open>select.py\<close>, \<open>diagnostics.py\<close>.
  Each entity shows live attributes of the controller and the data it last published (None before
  the first publication). Names, classes, units and translation keys are constants of the entities
  and left out; the redaction of Home Assistant is a parameter.
\<close>

section \<open>Reading the published data\<close>

definition data_or_empty :: "pydict option \<Rightarrow> pydict" where
  "data_or_empty data = (case data of None \<Rightarrow> [] | Some d \<Rightarrow> d)"

text \<open>\<open>list(v)\<close> and \<open>dict(v)\<close>.\<close>

definition as_list :: "pyval \<Rightarrow> pyval list res" where
  "as_list v =
     (case v of
        PList xs \<Rightarrow> Inr xs | PTuple xs \<Rightarrow> Inr xs | PDict d \<Rightarrow> Inr (map (PStr \<circ> fst) d)
      | PStr s \<Rightarrow> Inr (map (\<lambda>c. PStr [c]) s) | _ \<Rightarrow> Inl TypeErr)"

definition as_dict :: "pyval \<Rightarrow> pydict res" where
  "as_dict v =
     (case v of PDict d \<Rightarrow> Inr d | PList [] \<Rightarrow> Inr [] | PTuple [] \<Rightarrow> Inr [] | PStr [] \<Rightarrow> Inr [] | _ \<Rightarrow> Inl TypeErr)"

definition list_at :: "pydict \<Rightarrow> string \<Rightarrow> pyval res" where
  "list_at d k = rbind (as_list (dget_or d k (PTuple []))) (\<lambda>xs. Inr (PList xs))"

definition dict_at :: "pydict \<Rightarrow> string \<Rightarrow> pyval res" where
  "dict_at d k = rbind (as_dict (dget_or d k (PDict []))) (\<lambda>x. Inr (PDict x))"

text \<open>A dict display evaluated left to right.\<close>

fun attributes :: "(string \<times> pyval res) list \<Rightarrow> pydict res" where
  "attributes [] = Inr []"
| "attributes ((k, r) # rest) = rbind r (\<lambda>v. rbind (attributes rest) (\<lambda>d. Inr ((k, v) # d)))"

section \<open>Sensors\<close>

datatype sensor = Status | Current_Load | Average_Load | Available_Capacity | Last_Action | Reason_Code | Last_Operation

definition requires_valid_load :: "sensor \<Rightarrow> bool" where
  "requires_valid_load s \<longleftrightarrow> s \<in> {Current_Load, Average_Load, Available_Capacity}"

definition sensor_available :: "sensor \<Rightarrow> 'a ctl_scheme \<Rightarrow> bool" where
  "sensor_available s w = (if requires_valid_load s then c_load_valid w else True)"

text \<open>\<open>str(...)\<close> of the operation result, which the controller publishes as text.\<close>

definition result_text :: "pyval \<Rightarrow> string" where
  "result_text v = (case v of PStr s \<Rightarrow> s | _ \<Rightarrow> [])"

primrec native_value :: "sensor \<Rightarrow> pydict option \<Rightarrow> 'a ctl_scheme \<Rightarrow> pyval" where
  "native_value Status data w = PStr (c_status w)"
| "native_value Current_Load data w = opt_rat (current_load w)"
| "native_value Average_Load data w = opt_rat (average_load w)"
| "native_value Available_Capacity data w = opt_rat (available_capacity w)"
| "native_value Last_Action data w = PStr (c_last_action w)"
| "native_value Reason_Code data w = PStr (reason_value (last_reason_code (c_engine w)))"
| "native_value Last_Operation data w =
     PStr (result_text (dget_or (data_or_empty data) ''last_operation_result'' (PStr ''none'')))"

definition status_attributes :: "pydict option \<Rightarrow> 'a ctl_scheme \<Rightarrow> pydict res" where
  "status_attributes data w =
     (let d = data_or_empty data in attributes
        [(''mode'', Inr (PStr (c_mode w))), (''grid_ok'', Inr (PBool (grid_ok w))),
         (''grid_safety_source_configured'', Inr (PBool (source_configured (k_source w)))),
         (''grid_safety_source_available'', Inr (PBool (grid_safety_source_available w))),
         (''load_sensor_valid'', Inr (PBool (c_load_valid w))),
         (''load_sensor_reason'', Inr (PStr (c_load_reason w))),
         (''startup_safe'', Inr (PBool True)),
         (''telemetry_fault_latched'', Inr (dget d ''telemetry_fault_latched'')),
         (''telemetry_fault_reason'', Inr (dget d ''telemetry_fault_reason'')),
         (''faulted_devices'', list_at d ''faulted_devices''),
         (''quarantined_devices'', list_at d ''quarantined_devices''),
         (''fault_reasons'', dict_at d ''fault_reasons''),
         (''safety_fault_reason'', Inr (dget d ''safety_fault_reason'')),
         (''shed_rejection_counts'', dict_at d ''shed_rejection_counts''),
         (''shed_rejection_total'', Inr (dget_or d ''shed_rejection_total'' (PInt 0))),
         (''shed_rejection_truncated'', Inr (dget_or d ''shed_rejection_truncated'' (PInt 0))),
         (''shed_rejection_devices'', list_at d ''shed_rejection_devices''),
         (''shed_rejection_evaluated_at'', Inr (dget d ''shed_rejection_evaluated_at'')),
         (''pending_restore_ids'', list_at d ''pending_restore_ids''),
         (''pending_restore_names'', list_at d ''pending_restore_names''),
         (''restore_intents'', list_at d ''restore_intents'')])"

definition reason_attributes :: "pydict option \<Rightarrow> pydict" where
  "reason_attributes data =
     (let d = data_or_empty data
      in [(''status'', dget d ''status''), (''policy_phase'', dget d ''policy_phase''),
          (''safety_fault_reason'', dget d ''safety_fault_reason''),
          (''load_sensor_reason'', dget d ''load_sensor_reason'')])"

definition MAX_AUDIT_HISTORY_ATTRIBUTES :: nat where "MAX_AUDIT_HISTORY_ATTRIBUTES = 12"

definition operation_attributes :: "pydict option \<Rightarrow> pydict res" where
  "operation_attributes data =
     (let d = data_or_empty data in
      rbind (as_list (dget_or d ''audit_history'' (PList []))) (\<lambda>raw.
        let recent = filter is_dict raw;
            shown = last_n MAX_AUDIT_HISTORY_ATTRIBUTES recent
        in Inr [(''action_id'', dget d ''last_action_id''), (''operation_id'', dget d ''last_operation_id''),
             (''journal_unresolved_count'', dget_or d ''journal_unresolved_count'' (PInt 0)),
             (''action_journal_invalid'', dget_or d ''action_journal_invalid'' (PBool False)),
             (''journal_persistence_blocked'', dget_or d ''journal_persistence_blocked'' (PBool False)),
             (''audit_history'', PList shown),
             (''audit_history_total'', PInt (int (length recent))),
             (''audit_history_truncated'', PInt (max 0 (int (length recent) - int (length shown))))]))"

section \<open>Binary sensors\<close>

definition grid_sensor_available :: "'a ctl_scheme \<Rightarrow> bool" where
  "grid_sensor_available w = grid_safety_source_available w"

definition grid_sensor_on :: "'a ctl_scheme \<Rightarrow> bool" where
  "grid_sensor_on w = grid_ok w"

definition fault_sensor_on :: "pydict option \<Rightarrow> bool" where
  "fault_sensor_on data = truthy (dget_or (data_or_empty data) ''faulted_devices'' (PTuple []))"

definition fault_sensor_attributes :: "pydict option \<Rightarrow> pydict res" where
  "fault_sensor_attributes data =
     (let d = data_or_empty data
      in attributes [(''device_ids'', list_at d ''faulted_devices''), (''device_reasons'', dict_at d ''fault_reasons'')])"

definition journal_sensor_on :: "pydict option \<Rightarrow> bool" where
  "journal_sensor_on data =
     (let d = data_or_empty data
      in \<not> (truthy (dget_or d ''action_journal_invalid'' (PBool False))
             \<or> truthy (dget_or d ''journal_persistence_blocked'' (PBool False))))"

definition journal_sensor_attributes :: "pydict option \<Rightarrow> pydict" where
  "journal_sensor_attributes data =
     (let d = data_or_empty data
      in [(''unresolved_count'', dget_or d ''journal_unresolved_count'' (PInt 0)),
          (''invalid'', dget_or d ''action_journal_invalid'' (PBool False)),
          (''persistence_blocked'', dget_or d ''journal_persistence_blocked'' (PBool False))])"

section \<open>The mode select\<close>

definition select_options :: "string list" where
  "select_options = [''auto'', ''observe'', ''off'']"

definition current_option :: "'a ctl_scheme \<Rightarrow> string" where
  "current_option w = c_mode w"

definition async_select_option :: "string \<Rightarrow> unit action" where
  "async_select_option option =
     (if option \<notin> set select_options then raise (translated_error ''invalid_select_option'')
      else async_set_mode option)"

section \<open>The platforms\<close>

text \<open>The entities each platform adds for a loaded entry, in their order, by the unique id each builds
  from the id of the entry; a platform set up without runtime data raises.\<close>

definition sensor_suffix :: "sensor \<Rightarrow> string" where
  "sensor_suffix s =
     (case s of Status \<Rightarrow> ''status'' | Current_Load \<Rightarrow> ''current_load'' | Average_Load \<Rightarrow> ''average_load''
      | Available_Capacity \<Rightarrow> ''available_capacity'' | Last_Action \<Rightarrow> ''last_action''
      | Reason_Code \<Rightarrow> ''reason_code'' | Last_Operation \<Rightarrow> ''last_operation'')"

definition sensor_unique_id :: "string \<Rightarrow> sensor \<Rightarrow> string" where
  "sensor_unique_id entry_id s = entry_id @ ''_sensor_'' @ sensor_suffix s"

datatype binary = Grid_Ok_Sensor | Fault_Sensor | Journal_Sensor

definition binary_unique_id :: "string \<Rightarrow> binary \<Rightarrow> string" where
  "binary_unique_id entry_id b =
     (case b of Grid_Ok_Sensor \<Rightarrow> entry_id @ ''_binary_sensor_grid_ok''
      | Fault_Sensor \<Rightarrow> entry_id @ ''_binary_sensor_'' @ ''faulted''
      | Journal_Sensor \<Rightarrow> entry_id @ ''_binary_sensor_'' @ ''action_journal_healthy'')"

definition mode_select_unique_id :: "string \<Rightarrow> string" where
  "mode_select_unique_id entry_id = entry_id @ ''_select_mode''"

definition setup_sensors :: "'r option \<Rightarrow> string \<Rightarrow> (sensor \<times> string) list option" where
  "setup_sensors runtime entry_id =
     (case runtime of None \<Rightarrow> None
      | Some _ \<Rightarrow> Some (map (\<lambda>s. (s, sensor_unique_id entry_id s))
          [Status, Current_Load, Average_Load, Available_Capacity, Last_Action, Reason_Code, Last_Operation]))"

definition setup_binary_sensors :: "'r option \<Rightarrow> string \<Rightarrow> (binary \<times> string) list option" where
  "setup_binary_sensors runtime entry_id =
     (case runtime of None \<Rightarrow> None
      | Some _ \<Rightarrow> Some (map (\<lambda>b. (b, binary_unique_id entry_id b)) [Grid_Ok_Sensor, Fault_Sensor, Journal_Sensor]))"

definition setup_select :: "'r option \<Rightarrow> string \<Rightarrow> string list option" where
  "setup_select runtime entry_id =
     (case runtime of None \<Rightarrow> None | Some _ \<Rightarrow> Some [mode_select_unique_id entry_id])"

section \<open>Diagnostics\<close>

definition count_of :: "pydict \<Rightarrow> string \<Rightarrow> int" where
  "count_of raw k = (case dget raw k of PList xs \<Rightarrow> int (length xs) | PTuple xs \<Rightarrow> int (length xs) | _ \<Rightarrow> 0)"

definition diagnostic_keys :: "string list" where
  "diagnostic_keys =
     [''status'', ''mode'', ''policy_phase'', ''reason_code'', ''grid_ok'', ''load_sensor_valid'',
      ''load_sensor_reason'', ''startup_safe'', ''physical_commands_allowed'', ''journal_persistence_blocked'',
      ''action_journal_invalid'', ''journal_unresolved_count'', ''audit_history_total'',
      ''audit_history_truncated'', ''faulted_devices_count'', ''quarantined_devices_count'',
      ''safety_fault_reason'', ''pending_restore_count'', ''telemetry_fault_latched'',
      ''safety_storage_invalid'', ''grid_safety_source_available'', ''restore_commands_allowed'']"

definition set_default :: "string \<Rightarrow> pyval \<Rightarrow> pydict \<Rightarrow> pydict" where
  "set_default k v d = (if dhas d k then d else d @ [(k, v)])"

definition bounded_runtime_data :: "pydict option \<Rightarrow> pydict" where
  "bounded_runtime_data data =
     (let raw = data_or_empty data;
          projected = map (\<lambda>k. (k, dget raw k)) (filter (dhas raw) diagnostic_keys)
      in set_default ''pending_restore_count'' (PInt (count_of raw ''pending_restore_ids''))
           (set_default ''quarantined_devices_count'' (PInt (count_of raw ''quarantined_devices''))
             (set_default ''faulted_devices_count'' (PInt (count_of raw ''faulted_devices'')) projected)))"

definition TO_REDACT :: "string list" where
  "TO_REDACT =
     [''access_token'', ''api_key'', ''authorization'', ''client_id'', ''client_secret'', ''connection_string'',
      ''credentials'', ''email'', ''latitude'', ''longitude'', ''password'', ''refresh_token'', ''secret'', ''token'']"

definition config_entry_diagnostics ::
  "(string list \<Rightarrow> pydict \<Rightarrow> pydict) \<Rightarrow> pydict \<Rightarrow> pydict \<Rightarrow> pydict option option \<Rightarrow> pydict" where
  "config_entry_diagnostics redact data options runtime =
     [(''integration'', PStr ''power_orchestrator''),
      (''entry_data'', PDict (redact TO_REDACT data)), (''options'', PDict (redact TO_REDACT options)),
      (''runtime'', PDict
        [(''loaded'', PBool (runtime \<noteq> None)),
         (''data'', PDict (bounded_runtime_data (case runtime of None \<Rightarrow> None | Some d \<Rightarrow> d)))])]"

section \<open>What the entities show\<close>

lemma published_data:
  assumes "build_data w = Inr d"
  obtains history n where "d = status_data w @ restore_data w @ fault_data w n history"
  using assms by (auto simp: build_data_def rbind_Inr_iff)

lemma published_get:
  assumes d: "d = status_data w @ restore_data w @ fault_data w n history"
  shows "map_of d ''faulted_devices'' = Some (sorted_ids (faulted (c_faults w)))"
    "map_of d ''quarantined_devices'' = Some (sorted_ids (quarantined (c_faults w)))"
    "map_of d ''pending_restore_ids'' = Some (str_list (tr_pending (c_tx w)))"
    "map_of d ''audit_history'' = Some (PList (map PDict history))"
    "map_of d ''action_journal_invalid'' = Some (PBool (c_journal_invalid w))"
    "map_of d ''journal_persistence_blocked'' = Some (PBool (c_persist_blocked w))"
    "map_of d ''journal_unresolved_count'' = Some (PInt n)"
  unfolding d by (simp_all add: status_data_def restore_data_def fault_data_def)

primrec plain :: "pyval \<Rightarrow> bool" where
  "plain PNone = True" | "plain (PBool b) = True" | "plain (PInt i) = True" | "plain (PFloat f) = True"
| "plain (PStr s) = True" | "plain (PList xs) = False" | "plain (PTuple xs) = False" | "plain (PDict d) = False"

lemma plain_options [simp]: "plain (opt_text s)" "plain (opt_rat x)"
  by (simp_all add: opt_text_def opt_rat_def split: option.split)

definition bulky_keys :: "string list" where
  "bulky_keys = [''thresholds'', ''pending_restore_ids'', ''pending_restore_names'', ''restore_tickets'',
     ''restore_intents'', ''faulted_devices'', ''quarantined_devices'', ''fault_reasons'', ''shed_rejection_counts'',
     ''shed_rejection_devices'', ''audit_history'', ''devices'']"

definition published_keys :: "string list" where
  "published_keys =
     [''status'', ''current_load'', ''average_load'', ''available_capacity'', ''last_action'', ''grid_ok'',
      ''grid_safety_source_available'', ''safety_storage_invalid'', ''load_sensor_valid'', ''load_sensor_reason'', ''mode'',
      ''physical_commands_allowed'', ''startup_safe'', ''policy_version'', ''policy_phase'', ''reason_code'', ''thresholds'',
      ''lowest_limit_w'', ''shed_barrier_pending'', ''restore_commands_allowed'', ''restore_barrier_pending'',
      ''pending_restore_ids'', ''pending_restore_names'', ''restore_tickets'', ''restore_intents'',
      ''telemetry_fault_latched'', ''telemetry_fault_reason'', ''reconfiguration_required'', ''last_operation_id'',
      ''last_operation_result'', ''last_action_id'', ''journal_unresolved_count'', ''action_journal_invalid'',
      ''journal_persistence_blocked'', ''faulted_devices'', ''quarantined_devices'', ''fault_reasons'',
      ''safety_fault_reason'', ''shed_rejection_counts'', ''shed_rejection_devices'', ''shed_rejection_total'',
      ''shed_rejection_truncated'', ''shed_rejection_evaluated_at'', ''audit_history'', ''devices'']"

lemma keys_of_published: "map fst (status_data w @ restore_data w @ fault_data w n history) = published_keys"
  by (simp add: status_data_def restore_data_def fault_data_def published_keys_def)

lemma diagnostic_not_bulky: "list_all (\<lambda>k. k \<notin> set bulky_keys) diagnostic_keys"
  by code_simp

lemma published_values: "(k, v) \<in> set (status_data w @ restore_data w @ fault_data w n history) \<Longrightarrow> plain v \<or> k \<in> set bulky_keys"
proof -
  have "list_all (\<lambda>(k, v). plain v \<or> k \<in> set bulky_keys) (status_data w @ restore_data w @ fault_data w n history)"
    by (simp add: status_data_def restore_data_def fault_data_def bulky_keys_def)
  then show "(k, v) \<in> set (status_data w @ restore_data w @ fault_data w n history) \<Longrightarrow> ?thesis"
    by (auto simp: list_all_iff)
qed

lemma published_plain:
  assumes d: "d = status_data w @ restore_data w @ fault_data w n history" and "k \<in> set diagnostic_keys"
  shows "plain (dget d k)"
proof (cases "map_of d k")
  case (Some v)
  then have "(k, v) \<in> set d" by (rule map_of_SomeD)
  with published_values d have "plain v \<or> k \<in> set bulky_keys" by blast
  with assms(2) diagnostic_not_bulky Some show ?thesis by (auto simp: list_all_iff dget_def)
qed (simp add: dget_def)

lemma published_counts:
  assumes d: "d = status_data w @ restore_data w @ fault_data w n history"
  shows "\<not> dhas d ''faulted_devices_count''" "\<not> dhas d ''quarantined_devices_count''" "\<not> dhas d ''pending_restore_count''"
    "\<not> dhas d ''audit_history_total''" "\<not> dhas d ''audit_history_truncated''"
  unfolding d dhas_def keys_of_published by code_simp+

lemma projected_keys:
  assumes d: "d = status_data w @ restore_data w @ fault_data w n history"
    and fin: "finite (faulted (c_faults w))" "finite (quarantined (c_faults w))"
  shows "bounded_runtime_data (Some d) = map (\<lambda>k. (k, dget d k)) (filter (dhas d) diagnostic_keys)
     @ [(''faulted_devices_count'', PInt (int (card (faulted (c_faults w))))),
        (''quarantined_devices_count'', PInt (int (card (quarantined (c_faults w))))),
        (''pending_restore_count'', PInt (int (length (tr_pending (c_tx w)))))]"
proof -
  have "map fst (map (\<lambda>k. (k, dget d k)) (filter (dhas d) diagnostic_keys)) = filter (dhas d) diagnostic_keys"
    by (simp add: comp_def)
  then have "\<not> dhas (map (\<lambda>k. (k, dget d k)) (filter (dhas d) diagnostic_keys)) k" if "\<not> dhas d k" for k
    using that unfolding dhas_def [of "map _ _"] by simp
  note absent = this [OF published_counts(1) [OF d]] this [OF published_counts(2) [OF d]] this [OF published_counts(3) [OF d]]
  have add: "dhas (xs @ ys) k \<longleftrightarrow> dhas xs k \<or> k \<in> fst ` set ys" for xs ys k
    by (simp add: dhas_def)
  have counts: "count_of d ''faulted_devices'' = int (card (faulted (c_faults w)))"
    "count_of d ''quarantined_devices'' = int (card (quarantined (c_faults w)))"
    "count_of d ''pending_restore_ids'' = int (length (tr_pending (c_tx w)))"
    using published_get [OF d] fin by (simp_all add: count_of_def dget_def sorted_ids_def str_list_def)
  show ?thesis
    unfolding bounded_runtime_data_def data_or_empty_def Let_def option.case set_default_def
    by (simp add: absent add counts)
qed

section \<open>A controller with a faulted load\<close>

definition demo_faulted :: coord where
  "demo_faulted = demo_coord\<lparr>c_faults := (c_faults demo_coord)\<lparr>faulted := {''pump''}, quarantined := {''pump''}\<rparr>,
     c_persist_blocked := True\<rparr>"

lemma demo_published: "\<exists>d. build_data demo_faulted = Inr d"
proof -
  have "history_of (c_store demo_faulted) = PList []"
    by (simp add: demo_faulted_def demo_coord_def new_coordinator_def demo_platform_def platform.defs history_of_def dget_or_def)
  then show ?thesis
    by (simp add: build_data_def normalize_history_def unresolved_count_def unresolved_actions_def last_n_def)
qed

lemma sorted_demo: "sorted_ids {''pump''} = PList [PStr ''pump'']"
  by (simp add: sorted_ids_def)

lemma demo_faults:
  "faulted (c_faults demo_faulted) = {''pump''}" "quarantined (c_faults demo_faulted) = {''pump''}"
  "tr_pending (c_tx demo_faulted) = [''pump'']" "c_persist_blocked demo_faulted"
  by (simp_all add: demo_faulted_def demo_coord_def)

section \<open>Claims\<close>

text \<open>The diagnostics carry no histories and no identities of loads: from published data they
  keep a fixed set of fields, each a single value, and of the faulted, the quarantined and the
  pending loads they tell the exact number only. (The totals of the audit history, which the
  code would also pass on, are never published.)\<close>

theorem diagnostics_bounded:
  assumes "build_data w = Inr d" and "finite (faulted (c_faults w))" "finite (quarantined (c_faults w))"
  shows "list_all (\<lambda>(k, v). k \<in> set diagnostic_keys \<and> plain v) (bounded_runtime_data (Some d))
    \<and> distinct (map fst (bounded_runtime_data (Some d)))
    \<and> dget (bounded_runtime_data (Some d)) ''faulted_devices_count'' = PInt (int (card (faulted (c_faults w))))
    \<and> dget (bounded_runtime_data (Some d)) ''quarantined_devices_count'' = PInt (int (card (quarantined (c_faults w))))
    \<and> dget (bounded_runtime_data (Some d)) ''pending_restore_count'' = PInt (int (length (tr_pending (c_tx w))))
    \<and> \<not> dhas (bounded_runtime_data (Some d)) ''audit_history_total''"
proof -
  from assms(1) obtain history n where d: "d = status_data w @ restore_data w @ fault_data w n history"
    by (rule published_data)
  let ?ks = "filter (dhas d) diagnostic_keys"
  let ?r = "bounded_runtime_data (Some d)"
  note r = projected_keys [OF d assms(2,3)]
  have keys: "map fst ?r = ?ks @ [''faulted_devices_count'', ''quarantined_devices_count'', ''pending_restore_count'']"
    unfolding r by (simp add: comp_def)
  note gone = published_counts [OF d]
  have counts: "list_all (\<lambda>k. k \<in> set diagnostic_keys) [''faulted_devices_count'', ''quarantined_devices_count'', ''pending_restore_count'']"
    "distinct diagnostic_keys" by code_simp+
  have "list_all (\<lambda>(k, v). k \<in> set diagnostic_keys \<and> plain v) ?r"
    using published_plain [OF d] counts(1) unfolding r by (auto simp: list_all_iff)
  moreover have "distinct (map fst ?r)" unfolding keys using gone counts(2) by simp
  moreover have "\<not> dhas ?r ''audit_history_total''" unfolding dhas_def [of ?r] keys using gone by simp
  moreover have "map_of ?r k = map_of [(''faulted_devices_count'', PInt (int (card (faulted (c_faults w))))),
        (''quarantined_devices_count'', PInt (int (card (quarantined (c_faults w))))),
        (''pending_restore_count'', PInt (int (length (tr_pending (c_tx w)))))] k" if "\<not> dhas d k" for k
  proof -
    have "map_of (map (\<lambda>k. (k, dget d k)) ?ks) k = None"
      using that by (simp add: map_of_eq_None_iff image_iff)
    then show ?thesis unfolding r map_of_append by (simp add: map_add_def split: option.split)
  qed
  ultimately show ?thesis using gone by (simp add: dget_def)
qed

lemma diagnostics_bounded_witness:
  "\<exists>d. build_data demo_faulted = Inr d
    \<and> dget (bounded_runtime_data (Some d)) ''faulted_devices_count'' = PInt 1
    \<and> dget (bounded_runtime_data (Some d)) ''pending_restore_count'' = PInt 1"
proof -
  from demo_published obtain d where d: "build_data demo_faulted = Inr d" by blast
  have "finite (faulted (c_faults demo_faulted))" "finite (quarantined (c_faults demo_faulted))"
    by (simp_all add: demo_faults)
  from diagnostics_bounded [OF d this] d show ?thesis by (simp add: demo_faults)
qed

text \<open>Two entities never share an identity, within an entry.\<close>

lemma unique_ids_distinct:
  assumes "setup_sensors r e = Some xs" "setup_binary_sensors r e = Some ys" "setup_select r e = Some zs"
  shows "distinct (map snd xs @ map snd ys @ zs)"
  using assms
  by (auto simp: setup_sensors_def setup_binary_sensors_def setup_select_def sensor_unique_id_def sensor_suffix_def
      binary_unique_id_def mode_select_unique_id_def split: option.splits)

lemma select_is_request:
  "async_select_option m k = (if m \<in> {''auto'', ''observe'', ''off''} then async_set_mode m k
     else raise (translated_error ''invalid_select_option'') k)"
  by (auto simp: async_select_option_def select_options_def)

text \<open>The lists and dictionaries the status sensor reads are always published as such.\<close>

lemma published_containers:
  assumes d: "d = status_data w @ restore_data w @ fault_data w n history"
  shows "\<exists>x. list_at d ''faulted_devices'' = Inr x" "\<exists>x. list_at d ''quarantined_devices'' = Inr x"
    "\<exists>x. list_at d ''shed_rejection_devices'' = Inr x" "\<exists>x. list_at d ''pending_restore_ids'' = Inr x"
    "\<exists>x. list_at d ''pending_restore_names'' = Inr x" "\<exists>x. list_at d ''restore_intents'' = Inr x"
    "\<exists>x. dict_at d ''fault_reasons'' = Inr (PDict x)" "\<exists>x. dict_at d ''shed_rejection_counts'' = Inr x"
    "list_at d ''faulted_devices'' = Inr (sorted_ids (faulted (c_faults w)))"
  unfolding d list_at_def dict_at_def dget_or_def
  by (simp_all add: status_data_def restore_data_def fault_data_def as_list_def as_dict_def sorted_ids_def str_list_def
      intents_data_def)

lemma attributes_ok: "list_all (\<lambda>(k, r). \<exists>x. r = Inr x) kvs \<Longrightarrow> \<exists>d. attributes kvs = Inr d"
  by (induction kvs rule: attributes.induct) auto

text \<open>C36. The entities tell what the controller published, and reading them never fails. From the
  data published by a controller: the fault sensor is on exactly when a load is faulted and lists
  exactly the faulted loads; the journal sensor is on exactly when the journal is neither invalid nor
  blocked; the last operation carries the last twelve records of the audit history at most, and
  its counts add up. Before the first publication they show empty data.\<close>

theorem entities_show_projection:
  assumes "build_data w = Inr d" and "finite (faulted (c_faults w))"
  shows "fault_sensor_on (Some d) = (faulted (c_faults w) \<noteq> {})
    \<and> (\<exists>rs. fault_sensor_attributes (Some d) = Inr [(''device_ids'', sorted_ids (faulted (c_faults w))), (''device_reasons'', PDict rs)])
    \<and> journal_sensor_on (Some d) = (\<not> c_journal_invalid w \<and> \<not> c_persist_blocked w)
    \<and> (\<exists>a. status_attributes (Some d) v = Inr a) \<and> (\<exists>a. status_attributes None v = Inr a)
    \<and> (\<exists>a shown hidden. operation_attributes (Some d) = Inr a
         \<and> dget d ''audit_history'' = PList (hidden @ shown)
         \<and> length shown = min 12 (length (hidden @ shown))
         \<and> dget a ''audit_history'' = PList shown
         \<and> dget a ''audit_history_total'' = PInt (int (length (hidden @ shown)))
         \<and> dget a ''audit_history_truncated'' = PInt (int (length hidden)))"
proof -
  from assms(1) obtain history n where d: "d = status_data w @ restore_data w @ fault_data w n history"
    by (rule published_data)
  note got = published_get [OF d] and boxes = published_containers [OF d]
  obtain rs where rs: "dict_at d ''fault_reasons'' = Inr (PDict rs)" using boxes(7) by blast
  let ?hs = "map PDict history"
  let ?shown = "last_n MAX_AUDIT_HISTORY_ATTRIBUTES ?hs" and ?hidden = "take (length ?hs - 12) ?hs"
  have split: "?hs = ?hidden @ ?shown" by (simp add: last_n_def MAX_AUDIT_HISTORY_ATTRIBUTES_def)
  have "fault_sensor_on (Some d) = (faulted (c_faults w) \<noteq> {})"
    using got(1) assms(2) by (simp add: fault_sensor_on_def data_or_empty_def dget_or_def sorted_ids_def)
  moreover have "\<exists>rs. fault_sensor_attributes (Some d) = Inr [(''device_ids'', sorted_ids (faulted (c_faults w))), (''device_reasons'', PDict rs)]"
    using boxes(9) rs by (simp add: fault_sensor_attributes_def data_or_empty_def)
  moreover have "journal_sensor_on (Some d) = (\<not> c_journal_invalid w \<and> \<not> c_persist_blocked w)"
    using got(5,6) by (simp add: journal_sensor_on_def data_or_empty_def dget_or_def)
  moreover have "\<exists>a. status_attributes (Some d) v = Inr a"
    unfolding status_attributes_def data_or_empty_def Let_def option.case
    by (rule attributes_ok) (use boxes in auto)
  moreover have "\<exists>a. status_attributes None v = Inr a"
    unfolding status_attributes_def data_or_empty_def Let_def option.case
    by (rule attributes_ok) (simp add: list_at_def dict_at_def dget_or_def as_list_def as_dict_def)
  moreover have "\<exists>a. operation_attributes (Some d) = Inr a \<and> dget a ''audit_history'' = PList ?shown
      \<and> dget a ''audit_history_total'' = PInt (int (length (?hidden @ ?shown)))
      \<and> dget a ''audit_history_truncated'' = PInt (int (length ?hidden))"
  proof -
    have all: "filter is_dict ?hs = ?hs" by (induction history) simp_all
    have total: "int (length (?hidden @ ?shown)) = int (length ?hs)" unfolding split [symmetric] by simp
    have raw: "as_list (dget_or d ''audit_history'' (PList [])) = Inr ?hs"
      using got(4) by (simp add: dget_or_def as_list_def)
    show ?thesis unfolding total
      by (simp add: operation_attributes_def data_or_empty_def raw all)
         (simp add: dget_def last_n_def MAX_AUDIT_HISTORY_ATTRIBUTES_def)
  qed
  moreover have "dget d ''audit_history'' = PList (?hidden @ ?shown)" using got(4) split by (simp add: dget_def)
  moreover have "length ?shown = min 12 (length (?hidden @ ?shown))" unfolding split [symmetric]
    by (simp add: last_n_def MAX_AUDIT_HISTORY_ATTRIBUTES_def)
  ultimately show ?thesis by blast
qed

lemma entities_show_projection_witness:
  "\<exists>d. build_data demo_faulted = Inr d \<and> fault_sensor_on (Some d) \<and> \<not> journal_sensor_on (Some d)
    \<and> dget d ''faulted_devices'' = PList [PStr ''pump'']"
proof -
  from demo_published obtain d where d: "build_data demo_faulted = Inr d" by blast
  have fin: "finite (faulted (c_faults demo_faulted))" by (simp add: demo_faults)
  have "dget d ''faulted_devices'' = PList [PStr ''pump'']"
    using published_data [OF d] published_get(1) by (metis demo_faults(1) dget_def option.simps(5) sorted_demo)
  with entities_show_projection [OF d fin, of demo_faulted] d show ?thesis by (simp add: demo_faults)
qed

end
