(* ===== verification/Runtime_Evidence.thy ===== *)
theory Runtime_Evidence
  imports Entities
begin

text \<open>
  \<open>scripts/runtime_evidence.py\<close>: the readiness check and the incident export of a saved snapshot.
  \<open>datetime.fromisoformat\<close> is a parameter giving the wall time and the UTC offset of a text or the
  message of its ValueError, and so is \<open>isoformat\<close>. The codes \<open>known_codes\<close> reads from the source of
  \<open>policy.py\<close> are the values of the enumerations as \<open>Policy\<close> has them. Fields kept in sets
  are taken in the order of their listing.
\<close>

section \<open>Time\<close>

type_synonym iso_reader = "string \<Rightarrow> string + (rat \<times> rat option)"

definition zulu :: "string \<Rightarrow> string" where
  "zulu s = concat (map (\<lambda>c. if c = CHR ''Z'' then ''+00:00'' else [c]) s)"

text \<open>A moment outside the years 1 to 9999 has no UTC datetime.\<close>

definition timestamp :: "iso_reader \<Rightarrow> pyval \<Rightarrow> rat res" where
  "timestamp reader v =
     (case v of
        PStr s \<Rightarrow>
          (case reader (zulu s) of
             Inl message \<Rightarrow> Inl (ValueErr message)
           | Inr (wall, None) \<Rightarrow> Inl (ValueErr ''snapshot timestamp needs a timezone'')
           | Inr (wall, Some offset) \<Rightarrow>
               if - 62135596800 \<le> wall - offset \<and> wall - offset < 253402300800 then Inr (wall - offset)
               else Inl OverflowErr)
      | _ \<Rightarrow> Inl (ValueErr ''snapshot timestamp is missing''))"

section \<open>Readiness\<close>

definition required_facts :: pydict where
  "required_facts =
     [(''mode'', PStr ''observe''), (''status'', PStr ''observe''), (''policy_phase'', PStr ''monitoring''),
      (''reason_code'', PStr ''normal_monitoring''), (''grid_ok'', PBool True), (''load_sensor_valid'', PBool True),
      (''physical_commands_allowed'', PBool False), (''journal_persistence_blocked'', PBool False),
      (''action_journal_invalid'', PBool False), (''journal_unresolved_count'', PInt 0),
      (''faulted_devices_count'', PInt 0), (''quarantined_devices_count'', PInt 0), (''safety_fault_reason'', PNone),
      (''telemetry_fault_latched'', PBool False), (''safety_storage_invalid'', PBool False),
      (''grid_safety_source_available'', PBool True), (''restore_commands_allowed'', PBool False)]"

definition age_blockers :: "iso_reader \<Rightarrow> pydict \<Rightarrow> rat \<Rightarrow> rat \<Rightarrow> string list res" where
  "age_blockers reader snapshot now max_age =
     (case timestamp reader (dget snapshot ''checked_at_utc'') of
        Inl (ValueErr message) \<Rightarrow> Inr [message]
      | Inl e \<Rightarrow> Inl e
      | Inr moment \<Rightarrow> Inr (if 0 \<le> now - moment \<and> now - moment \<le> max_age then [] else [''snapshot is stale or in the future'']))"

definition manifest_blockers :: "pyval \<Rightarrow> string \<Rightarrow> string list" where
  "manifest_blockers manifest expected =
     (if \<not> is_dict manifest \<or> dget (the_dict manifest) ''domain'' \<noteq> PStr ''power_orchestrator''
      then [''loaded process manifest is missing or belongs to another integration'']
      else if dget (the_dict manifest) ''version'' \<noteq> PStr expected
      then [''loaded process version does not match the expected release''] else [])"

definition runtime_of :: "pyval \<Rightarrow> pyval" where
  "runtime_of runtime = (if is_dict runtime then dget_or (the_dict runtime) ''data'' (PDict []) else PDict [])"

text \<open>The check of a field compares the type and the value: for these values, the same constructor
  and the same content.\<close>

definition field_blockers :: "pydict \<Rightarrow> string list" where
  "field_blockers data =
     map (\<lambda>(k, v). ''missing, invalid or unhealthy runtime field: '' @ k)
       (filter (\<lambda>(k, v). map_of data k \<noteq> Some v) required_facts)"

definition readiness :: "iso_reader \<Rightarrow> pydict \<Rightarrow> string \<Rightarrow> rat \<Rightarrow> rat \<Rightarrow> string list res" where
  "readiness reader snapshot expected now max_age =
     rbind (age_blockers reader snapshot now max_age) (\<lambda>stale.
       let runtime = dget snapshot ''runtime'';
           data = runtime_of runtime
       in Inr (stale @ manifest_blockers (dget snapshot ''loaded_manifest'') expected
            @ (if \<not> is_dict runtime \<or> dget (the_dict runtime) ''loaded'' \<noteq> PBool True
               then [''integration runtime is not explicitly loaded''] else [])
            @ field_blockers (if is_dict data then the_dict data else [])))"

section \<open>Incident export\<close>

definition known_codes :: "string list" where
  "known_codes = map reason_value all_reasons @ map phase_value all_phases
     @ [''observe'', ''auto'', ''off'', ''monitoring'', ''confirmed'', ''failed'', ''prepared'', ''dispatched'',
        ''rejected'', ''observe_only'', ''grid_loss'', ''turn_off'', ''turn_on'', ''emergency'', ''battery_minimum'',
        ''requested_stop'', ''service_error'', ''off_permission_withdrawn'', ''restore_permission_withdrawn'']"

definition BOOL_FIELDS :: "string list" where
  "BOOL_FIELDS = [''grid_ok'', ''load_sensor_valid'', ''startup_safe'', ''physical_commands_allowed'',
     ''journal_persistence_blocked'', ''action_journal_invalid'', ''telemetry_fault_latched'',
     ''safety_storage_invalid'', ''grid_safety_source_available'', ''restore_commands_allowed'']"

definition COUNT_FIELDS :: "string list" where
  "COUNT_FIELDS = [''journal_unresolved_count'', ''faulted_devices_count'', ''quarantined_devices_count'',
     ''pending_restore_count'', ''audit_history_total'']"

text \<open>The entries of a dictionary under the given keys whose values pass a test.\<close>

definition kept :: "(pyval \<Rightarrow> bool) \<Rightarrow> string list \<Rightarrow> pydict \<Rightarrow> pydict" where
  "kept ok keys d = map (\<lambda>k. (k, dget d k)) (filter (\<lambda>k. ok (dget d k)) keys)"

definition known_code :: "pyval \<Rightarrow> bool" where
  "known_code v = (case v of PStr s \<Rightarrow> s \<in> set known_codes | _ \<Rightarrow> False)"

definition is_count :: "pyval \<Rightarrow> bool" where
  "is_count v = (case v of PInt i \<Rightarrow> 0 \<le> i | _ \<Rightarrow> False)"

definition safe_runtime :: "pyval \<Rightarrow> pydict" where
  "safe_runtime data =
     (if is_dict data
      then kept is_bool BOOL_FIELDS (the_dict data) @ kept is_count COUNT_FIELDS (the_dict data)
        @ kept known_code [''mode'', ''status'', ''policy_phase'', ''reason_code''] (the_dict data)
      else [])"

text \<open>\<open>\d+\.\d+\.\d+\<close>, on the code points below 256.\<close>

definition version_text :: "string \<Rightarrow> bool" where
  "version_text s =
     (let a = takeWhile is_digit s; r = dropWhile is_digit s;
          b = takeWhile is_digit (tl r); q = dropWhile is_digit (tl r)
      in a \<noteq> [] \<and> r \<noteq> [] \<and> hd r = CHR ''.'' \<and> b \<noteq> [] \<and> q \<noteq> [] \<and> hd q = CHR ''.'' \<and> tl q \<noteq> []
         \<and> list_all is_digit (tl q))"

definition loaded_version :: "pyval \<Rightarrow> pyval" where
  "loaded_version manifest =
     (let version = (if is_dict manifest then dget (the_dict manifest) ''version'' else PNone)
      in if is_str version \<and> version_text (the_str version) then version else PNone)"

text \<open>\<open>type(v) in (int, float) and math.isfinite(v)\<close>, which raises for a huge integer.\<close>

definition finite_number :: "pyval \<Rightarrow> bool res" where
  "finite_number v = (case v of PInt i \<Rightarrow> py_isfinite v | PFloat f \<Rightarrow> py_isfinite v | _ \<Rightarrow> Inr False)"

fun filter_res :: "('a \<Rightarrow> bool res) \<Rightarrow> 'a list \<Rightarrow> 'a list res" where
  "filter_res p [] = Inr []"
| "filter_res p (x # xs) =
     rbind (p x) (\<lambda>b. rbind (filter_res p xs) (\<lambda>ys. Inr (if b then x # ys else ys)))"

definition INPUT_FIELDS :: "string list" where
  "INPUT_FIELDS = [''captured_at'', ''load_w'', ''load_valid'', ''load_age_s'', ''load_max_age_s'',
     ''safety_available'', ''safety_ok'', ''battery_threshold'', ''battery_charge'', ''battery_min_soc'']"

definition input_fact :: "string \<times> pyval \<Rightarrow> bool res" where
  "input_fact kv =
     (case kv of (k, v) \<Rightarrow>
        if k \<notin> set INPUT_FIELDS then Inr False
        else if v = PNone \<or> is_bool v then Inr True else finite_number v)"

definition tier_value :: "pydict \<Rightarrow> string \<Rightarrow> bool res" where
  "tier_value tier k =
     rbind (finite_number (dget tier k)) (\<lambda>ok. Inr (ok \<and> Fin 0 \<le> num_val (dget tier k)))"

definition tier_fact :: "pyval \<Rightarrow> bool res" where
  "tier_fact v =
     (if \<not> is_dict v then Inr False
      else rbind (tier_value (the_dict v) ''limit_w'') (\<lambda>ok.
        if ok then tier_value (the_dict v) ''duration_s'' else Inr False))"

definition tier_pair :: "pyval \<Rightarrow> pyval" where
  "tier_pair v = PDict [(''limit_w'', dget (the_dict v) ''limit_w''), (''duration_s'', dget (the_dict v) ''duration_s'')]"

definition exported_inputs :: "pydict \<Rightarrow> pydict res" where
  "exported_inputs evidence =
     rbind (filter_res input_fact evidence) (\<lambda>facts.
       case dget evidence ''thresholds'' of
         PList tiers \<Rightarrow> rbind (filter_res tier_fact (take 64 tiers)) (\<lambda>ts. Inr (facts @ [(''thresholds'', PList (map tier_pair ts))]))
       | _ \<Rightarrow> Inr facts)"

definition exported_action :: "pydict \<Rightarrow> pydict res" where
  "exported_action r =
     (let action = kept known_code [''action'', ''phase'', ''result'', ''decision_reason'', ''outcome_reason''] r;
          moment = dget r ''timestamp''
      in rbind (finite_number moment) (\<lambda>timed.
           let dated = (if timed then action @ [(''timestamp'', moment)] else action)
           in case dget r ''input_snapshot'' of
                PDict evidence \<Rightarrow> rbind (exported_inputs evidence) (\<lambda>x. Inr (dated @ [(''inputs'', PDict x)]))
              | _ \<Rightarrow> Inr dated))"

text \<open>\<open>records[-limit:]\<close>.\<close>

definition from_end :: "int \<Rightarrow> 'a list \<Rightarrow> 'a list" where
  "from_end limit xs = (if 0 < limit then drop (length xs - nat limit) xs else drop (nat (- limit)) xs)"

definition incident_bundle :: "iso_reader \<Rightarrow> (rat \<Rightarrow> string) \<Rightarrow> pydict \<Rightarrow> int \<Rightarrow> pydict res" where
  "incident_bundle reader isoformat snapshot limit =
     (let records = (case dget_or snapshot ''audit_history'' (PList []) of PList xs \<Rightarrow> xs | _ \<Rightarrow> [])
      in rbind (map_res (exported_action \<circ> the_dict) (filter is_dict (from_end limit records))) (\<lambda>actions.
         rbind (catch_value (timestamp reader (dget snapshot ''checked_at_utc''))) (\<lambda>checked_at.
           Inr [(''schema_version'', PInt 1),
                (''checked_at_utc'', case checked_at of None \<Rightarrow> PNone | Some t \<Rightarrow> PStr (isoformat t)),
                (''loaded_version'', loaded_version (dget_or snapshot ''loaded_manifest'' (PDict []))),
                (''runtime'', PDict (safe_runtime (runtime_of (dget_or snapshot ''runtime'' (PDict []))))),
                (''recent_actions'', PList (map PDict actions)),
                (''coverage'', PDict [(''received_records'', PInt (int (length records))),
                   (''exported_records'', PInt (int (length actions))),
                   (''truncated'', PBool (limit < int (length records))), (''complete_history'', PBool False)]),
                (''uncertainty'', PStr ''saved snapshot only; no live access or continuous physical-state proof'')])))"

section \<open>The command line\<close>

datatype evidence_operation = Readiness | Incident

datatype evidence_exit = Usage_Error | Evidence_Blocked | Printed pyval nat

text \<open>\<open>json.dumps(..., allow_nan=False)\<close> raises ValueError for a float that is not finite.\<close>

fun dumpable :: "pyval \<Rightarrow> bool" where
  "dumpable (PFloat f) = isfinite f"
| "dumpable (PList xs) = list_all dumpable xs"
| "dumpable (PTuple xs) = list_all dumpable xs"
| "dumpable (PDict d) = list_all (\<lambda>(k, v). dumpable v) d"
| "dumpable _ = True"

text \<open>The file as it was read and parsed: None where that raised OSError or ValueError.\<close>

definition evidence_main ::
  "iso_reader \<Rightarrow> (rat \<Rightarrow> string) \<Rightarrow> evidence_operation \<Rightarrow> string option \<Rightarrow> pyfloat \<Rightarrow> rat \<Rightarrow> pyval option
     \<Rightarrow> evidence_exit res" where
  "evidence_main reader isoformat operation expected max_age now content =
     (if operation = Readiness \<and> (expected = None \<or> expected = Some []) then Inr Usage_Error
      else if \<not> isfinite max_age \<or> \<not> (Fin 0 < max_age \<and> max_age \<le> Fin 300) then Inr Usage_Error
      else case content of
        Some (PDict snapshot) \<Rightarrow>
          (case operation of
             Incident \<Rightarrow>
               rbind (incident_bundle reader isoformat snapshot 100) (\<lambda>b.
                 Inr (if dumpable (PDict b) then Printed (PDict b) 0 else Evidence_Blocked))
           | Readiness \<Rightarrow>
               rbind (readiness reader snapshot (the expected) now (fin_val max_age)) (\<lambda>blockers.
                 Inr (Printed (PDict [(''ready'', PBool (blockers = [])), (''blockers'', PList (map PStr blockers))])
                        (if blockers = [] then 0 else 1))))
      | _ \<Rightarrow> Inr Evidence_Blocked)"

section \<open>What readiness tells\<close>

lemma age_clear:
  "age_blockers reader snapshot now max_age = Inr [] \<longleftrightarrow>
     (\<exists>t. timestamp reader (dget snapshot ''checked_at_utc'') = Inr t \<and> 0 \<le> now - t \<and> now - t \<le> max_age)"
  by (auto simp: age_blockers_def split: sum.splits exn.splits)

lemma manifest_clear:
  "manifest_blockers manifest expected = [] \<longleftrightarrow>
     is_dict manifest \<and> dget (the_dict manifest) ''domain'' = PStr ''power_orchestrator''
       \<and> dget (the_dict manifest) ''version'' = PStr expected"
  by (auto simp: manifest_blockers_def)

lemma fields_clear: "field_blockers data = [] \<longleftrightarrow> (\<forall>(k, v) \<in> set required_facts. map_of data k = Some v)"
  by (auto simp: field_blockers_def filter_empty_conv)

lemma readiness_clear:
  "readiness reader snapshot expected now max_age = Inr [] \<longleftrightarrow>
     age_blockers reader snapshot now max_age = Inr [] \<and> manifest_blockers (dget snapshot ''loaded_manifest'') expected = []
       \<and> is_dict (dget snapshot ''runtime'') \<and> dget (the_dict (dget snapshot ''runtime'')) ''loaded'' = PBool True
       \<and> field_blockers (the_dict (runtime_of (dget snapshot ''runtime''))) = []"
proof -
  have "the_dict v = []" if "\<not> is_dict v" for v using that by (cases v) simp_all
  then show ?thesis by (auto simp: readiness_def rbind_Inr_iff Let_def)
qed

text \<open>The fields the diagnostics pass on, by the controller that published them.\<close>

lemma projected_lookup:
  assumes d: "d = status_data w @ restore_data w @ fault_data w n history"
    and fin: "finite (faulted (c_faults w))" "finite (quarantined (c_faults w))"
  shows "k \<in> set diagnostic_keys \<Longrightarrow> map_of d k = Some v \<Longrightarrow> map_of (bounded_runtime_data (Some d)) k = Some v"
    "map_of (bounded_runtime_data (Some d)) ''faulted_devices_count'' = Some (PInt (int (card (faulted (c_faults w)))))"
    "map_of (bounded_runtime_data (Some d)) ''quarantined_devices_count'' = Some (PInt (int (card (quarantined (c_faults w)))))"
proof -
  let ?p = "map (\<lambda>k. (k, dget d k)) (filter (dhas d) diagnostic_keys)"
  have some: "map_of ?p k = (if k \<in> set diagnostic_keys \<and> dhas d k then Some (dget d k) else None)" for k
  proof -
    have "map_of (map (\<lambda>k. (k, dget d k)) (filter (dhas d) ks)) k = (if k \<in> set ks \<and> dhas d k then Some (dget d k) else None)" for ks
      by (induction ks) auto
    then show ?thesis .
  qed
  note parts = projected_keys [OF d fin] published_counts [OF d]
  show "map_of (bounded_runtime_data (Some d)) ''faulted_devices_count'' = Some (PInt (int (card (faulted (c_faults w)))))"
    "map_of (bounded_runtime_data (Some d)) ''quarantined_devices_count'' = Some (PInt (int (card (quarantined (c_faults w)))))"
    unfolding parts(1) map_of_append map_add_def some using parts(2,3) by simp_all
  assume k: "k \<in> set diagnostic_keys" "map_of d k = Some v"
  then have "k \<notin> {''faulted_devices_count'', ''quarantined_devices_count'', ''pending_restore_count''}"
    using parts(2-4) by (auto simp: dhas_iff)
  then show "map_of (bounded_runtime_data (Some d)) k = Some v"
    unfolding parts(1) map_of_append map_add_def some using k by (simp add: dhas_iff dget_def)
qed

lemma published_facts:
  assumes d: "d = status_data w @ restore_data w @ fault_data w n history"
  shows "map_of d ''mode'' = Some (PStr (c_mode w))" "map_of d ''status'' = Some (PStr (c_status w))"
    "map_of d ''policy_phase'' = Some (PStr (phase_value (phase (c_engine w))))"
    "map_of d ''reason_code'' = Some (PStr (reason_value (last_reason_code (c_engine w))))"
    "map_of d ''grid_ok'' = Some (PBool (grid_ok w))" "map_of d ''load_sensor_valid'' = Some (PBool (c_load_valid w))"
    "map_of d ''physical_commands_allowed'' = Some (PBool (physical_commands_allowed w))"
    "map_of d ''journal_persistence_blocked'' = Some (PBool (c_persist_blocked w))"
    "map_of d ''action_journal_invalid'' = Some (PBool (c_journal_invalid w))"
    "map_of d ''journal_unresolved_count'' = Some (PInt n)"
    "map_of d ''safety_fault_reason'' = Some (opt_text (c_safety_reason w))"
    "map_of d ''telemetry_fault_latched'' = Some (PBool (c_tele_latched w))"
    "map_of d ''safety_storage_invalid'' = Some (PBool (c_storage_invalid w))"
    "map_of d ''grid_safety_source_available'' = Some (PBool (grid_safety_source_available w))"
    "map_of d ''restore_commands_allowed'' = Some (PBool (restore_commands_allowed w))"
  unfolding d by (simp_all add: status_data_def restore_data_def fault_data_def)

definition healthy :: "'a ctl_scheme \<Rightarrow> bool" where
  "healthy w \<longleftrightarrow> c_mode w = ''observe'' \<and> c_status w = ''observe'' \<and> phase (c_engine w) = MONITORING
     \<and> last_reason_code (c_engine w) = NORMAL_MONITORING \<and> grid_ok w \<and> c_load_valid w
     \<and> \<not> physical_commands_allowed w \<and> \<not> c_persist_blocked w \<and> \<not> c_journal_invalid w
     \<and> unresolved_count w = Inr 0 \<and> faulted (c_faults w) = {} \<and> quarantined (c_faults w) = {}
     \<and> c_safety_reason w = None \<and> \<not> c_tele_latched w \<and> \<not> c_storage_invalid w
     \<and> grid_safety_source_available w \<and> \<not> restore_commands_allowed w"

lemma monitoring_value: "phase_value p = ''monitoring'' \<longleftrightarrow> p = MONITORING"
  by (cases p) simp_all

lemma normal_value: "reason_value r = ''normal_monitoring'' \<longleftrightarrow> r = NORMAL_MONITORING"
  by (cases r) simp_all

lemma opt_text_None: "opt_text x = PNone \<longleftrightarrow> x = None"
  by (simp add: opt_text_def split: option.split)

lemma fields_healthy:
  assumes "build_data w = Inr d" and fin: "finite (faulted (c_faults w))" "finite (quarantined (c_faults w))"
  shows "field_blockers (bounded_runtime_data (Some d)) = [] \<longleftrightarrow> healthy w"
proof -
  from assms(1) obtain history n where d: "d = status_data w @ restore_data w @ fault_data w n history"
    and n: "unresolved_count w = Inr n"
    by (auto simp: build_data_def rbind_Inr_iff)
  let ?ks = "[''mode'', ''status'', ''policy_phase'', ''reason_code'', ''grid_ok'', ''load_sensor_valid'',
    ''physical_commands_allowed'', ''journal_persistence_blocked'', ''action_journal_invalid'',
    ''journal_unresolved_count'', ''safety_fault_reason'', ''telemetry_fault_latched'',
    ''safety_storage_invalid'', ''grid_safety_source_available'', ''restore_commands_allowed'']"
  have keys: "list_all (\<lambda>k. k \<in> set diagnostic_keys) ?ks" by code_simp
  note facts = published_facts [OF d] and look = projected_lookup [OF d fin]
  have seen: "map_of (bounded_runtime_data (Some d)) k = map_of d k" if "k \<in> set ?ks" for k
  proof -
    from that facts obtain v where "map_of d k = Some v" by auto
    moreover from that keys have "k \<in> set diagnostic_keys" by (auto simp: list_all_iff)
    ultimately show ?thesis using look(1) by metis
  qed
  show ?thesis
    unfolding fields_clear required_facts_def healthy_def using fin
    by (simp add: seen look(2,3) facts n monitoring_value normal_value opt_text_None)
qed

text \<open>C35. A ready verdict means a healthy controller. For a snapshot whose runtime part is what the
  diagnostics report of a controller, the readiness check finds no blocker exactly when the
  snapshot is at most the allowed age old and not from the future, the loaded manifest names
  this integration at the expected version, and the controller itself is in Observe mode and
  monitoring, with valid telemetry and grid, with no faulted, quarantined or unresolved load,
  with healthy storage and journal, and permits no command.\<close>

theorem ready_means_healthy:
  assumes "build_data w = Inr d" and "finite (faulted (c_faults w))" "finite (quarantined (c_faults w))"
    and "dget snapshot ''runtime'' = dget (config_entry_diagnostics redact entry options (Some (Some d))) ''runtime''"
  shows "readiness reader snapshot expected now max_age = Inr [] \<longleftrightarrow>
     (\<exists>t. timestamp reader (dget snapshot ''checked_at_utc'') = Inr t \<and> 0 \<le> now - t \<and> now - t \<le> max_age)
     \<and> (\<exists>m. dget snapshot ''loaded_manifest'' = PDict m \<and> dget m ''domain'' = PStr ''power_orchestrator''
          \<and> dget m ''version'' = PStr expected)
     \<and> healthy w"
proof -
  have "dget snapshot ''runtime'' = PDict [(''loaded'', PBool True), (''data'', PDict (bounded_runtime_data (Some d)))]"
    using assms(4) by (simp add: config_entry_diagnostics_def)
  then show ?thesis
    using fields_healthy [OF assms(1-3)]
    by (cases "dget snapshot ''loaded_manifest''")
      (simp_all add: readiness_clear age_clear manifest_clear runtime_of_def dget_or_def)
qed

section \<open>What the export tells\<close>

text \<open>All texts of a value, and all keys.\<close>

fun texts :: "pyval \<Rightarrow> string list" where
  "texts (PStr s) = [s]"
| "texts (PList xs) = concat (map texts xs)"
| "texts (PTuple xs) = concat (map texts xs)"
| "texts (PDict d) = concat (map (\<lambda>(k, v). k # texts v) d)"
| "texts _ = []"

definition EXPORT_KEYS :: "string list" where
  "EXPORT_KEYS = BOOL_FIELDS @ COUNT_FIELDS @ INPUT_FIELDS
     @ [''mode'', ''status'', ''policy_phase'', ''reason_code'', ''action'', ''phase'', ''result'', ''decision_reason'',
        ''outcome_reason'', ''timestamp'', ''inputs'', ''thresholds'', ''limit_w'', ''duration_s'']"

text \<open>A value that tells known codes and finite numbers only.\<close>

definition bland :: "pyval \<Rightarrow> bool" where
  "bland v \<longleftrightarrow> set (texts v) \<subseteq> set EXPORT_KEYS \<union> set known_codes \<and> dumpable v"

lemma bland_dict: "bland (PDict d) \<longleftrightarrow> (\<forall>(k, v) \<in> set d. k \<in> set EXPORT_KEYS \<union> set known_codes \<and> bland v)"
  by (auto simp: bland_def list_all_iff)

lemma bland_append: "bland (PDict (a @ b)) \<longleftrightarrow> bland (PDict a) \<and> bland (PDict b)"
  unfolding bland_dict set_append by blast

lemma bland_list: "bland (PList xs) \<longleftrightarrow> (\<forall>v \<in> set xs. bland v)"
  by (auto simp: bland_def list_all_iff)

lemma bland_plain: "bland PNone" "bland (PBool b)" "bland (PInt i)"
  by (simp_all add: bland_def)

lemma bland_code: "known_code v \<Longrightarrow> bland v"
  by (cases v) (auto simp: bland_def known_code_def)

lemma bland_bool: "is_bool v \<Longrightarrow> bland v" and bland_count: "is_count v \<Longrightarrow> bland v"
  by (cases v; simp add: bland_plain is_count_def)+

lemma bland_number: "finite_number v = Inr True \<Longrightarrow> bland v"
  by (cases v) (simp_all add: bland_def finite_number_def py_isfinite_def)

lemma kept_bland:
  assumes "\<And>v. ok v \<Longrightarrow> bland v" and "set keys \<subseteq> set EXPORT_KEYS"
  shows "bland (PDict (kept ok keys d))"
  using assms by (auto simp: bland_dict kept_def)

lemma filter_res_holds: "filter_res p xs = Inr ys \<Longrightarrow> y \<in> set ys \<Longrightarrow> p y = Inr True \<and> y \<in> set xs"
  by (induction xs arbitrary: ys) (auto simp: rbind_Inr_iff split: if_splits)

lemma filter_res_length: "filter_res p xs = Inr ys \<Longrightarrow> length ys \<le> length xs"
  by (induction xs arbitrary: ys) (auto simp: rbind_Inr_iff le_SucI split: if_splits)

lemma export_keys:
  "set BOOL_FIELDS \<subseteq> set EXPORT_KEYS" "set COUNT_FIELDS \<subseteq> set EXPORT_KEYS" "set INPUT_FIELDS \<subseteq> set EXPORT_KEYS"
  "set [''mode'', ''status'', ''policy_phase'', ''reason_code''] \<subseteq> set EXPORT_KEYS"
  "set [''action'', ''phase'', ''result'', ''decision_reason'', ''outcome_reason''] \<subseteq> set EXPORT_KEYS"
  "set [''timestamp'', ''inputs'', ''thresholds'', ''limit_w'', ''duration_s''] \<subseteq> set EXPORT_KEYS"
  unfolding EXPORT_KEYS_def by auto

lemma tier_bland: "tier_fact v = Inr True \<Longrightarrow> bland (tier_pair v)"
proof -
  assume "tier_fact v = Inr True"
  then have "finite_number (dget (the_dict v) ''limit_w'') = Inr True" "finite_number (dget (the_dict v) ''duration_s'') = Inr True"
    by (auto simp: tier_fact_def tier_value_def rbind_Inr_iff split: if_splits)
  with export_keys(6) show ?thesis by (simp add: tier_pair_def bland_dict bland_number)
qed

lemma inputs_bland: "exported_inputs evidence = Inr x \<Longrightarrow> bland (PDict x)"
proof -
  assume "exported_inputs evidence = Inr x"
  then obtain facts where facts: "filter_res input_fact evidence = Inr facts"
    and x: "x = facts \<or> (\<exists>tiers ts. filter_res tier_fact (take 64 tiers) = Inr ts \<and> x = facts @ [(''thresholds'', PList (map tier_pair ts))])"
    by (cases "dget evidence ''thresholds''") (auto simp: exported_inputs_def rbind_Inr_iff)
  have "k \<in> set INPUT_FIELDS \<and> bland v" if "(k, v) \<in> set facts" for k v
    using filter_res_holds [OF facts that] by (auto simp: input_fact_def bland_plain bland_bool bland_number split: if_splits)
  then have "bland (PDict facts)" using export_keys(3) by (auto simp: bland_dict)
  moreover have "bland (PList (map tier_pair ts))" if "filter_res tier_fact tiers = Inr ts" for tiers ts
    using filter_res_holds [OF that] tier_bland by (auto simp: bland_list)
  ultimately show ?thesis using x export_keys(6) by (auto simp: bland_dict)
qed

lemma action_bland: "exported_action r = Inr a \<Longrightarrow> bland (PDict a)"
proof -
  assume run: "exported_action r = Inr a"
  let ?codes = "kept known_code [''action'', ''phase'', ''result'', ''decision_reason'', ''outcome_reason''] r"
  have codes: "bland (PDict ?codes)" by (rule kept_bland [OF bland_code export_keys(5)])
  obtain timed where timed: "finite_number (dget r ''timestamp'') = Inr timed"
    using run by (auto simp: exported_action_def Let_def rbind_Inr_iff)
  let ?dated = "if timed then ?codes @ [(''timestamp'', dget r ''timestamp'')] else ?codes"
  have dated: "bland (PDict ?dated)"
  proof (cases timed)
    case True
    then have "bland (dget r ''timestamp'')" using timed by (simp add: bland_number)
    then have "bland (PDict [(''timestamp'', dget r ''timestamp'')])" using export_keys(6) by (simp add: bland_dict)
    with codes show ?thesis unfolding if_P [OF True] by (simp only: bland_append)
  qed (use codes in simp)
  have "a = ?dated \<or> (\<exists>e x. exported_inputs e = Inr x \<and> a = ?dated @ [(''inputs'', PDict x)])"
    using run timed
    by (cases "dget r ''input_snapshot''") (auto simp: exported_action_def Let_def rbind_Inr_iff)
  then show ?thesis
  proof
    assume "\<exists>e x. exported_inputs e = Inr x \<and> a = ?dated @ [(''inputs'', PDict x)]"
    then obtain e x where x: "exported_inputs e = Inr x" "a = ?dated @ [(''inputs'', PDict x)]" by blast
    have "bland (PDict [(''inputs'', PDict x)])" using inputs_bland [OF x(1)] export_keys(6) by (simp add: bland_dict)
    with dated show ?thesis unfolding x(2) by (simp only: bland_append)
  qed (use dated in simp)
qed

lemma runtime_bland: "bland (PDict (safe_runtime data))"
proof (cases "is_dict data")
  case True
  show ?thesis
    unfolding safe_runtime_def if_P [OF True] bland_append
    using kept_bland [OF bland_bool export_keys(1)] kept_bland [OF bland_count export_keys(2)]
      kept_bland [OF bland_code export_keys(4)] by (intro conjI) assumption+
qed (simp add: safe_runtime_def bland_dict)

lemma version_bland: "loaded_version m = PNone \<or> (\<exists>v. loaded_version m = PStr v \<and> version_text v)"
proof -
  have shape: "is_str v \<and> version_text (the_str v) \<Longrightarrow> \<exists>s. v = PStr s \<and> version_text s" for v by (cases v) simp_all
  let ?v = "if is_dict m then dget (the_dict m) ''version'' else PNone"
  show ?thesis
  proof (cases "is_str ?v \<and> version_text (the_str ?v)")
    case True
    show ?thesis unfolding loaded_version_def Let_def if_P [OF True] using shape [OF True] by (rule disjI2)
  next
    case False
    show ?thesis unfolding loaded_version_def Let_def if_not_P [OF False] by (rule disjI1) (rule refl)
  qed
qed

text \<open>C37. An incident export leaks nothing and can always be written. Whatever the snapshot holds (names,
  identifiers, credentials, free text, logs), the runtime facts and the recent actions of its
  export contain no text but fixed field names and known codes; the version is absent or three
  numbers; at most \<open>limit\<close> actions are exported, the record says whether some were left out, and the
  whole is serializable without infinities or NaN.\<close>

theorem incident_tells_codes_only:
  assumes "incident_bundle reader isoformat snapshot limit = Inr b" and "0 < limit"
  shows "\<exists>actions. dget b ''recent_actions'' = PList actions \<and> int (length actions) \<le> limit
     \<and> set (texts (dget b ''recent_actions'')) \<union> set (texts (dget b ''runtime''))
         \<subseteq> set EXPORT_KEYS \<union> set known_codes
     \<and> (dget b ''loaded_version'' = PNone \<or> (\<exists>v. dget b ''loaded_version'' = PStr v \<and> version_text v))
     \<and> (dget b ''checked_at_utc'' = PNone \<or> (\<exists>t. dget b ''checked_at_utc'' = PStr (isoformat t)))
     \<and> (\<forall>records. dget snapshot ''audit_history'' = PList records \<longrightarrow>
          dget (the_dict (dget b ''coverage'')) ''truncated'' = PBool (limit < int (length records)))
     \<and> dumpable (PDict b)"
proof -
  let ?records = "case dget_or snapshot ''audit_history'' (PList []) of PList xs \<Rightarrow> xs | _ \<Rightarrow> []"
  obtain actions checked_at
    where actions: "map_res (exported_action \<circ> the_dict) (filter is_dict (from_end limit ?records)) = Inr actions"
      and b: "b = [(''schema_version'', PInt 1),
                (''checked_at_utc'', case checked_at of None \<Rightarrow> PNone | Some t \<Rightarrow> PStr (isoformat t)),
                (''loaded_version'', loaded_version (dget_or snapshot ''loaded_manifest'' (PDict []))),
                (''runtime'', PDict (safe_runtime (runtime_of (dget_or snapshot ''runtime'' (PDict []))))),
                (''recent_actions'', PList (map PDict actions)),
                (''coverage'', PDict [(''received_records'', PInt (int (length ?records))),
                   (''exported_records'', PInt (int (length actions))),
                   (''truncated'', PBool (limit < int (length ?records))), (''complete_history'', PBool False)]),
                (''uncertainty'', PStr ''saved snapshot only; no live access or continuous physical-state proof'')]"
    using assms(1) unfolding incident_bundle_def Let_def rbind_Inr_iff by blast
  have "bland (PDict a)" if "a \<in> set actions" for a
    using map_res_holds [OF actions that] action_bland by auto
  then have recent: "bland (PList (map PDict actions))" by (simp add: bland_list)
  have runtime: "bland (PDict (safe_runtime (runtime_of (dget_or snapshot ''runtime'' (PDict [])))))" by (rule runtime_bland)
  have count: "int (length actions) \<le> limit"
    using map_res_length [OF actions] length_filter_le [of is_dict "from_end limit ?records"] assms(2)
    by (simp add: from_end_def)
  have version: "loaded_version m = PNone \<or> (\<exists>v. loaded_version m = PStr v \<and> version_text v)" for m
    by (rule version_bland)
  then have "dumpable (loaded_version m)" for m by (metis dumpable.simps(5,8))
  then have "dumpable (PDict b)"
    using recent runtime unfolding b bland_def by (simp split: option.split)
  moreover have "set (texts (dget b ''recent_actions'')) \<union> set (texts (dget b ''runtime'')) \<subseteq> set EXPORT_KEYS \<union> set known_codes"
    using recent runtime unfolding b bland_def by simp
  moreover have "dget (the_dict (dget b ''coverage'')) ''truncated'' = PBool (limit < int (length records))"
    if "dget snapshot ''audit_history'' = PList records" for records
    using that unfolding b by (auto simp: dget_def dget_or_def split: option.splits)
  moreover have "dget b ''checked_at_utc'' = PNone \<or> (\<exists>t. dget b ''checked_at_utc'' = PStr (isoformat t))"
    by (cases checked_at) (auto simp: b)
  moreover have "dget b ''loaded_version'' = PNone \<or> (\<exists>v. dget b ''loaded_version'' = PStr v \<and> version_text v)"
    using version by (simp add: b)
  moreover have "dget b ''recent_actions'' = PList (map PDict actions)" by (simp add: b)
  moreover have "int (length (map PDict actions)) \<le> limit" using count by simp
  ultimately show ?thesis by blast
qed

text \<open>An exception neither the check nor the command line expects: a huge integer, or a moment before
  year 1 in UTC, ends both with OverflowError instead of a verdict.\<close>

lemma huge_timestamp_escapes:
  "evidence_main reader isoformat Incident None (Fin 120) now
     (Some (PDict [(''audit_history'', PList [PDict [(''timestamp'', PInt (10 ^ 400))]])])) = Inl OverflowErr"
proof -
  have "float_overflow \<le> \<bar>of_int (10 ^ 400)\<bar>" by (simp add: float_overflow_def)
  then have "finite_number (PInt (10 ^ 400)) = Inl OverflowErr"
    by (simp only: finite_number_def py_isfinite_def pyval.case py_float.simps int_to_float_def if_True rbind_simps)
  then show ?thesis
    by (simp add: evidence_main_def incident_bundle_def dget_or_def from_end_def exported_action_def Let_def)
qed

lemma early_moment_escapes:
  assumes "reader (zulu s) = Inr (- 62135596800, Some 1)"
  shows "evidence_main reader isoformat Readiness (Some ''0.7.6'') (Fin 120) now
    (Some (PDict [(''checked_at_utc'', PStr s)])) = Inl OverflowErr"
  using assms by (simp add: evidence_main_def readiness_def age_blockers_def timestamp_def)

section \<open>Witnesses\<close>

text \<open>A reader that knows one text, and a saved snapshot.\<close>

definition demo_reader :: iso_reader where
  "demo_reader s = (if s = ''2026-01-01T00:00:00+00:00'' then Inr (1767225600, Some 0) else Inl ''Invalid isoformat string'')"

definition demo_snapshot :: "pyval \<Rightarrow> pydict" where
  "demo_snapshot runtime =
     [(''checked_at_utc'', PStr ''2026-01-01T00:00:00Z''),
      (''loaded_manifest'', PDict [(''domain'', PStr ''power_orchestrator''), (''version'', PStr ''0.7.6'')]),
      (''runtime'', runtime),
      (''audit_history'', PList [PDict [(''action'', PStr ''turn_off''), (''device_id'', PStr ''pump''),
         (''timestamp'', PFloat (Fin 5)),
         (''input_snapshot'', PDict [(''load_w'', PFloat (Fin 5200)), (''note'', PStr ''kitchen'')])]])]"

lemma demo_time: "timestamp demo_reader (PStr ''2026-01-01T00:00:00Z'') = Inr 1767225600"
  by (simp add: timestamp_def zulu_def demo_reader_def)

text \<open>A healthy controller.\<close>

definition demo_healthy :: coord where
  "demo_healthy = demo_coord\<lparr>c_mode := ''observe'', c_status := ''observe'', c_load_valid := True,
     c_engine := (c_engine demo_coord)\<lparr>phase := MONITORING, last_reason_code := NORMAL_MONITORING\<rparr>,
     w_states := \<lambda>_. Some \<lparr>st_state = ''on'', st_attributes = [], st_last_reported = Datetime 0 (Some 0)\<rparr>\<rparr>"

lemma demo_is_healthy: "healthy demo_healthy" "\<exists>d. build_data demo_healthy = Inr d"
proof -
  note demo = demo_healthy_def demo_coord_def new_coordinator_def demo_platform_def demo_setup_def platform.defs
  have history: "history_of (c_store demo_healthy) = PList []" by (simp add: demo history_of_def dget_or_def)
  have source: "k_source demo_healthy = \<lparr>ss_mode = ''grid_loss_sensor'', ss_grid_sensor = Some ''binary_sensor.grid'',
      ss_battery_soc_sensor = None, ss_battery_threshold = None\<rparr>" by (simp add: demo)
  have states: "w_states demo_healthy e = Some \<lparr>st_state = ''on'', st_attributes = [], st_last_reported = Datetime 0 (Some 0)\<rparr>" for e
    by (simp add: demo)
  have modes: "\<not> physical_commands_allowed demo_healthy" "\<not> restore_commands_allowed demo_healthy"
    by (simp_all add: restore_commands_allowed_def physical_commands_allowed_def) (simp_all add: demo_healthy_def)
  have counts: "unresolved_count demo_healthy = Inr 0"
    by (simp add: unresolved_count_def unresolved_actions_def normalize_history_def last_n_def history)
  then show "\<exists>d. build_data demo_healthy = Inr d"
    by (simp add: build_data_def normalize_history_def last_n_def history)
  have grid: "grid_ok demo_healthy" "grid_safety_source_available demo_healthy"
    by (simp_all add: grid_ok_def grid_safety_source_available_def source states source_ok_def source_available_def
        source_entity_id_def source_configured_def source_sensor_id_def truthy_str_def ok_state_def available_state_def state_is_available_def)
  have engine: "last_reason_code (c_engine demo_healthy) = NORMAL_MONITORING" by (simp add: demo_healthy_def)
  have rest: "c_mode demo_healthy = ''observe''" "c_status demo_healthy = ''observe''" "phase (c_engine demo_healthy) = MONITORING"
    "c_load_valid demo_healthy" by (simp_all add: demo_healthy_def)
  have clean: "\<not> c_persist_blocked demo_healthy" "\<not> c_journal_invalid demo_healthy" "faulted (c_faults demo_healthy) = {}"
    "quarantined (c_faults demo_healthy) = {}" "c_safety_reason demo_healthy = None" "\<not> c_tele_latched demo_healthy"
    "\<not> c_storage_invalid demo_healthy" by (simp_all add: demo new_registry_def)
  show "healthy demo_healthy" using modes counts grid engine rest clean by (simp only: healthy_def simp_thms)
qed

lemma ready_means_healthy_witness:
  "\<exists>d. build_data demo_healthy = Inr d
     \<and> readiness demo_reader (demo_snapshot (dget (config_entry_diagnostics (\<lambda>_ x. x) [] [] (Some (Some d))) ''runtime''))
         ''0.7.6'' 1767225660 120 = Inr []
     \<and> readiness demo_reader (demo_snapshot (dget (config_entry_diagnostics (\<lambda>_ x. x) [] [] (Some (Some d))) ''runtime''))
         ''0.7.6'' 1767225860 120 \<noteq> Inr []"
proof -
  from demo_is_healthy(2) obtain d where d: "build_data demo_healthy = Inr d" by blast
  have fin: "finite (faulted (c_faults demo_healthy))" "finite (quarantined (c_faults demo_healthy))"
    using demo_is_healthy(1) by (simp_all add: healthy_def)
  let ?s = "demo_snapshot (dget (config_entry_diagnostics (\<lambda>_ x. x) [] [] (Some (Some d))) ''runtime'')"
  have parts: "dget ?s ''runtime'' = dget (config_entry_diagnostics (\<lambda>_ x. x) [] [] (Some (Some d))) ''runtime''"
    "dget ?s ''loaded_manifest'' = PDict [(''domain'', PStr ''power_orchestrator''), (''version'', PStr ''0.7.6'')]"
    "timestamp demo_reader (dget ?s ''checked_at_utc'') = Inr 1767225600"
    by (simp_all add: demo_snapshot_def demo_time)
  show ?thesis
    using ready_means_healthy [OF d fin parts(1), of demo_reader "''0.7.6''" _ 120] d demo_is_healthy(1) parts(2,3) by auto
qed

lemma incident_tells_codes_only_witness:
  "\<exists>b. incident_bundle demo_reader (\<lambda>_. ''2026-01-01T00:00:00+00:00'') (demo_snapshot PNone) 100 = Inr b
     \<and> ''kitchen'' \<notin> set (texts (dget b ''recent_actions'')) \<and> ''pump'' \<notin> set (texts (dget b ''recent_actions''))"
proof -
  have "\<exists>b. incident_bundle demo_reader (\<lambda>_. ''2026-01-01T00:00:00+00:00'') (demo_snapshot PNone) 100 = Inr b"
    by (simp add: incident_bundle_def demo_snapshot_def dget_or_def from_end_def exported_action_def finite_number_def
        py_isfinite_def exported_inputs_def input_fact_def INPUT_FIELDS_def demo_time Let_def)
  then obtain b where b: "incident_bundle demo_reader (\<lambda>_. ''2026-01-01T00:00:00+00:00'') (demo_snapshot PNone) 100 = Inr b"
    by blast
  have "list_all (\<lambda>s. s \<notin> set EXPORT_KEYS \<and> s \<notin> set known_codes) [''kitchen'', ''pump'']" by code_simp
  with incident_tells_codes_only [OF b] b show ?thesis by (auto simp: list_all_iff)
qed

end
