(* ===== verification/Release_Archive.thy ===== *)
theory Release_Archive
  imports Device_Config "HOL-Library.Multiset"
begin

text \<open>
  \<open>scripts/build_release_zip.py\<close>: the archive installed by HACS. The integration directory is a list of
  files and directories, by the components of their path under it; the archive file is its name and
  its entries in order. \<open>ReleaseAssetError\<close> is \<open>RuntimeErr\<close> here. \<open>testzip\<close> of the library is a parameter: the name of a corrupt entry, if any.
\<close>

section \<open>The payload\<close>

record source_file =
  sf_parts :: "string list"
  sf_is_file :: bool
  sf_bytes :: string

definition as_posix :: "string list \<Rightarrow> string" where
  "as_posix parts = (case parts of [] \<Rightarrow> ''.'' | p # ps \<Rightarrow> p @ concat (map (\<lambda>q. CHR ''/'' # q) ps))"

text \<open>\<open>Path.suffix\<close>: what follows the last dot of the name, leading dots aside.\<close>

definition suffix_of :: "string \<Rightarrow> string" where
  "suffix_of name =
     (let body = dropWhile (\<lambda>c. c = CHR ''.'') name
      in if CHR ''.'' \<in> set body then CHR ''.'' # rev (takeWhile (\<lambda>c. c \<noteq> CHR ''.'') (rev body)) else [])"

definition EXCLUDED_DIRECTORIES :: "string list" where "EXCLUDED_DIRECTORIES = [''__pycache__'']"

definition EXCLUDED_SUFFIXES :: "string list" where "EXCLUDED_SUFFIXES = [''.pyc'', ''.pyo'']"

definition shipped :: "source_file \<Rightarrow> bool" where
  "shipped f \<longleftrightarrow> sf_is_file f
     \<and> suffix_of (if sf_parts f = [] then [] else last (sf_parts f)) \<notin> set EXCLUDED_SUFFIXES
     \<and> set EXCLUDED_DIRECTORIES \<inter> set (sf_parts f) = {}"

definition payload_files :: "source_file list \<Rightarrow> string list list" where
  "payload_files tree = sort (map sf_parts (filter shipped tree))"

definition REQUIRED_FILES :: "string list" where
  "REQUIRED_FILES = [''__init__.py'', ''manifest.json'', ''brand/icon.png'']"

definition verify_payload :: "string list list \<Rightarrow> unit res" where
  "verify_payload files =
     (if \<not> set REQUIRED_FILES \<subseteq> set (map as_posix files)
      then Inl (RuntimeErr ''Integration is missing required files'') else Inr ())"

section \<open>The archive\<close>

record archive =
  ar_name :: string
  ar_entries :: "(string \<times> string) list"

definition starts_with :: "string \<Rightarrow> string \<Rightarrow> bool" where
  "starts_with s p \<longleftrightarrow> take (length p) s = p"

definition verify_archive :: "archive \<Rightarrow> string \<Rightarrow> string option \<Rightarrow> unit res" where
  "verify_archive a expected broken =
     (let names = map fst (ar_entries a)
      in if ar_name a \<noteq> expected then Inl (RuntimeErr ''Asset is not named as hacs.json requires'')
         else if broken \<noteq> None \<and> broken \<noteq> Some [] then Inl (RuntimeErr ''Corrupt entry'')
         else if ''manifest.json'' \<notin> set names then Inl (RuntimeErr ''manifest.json is not at the zip root'')
         else if filter (\<lambda>n. starts_with n ''custom_components'') names \<noteq> []
         then Inl (RuntimeErr ''Zip wraps the integration directory'')
         else if ''hacs.json'' \<in> set names then Inl (RuntimeErr ''hacs.json must stay out of the asset'')
         else Inr ())"

definition read_bytes :: "source_file list \<Rightarrow> string list \<Rightarrow> string" where
  "read_bytes tree parts = (case find (\<lambda>f. sf_parts f = parts) tree of Some f \<Rightarrow> sf_bytes f | None \<Rightarrow> [])"

definition written_archive :: "source_file list \<Rightarrow> string \<Rightarrow> archive" where
  "written_archive tree name =
     \<lparr>ar_name = name, ar_entries = map (\<lambda>parts. (as_posix parts, read_bytes tree parts)) (payload_files tree)\<rparr>"

text \<open>The output is the name of the file asked for, None for the default place.\<close>

definition build_release_zip ::
  "pydict \<Rightarrow> string \<Rightarrow> source_file list \<Rightarrow> string option \<Rightarrow> string option \<Rightarrow> string option \<Rightarrow> archive res" where
  "build_release_zip manifest version tree output expect_version broken =
     (case map_of manifest ''filename'' of
        None \<Rightarrow> Inl KeyErr
      | Some (PStr expected) \<Rightarrow>
          if expect_version \<noteq> None \<and> expect_version \<noteq> Some version
          then Inl (RuntimeErr ''Tag declares another version than the manifest'')
          else if dget manifest ''zip_release'' \<noteq> PBool True
          then Inl (RuntimeErr ''hacs.json does not set zip_release, so no asset is expected'')
          else rbind (verify_payload (payload_files tree)) (\<lambda>_.
            let a = written_archive tree (case output of None \<Rightarrow> expected | Some name \<Rightarrow> name)
            in rbind (verify_archive a expected broken) (\<lambda>_. Inr a))
      | Some _ \<Rightarrow> Inl TypeErr)"

section \<open>What is released\<close>

lemma payload_members: "parts \<in> set (payload_files tree) \<longleftrightarrow> (\<exists>f \<in> set tree. shipped f \<and> sf_parts f = parts)"
  by (auto simp: payload_files_def)

lemma read_bytes_unique:
  assumes "distinct (map sf_parts tree)" and "f \<in> set tree"
  shows "read_bytes tree (sf_parts f) = sf_bytes f"
  using assms by (induction tree) (auto simp: read_bytes_def image_iff)

text \<open>Two listings of the same files give the same archive.\<close>

lemma reproducible:
  assumes "mset tree = mset tree'" and "distinct (map sf_parts tree)"
  shows "written_archive tree name = written_archive tree' name"
proof -
  have "mset (map sf_parts (filter shipped tree)) = mset (map sf_parts (filter shipped tree'))"
    using assms(1) by (simp add: mset_filter)
  then have files: "payload_files tree = payload_files tree'"
    unfolding payload_files_def by (intro properties_for_sort) simp_all
  have set: "set tree = set tree'" using assms(1) by (rule mset_eq_setD)
  have "mset (map sf_parts tree) = mset (map sf_parts tree')" using assms(1) by simp
  then have distinct: "distinct (map sf_parts tree')" using assms(2) by (metis mset_eq_imp_distinct_iff)
  have "read_bytes tree parts = read_bytes tree' parts" if "parts \<in> set (payload_files tree)" for parts
  proof -
    from that obtain f where f: "f \<in> set tree" "sf_parts f = parts" by (auto simp: payload_members)
    then show ?thesis
      using read_bytes_unique [OF assms(2) f(1)] read_bytes_unique [OF distinct, of f] set by simp
  qed
  then show ?thesis by (simp add: written_archive_def files)
qed

text \<open>A release is installable and reproducible. When an archive is built, it has the name HACS expects,
  its entries are exactly the shipped files of the integration with their contents, in the order of
  their paths; the manifest, the package and the icon are at their places from the root, nothing is
  nested under \<open>custom_components\<close>, and no bytecode or \<open>hacs.json\<close> is in it; the declared version is the
  expected one; and every other listing of the same files builds the same archive.\<close>

theorem release_is_installable:
  assumes "build_release_zip manifest version tree output expected broken = Inr a" and "distinct (map sf_parts tree)"
  shows "PStr (ar_name a) = dget manifest ''filename'' \<and> (expected = None \<or> expected = Some version)
    \<and> set (ar_entries a) = {(as_posix (sf_parts f), sf_bytes f) | f. f \<in> set tree \<and> shipped f}
    \<and> set REQUIRED_FILES \<subseteq> set (map fst (ar_entries a)) \<and> ''hacs.json'' \<notin> set (map fst (ar_entries a))
    \<and> (\<forall>n \<in> set (map fst (ar_entries a)). \<not> starts_with n ''custom_components'')
    \<and> (\<forall>tree'. mset tree' = mset tree \<longrightarrow> build_release_zip manifest version tree' output expected broken = Inr a)"
proof -
  from assms(1) obtain filename where filename: "map_of manifest ''filename'' = Some (PStr filename)"
    by (cases "map_of manifest ''filename''") (auto simp: build_release_zip_def split: pyval.splits)
  let ?name = "case output of None \<Rightarrow> filename | Some name \<Rightarrow> name"
  from assms(1) filename have version: "expected = None \<or> expected = Some version"
    and zip: "dget manifest ''zip_release'' = PBool True" and payload: "verify_payload (payload_files tree) = Inr ()"
    and a: "a = written_archive tree ?name" and ok: "verify_archive a filename broken = Inr ()"
    by (auto simp: build_release_zip_def rbind_Inr_iff Let_def split: if_splits)
  note checked = ok [unfolded verify_archive_def Let_def]
  have "set (ar_entries a) = {(as_posix (sf_parts f), sf_bytes f) | f. f \<in> set tree \<and> shipped f}"
  proof -
    have "set (ar_entries a) = (\<lambda>f. (as_posix (sf_parts f), read_bytes tree (sf_parts f))) ` {f \<in> set tree. shipped f}"
      unfolding a by (auto simp: written_archive_def payload_files_def)
    also have "\<dots> = (\<lambda>f. (as_posix (sf_parts f), sf_bytes f)) ` {f \<in> set tree. shipped f}"
      by (rule image_cong) (simp_all add: read_bytes_unique [OF assms(2)])
    finally show ?thesis by auto
  qed
  moreover have "set REQUIRED_FILES \<subseteq> set (map fst (ar_entries a))"
    using payload unfolding a by (auto simp: verify_payload_def written_archive_def split: if_splits)
  moreover have "PStr (ar_name a) = dget manifest ''filename''"
    using checked filename by (auto simp: dget_def split: if_splits)
  moreover have "''hacs.json'' \<notin> set (map fst (ar_entries a))" "\<forall>n \<in> set (map fst (ar_entries a)). \<not> starts_with n ''custom_components''"
    using checked by (auto simp: filter_empty_conv split: if_splits)
  moreover have "build_release_zip manifest version tree' output expected broken = Inr a" if "mset tree' = mset tree" for tree'
  proof -
    have "written_archive tree' name = written_archive tree name" for name
      using reproducible [OF that [symmetric] assms(2)] by simp
    moreover have "payload_files tree' = payload_files tree"
      using that unfolding payload_files_def by (intro properties_for_sort) (simp_all add: mset_filter)
    ultimately have "build_release_zip manifest version tree' output expected broken
        = build_release_zip manifest version tree output expected broken"
      unfolding build_release_zip_def by (simp only:)
    then show ?thesis using assms(1) by (rule trans)
  qed
  ultimately show ?thesis using version by blast
qed

definition demo_tree :: "source_file list" where
  "demo_tree = map (\<lambda>(ps, b). \<lparr>sf_parts = ps, sf_is_file = True, sf_bytes = b\<rparr>)
     [([''manifest.json''], ''m''), ([''brand'', ''icon.png''], ''i''), ([''__pycache__'', ''policy.pyc''], ''x''),
      ([''__init__.py''], ''p''), ([''old.pyc''], ''y'')]"

lemma release_is_installable_witness:
  "\<exists>a. build_release_zip [(''filename'', PStr ''power_orchestrator.zip''), (''zip_release'', PBool True)] ''0.7.6''
       demo_tree None (Some ''0.7.6'') None = Inr a
     \<and> set (ar_entries a) = {(''manifest.json'', ''m''), (''brand/icon.png'', ''i''), (''__init__.py'', ''p'')}"
proof -
  let ?run = "build_release_zip [(''filename'', PStr ''power_orchestrator.zip''), (''zip_release'', PBool True)] ''0.7.6''
       demo_tree None (Some ''0.7.6'') None"
  have "(case ?run of Inl _ \<Rightarrow> False | Inr _ \<Rightarrow> True)" by code_simp
  then obtain a where a: "?run = Inr a" by (cases ?run) simp_all
  have paths: "distinct (map sf_parts demo_tree)" by code_simp
  have files: "{(as_posix (sf_parts f), sf_bytes f) | f. f \<in> set demo_tree \<and> shipped f}
      = set (map (\<lambda>f. (as_posix (sf_parts f), sf_bytes f)) (filter shipped demo_tree))" by auto
  have "map (\<lambda>f. (as_posix (sf_parts f), sf_bytes f)) (filter shipped demo_tree)
      = [(''manifest.json'', ''m''), (''brand/icon.png'', ''i''), (''__init__.py'', ''p'')]" by code_simp
  with release_is_installable [OF a paths] a files show ?thesis by auto
qed

end
