(* ===== verification/Runtime_Capture.thy ===== *)
theory Runtime_Capture
  imports Device_Config
begin

text \<open>
  \<open>scripts/capture_runtime.py\<close>: reading a bounded process, gathering the capture on the remote side, and
  keeping the last captures. Pipes, clocks, the process, files and the network are what the steps
  and inputs say; \<open>OSError\<close> is \<open>StoreErr\<close> here, \<open>TimeoutError\<close> and \<open>TimeoutExpired\<close> are \<open>Late\<close>.
\<close>

definition MAX_BYTES :: nat where "MAX_BYTES = 2 * 1024 * 1024"

definition KEEP_FILES :: nat where "KEEP_FILES = 3"

definition MAX_STDERR_BYTES :: nat where "MAX_STDERR_BYTES = 8192"

section \<open>A bounded process\<close>

text \<open>
  One round of the selector loop: the clock it reads, then the events \<open>select\<close> reports for the
  pipes still registered. An empty chunk is the end of its pipe.
\<close>

datatype pipe_event = Accepted nat | Broken_Pipe | Out_Chunk string | Err_Chunk string

datatype capture_error = Late | Rejected | Too_Large | Reader_Failed

record reader =
  rd_offset :: nat
  rd_output :: string
  rd_errors :: nat
  rd_writing :: bool
  rd_out_open :: bool
  rd_err_open :: bool

definition new_reader :: "string \<Rightarrow> reader" where
  "new_reader source = \<lparr>rd_offset = 0, rd_output = [], rd_errors = 0, rd_writing = (source \<noteq> []),
     rd_out_open = True, rd_err_open = True\<rparr>"

definition registered :: "reader \<Rightarrow> bool" where
  "registered r \<longleftrightarrow> rd_writing r \<or> rd_out_open r \<or> rd_err_open r"

text \<open>At most 65536 bytes are offered at a time; the system takes a part of them.\<close>

fun pipe_step :: "string \<Rightarrow> nat \<Rightarrow> pipe_event \<Rightarrow> reader \<Rightarrow> capture_error + reader" where
  "pipe_step source limit (Accepted n) r =
     (if \<not> rd_writing r then Inr r
      else (let r1 = r\<lparr>rd_offset := rd_offset r + min n (min 65536 (length source - rd_offset r))\<rparr>
            in Inr (if rd_offset r1 = length source then r1\<lparr>rd_writing := False\<rparr> else r1)))"
| "pipe_step source limit Broken_Pipe r = (if rd_writing r then Inl Rejected else Inr r)"
| "pipe_step source limit (Out_Chunk chunk) r =
     (if \<not> rd_out_open r then Inr r
      else if chunk = [] then Inr (r\<lparr>rd_out_open := False\<rparr>)
      else if limit < length (rd_output r) + length chunk then Inl Too_Large
      else Inr (r\<lparr>rd_output := rd_output r @ chunk\<rparr>))"
| "pipe_step source limit (Err_Chunk chunk) r =
     (if \<not> rd_err_open r then Inr r
      else if chunk = [] then Inr (r\<lparr>rd_err_open := False\<rparr>)
      else if MAX_STDERR_BYTES < rd_errors r + length chunk then Inl Too_Large
      else Inr (r\<lparr>rd_errors := rd_errors r + length chunk\<rparr>))"

fun pipe_steps :: "string \<Rightarrow> nat \<Rightarrow> pipe_event list \<Rightarrow> reader \<Rightarrow> capture_error + reader" where
  "pipe_steps source limit [] r = Inr r"
| "pipe_steps source limit (e # es) r =
     (case pipe_step source limit e r of Inl x \<Rightarrow> Inl x | Inr r1 \<Rightarrow> pipe_steps source limit es r1)"

text \<open>The rounds that are given may end before the pipes do: then there is no answer yet.\<close>

fun read_rounds :: "string \<Rightarrow> nat \<Rightarrow> rat \<Rightarrow> (rat \<times> pipe_event list) list \<Rightarrow> reader \<Rightarrow> (capture_error + reader) option" where
  "read_rounds source limit deadline [] r = (if \<not> registered r then Some (Inr r) else None)"
| "read_rounds source limit deadline ((clock, events) # rest) r =
     (if \<not> registered r then Some (Inr r)
      else if deadline - clock \<le> 0 then Some (Inl Late)
      else (case pipe_steps source limit events r of
              Inl x \<Rightarrow> Some (Inl x)
            | Inr r1 \<Rightarrow> read_rounds source limit deadline rest r1))"

text \<open>How waiting for the end of the process goes: its return code, or None when the time is up.\<close>

definition bounded_process ::
  "string \<Rightarrow> nat \<Rightarrow> rat \<Rightarrow> (rat \<times> pipe_event list) list \<Rightarrow> int option \<Rightarrow> (capture_error + string) option" where
  "bounded_process source limit deadline rounds waited =
     (case read_rounds source limit deadline rounds (new_reader source) of
        None \<Rightarrow> None
      | Some (Inl x) \<Rightarrow> Some (Inl x)
      | Some (Inr r) \<Rightarrow>
          (case waited of None \<Rightarrow> Some (Inl Late)
           | Some code \<Rightarrow> Some (if code \<noteq> 0 then Inl Reader_Failed else Inr (rd_output r))))"

section \<open>Keeping captures\<close>

text \<open>The directory: its files, those of other names included. The failing calls are given.\<close>

record capture_file =
  cf_name :: string
  cf_symlink :: bool
  cf_regular :: bool
  cf_uid :: int
  cf_size :: nat

record capture_dir =
  cd_symlink :: bool
  cd_uid :: int
  cd_files :: "capture_file list"

datatype syscall = Mkdir | Chmod | Lock | Create | Write | Unlink string

definition is_capture :: "string \<Rightarrow> bool" where
  "is_capture name \<longleftrightarrow> take 11 name = ''po-capture-'' \<and> 16 \<le> length name \<and> drop (length name - 5) name = ''.json''"

definition previous_captures :: "capture_dir \<Rightarrow> string list" where
  "previous_captures d = sort (filter is_capture (map cf_name (cd_files d)))"

definition trusted_file :: "int \<Rightarrow> capture_file \<Rightarrow> bool" where
  "trusted_file uid f \<longleftrightarrow> \<not> cf_symlink f \<and> cf_regular f \<and> cf_uid f = uid"

definition without :: "string \<Rightarrow> capture_dir \<Rightarrow> capture_dir" where
  "without name d = d\<lparr>cd_files := filter (\<lambda>f. cf_name f \<noteq> name) (cd_files d)\<rparr>"

text \<open>Removing files in order stops at the first that fails: whether all went, and what is left.\<close>

fun unlink_all :: "(syscall \<Rightarrow> bool) \<Rightarrow> string list \<Rightarrow> capture_dir \<Rightarrow> bool \<times> capture_dir" where
  "unlink_all fails [] d = (True, d)"
| "unlink_all fails (n # ns) d = (if fails (Unlink n) then (False, d) else unlink_all fails ns (without n d))"

definition expired :: "string list \<Rightarrow> string list" where
  "expired previous = take (length previous + 1 - KEEP_FILES) previous"

definition created_file :: "int \<Rightarrow> string \<Rightarrow> string \<Rightarrow> capture_file" where
  "created_file uid raw name = \<lparr>cf_name = name, cf_symlink = False, cf_regular = True, cf_uid = uid, cf_size = length raw\<rparr>"

definition write_and_rotate :: "(syscall \<Rightarrow> bool) \<Rightarrow> int \<Rightarrow> string \<Rightarrow> string \<Rightarrow> capture_dir \<Rightarrow> string res \<times> capture_dir" where
  "write_and_rotate fails uid raw name d =
     (let previous = previous_captures d;
          created = d\<lparr>cd_files := cd_files d @ [created_file uid raw name]\<rparr>
      in if fails Create \<or> name \<in> set (map cf_name (cd_files d)) then (Inl StoreErr, d)
         else if fails Write then (Inl StoreErr, without name created)
         else (case unlink_all fails (expired previous) created of
                 (True, rest) \<Rightarrow> (Inr name, rest)
               | (False, rest) \<Rightarrow> (Inl StoreErr, without name rest)))"

definition save_capture ::
  "(syscall \<Rightarrow> bool) \<Rightarrow> int \<Rightarrow> nat \<Rightarrow> string \<Rightarrow> pyval option \<Rightarrow> string \<Rightarrow> capture_dir \<Rightarrow> string res \<times> capture_dir" where
  "save_capture fails uid free raw parsed name d =
     (if MAX_BYTES < length raw then (Inl (ValueErr ''capture exceeded byte limit''), d)
      else if parsed = None then (Inl (ValueErr ''not JSON''), d)
      else if \<not> is_dict (the parsed) then (Inl (ValueErr ''capture must be an object''), d)
      else if fails Mkdir then (Inl StoreErr, d)
      else if cd_symlink d \<or> cd_uid d \<noteq> uid then (Inl (ValueErr ''capture directory must be owned and not a symlink''), d)
      else if fails Chmod then (Inl StoreErr, d)
      else if free < 256 * 1024 ^ 2 then (Inl (ValueErr ''local free-space gate failed''), d)
      else if fails Lock then (Inl StoreErr, d)
      else if list_ex (\<lambda>f. is_capture (cf_name f) \<and> \<not> trusted_file uid f) (cd_files d)
      then (Inl (ValueErr ''unexpected retention file''), d)
      else write_and_rotate fails uid raw name d)"

section \<open>The remote side\<close>

text \<open>\<open>v[k]\<close> and \<open>v.get(k, default)\<close> on any value.\<close>

definition item_at :: "pyval \<Rightarrow> string \<Rightarrow> pyval res" where
  "item_at v k = (case v of PDict d \<Rightarrow> (case map_of d k of None \<Rightarrow> Inl KeyErr | Some x \<Rightarrow> Inr x) | _ \<Rightarrow> Inl TypeErr)"

definition get_at :: "pyval \<Rightarrow> string \<Rightarrow> pyval \<Rightarrow> pyval res" where
  "get_at v k otherwise = (case v of PDict d \<Rightarrow> Inr (dget_or d k otherwise) | _ \<Rightarrow> Inl AttributeErr)"

definition elements :: "pyval \<Rightarrow> pyval list res" where
  "elements v =
     (case v of PList xs \<Rightarrow> Inr xs | PTuple xs \<Rightarrow> Inr xs | PDict d \<Rightarrow> Inr (map (PStr \<circ> fst) d)
      | PStr t \<Rightarrow> Inr (map (\<lambda>c. PStr [c]) t) | _ \<Rightarrow> Inl TypeErr)"

text \<open>A file or a response, of which at most a byte more than a MiB is read; \<open>loads\<close> is \<open>json.loads\<close>.\<close>

definition read_limited :: "(string \<Rightarrow> pyval res) \<Rightarrow> string \<Rightarrow> pyval res" where
  "read_limited loads raw =
     (let part = take (1024 ^ 2 + 1) raw
      in if 1024 ^ 2 < length part then Inl (ValueErr ''source exceeded byte limit'') else loads part)"

record remote =
  rm_free :: nat
  rm_entries :: string
  rm_token :: "string option"
  rm_other_token :: "string option"
  rm_response :: "string \<Rightarrow> string res"
  rm_runtime :: "string \<Rightarrow> string res"
  rm_logs :: "(capture_error + string) option"
  rm_log_text :: "string \<Rightarrow> string"
  rm_log_lines :: "string \<Rightarrow> nat"
  rm_started :: string
  rm_checked :: string
  rm_ended :: string

definition entry_ids :: "pyval \<Rightarrow> pyval list res" where
  "entry_ids config =
     rbind (item_at config ''data'') (\<lambda>d. rbind (item_at d ''entries'') (\<lambda>es. rbind (elements es) (\<lambda>xs.
       rbind (map_res (\<lambda>e. rbind (item_at e ''domain'') (\<lambda>v. Inr (v = PStr ''power_orchestrator'', e))) xs)
         (\<lambda>ys. Inr (map snd (filter fst ys))))))"

definition the_token :: "remote \<Rightarrow> string option" where
  "the_token h = (case rm_token h of Some (c # cs) \<Rightarrow> Some (c # cs)
     | _ \<Rightarrow> (case rm_other_token h of Some (c # cs) \<Rightarrow> Some (c # cs) | _ \<Rightarrow> None))"

definition log_part :: "remote \<Rightarrow> (pydict \<times> pydict) res" where
  "log_part h =
     (case rm_logs h of
        None \<Rightarrow> Inr ([], [(''available'', PBool False), (''gap'', PStr ''log reader unavailable'')])
      | Some (Inl Late) \<Rightarrow> Inl StoreErr
      | Some (Inl _) \<Rightarrow> Inl (ValueErr ''capture reader failed'')
      | Some (Inr logs) \<Rightarrow>
          Inr ([(''core_logs'', PStr (rm_log_text h logs))],
            [(''available'', PBool True), (''returned_lines'', PInt (int (rm_log_lines h logs))),
             (''returned_bytes'', PInt (int (length logs)))]))"

definition remote_capture :: "(string \<Rightarrow> pyval res) \<Rightarrow> remote \<Rightarrow> pydict res" where
  "remote_capture loads h =
     (if rm_free h < 1024 ^ 3 then Inl (ValueErr ''HA free-space gate failed'')
      else rbind (read_limited loads (rm_entries h)) (\<lambda>config.
           rbind (entry_ids config) (\<lambda>found.
           if length found \<noteq> 1 then Inl (ValueErr ''expected one integration entry'')
           else rbind (item_at (hd found) ''entry_id'') (\<lambda>entry.
           if the_token h = None then Inl (ValueErr ''Supervisor credentials unavailable'')
           else if \<not> is_str entry then Inl TypeErr
           else rbind (rm_response h (the_str entry)) (\<lambda>raw.
           rbind (read_limited loads raw) (\<lambda>diagnostics.
           rbind (get_at diagnostics ''integration_manifest'' PNone) (\<lambda>manifest.
           rbind (get_at diagnostics ''data'' (PDict [])) (\<lambda>data.
           rbind (get_at data ''runtime'' PNone) (\<lambda>runtime.
           rbind (rm_runtime h (the_str entry)) (\<lambda>stored.
           rbind (read_limited loads stored) (\<lambda>persisted.
           rbind (get_at persisted ''data'' (PDict [])) (\<lambda>payload.
           rbind (get_at payload ''audit_history'' (PList [])) (\<lambda>rows.
           case rows of
             PList xs \<Rightarrow> rbind (log_part h) (\<lambda>(logs, coverage).
               Inr ([(''checked_at_utc'', PStr (rm_checked h)), (''loaded_manifest'', manifest), (''runtime'', runtime),
                     (''audit_history'', PList (drop (length xs - 100) xs))] @ logs
                 @ [(''capture'', PDict [(''started_at_utc'', PStr (rm_started h)), (''ended_at_utc'', PStr (rm_ended h)),
                      (''logs'', PDict coverage), (''requested_log_lines'', PInt 200),
                      (''received_journal_records'', PInt (int (length xs))), (''journal_limit'', PInt 100),
                      (''continuous'', PBool False), (''complete_history'', PBool False)])]))
           | _ \<Rightarrow> Inl (ValueErr ''journal is malformed''))))))))))))))"

section \<open>The command line\<close>

definition valid_host :: "string \<Rightarrow> bool" where
  "valid_host host \<longleftrightarrow> \<not> (host \<noteq> [] \<and> hd host = CHR ''-'') \<and> \<not> list_ex is_space host"

definition inside :: "string list \<Rightarrow> string list \<Rightarrow> bool" where
  "inside path repo \<longleftrightarrow> take (length repo) path = repo"

text \<open>The local run, from the resolved parts of the directory and of the repository.\<close>

definition capture_main ::
  "string \<Rightarrow> string list \<Rightarrow> string list \<Rightarrow> (capture_error + string) \<Rightarrow> (string \<Rightarrow> string res \<times> capture_dir)
     \<Rightarrow> capture_dir \<Rightarrow> nat \<times> capture_dir" where
  "capture_main host directory repo received save d =
     (if \<not> valid_host host \<or> inside directory repo then (1, d)
      else case received of
        Inl _ \<Rightarrow> (1, d)
      | Inr raw \<Rightarrow> (case save raw of (Inl _, d1) \<Rightarrow> (1, d1) | (Inr _, d1) \<Rightarrow> (0, d1)))"

section \<open>What a capture holds\<close>

text \<open>What was written to standard output up to its end, and how much of the input was taken.\<close>

fun out_until_end :: "pipe_event list \<Rightarrow> string" where
  "out_until_end [] = []"
| "out_until_end (Out_Chunk c # es) = (if c = [] then [] else c @ out_until_end es)"
| "out_until_end (_ # es) = out_until_end es"

fun taken :: "pipe_event list \<Rightarrow> nat" where
  "taken [] = 0"
| "taken (Accepted n # es) = n + taken es"
| "taken (_ # es) = taken es"

lemma taken_append: "taken (es @ fs) = taken es + taken fs"
  by (induction es rule: taken.induct) simp_all

definition reader_ok :: "string \<Rightarrow> nat \<Rightarrow> reader \<Rightarrow> bool" where
  "reader_ok source limit r \<longleftrightarrow> length (rd_output r) \<le> limit \<and> rd_errors r \<le> MAX_STDERR_BYTES
     \<and> rd_offset r \<le> length source \<and> (\<not> rd_writing r \<longrightarrow> rd_offset r = length source)"

lemma new_reader_ok: "reader_ok source limit (new_reader source)"
  by (simp add: reader_ok_def new_reader_def)

lemma pipe_step_ok: "pipe_step source limit e r = Inr r1 \<Longrightarrow> reader_ok source limit r \<Longrightarrow> reader_ok source limit r1"
  by (cases e) (auto simp: reader_ok_def Let_def split: if_splits)

lemma pipe_steps_ok: "pipe_steps source limit es r = Inr r1 \<Longrightarrow> reader_ok source limit r \<Longrightarrow> reader_ok source limit r1"
  by (induction es arbitrary: r) (auto split: sum.splits dest: pipe_step_ok)

lemma read_rounds_ok:
  "read_rounds source limit deadline rounds r = Some (Inr r1) \<Longrightarrow> reader_ok source limit r \<Longrightarrow>
     reader_ok source limit r1 \<and> \<not> registered r1"
  by (induction source limit deadline rounds r rule: read_rounds.induct)
    (auto split: if_splits sum.splits dest: pipe_steps_ok)

text \<open>What a reader will hold once the events are over.\<close>

definition gathers :: "pipe_event list \<Rightarrow> reader \<Rightarrow> string" where
  "gathers es r = rd_output r @ (if rd_out_open r then out_until_end es else [])"

lemma pipe_step_gathers: "pipe_step source limit e r = Inr r1 \<Longrightarrow> gathers (e # es) r = gathers es r1"
  by (cases e) (auto simp: gathers_def Let_def split: if_splits)

lemma pipe_steps_gathers: "pipe_steps source limit es r = Inr r1 \<Longrightarrow> gathers (es @ fs) r = gathers fs r1"
  by (induction es arbitrary: r) (auto split: sum.splits simp: pipe_step_gathers)

lemma pipe_step_offset: "pipe_step source limit e r = Inr r1 \<Longrightarrow> rd_offset r1 \<le> rd_offset r + taken [e]"
  by (cases e) (auto simp: Let_def split: if_splits)

lemma pipe_steps_offset: "pipe_steps source limit es r = Inr r1 \<Longrightarrow> rd_offset r1 \<le> rd_offset r + taken es"
proof (induction es arbitrary: r)
  case (Cons e es)
  then obtain r2 where r2: "pipe_step source limit e r = Inr r2" "pipe_steps source limit es r2 = Inr r1"
    by (auto split: sum.splits)
  show ?case using Cons.IH [OF r2(2)] pipe_step_offset [OF r2(1)] taken_append [of "[e]" es] by simp
qed simp

lemma read_rounds_gathers:
  "read_rounds source limit deadline rounds r = Some (Inr r1) \<Longrightarrow>
     rd_output r1 = gathers (concat (map snd rounds)) r \<and> rd_offset r1 \<le> rd_offset r + taken (concat (map snd rounds))"
proof (induction source limit deadline rounds r rule: read_rounds.induct)
  case (2 source limit deadline clock events rest r)
  show ?case
  proof (cases "registered r")
    case False
    with 2 show ?thesis by (simp add: gathers_def registered_def)
  next
    case True
    with 2(2) obtain r2 where r2: "\<not> deadline - clock \<le> 0" "pipe_steps source limit events r = Inr r2"
      "read_rounds source limit deadline rest r2 = Some (Inr r1)"
      by (auto split: if_splits sum.splits)
    from 2(1) [OF _ r2(1,2,3)] True
    have "rd_output r1 = gathers (concat (map snd rest)) r2" "rd_offset r1 \<le> rd_offset r2 + taken (concat (map snd rest))"
      by auto
    with pipe_steps_gathers [OF r2(2)] pipe_steps_offset [OF r2(2)] show ?thesis by (simp add: taken_append)
  qed
qed (auto simp: gathers_def registered_def split: if_splits)

text \<open>C38. A capture is whole or it is an error. When reading a process returns bytes, the process ended with
  code 0, they are everything it wrote to standard output up to the end of the pipe, within the limit,
  and the whole input had been taken; and once a round starts at or after the deadline, the call is
  over.\<close>

theorem capture_whole_or_error:
  "(\<forall>out. bounded_process source limit deadline rounds waited = Some (Inr out) \<longrightarrow>
      waited = Some 0 \<and> out = out_until_end (concat (map snd rounds)) \<and> length out \<le> limit
        \<and> length source \<le> taken (concat (map snd rounds)))
   \<and> ((\<exists>(clock, es) \<in> set rounds. deadline \<le> clock) \<longrightarrow> bounded_process source limit deadline rounds waited \<noteq> None)"
proof (intro conjI allI impI)
  fix out
  assume "bounded_process source limit deadline rounds waited = Some (Inr out)"
  then obtain r where r: "read_rounds source limit deadline rounds (new_reader source) = Some (Inr r)"
    and w: "waited = Some 0" and out: "out = rd_output r"
    by (auto simp: bounded_process_def split: option.splits sum.splits if_splits)
  from read_rounds_ok [OF r new_reader_ok] have ok: "reader_ok source limit r" "\<not> rd_writing r"
    by (simp_all add: registered_def)
  from read_rounds_gathers [OF r] have got: "rd_output r = out_until_end (concat (map snd rounds))"
    "rd_offset r \<le> taken (concat (map snd rounds))" by (simp_all add: gathers_def new_reader_def)
  show "waited = Some 0" by (rule w)
  show "out = out_until_end (concat (map snd rounds))" using out got(1) by simp
  show "length out \<le> limit" "length source \<le> taken (concat (map snd rounds))"
    using ok got(2) out by (simp_all add: reader_ok_def)
next
  assume late: "\<exists>(clock, es) \<in> set rounds. deadline \<le> clock"
  have "read_rounds source limit deadline rounds r \<noteq> None" for r
    using late
  proof (induction source limit deadline rounds r rule: read_rounds.induct)
    case (2 source limit deadline clock events rest r)
    then show ?case by (auto split: sum.splits)
  qed simp
  then obtain x where "read_rounds source limit deadline rounds (new_reader source) = Some x" by blast
  then show "bounded_process source limit deadline rounds waited \<noteq> None"
    by (cases x) (auto simp: bounded_process_def split: option.splits)
qed

lemma capture_whole_or_error_witness:
  "bounded_process ''in'' 10 45 [(0, [Accepted 2, Out_Chunk ''ab'']), (1, [Out_Chunk ''c'', Err_Chunk ''x'']),
       (2, [Out_Chunk [], Err_Chunk []])] (Some 0) = Some (Inr ''abc'')
   \<and> ''abc'' = out_until_end [Accepted 2, Out_Chunk ''ab'', Out_Chunk ''c'', Err_Chunk ''x'', Out_Chunk [], Err_Chunk []]
   \<and> bounded_process ''in'' 10 45 [(0, []), (46, [])] (Some 0) \<noteq> None"
proof -
  have "bounded_process ''in'' 10 45 [(0, [Accepted 2, Out_Chunk ''ab'']), (1, [Out_Chunk ''c'', Err_Chunk ''x'']),
       (2, [Out_Chunk [], Err_Chunk []])] (Some 0) = Some (Inr ''abc'')"
    by (simp add: bounded_process_def new_reader_def registered_def MAX_STDERR_BYTES_def Let_def)
  moreover have "\<exists>(clock, es) \<in> set [(0, []), (46, [])]. (45 :: rat) \<le> clock" by simp
  ultimately show ?thesis
    using capture_whole_or_error [of "''in''" 10 45 "[(0, [Accepted 2, Out_Chunk ''ab'']), (1, [Out_Chunk ''c'', Err_Chunk ''x'']),
       (2, [Out_Chunk [], Err_Chunk []])]" "Some 0"]
      capture_whole_or_error [of "''in''" 10 45 "[(0, []), (46, [])]" "Some 0"] by simp
qed

section \<open>What is kept\<close>

lemma unlink_all_files:
  "unlink_all fails ns d = (ok, rest) \<Longrightarrow>
     \<exists>gone. set gone \<subseteq> set ns \<and> (ok \<longrightarrow> gone = ns) \<and> cd_files rest = filter (\<lambda>f. cf_name f \<notin> set gone) (cd_files d)"
proof (induction ns arbitrary: d)
  case (Cons n ns)
  show ?case
  proof (cases "fails (Unlink n)")
    case True
    with Cons.prems show ?thesis by (intro exI [of _ "[]"]) auto
  next
    case False
    with Cons.prems obtain gone where "set gone \<subseteq> set ns" "ok \<longrightarrow> gone = ns"
      "cd_files rest = filter (\<lambda>f. cf_name f \<notin> set gone) (cd_files (without n d))"
      using Cons.IH [of "without n d"] by auto
    then show ?thesis by (intro exI [of _ "n # gone"]) (auto simp: without_def intro: filter_cong)
  qed
qed (simp add: exI [of _ "[]"])

lemma expired_previous: "set (expired ps) \<subseteq> set ps" "length ps - length (expired ps) < KEEP_FILES"
  "distinct ps \<Longrightarrow> set ps - set (expired ps) = set (drop (length ps + 1 - KEEP_FILES) ps)"
proof -
  show "set (expired ps) \<subseteq> set ps" by (simp add: expired_def set_take_subset)
  show "length ps - length (expired ps) < KEEP_FILES" by (simp add: expired_def KEEP_FILES_def)
  show "set ps - set (expired ps) = set (drop (length ps + 1 - KEEP_FILES) ps)" if "distinct ps"
  proof -
    let ?n = "length ps + 1 - KEEP_FILES"
    have "set ps = set (take ?n ps) \<union> set (drop ?n ps)" by (metis append_take_drop_id set_append)
    with set_take_disj_set_drop_if_distinct [OF that, of ?n ?n] show ?thesis by (auto simp: expired_def)
  qed
qed

definition others :: "capture_dir \<Rightarrow> capture_file list" where
  "others d = filter (\<lambda>f. \<not> is_capture (cf_name f)) (cd_files d)"

text \<open>Files that are not captures survive the removal of captures.\<close>

lemma others_survive:
  "\<forall>n \<in> N. is_capture n \<Longrightarrow> filter (\<lambda>f. \<not> is_capture (cf_name f)) (filter (\<lambda>f. cf_name f \<notin> N) fs)
     = filter (\<lambda>f. \<not> is_capture (cf_name f)) fs"
  by (induction fs) auto

lemma previous_set: "set (previous_captures d) = {cf_name f | f. f \<in> set (cd_files d) \<and> is_capture (cf_name f)}"
  by (auto simp: previous_captures_def)

lemma rotate_cases:
  assumes run: "write_and_rotate fails uid raw name d = (result, d1)" and name: "is_capture name"
  shows "((\<exists>e. result = Inl e) \<and> set (cd_files d1) \<subseteq> set (cd_files d)
      \<or> result = Inr name \<and> name \<notin> set (map cf_name (cd_files d))
          \<and> cd_files d1 = filter (\<lambda>f. cf_name f \<notin> set (expired (previous_captures d))) (cd_files d) @ [created_file uid raw name])
    \<and> others d1 = others d"
proof -
  let ?created = "d\<lparr>cd_files := cd_files d @ [created_file uid raw name]\<rparr>"
  obtain ok rest where steps: "unlink_all fails (expired (previous_captures d)) ?created = (ok, rest)" by fastforce
  from unlink_all_files [OF this] obtain gone where gone: "set gone \<subseteq> set (expired (previous_captures d))"
    "ok \<longrightarrow> gone = expired (previous_captures d)"
    and rest: "cd_files rest = filter (\<lambda>f. cf_name f \<notin> set gone) (cd_files ?created)" by blast
  have captures: "\<forall>n \<in> set gone. is_capture n" "set gone \<subseteq> set (map cf_name (cd_files d))"
    using order_trans [OF gone(1) expired_previous(1)] by (auto simp: previous_set)
  have kept: "others d2 = others d" if "cd_files d2 = filter (\<lambda>f. cf_name f \<notin> N) (cd_files ?created)" "\<forall>n \<in> N. is_capture n" for d2 N
    unfolding others_def that(1) others_survive [OF that(2)] using name by (simp add: created_file_def)
  consider (same) "d1 = d" "\<exists>e. result = Inl e"
    | (failed) e where "result = Inl e" "d1 = without name ?created" "name \<notin> set (map cf_name (cd_files d))"
    | (cut) e where "result = Inl e" "d1 = without name rest" "name \<notin> set (map cf_name (cd_files d))"
    | (saved) "result = Inr name" "d1 = rest" ok "name \<notin> set (map cf_name (cd_files d))"
    using run steps unfolding write_and_rotate_def Let_def
    by (cases ok) (auto split: if_splits)
  then show ?thesis
  proof cases
    case failed
    have "cd_files d1 = filter (\<lambda>f. cf_name f \<notin> {name}) (cd_files ?created)" using failed by (simp add: without_def)
    with kept [OF this] name failed(1) show ?thesis by (auto simp: created_file_def)
  next
    case cut
    have files: "cd_files d1 = filter (\<lambda>f. cf_name f \<notin> insert name (set gone)) (cd_files ?created)"
      using cut rest by (auto simp: without_def intro: filter_cong)
    with kept [OF files] captures(1) name cut(1) show ?thesis by (auto simp: created_file_def)
  next
    case saved
    with captures(2) have "name \<notin> set gone" by blast
    with saved rest gone(2) have "cd_files d1 = filter (\<lambda>f. cf_name f \<notin> set (expired (previous_captures d))) (cd_files d) @ [created_file uid raw name]"
      by (simp add: created_file_def)
    with kept [of d1 "set gone"] rest saved captures(1) show ?thesis by simp
  qed simp
qed

lemma save_cases:
  assumes "save_capture fails uid free raw parsed name d = (result, d1)"
  shows "d1 = d \<and> (\<exists>e. result = Inl e)
    \<or> write_and_rotate fails uid raw name d = (result, d1) \<and> length raw \<le> MAX_BYTES
        \<and> parsed \<noteq> None \<and> is_dict (the parsed) \<and> (\<forall>f \<in> set (cd_files d). is_capture (cf_name f) \<longrightarrow> trusted_file uid f)"
  using assms unfolding save_capture_def list_ex_iff by (auto split: if_splits)

text \<open>Saving a capture keeps a bounded, private history. A successful save leaves the new capture and
  at most two earlier ones, the last in the order of their names, which were all regular files of
  this user; the new file is within the byte limit. A failed save adds no capture. Files of other
  names are never touched.\<close>

theorem captures_kept_bounded:
  assumes "save_capture fails uid free raw parsed name d = (result, d1)" and "is_capture name"
    and "distinct (map cf_name (cd_files d))"
  shows "(case result of
      Inr n \<Rightarrow> n = name \<and> length raw \<le> MAX_BYTES \<and> parsed \<noteq> None \<and> is_dict (the parsed)
        \<and> set (previous_captures d1) = insert name (set (drop (length (previous_captures d) + 1 - KEEP_FILES) (previous_captures d)))
        \<and> length (previous_captures d1) \<le> KEEP_FILES
        \<and> (\<forall>f \<in> set (cd_files d1). is_capture (cf_name f) \<longrightarrow> trusted_file uid f)
    | Inl _ \<Rightarrow> set (cd_files d1) \<subseteq> set (cd_files d))
    \<and> others d1 = others d"
proof -
  let ?prev = "previous_captures d"
  from save_cases [OF assms(1)] show ?thesis
  proof
    assume "d1 = d \<and> (\<exists>e. result = Inl e)"
    then show ?thesis by auto
  next
    assume run: "write_and_rotate fails uid raw name d = (result, d1) \<and> length raw \<le> MAX_BYTES
        \<and> parsed \<noteq> None \<and> is_dict (the parsed) \<and> (\<forall>f \<in> set (cd_files d). is_capture (cf_name f) \<longrightarrow> trusted_file uid f)"
    note cases = rotate_cases [OF run [THEN conjunct1] assms(2)]
    show ?thesis
    proof (cases result)
      case Inl
      with cases show ?thesis by auto
    next
      case (Inr n)
      with cases have n: "n = name" "name \<notin> set (map cf_name (cd_files d))" and others: "others d1 = others d"
        and files: "cd_files d1 = filter (\<lambda>f. cf_name f \<notin> set (expired ?prev)) (cd_files d) @ [created_file uid raw name]"
        by auto
      have dist: "distinct ?prev" using assms(3) by (simp add: previous_captures_def distinct_filter)
      have "set (previous_captures d1) = insert name (set ?prev - set (expired ?prev))"
      proof -
        have names: "set (previous_captures x) = set (filter is_capture (map cf_name (cd_files x)))" for x
          by (simp add: previous_captures_def)
        have "map cf_name (cd_files d1) = filter (\<lambda>n. n \<notin> set (expired ?prev)) (map cf_name (cd_files d)) @ [name]"
          unfolding files by (simp add: created_file_def filter_map comp_def)
        with assms(2) show ?thesis unfolding names [of d1] by (auto simp: names)
      qed
      then have kept: "set (previous_captures d1) = insert name (set (drop (length ?prev + 1 - KEEP_FILES) ?prev))"
        unfolding expired_previous(3) [OF dist] .
      have "distinct (map cf_name (cd_files d1))"
        unfolding files using assms(3) n(2) by (auto simp: created_file_def distinct_map inj_on_def)
      then have "distinct (previous_captures d1)" by (simp add: previous_captures_def distinct_filter)
      then have "length (previous_captures d1) = card (set (previous_captures d1))" by (simp add: distinct_card)
      also have "\<dots> \<le> Suc (length (drop (length ?prev + 1 - KEEP_FILES) ?prev))"
        unfolding kept using card_length [of "drop (length ?prev + 1 - KEEP_FILES) ?prev"]
        by (simp add: card_insert_if)
      also have "\<dots> \<le> KEEP_FILES" by (simp add: KEEP_FILES_def)
      finally have count: "length (previous_captures d1) \<le> KEEP_FILES" .
      have "\<forall>f \<in> set (cd_files d1). is_capture (cf_name f) \<longrightarrow> trusted_file uid f"
        unfolding files using run by (auto simp: created_file_def trusted_file_def)
      with run Inr n(1) kept count others show ?thesis by simp
    qed
  qed
qed

lemma quiet_unlink: "unlink_all (\<lambda>_. False) ns d = (True, fold without ns d)"
  by (induction ns arbitrary: d) simp_all

text \<open>A directory with three earlier captures and a file of another name.\<close>

definition demo_capture :: "char \<Rightarrow> string" where
  "demo_capture c = ''po-capture-'' @ [c] @ ''.json''"

definition demo_dir :: capture_dir where
  "demo_dir = \<lparr>cd_symlink = False, cd_uid = 1000, cd_files = map (\<lambda>n. created_file 1000 ''{}'' n)
     [demo_capture (CHR ''b''), ''notes'', demo_capture (CHR ''a''), demo_capture (CHR ''c'')]\<rparr>"

lemma captures_kept_bounded_witness:
  "\<exists>d1. save_capture (\<lambda>_. False) 1000 (2 ^ 30) ''{}'' (Some (PDict [])) (demo_capture (CHR ''d'')) demo_dir
       = (Inr (demo_capture (CHR ''d'')), d1)
     \<and> length (previous_captures d1) \<le> KEEP_FILES \<and> map cf_name (others d1) = [''notes'']"
proof -
  let ?run = "save_capture (\<lambda>_. False) 1000 (2 ^ 30) ''{}'' (Some (PDict [])) (demo_capture (CHR ''d'')) demo_dir"
  have name: "is_capture (demo_capture (CHR ''d''))" by (simp add: is_capture_def demo_capture_def)
  have files: "distinct (map cf_name (cd_files demo_dir))" by (simp add: demo_dir_def demo_capture_def created_file_def)
  have "name \<notin> set (map cf_name (cd_files d)) \<Longrightarrow> fst (write_and_rotate (\<lambda>_. False) uid raw name d) = Inr name" for uid raw name d
    by (simp add: write_and_rotate_def quiet_unlink)
  moreover have "demo_capture (CHR ''d'') \<notin> set (map cf_name (cd_files demo_dir))"
    by (simp add: demo_dir_def demo_capture_def created_file_def)
  moreover have "\<not> list_ex (\<lambda>f. is_capture (cf_name f) \<and> \<not> trusted_file 1000 f) (cd_files demo_dir)"
    by (simp add: demo_dir_def created_file_def trusted_file_def)
  ultimately have "fst ?run = Inr (demo_capture (CHR ''d''))"
    by (simp add: save_capture_def MAX_BYTES_def) (simp add: demo_dir_def)
  then obtain d1 where run: "?run = (Inr (demo_capture (CHR ''d'')), d1)" by (cases ?run) simp
  have "map cf_name (others demo_dir) = [''notes'']"
    by (simp add: others_def demo_dir_def created_file_def is_capture_def demo_capture_def)
  with captures_kept_bounded [OF run name files] run show ?thesis by simp
qed

end
