(* ===== verification/Spec2Isabelle.thy ===== *)
theory Spec2Isabelle
  imports Device_Config Coordinator_Outcomes Config_Flow Entry_Services Entry_Setup Grid_Incident Report_Events
    Runtime_Evidence Release_Archive Runtime_Capture
begin

text \<open>
  Power Orchestrator is a Home Assistant integration that keeps a household under its power limits:
  it reads the aggregate load, switches loads off when a limit is exceeded for long enough, and
  switches them on again when there has been room for a safe minute; it stops optional loads when
  the grid is lost, and it does nothing at all when it cannot trust what it reads or what it stored.
  Everything below \<open>src/custom_components/power_orchestrator\<close> that decides this is modelled here.

  Parts and theories.
  \<^item> \<open>Prelude\<close>: the Python values and standard functions the code uses (floats with infinities and
    NaN, \<open>float(str)\<close>, dicts as association lists in insertion order, exceptions as a datatype).
    \<open>Act\<close>: coroutines as state transformers with exceptions, and the locale \<open>action_relation\<close>, which
    carries a relation between worlds through every composition of actions.
  \<^item> \<open>Policy\<close>, \<open>Policy_Engine\<close> (\<open>policy.py\<close>): threshold tiers and their construction from configuration;
    the engine's dwell timers, restore window and post-action barriers (locale \<open>report_barrier\<close>).
  \<^item> \<open>Device_Config\<close> (\<open>device_configuration.py\<close>), \<open>Power_Model\<close> (\<open>power_model.py\<close>), \<open>States\<close> (\<open>states.py\<close>),
    \<open>Telemetry\<close> (\<open>telemetry.py\<close>), \<open>Selection\<close> (\<open>selection.py\<close>), \<open>Fault_Registry\<close> (\<open>fault_registry.py\<close>):
    loads, their entities and states, the load reading and the safety source, candidates, latches.
  \<^item> \<open>Json_Text\<close>, \<open>Intent_Binding\<close> (\<open>intent_binding.py\<close>), \<open>Requests\<close> (\<open>requests.py\<close>): restore intents of
    external owners, restore tickets, their persisted forms (locale \<open>codec\<close>) and the registry.
  \<^item> \<open>Audit_Journal\<close> (\<open>journal.py\<close> and the journal of \<open>storage.py\<close>), \<open>Storage\<close> (\<open>storage.py\<close>): the durable
    payload of one config entry, as the dict the store holds.
  \<^item> \<open>Actuator\<close> (\<open>actuator.py\<close>), \<open>Readback\<close> (\<open>readback.py\<close>, locale \<open>event_loop\<close>), \<open>Restore_Transactions\<close>
    (\<open>restore_transactions.py\<close>, locale \<open>durable_protocol\<close>): commands, their causal confirmation, and the
    two-phase protocol every physical transition runs through.
  \<^item> \<open>Coordinator_State\<close>, \<open>Coordinator_Journal\<close>, \<open>Coordinator_Commands\<close>, \<open>Coordinator_Lanes\<close>,
    \<open>Coordinator_Services\<close> (\<open>coordinator.py\<close>, \<open>report_events.py\<close>): the controller. The record \<open>ctl\<close> has a
    field per attribute of \<open>PowerOrchestratorCoordinator\<close> (prefix c), per constructor argument (prefix
    k) and per part of the world it reads (prefix w); \<open>coord\<close> adds the log of the commands issued to
    devices, each with the state at its dispatch. The lanes are the evaluation cycle in the order of
    \<open>_evaluate\<close>; the services are what Home Assistant calls.
  \<^item> \<open>Runtime_Recovery\<close> (\<open>runtime_recovery.py\<close>): the readers of the durable state and the mode.
  \<^item> \<open>Report_Events\<close> (\<open>report_events.py\<close>): the listeners that hand reports to the controller.
    \<open>Grid_Incident\<close>: how the controller remembers a grid loss it has handled.
  \<^item> \<open>Flow_Thresholds\<close> (\<open>flow_thresholds.py\<close>, \<open>flow_helpers.py\<close>), \<open>Flow_Options\<close> and \<open>Config_Flow\<close>
    (\<open>config_flow.py\<close>): the submissions of the forms, the discovery of entities, and the wizard, the
    reconfiguration and the options flow, each a function from its state and a submission to the next
    form, an entry, an update or an abort.
  \<^item> \<open>Migration\<close>, \<open>Entry_Setup\<close>, \<open>Entry_Lifecycle\<close>, \<open>Repair_Issues\<close>, \<open>Entry_Services\<close> (\<open>__init__.py\<close>):
    the migration of stored entries, the controller a stored entry becomes and how it is started,
    setups and unloads as a step relation (\<open>entry_step\<close>) in which concurrent ones interleave at their
    awaits, the synchronization of repair issues, and the eight services.
  \<^item> \<open>Entities\<close> (\<open>sensor.py\<close>, \<open>binary_sensor.py\<close>, \<open>select.py\<close>, \<open>diagnostics.py\<close>): what is shown of the
    controller and of the data it publishes.
  \<^item> \<open>Runtime_Evidence\<close>, \<open>Release_Archive\<close>, \<open>Runtime_Capture\<close> (\<open>scripts/runtime_evidence.py\<close>,
    \<open>scripts/build_release_zip.py\<close>, \<open>scripts/capture_runtime.py\<close>): the readiness verdict and the incident
    export, the release archive, and the bounded capture of a running system.

  What is shown. \<open>Coordinator_Frames\<close> defines the runs of the controller (\<open>run_requests\<close>), of any length
  over requests, reports, failures, cancellations and shutdowns, and \<open>Coordinator_Course\<close> the relation
  that every step of them keeps. \<open>Command_Safety\<close> proves of single commands and \<open>Coordinator_Safety\<close> of
  runs that no command leaves without its justification, which names the configured load commanded
  and the record of the action in execution (\<open>current_record\<close>); \<open>Coordinator_Invariants\<close> that the state
  stays well formed, that the configuration is constant and that a shutdown is final; \<open>Coordinator_Modes\<close> the contracts of a mode
  change and of the recovery; \<open>Coordinator_Outcomes\<close> what single operations achieve. \<open>Report_Events\<close>
  shows that the listeners deliver what the runs let happen between two steps, \<open>Entry_Services\<close> that
  a service call is at most one request of a run, \<open>Entry_Setup\<close> that a valid stored entry comes into force
  as it is and that one without thresholds never acts, \<open>Config_Flow\<close> that the flows store only such
  valid entries, and \<open>Migration\<close> that migration loses none of it. \<open>Entry_Lifecycle\<close> proves an invariant of
  every interleaving of setups and unloads. \<open>Entities\<close> and \<open>Runtime_Evidence\<close> follow a fact from the
  controller through its projection and the diagnostics to the readiness verdict. The other theories
  hold the contracts of their components: exact characterisations (candidates, permissions,
  readings), histories (the engine triggers exactly on a sustained overload, a barrier falls exactly on
  a newer report), round trips through the persisted forms, and bounds.

  How the world is modelled. Time passes, entity states change and other tasks run only while the
  code awaits: \<open>w_script\<close> says for every await which ticks of the clocks (the wall clock may jump, the
  monotonic clock may not), reports of entities and shutdowns happen meanwhile, and whether the await
  returns, fails or is cancelled. The theorems about runs quantify over all scripts. The evaluation
  lock makes the operations exclude each other; a refresh that a report schedules is one more request
  after the current one. Saves that another task starts outside the lock are not interleaved.
  The store's \<open>async_save\<close> either writes the payload it was given or raises, and a write that fails or
  is cancelled leaves the disk as it was; this is assumed of Home Assistant's \<open>Store\<close> (a cancelled
  await need not stop a write already under way, which is not modelled).

  Parameters and conventions. The digest, the uuids and the translations are functions of the platform
  record. Floats of telemetry are exact rationals once they are known to be finite. The two sample
  deques are one list of pairs. A ticket is never replaced by an equal one, so the identity test on
  tickets is equality. Dicts that are only looked up are maps. Texts are lists of bytes, the em dash
  being the bytes of its UTF-8 encoding. \<open>except Exception\<close> lets cancellations pass. The lock file of the captures is
  not listed in their directory. Fuel occurs twice:
  the polls of a readback (\<open>wait_fuel\<close>: the time-out divided by the poll interval, rounded up, plus two,
  since each sleep advances the clock by its delay) and the nesting of a JSON text (its length plus
  one); both are proved to be enough.

  The flows, the setup and the scripts have parameters of their own: the states and registries of Home
  Assistant and the energy preferences, friendly names, a generated id, the digest of issue ids, the
  parser of datetimes, the redaction of diagnostics, ISO timestamps, and the results of system calls.
  Values the setup hands to the controller are read at the types its constructor declares.

  Not modelled: the voluptuous schemas (a submission is any dictionary), the texts shown with forms and
  repair issues, names, units and device records of entities, the subscription of listeners and the
  forwarding to platforms as calls of Home Assistant, \<open>scripts/local_checks.py\<close> and \<open>scripts/preflight.py\<close>
  (they run external tools and report their exit codes), and the command line of the release script.
  \<open>_manual_override_notified\<close> is written and never read, and has no field.
\<close>

end
